(* ===== verification/Py_Prelude.thy ===== *)
theory Py_Prelude
  imports Main "HOL-Library.Word" "HOL-Library.Sublist" "HOL-Library.Code_Target_Numeral"
begin

text \<open>
  What every component shares: Python exceptions as values of a sum type, the loops
  \<open>for x in xs\<close> over a state that may raise, the rules that say which exceptions such code
  can raise and which invariants it keeps, Python's slices, and the ASCII tests of \<open>str\<close> and
  \<open>bytes\<close>. The collection \<open>raises_intros\<close> holds the rules a proof about exceptions applies.
\<close>

section \<open>Exceptions\<close>

text \<open>
  One constructor for each exception class the modelled modules raise or catch. The classes of the
  modules themselves come first, the built-in ones after them.
\<close>

datatype exn_class =
    MachoError | ElfError | RequestError | BuildNumberError | PipelineError | CleanupError
  | SymbolError | ProbeError | DiagnosticError | InventoryError | LinuxInventoryError
  | StructError | IndexError | KeyError | TypeError | ValueError | OSError
  | SubprocessError | UnicodeError | AttributeError | RecursionError | OverflowError
  | ContractError | PrefabError | BuildError | ZipError | HttpException | PreflightError | CheckoutError
  | ReleaseError | PreparationError | ApkArchiveError | ResourceConfigurationUncertain | RuntimeError | JSONDecodeError
  | PackageError (package_exit: "int option")
  | UploadError (upload_phase: string) (upload_exit: "int option") (upload_status: "int option") (upload_retry: int)
  | SafeError (fault_status: "int option") (fault_scope: "string option")

datatype exn = Exn (exn_class_of: exn_class) (exn_message: string)

abbreviation raise :: "exn_class \<Rightarrow> string \<Rightarrow> exn + 'a" where
  "raise c m \<equiv> Inl (Exn c m)"

text \<open>Sequencing: the rest of a block runs only when the statement before it did not raise.\<close>

definition rbind :: "exn + 'a \<Rightarrow> ('a \<Rightarrow> exn + 'b) \<Rightarrow> exn + 'b" where
  "rbind m f = (case m of Inl e \<Rightarrow> Inl e | Inr x \<Rightarrow> f x)"

lemma rbind_simps [simp]:
  "rbind (Inl e) f = Inl e"
  "rbind (Inr x) f = f x"
  by (simp_all add: rbind_def)

lemma rbind_eq_Inr [simp]:
  "rbind m f = Inr y \<longleftrightarrow> (\<exists>x. m = Inr x \<and> f x = Inr y)"
  by (cases m) simp_all

lemma rbind_eq_Inl:
  "rbind m f = Inl e \<longleftrightarrow> m = Inl e \<or> (\<exists>x. m = Inr x \<and> f x = Inl e)"
  by (cases m) simp_all

lemma rbind_cong [fundef_cong]:
  "m = m' \<Longrightarrow> (\<And>x. m' = Inr x \<Longrightarrow> f x = g x) \<Longrightarrow> rbind m f = rbind m' g"
  by (cases m') simp_all

text \<open>A guard of the source that raises when its condition holds.\<close>

lemma guard_eq_Inr [simp]:
  "(if c then Inl e else m) = Inr y \<longleftrightarrow> \<not> c \<and> m = Inr y"
  by simp

section \<open>Loops over lists\<close>

text \<open>\<open>for x in xs: s = f(s, x)\<close>, leaving at the first exception.\<close>

primrec foldE :: "('s \<Rightarrow> 'a \<Rightarrow> exn + 's) \<Rightarrow> 's \<Rightarrow> 'a list \<Rightarrow> exn + 's" where
  "foldE f s [] = Inr s"
| "foldE f s (x # xs) = rbind (f s x) (\<lambda>s'. foldE f s' xs)"

text \<open>\<open>[f(x) for x in xs]\<close>, leaving at the first exception.\<close>

primrec traverse :: "('a \<Rightarrow> exn + 'b) \<Rightarrow> 'a list \<Rightarrow> exn + 'b list" where
  "traverse f [] = Inr []"
| "traverse f (x # xs) = rbind (f x) (\<lambda>y. rbind (traverse f xs) (\<lambda>ys. Inr (y # ys)))"

text \<open>\<open>any(f(x) for x in xs)\<close>: the generator stops at the first true value.\<close>

primrec anyE :: "('a \<Rightarrow> exn + bool) \<Rightarrow> 'a list \<Rightarrow> exn + bool" where
  "anyE f [] = Inr False"
| "anyE f (x # xs) = rbind (f x) (\<lambda>b. if b then Inr True else anyE f xs)"

lemma foldE_append:
  "foldE f s (xs @ ys) = rbind (foldE f s xs) (\<lambda>s'. foldE f s' ys)"
proof (induction xs arbitrary: s)
  case (Cons x xs)
  then show ?case by (cases "f s x") simp_all
qed simp

text \<open>The invariant rule: what every iteration keeps holds after the loop.\<close>

lemma foldE_invariant:
  assumes "foldE f s xs = Inr t" and "P s"
    and "\<And>s x t. x \<in> set xs \<Longrightarrow> P s \<Longrightarrow> f s x = Inr t \<Longrightarrow> P t"
  shows "P t"
  using assms
proof (induction xs arbitrary: s)
  case (Cons x xs)
  from Cons.prems(1) obtain s' where "f s x = Inr s'" and "foldE f s' xs = Inr t"
    by auto
  with Cons.prems Cons.IH [of s'] show ?case by auto
qed simp

text \<open>The same rule when the invariant counts the iterations done.\<close>

lemma foldE_indexed:
  assumes "foldE f s xs = Inr t" and "P [] s"
    and "\<And>ys s x t. prefix (ys @ [x]) xs \<Longrightarrow> P ys s \<Longrightarrow> f s x = Inr t \<Longrightarrow> P (ys @ [x]) t"
  shows "P xs t"
  using assms
proof (induction xs arbitrary: t rule: rev_induct)
  case (snoc x xs)
  from snoc.prems(1) obtain u where u: "foldE f s xs = Inr u" "f u x = Inr t"
    by (auto simp: foldE_append)
  have "P xs u"
  proof (rule snoc.IH [OF u(1) snoc.prems(2)])
    fix ys s x' t assume "prefix (ys @ [x']) xs" "P ys s" "f s x' = Inr t"
    then show "P (ys @ [x']) t" using snoc.prems(3) by (meson prefix_prefix)
  qed
  with snoc.prems(3) u(2) show ?case by blast
qed simp

lemma traverse_length: "traverse f xs = Inr ys \<Longrightarrow> length ys = length xs"
  by (induction xs arbitrary: ys) auto

lemma traverse_nth:
  "traverse f xs = Inr ys \<Longrightarrow> i < length xs \<Longrightarrow> f (xs ! i) = Inr (ys ! i)"
proof (induction xs arbitrary: ys i)
  case (Cons x xs)
  then show ?case by (cases i) auto
qed simp

lemma traverse_set: "traverse f xs = Inr ys \<Longrightarrow> y \<in> set ys \<Longrightarrow> \<exists>x\<in>set xs. f x = Inr y"
  by (induction xs arbitrary: ys) auto

lemma traverse_total: "(\<And>x. x \<in> set xs \<Longrightarrow> \<exists>y. f x = Inr y) \<Longrightarrow> \<exists>ys. traverse f xs = Inr ys"
proof (induction xs)
  case (Cons x xs)
  obtain y where "f x = Inr y" using Cons.prems [of x] by auto
  moreover obtain ys where "traverse f xs = Inr ys" using Cons by auto
  ultimately show ?case by auto
qed simp

section \<open>Which exceptions a computation can raise\<close>

named_theorems raises_intros

definition raises_only :: "exn_class set \<Rightarrow> exn + 'a \<Rightarrow> bool" where
  "raises_only C m \<longleftrightarrow> (case m of Inl e \<Rightarrow> exn_class_of e \<in> C | Inr _ \<Rightarrow> True)"

lemma raises_only_Inr [raises_intros, simp]: "raises_only C (Inr x)"
  by (simp add: raises_only_def)

lemma raises_only_raise [simp]: "raises_only C (raise c m) \<longleftrightarrow> c \<in> C"
  by (simp add: raises_only_def)

lemma raises_only_raiseI [raises_intros]: "c \<in> C \<Longrightarrow> raises_only C (raise c m)"
  by simp

lemma raises_only_rbind [raises_intros]:
  "raises_only C m \<Longrightarrow> (\<And>x. m = Inr x \<Longrightarrow> raises_only C (f x)) \<Longrightarrow> raises_only C (rbind m f)"
  by (cases m) (simp_all add: raises_only_def)

lemma raises_only_if [raises_intros]:
  "(c \<Longrightarrow> raises_only C m) \<Longrightarrow> (\<not> c \<Longrightarrow> raises_only C n) \<Longrightarrow> raises_only C (if c then m else n)"
  by simp

lemma raises_only_ok: "m = Inr x \<Longrightarrow> raises_only C m"
  by simp

lemma raises_only_ex: "\<exists>x. m = Inr x \<Longrightarrow> raises_only C m"
  by auto

lemma raises_only_mono: "raises_only C m \<Longrightarrow> C \<subseteq> D \<Longrightarrow> raises_only D m"
  by (auto simp: raises_only_def split: sum.splits)

lemma raises_only_foldE:
  assumes "P s"
    and "\<And>s x t. x \<in> set xs \<Longrightarrow> P s \<Longrightarrow> f s x = Inr t \<Longrightarrow> P t"
    and "\<And>s x. x \<in> set xs \<Longrightarrow> P s \<Longrightarrow> raises_only C (f s x)"
  shows "raises_only C (foldE f s xs)"
  using assms
proof (induction xs arbitrary: s)
  case (Cons x xs)
  show ?case
  proof (simp, rule raises_only_rbind)
    show "raises_only C (f s x)" using Cons.prems by auto
  next
    fix t assume "f s x = Inr t"
    with Cons.prems Cons.IH [of t] show "raises_only C (foldE f t xs)" by auto
  qed
qed simp

lemma raises_only_traverse:
  "(\<And>x. x \<in> set xs \<Longrightarrow> raises_only C (f x)) \<Longrightarrow> raises_only C (traverse f xs)"
proof (induction xs)
  case (Cons x xs)
  then show ?case
    by (simp, intro raises_only_rbind) auto
qed simp

lemma raises_only_anyE:
  "(\<And>x. x \<in> set xs \<Longrightarrow> raises_only C (f x)) \<Longrightarrow> raises_only C (anyE f xs)"
proof (induction xs)
  case (Cons x xs)
  then show ?case
    by (simp, intro raises_only_rbind raises_only_if) auto
qed simp

section \<open>Bytes and slices\<close>

type_synonym byte = "8 word"
type_synonym bytes = "byte list"

text \<open>\<open>data[a:b]\<close> for non-negative bounds: Python clamps both ends.\<close>

definition slice :: "'a list \<Rightarrow> nat \<Rightarrow> nat \<Rightarrow> 'a list" where
  "slice data a b = take (b - a) (drop a data)"

lemma length_slice [simp]: "length (slice data a b) = min (b - a) (length data - a)"
  by (simp add: slice_def)

lemma slice_nth: "i < length (slice data a b) \<Longrightarrow> slice data a b ! i = data ! (a + i)"
  by (simp add: slice_def less_diff_conv nth_drop)

lemma slice_full: "slice data 0 (length data) = data"
  by (simp add: slice_def)

text \<open>\<open>data[i]\<close> for a non-negative index.\<close>

definition item_at :: "'a list \<Rightarrow> nat \<Rightarrow> exn + 'a" where
  "item_at data i = (if i < length data then Inr (data ! i) else raise IndexError ''index out of range'')"

lemma item_at_ok [simp]: "i < length data \<Longrightarrow> item_at data i = Inr (data ! i)"
  by (simp add: item_at_def)

lemma raises_only_item_at [raises_intros]: "i < length data \<Longrightarrow> raises_only C (item_at data i)"
  by simp

text \<open>A bytes literal of the source, written as its ASCII text.\<close>

definition ascii :: "string \<Rightarrow> bytes" where
  "ascii s = map of_char s"

text \<open>\<open>b.decode("ascii")\<close> of bytes known to be ASCII.\<close>

definition bytes_text :: "bytes \<Rightarrow> string" where
  "bytes_text bs = map (\<lambda>b. char_of (unat b)) bs"

text \<open>\<open>b.rstrip(chars)\<close>, \<open>b.strip()\<close>, \<open>b.isdigit()\<close>, \<open>int(b)\<close> and \<open>b.find(sub, i)\<close>.\<close>

definition rstrip_with :: "'a list \<Rightarrow> 'a list \<Rightarrow> 'a list" where
  "rstrip_with cs s = rev (dropWhile (\<lambda>x. x \<in> set cs) (rev s))"

definition strip_with :: "'a list \<Rightarrow> 'a list \<Rightarrow> 'a list" where
  "strip_with cs s = rstrip_with cs (dropWhile (\<lambda>x. x \<in> set cs) s)"

definition bytes_space :: bytes where
  "bytes_space = [32, 9, 10, 13, 11, 12]"

definition bytes_isdigit :: "bytes \<Rightarrow> bool" where
  "bytes_isdigit s \<longleftrightarrow> s \<noteq> [] \<and> (\<forall>b\<in>set s. 48 \<le> unat b \<and> unat b \<le> 57)"

definition bytes_int :: "bytes \<Rightarrow> nat" where
  "bytes_int s = foldl (\<lambda>n b. 10 * n + (unat b - 48)) 0 s"

fun find_from :: "'a list \<Rightarrow> 'a list \<Rightarrow> nat \<Rightarrow> nat option" where
  "find_from [] sub i = (if sub = [] then Some i else None)"
| "find_from (x # xs) sub i =
     (if prefix sub (x # xs) then Some i else find_from xs sub (Suc i))"

definition bytes_find :: "'a list \<Rightarrow> 'a list \<Rightarrow> nat \<Rightarrow> nat option" where
  "bytes_find data sub i = (if i \<le> length data then find_from (drop i data) sub i else None)"

lemma find_from_bounds:
  "find_from xs sub i = Some j \<Longrightarrow> i \<le> j \<and> j + length sub \<le> i + length xs"
proof (induction xs sub i rule: find_from.induct)
  case (2 x xs sub i)
  then show ?case by (auto split: if_splits dest: prefix_length_le)
qed (auto split: if_splits)

lemma bytes_find_bounds:
  "bytes_find data sub i = Some j \<Longrightarrow> i \<le> j \<and> j + length sub \<le> length data"
  using find_from_bounds [of "drop i data" sub i j]
  by (auto simp: bytes_find_def split: if_splits)

lemma bytes_find_bounds_None: "bytes_find data sub i = None \<Longrightarrow> i + length sub \<le> length data \<Longrightarrow> \<not> prefix sub (drop i data)"
proof (cases "drop i data")
  case (Cons x xs)
  assume "bytes_find data sub i = None" "i + length sub \<le> length data"
  with Cons show ?thesis by (auto simp: bytes_find_def split: if_splits)
qed (auto simp: bytes_find_def split: if_splits)

section \<open>Hexadecimal text\<close>

definition hex_digit :: "nat \<Rightarrow> char" where
  "hex_digit n = (if n < 10 then char_of (48 + n) else char_of (87 + n))"

definition hex_byte :: "byte \<Rightarrow> string" where
  "hex_byte b = [hex_digit (unat b div 16), hex_digit (unat b mod 16)]"

definition bytes_hex :: "bytes \<Rightarrow> string" where
  "bytes_hex bs = concat (map hex_byte bs)"

lemma length_bytes_hex [simp]: "length (bytes_hex bs) = 2 * length bs"
  by (induction bs) (simp_all add: bytes_hex_def hex_byte_def)

definition is_lower_hex :: "char \<Rightarrow> bool" where
  "is_lower_hex c \<longleftrightarrow> (let n = (of_char c :: nat) in (48 \<le> n \<and> n \<le> 57) \<or> (97 \<le> n \<and> n \<le> 102))"

lemma is_lower_hex_digit: "n < 16 \<Longrightarrow> is_lower_hex (hex_digit n)"
  by (simp add: is_lower_hex_def hex_digit_def Let_def)

lemma unat_byte_bound: "unat (b :: byte) < 256"
  using unsigned_less [of b, where ?'a = nat] by simp

lemma bytes_hex_lower: "c \<in> set (bytes_hex bs) \<Longrightarrow> is_lower_hex c"
proof -
  assume "c \<in> set (bytes_hex bs)"
  then obtain b where "c \<in> set (hex_byte b)"
    by (auto simp: bytes_hex_def)
  moreover have "unat b div 16 < 16" using unat_byte_bound [of b] by simp
  ultimately show ?thesis by (auto simp: hex_byte_def intro: is_lower_hex_digit)
qed

end
