(* ===== verification/Py_Struct.thy ===== *)
theory Py_Struct
  imports Py_Prelude
begin

text \<open>
  Python's \<open>struct\<close> module as the binary parsers use it: fixed-size fields without padding,
  because every format of the source starts with \<open><\<close> or \<open>>\<close>. \<open>unpack_from\<close> raises
  \<open>struct.error\<close> exactly when the buffer is too short. The locale \<open>row_table\<close> is the interface
  between a table of such rows and the parsers that loop over one: a table whose end lies in the
  buffer can be read row by row without an exception.
\<close>

section \<open>Formats\<close>

datatype endian = Little | Big

text \<open>The format characters \<open>H\<close>, \<open>I\<close>, \<open>Q\<close>, \<open>i\<close> and \<open>16s\<close>.\<close>

datatype field = fH | fI | fQ | fi | fBytes nat

datatype sval = VU nat | VS int | VB bytes

primrec field_width :: "field \<Rightarrow> nat" where
  "field_width fH = 2"
| "field_width fI = 4"
| "field_width fQ = 8"
| "field_width fi = 4"
| "field_width (fBytes n) = n"

definition calcsize :: "field list \<Rightarrow> nat" where
  "calcsize fmt = sum_list (map field_width fmt)"

primrec uint_le :: "bytes \<Rightarrow> nat" where
  "uint_le [] = 0"
| "uint_le (b # bs) = unat b + 256 * uint_le bs"

definition uint_of :: "endian \<Rightarrow> bytes \<Rightarrow> nat" where
  "uint_of e bs = (case e of Little \<Rightarrow> uint_le bs | Big \<Rightarrow> uint_le (rev bs))"

text \<open>Two's complement of a four-byte field.\<close>

definition sint32 :: "nat \<Rightarrow> int" where
  "sint32 n = (if n < 2 ^ 31 then int n else int n - 2 ^ 32)"

primrec decode_field :: "endian \<Rightarrow> bytes \<Rightarrow> field \<Rightarrow> sval" where
  "decode_field e bs fH = VU (uint_of e bs)"
| "decode_field e bs fI = VU (uint_of e bs)"
| "decode_field e bs fQ = VU (uint_of e bs)"
| "decode_field e bs fi = VS (sint32 (uint_of e bs))"
| "decode_field e bs (fBytes n) = VB bs"

primrec decode_fields :: "endian \<Rightarrow> field list \<Rightarrow> bytes \<Rightarrow> sval list" where
  "decode_fields e [] bs = []"
| "decode_fields e (f # fmt) bs =
     decode_field e (take (field_width f) bs) f # decode_fields e fmt (drop (field_width f) bs)"

definition unpack_from :: "endian \<Rightarrow> field list \<Rightarrow> bytes \<Rightarrow> nat \<Rightarrow> exn + sval list" where
  "unpack_from e fmt data off =
     (if off + calcsize fmt \<le> length data then Inr (decode_fields e fmt (drop off data))
      else raise StructError ''unpack_from requires a larger buffer'')"

text \<open>Reading a field of an unpacked tuple at the type the format gives it.\<close>

primrec as_nat :: "sval \<Rightarrow> nat" where
  "as_nat (VU n) = n"
| "as_nat (VS i) = nat i"
| "as_nat (VB bs) = 0"

primrec as_int :: "sval \<Rightarrow> int" where
  "as_int (VU n) = int n"
| "as_int (VS i) = i"
| "as_int (VB bs) = 0"

primrec as_bytes :: "sval \<Rightarrow> bytes" where
  "as_bytes (VU n) = []"
| "as_bytes (VS i) = []"
| "as_bytes (VB bs) = bs"

section \<open>Basic facts\<close>

lemma uint_le_bound: "uint_le bs < 256 ^ length bs"
proof (induction bs)
  case (Cons b bs)
  have "unat b + 256 * uint_le bs < 256 + 256 * uint_le bs"
    using unat_byte_bound [of b] by simp
  also have "\<dots> \<le> 256 * 256 ^ length bs"
    using Cons.IH by simp
  finally show ?case by simp
qed simp

lemma uint_of_bound: "uint_of e bs < 256 ^ length bs"
  using uint_le_bound [of bs] uint_le_bound [of "rev bs"]
  by (cases e) (simp_all add: uint_of_def)

lemma length_decode_fields [simp]: "length (decode_fields e fmt bs) = length fmt"
  by (induction fmt arbitrary: bs) simp_all

lemma unpack_from_ok [simp]:
  "off + calcsize fmt \<le> length data \<Longrightarrow>
   unpack_from e fmt data off = Inr (decode_fields e fmt (drop off data))"
  by (simp add: unpack_from_def)

lemma unpack_from_Inr:
  "unpack_from e fmt data off = Inr fs \<longleftrightarrow>
   off + calcsize fmt \<le> length data \<and> fs = decode_fields e fmt (drop off data)"
  by (auto simp: unpack_from_def)

lemma raises_only_unpack [raises_intros]:
  "off + calcsize fmt \<le> length data \<Longrightarrow> raises_only C (unpack_from e fmt data off)"
  by simp

text \<open>A little-endian encoder, the inverse of the decoder on the values that fit the width.\<close>

primrec bytes_le :: "nat \<Rightarrow> nat \<Rightarrow> bytes" where
  "bytes_le 0 n = []"
| "bytes_le (Suc w) n = word_of_nat n # bytes_le w (n div 256)"

lemma length_bytes_le [simp]: "length (bytes_le w n) = w"
  by (induction w arbitrary: n) simp_all

lemma uint_le_bytes_le: "uint_le (bytes_le w n) = n mod 256 ^ w"
proof (induction w arbitrary: n)
  case (Suc w)
  have "unat (word_of_nat n :: byte) = n mod 256"
    by (simp add: unsigned_of_nat take_bit_eq_mod)
  with Suc.IH [of "n div 256"] show ?case
    by (simp add: mod_mult2_eq)
qed simp

lemma uint_of_bytes_le: "n < 256 ^ w \<Longrightarrow> uint_of Little (bytes_le w n) = n"
  by (simp add: uint_of_def uint_le_bytes_le)

section \<open>Tables of fixed-size rows\<close>

lemma table_entry_end:
  fixes i :: nat
  assumes "i < count" and "base + stride * count \<le> n" and "w \<le> stride"
  shows "base + i * stride + w \<le> n"
proof -
  have "i * stride + stride \<le> stride * count"
    using mult_le_mono2 [of "Suc i" count stride] assms(1) by (simp add: mult.commute)
  with assms(2,3) show ?thesis by linarith
qed

text \<open>
  The contract a row reader gives to a loop over a table: reading row \<open>off\<close> succeeds when
  \<open>size\<close> bytes are there. Rows may be further apart than their size (\<open>stride\<close>), as ELF
  section headers are.
\<close>

locale row_table =
  fixes row :: "bytes \<Rightarrow> nat \<Rightarrow> exn + 'r"
    and size :: nat
  assumes row_ok: "off + size \<le> length data \<Longrightarrow> \<exists>r. row data off = Inr r"
begin

lemma entry_ok:
  assumes "i < count" and "base + stride * count \<le> length data" and "size \<le> stride"
  shows "\<exists>r. row data (base + i * stride) = Inr r"
  using table_entry_end [OF assms] by (rule row_ok)

lemma entry_raises:
  assumes "i < count" and "base + stride * count \<le> length data" and "size \<le> stride"
  shows "raises_only C (row data (base + i * stride))"
  using entry_ok [OF assms] by (rule raises_only_ex)

lemma rows_ok:
  assumes "base + stride * count \<le> length data" and "size \<le> stride"
  shows "\<exists>rs. traverse (\<lambda>i. row data (base + i * stride)) [0..<count] = Inr rs \<and> length rs = count"
proof -
  have "\<exists>rs. traverse (\<lambda>i. row data (base + i * stride)) [0..<count] = Inr rs"
    using entry_ok [OF _ assms] by (intro traverse_total) simp
  then show ?thesis using traverse_length by fastforce
qed

end

text \<open>Every format read by \<open>unpack_from\<close> meets the contract with its own size.\<close>

interpretation packed: row_table "unpack_from e fmt" "calcsize fmt" for e fmt
  by unfold_locales simp

end
