(* ===== verification/Mach_O.thy ===== *)
theory Mach_O
  imports Py_Struct
begin

unbundle bit_operations_syntax

text \<open>
  \<open>tool/sentry_macho.py\<close>: the offline Mach-O inventory. A file is its bytes; \<open>mmap\<close> reads are
  reads of that list. \<open>fat_entries\<close> reads a universal header, \<open>thin\<close> one image,
  \<open>archive_architectures\<close> a static archive, \<open>inspect_macho\<close> and
  \<open>static_archive_architectures\<close> are the entry points. The lemmas show that hostile input can
  raise nothing but \<open>MachoError\<close> (no \<open>struct.error\<close>, no \<open>IndexError\<close>), and what a
  successful parse guarantees about bounds, overlap and agreement of the parts.
\<close>

section \<open>Magic numbers\<close>

definition THIN :: "(bytes \<times> endian \<times> bool) list" where
  "THIN = [([0xce, 0xfa, 0xed, 0xfe], (Little, False)), ([0xcf, 0xfa, 0xed, 0xfe], (Little, True)),
           ([0xfe, 0xed, 0xfa, 0xce], (Big, False)), ([0xfe, 0xed, 0xfa, 0xcf], (Big, True))]"

definition FAT :: "(bytes \<times> endian \<times> bool) list" where
  "FAT = [([0xca, 0xfe, 0xba, 0xbe], (Big, False)), ([0xbe, 0xba, 0xfe, 0xca], (Little, False)),
          ([0xca, 0xfe, 0xba, 0xbf], (Big, True)), ([0xbf, 0xba, 0xfe, 0xca], (Little, True))]"

definition ARCHIVE_MAGIC :: bytes where
  "ARCHIVE_MAGIC = ascii ''!<arch>'' @ [10]"

definition is_macho :: "bytes \<Rightarrow> bool" where
  "is_macho data \<longleftrightarrow> take 4 data \<in> set (map fst THIN) \<union> set (map fst FAT)"

section \<open>Universal headers\<close>

type_synonym cpu = "int \<times> int"

definition fat_format :: "bool \<Rightarrow> field list" where
  "fat_format wide = (if wide then [fi, fi, fQ, fQ, fI, fI] else [fi, fi, fI, fI, fI])"

text \<open>The half-open ranges \<open>[offset, offset + size)\<close> and \<open>[begin, stop)\<close> meet.\<close>

definition overlaps :: "nat \<Rightarrow> nat \<Rightarrow> nat \<times> nat \<Rightarrow> bool" where
  "overlaps offset sz r = (offset < snd r \<and> offset + sz > fst r)"

record fat_state =
  fat_result :: "(int \<times> int \<times> nat \<times> nat) list"
  fat_ranges :: "(nat \<times> nat) list"
  fat_cpus :: "cpu list"

definition fat_entry :: "bytes \<Rightarrow> endian \<Rightarrow> bool \<Rightarrow> nat \<Rightarrow> fat_state \<Rightarrow> nat \<Rightarrow> exn + fat_state" where
  "fat_entry data e wide hdr_end st index =
     rbind (unpack_from e (fat_format wide) data (8 + index * calcsize (fat_format wide))) (\<lambda>info.
       let offset = as_nat (info ! 2); size = as_nat (info ! 3); alignment = as_nat (info ! 4);
           cpu = (as_int (info ! 0), as_int (info ! 1) AND 0x00ffffff) in
       if offset < hdr_end \<or> size = 0 \<or> offset + size > length data
          \<or> alignment > 31 \<or> offset mod 2 ^ alignment \<noteq> 0
       then raise MachoError ''Invalid universal Mach-O slice bounds''
       else if list_ex (overlaps offset size) (fat_ranges st)
       then raise MachoError ''Overlapping universal Mach-O slices''
       else if cpu \<in> set (fat_cpus st)
       then raise MachoError ''Duplicate universal Mach-O CPU''
       else Inr (st\<lparr>fat_cpus := cpu # fat_cpus st,
                    fat_ranges := fat_ranges st @ [(offset, offset + size)],
                    fat_result := fat_result st @ [(as_int (info ! 0), as_int (info ! 1), offset, size)]\<rparr>))"

definition fat_entries :: "bytes \<Rightarrow> exn + (int \<times> int \<times> nat \<times> nat) list" where
  "fat_entries data =
     (if length data < 8 then raise MachoError ''Invalid universal Mach-O header''
      else case map_of FAT (take 4 data) of
        None \<Rightarrow> raise MachoError ''Invalid universal Mach-O header''
      | Some (e, wide) \<Rightarrow>
          rbind (unpack_from e [fI] data 4) (\<lambda>f.
            let count = as_nat (f ! 0); hdr_end = 8 + count * calcsize (fat_format wide) in
            if \<not> (0 < count \<and> count \<le> 64) \<or> hdr_end > length data
            then raise MachoError ''Invalid universal Mach-O header''
            else rbind (foldE (fat_entry data e wide hdr_end)
                          \<lparr>fat_result = [], fat_ranges = [], fat_cpus = []\<rparr> [0..<count])
                   (\<lambda>st. Inr (fat_result st))))"

section \<open>One image\<close>

text \<open>
  \<open>decode("ascii", errors="replace")\<close>: code points, U+FFFD for every byte that is not ASCII.
\<close>

definition ascii_replace :: "bytes \<Rightarrow> nat list" where
  "ascii_replace bs = map (\<lambda>b. if unat b < 128 then unat b else 0xfffd) bs"

definition rstrip_nul :: "bytes \<Rightarrow> bytes" where
  "rstrip_nul bs = rstrip_with [0] bs"

text \<open>\<open>str(uuid.UUID(bytes=b))\<close>, which raises \<open>ValueError\<close> unless \<open>b\<close> has sixteen bytes.\<close>

definition uuid_str :: "bytes \<Rightarrow> exn + string" where
  "uuid_str b =
     (if length b \<noteq> 16 then raise ValueError ''bytes is not a 16-char string''
      else Inr (bytes_hex (slice b 0 4) @ ''-'' @ bytes_hex (slice b 4 6) @ ''-'' @ bytes_hex (slice b 6 8)
                @ ''-'' @ bytes_hex (slice b 8 10) @ ''-'' @ bytes_hex (slice b 10 16)))"

record segment =
  seg_name :: "nat list"
  seg_vmaddr :: nat
  seg_vmsize :: nat
  seg_fileoff :: nat
  seg_filesize :: nat

record section_row =
  sec_name :: "nat list"
  sec_segment :: "nat list"
  sec_offset :: nat
  sec_size :: nat
  sec_addr :: nat
  sec_align :: nat
  sec_flags :: nat
  sec_has_contents :: bool

record thin_state =
  th_cursor :: nat
  th_identifiers :: "string list"
  th_debug_sections :: "bytes list"
  th_executable :: bool
  th_oso_symbols :: bool
  th_segments :: "segment list"
  th_sections :: "section_row list"

definition thin_format :: "bool \<Rightarrow> field list" where
  "thin_format wide = (if wide then [fI, fi, fi, fI, fI, fI, fI, fI] else [fI, fi, fi, fI, fI, fI, fI])"

definition segment_format :: "bool \<Rightarrow> field list" where
  "segment_format wide =
     (if wide then [fI, fI, fBytes 16, fQ, fQ, fQ, fQ, fi, fi, fI, fI]
      else [fI, fI, fBytes 16, fI, fI, fI, fI, fi, fi, fI, fI])"

definition section_format :: "bool \<Rightarrow> field list" where
  "section_format wide =
     (if wide then [fBytes 16, fBytes 16, fQ, fQ, fI, fI, fI, fI, fI, fI, fI, fI]
      else [fBytes 16, fBytes 16, fI, fI, fI, fI, fI, fI, fI, fI, fI])"

definition uuid_command :: "bytes \<Rightarrow> nat \<Rightarrow> nat \<Rightarrow> thin_state \<Rightarrow> exn + thin_state" where
  "uuid_command data command width st =
     (if command = 0x1b then
        if width \<noteq> 24 then raise MachoError ''Invalid Mach-O UUID command''
        else rbind (uuid_str (slice data (th_cursor st + 8) (th_cursor st + 24))) (\<lambda>u.
               Inr (st\<lparr>th_identifiers := List.insert u (th_identifiers st)\<rparr>))
      else Inr st)"

definition symtab_command ::
    "bytes \<Rightarrow> endian \<Rightarrow> bool \<Rightarrow> nat \<Rightarrow> nat \<Rightarrow> nat \<Rightarrow> nat \<Rightarrow> thin_state \<Rightarrow> exn + thin_state" where
  "symtab_command data e wide start sz command width st =
     (if command = 2 then
        if width \<noteq> 24 then raise MachoError ''Invalid Mach-O symbol-table command''
        else rbind (unpack_from e [fI, fI, fI, fI] data (th_cursor st + 8)) (\<lambda>f.
          let symbol_offset = as_nat (f ! 0); symbol_count = as_nat (f ! 1);
              string_offset = as_nat (f ! 2); string_size = as_nat (f ! 3);
              stride = (if wide then 16 else 12) in
          if symbol_offset + symbol_count * stride > sz \<or> string_offset + string_size > sz
          then raise MachoError ''Invalid Mach-O symbol-table bounds''
          else rbind (anyE (\<lambda>index. rbind (item_at data (start + symbol_offset + index * stride + 4))
                                       (\<lambda>b. Inr (b = 0x66))) [0..<symbol_count])
                 (\<lambda>oso. Inr (st\<lparr>th_oso_symbols := oso\<rparr>)))
      else Inr st)"

text \<open>The row a section header gives, and what it adds to the sets of the loop.\<close>

definition section_row_of :: "nat \<Rightarrow> nat \<Rightarrow> sval list \<Rightarrow> section_row" where
  "section_row_of start file_size info =
     (let section_size = as_nat (info ! 3); offset = as_nat (info ! 4); flags = as_nat (info ! 8) in
      \<lparr>sec_name = ascii_replace (rstrip_nul (as_bytes (info ! 0))),
       sec_segment = ascii_replace (rstrip_nul (as_bytes (info ! 1))),
       sec_offset = start + offset, sec_size = section_size, sec_addr = as_nat (info ! 2),
       sec_align = as_nat (info ! 5), sec_flags = flags,
       sec_has_contents = (offset \<noteq> 0 \<and> section_size \<noteq> 0 \<and> file_size \<noteq> 0
                           \<and> flags AND 0xff \<notin> {1, 0xc, 0x12})\<rparr>)"

definition add_section :: "bytes \<Rightarrow> bytes \<Rightarrow> section_row \<Rightarrow> thin_state \<Rightarrow> thin_state" where
  "add_section name segment_name s st =
     st\<lparr>th_debug_sections :=
          (if sec_has_contents s \<and> segment_name = ascii ''__DWARF''
           then List.insert name (th_debug_sections st) else th_debug_sections st),
        th_executable :=
          (th_executable st \<or> sec_has_contents s \<and> (name = ascii ''__text'' \<or> sec_flags s AND 0x80000400 \<noteq> 0)),
        th_sections := th_sections st @ [s]\<rparr>"

text \<open>One section header of a segment command, for index \<open>index\<close>.\<close>

definition section_entry ::
    "bytes \<Rightarrow> endian \<Rightarrow> bool \<Rightarrow> nat \<Rightarrow> nat \<Rightarrow> nat \<Rightarrow> nat \<Rightarrow> thin_state \<Rightarrow> nat \<Rightarrow> exn + thin_state" where
  "section_entry data e wide64 start base file_start file_size st index =
     rbind (unpack_from e (section_format wide64) data (base + index * calcsize (section_format wide64))) (\<lambda>info.
       let s = section_row_of start file_size info; offset = as_nat (info ! 4) in
       if sec_has_contents s \<and> (offset < file_start \<or> offset + sec_size s > file_start + file_size)
       then raise MachoError ''Invalid Mach-O section bounds''
       else Inr (add_section (rstrip_nul (as_bytes (info ! 0))) (rstrip_nul (as_bytes (info ! 1))) s st))"

definition segment_command ::
    "bytes \<Rightarrow> endian \<Rightarrow> nat \<Rightarrow> nat \<Rightarrow> nat \<Rightarrow> nat \<Rightarrow> thin_state \<Rightarrow> exn + thin_state" where
  "segment_command data e start sz command width st =
     (if command \<in> {1, 0x19} then
        let wide64 = (command = 0x19); seg_size = calcsize (segment_format wide64);
            sec_size = calcsize (section_format wide64) in
        if width < seg_size then raise MachoError ''Truncated Mach-O segment''
        else rbind (unpack_from e (segment_format wide64) data (th_cursor st)) (\<lambda>values.
          let file_start = as_nat (values ! 5); file_size = as_nat (values ! 6);
              sections = as_nat (values ! 9) in
          if file_start + file_size > sz \<or> seg_size + sections * sec_size > width
          then raise MachoError ''Invalid Mach-O segment bounds''
          else foldE (section_entry data e wide64 start (th_cursor st + seg_size) file_start file_size)
                 (st\<lparr>th_segments := th_segments st @
                       [\<lparr>seg_name = ascii_replace (rstrip_nul (as_bytes (values ! 2))),
                         seg_vmaddr = as_nat (values ! 3), seg_vmsize = as_nat (values ! 4),
                         seg_fileoff = file_start, seg_filesize = file_size\<rparr>]\<rparr>)
                 [0..<sections])
      else Inr st)"

text \<open>One iteration of the load-command loop.\<close>

definition load_command ::
    "bytes \<Rightarrow> endian \<Rightarrow> bool \<Rightarrow> nat \<Rightarrow> nat \<Rightarrow> nat \<Rightarrow> thin_state \<Rightarrow> exn + thin_state" where
  "load_command data e wide start sz stop st =
     (if th_cursor st + 8 > stop then raise MachoError ''Truncated Mach-O load command''
      else rbind (unpack_from e [fI, fI] data (th_cursor st)) (\<lambda>f.
        let command = as_nat (f ! 0); width = as_nat (f ! 1) in
        if width < 8 \<or> th_cursor st + width > stop
        then raise MachoError ''Invalid Mach-O load command bounds''
        else rbind (uuid_command data command width st) (\<lambda>st.
             rbind (symtab_command data e wide start sz command width st) (\<lambda>st.
             rbind (segment_command data e start sz command width st) (\<lambda>st.
             Inr (st\<lparr>th_cursor := th_cursor st + width\<rparr>))))))"

definition architecture_of :: "int \<Rightarrow> string option" where
  "architecture_of cpu =
     map_of [(7, ''i386''), (12, ''arm''), (0x01000007, ''x86_64''), (0x0100000c, ''arm64'')] cpu"

record variant =
  architecture :: string
  uuid :: string
  filetype :: nat
  has_debug_info :: bool
  has_debug_line :: bool
  has_executable_text :: bool
  has_oso_symbols :: bool
  cpu_type :: int
  cpu_subtype :: int
  v_endian :: endian
  v_offset :: nat
  v_size :: nat
  segments :: "segment list"
  sections :: "section_row list"

definition thin_start :: "nat \<Rightarrow> thin_state" where
  "thin_start cursor = \<lparr>th_cursor = cursor, th_identifiers = [], th_debug_sections = [],
     th_executable = False, th_oso_symbols = False, th_segments = [], th_sections = []\<rparr>"

definition supported_filetype :: "nat \<Rightarrow> bool" where
  "supported_filetype n \<longleftrightarrow> n \<in> {1, 2, 6, 8, 10}"

text \<open>The dictionary a successful parse returns.\<close>

definition variant_of ::
    "string \<Rightarrow> sval list \<Rightarrow> endian \<Rightarrow> nat \<Rightarrow> nat \<Rightarrow> thin_state \<Rightarrow> variant" where
  "variant_of arch hdr e start sz st =
     \<lparr>architecture = arch,
      uuid = (case th_identifiers st of [] \<Rightarrow> [] | u # _ \<Rightarrow> u),
      filetype = as_nat (hdr ! 3),
      has_debug_info = list_ex (\<lambda>n. n \<in> set (th_debug_sections st))
                         [ascii ''__debug_info'', ascii ''__zdebug_info''],
      has_debug_line = list_ex (\<lambda>n. n \<in> set (th_debug_sections st))
                         [ascii ''__debug_line'', ascii ''__zdebug_line''],
      has_executable_text = th_executable st, has_oso_symbols = th_oso_symbols st,
      cpu_type = as_int (hdr ! 1), cpu_subtype = as_int (hdr ! 2),
      v_endian = e, v_offset = start, v_size = sz,
      segments = th_segments st, sections = th_sections st\<rparr>"

definition thin :: "bytes \<Rightarrow> nat \<Rightarrow> nat \<Rightarrow> exn + variant" where
  "thin data start sz =
     (case map_of THIN (slice data start (start + 4)) of
        None \<Rightarrow> raise MachoError ''Unsupported Mach-O slice magic''
      | Some (e, wide) \<Rightarrow>
        let header = calcsize (thin_format wide) in
        if sz < header \<or> start + sz > length data
        then raise MachoError ''Invalid Mach-O slice bounds''
        else rbind (unpack_from e (thin_format wide) data start) (\<lambda>hdr.
          case architecture_of (as_int (hdr ! 1)) of
            None \<Rightarrow> raise MachoError ''Unsupported Mach-O architecture or artifact type''
          | Some arch \<Rightarrow>
            if \<not> supported_filetype (as_nat (hdr ! 3))
            then raise MachoError ''Unsupported Mach-O architecture or artifact type''
            else let count = as_nat (hdr ! 4); stop = start + header + as_nat (hdr ! 5) in
              if count > 100000 \<or> stop > start + sz
              then raise MachoError ''Invalid Mach-O load-command table''
              else rbind (foldE (\<lambda>st _. load_command data e wide start sz stop st)
                            (thin_start (start + header)) [0..<count]) (\<lambda>st.
                if th_cursor st \<noteq> stop \<or> length (th_identifiers st) > 1
                then raise MachoError ''Conflicting Mach-O identifiers or command sizes''
                else Inr (variant_of arch hdr e start sz st))))"

section \<open>Static archives\<close>

record archive_state =
  ar_cursor :: nat
  ar_members :: nat
  ar_architectures :: "string list"
  ar_names :: bytes

definition archive_header_bad :: "bytes \<Rightarrow> bool" where
  "archive_header_bad header \<longleftrightarrow>
     slice header 58 60 \<noteq> ascii ''`'' @ [10]
     \<or> \<not> bytes_isdigit (strip_with bytes_space (slice header 48 58))"

definition archive_metadata_bad :: "bytes \<Rightarrow> bool" where
  "archive_metadata_bad header \<longleftrightarrow>
     list_ex (\<lambda>field. strip_with bytes_space field \<noteq> [] \<and> \<not> bytes_isdigit (strip_with bytes_space field))
       [slice header 16 28, slice header 28 34, slice header 34 40]
     \<or> list_ex (\<lambda>v. v \<notin> set (ascii ''01234567 '')) (slice header 40 48)"

text \<open>The member's name, where its payload starts, and the GNU name table afterwards.\<close>

definition archive_member_name ::
    "bytes \<Rightarrow> bytes \<Rightarrow> nat \<Rightarrow> nat \<Rightarrow> nat \<Rightarrow> bytes \<Rightarrow> exn + (bytes \<times> nat \<times> bytes)" where
  "archive_member_name data header payload stop width names =
     (let name = rstrip_with (ascii '' '') (take 16 header) in
      if prefix (ascii ''#1/'') name then
        if \<not> bytes_isdigit (drop 3 name) \<or> bytes_int (drop 3 name) > width
        then raise MachoError ''Invalid BSD archive member name''
        else let len = bytes_int (drop 3 name) in
          Inr (rstrip_with (0 # ascii '' '') (slice data payload (payload + len)), payload + len, names)
      else if name = ascii ''//'' then Inr (name, payload, slice data payload stop)
      else if prefix (ascii ''/'') name \<and> bytes_isdigit (drop 1 name) then
        let index = bytes_int (drop 1 name) in
        if index \<ge> length names then raise MachoError ''Invalid GNU archive member name''
        else (case bytes_find names (ascii ''/'' @ [10]) index of
                None \<Rightarrow> raise MachoError ''Invalid GNU archive member name''
              | Some j \<Rightarrow> Inr (slice names index j, payload, names))
      else Inr (name, payload, names))"

definition archive_special_names :: "bytes list" where
  "archive_special_names = [ascii ''/'', ascii ''//'', ascii ''/SYM64/'', ascii ''__.SYMDEF'',
     ascii ''__.SYMDEF SORTED'', ascii ''__.SYMDEF_64'', ascii ''__.SYMDEF_64 SORTED'']"

definition cpu_key :: "cpu \<Rightarrow> cpu" where
  "cpu_key c = (fst c, snd c AND 0x00ffffff)"

text \<open>\<open>CPU_SUBTYPE_LIB64\<close> is a capability bit, not a different subtype.\<close>

definition archive_label :: "variant \<Rightarrow> string" where
  "archive_label item =
     (if cpu_key (cpu_type item, cpu_subtype item) = (0x0100000c, 2) then ''arm64e'' else architecture item)"

text \<open>An object member: it must parse as a relocatable image of the expected CPU.\<close>

definition archive_object ::
    "bytes \<Rightarrow> cpu option \<Rightarrow> bytes \<Rightarrow> nat \<Rightarrow> nat \<Rightarrow> string list \<Rightarrow> exn + string list" where
  "archive_object data expected name payload stop architectures =
     (if name \<in> set archive_special_names then Inr architectures
      else if name = [] \<or> payload = stop then raise MachoError ''Invalid static archive object member''
      else rbind (thin data payload (stop - payload)) (\<lambda>item.
        if filetype item \<noteq> 1 then raise MachoError ''Static archive member is not a relocatable object''
        else let actual = cpu_key (cpu_type item, cpu_subtype item) in
          if (case expected of None \<Rightarrow> False | Some c \<Rightarrow> actual \<noteq> cpu_key c)
          then raise MachoError ''Universal static archive CPU does not match its member''
          else Inr (List.insert (archive_label item) architectures)))"

definition archive_member :: "bytes \<Rightarrow> nat \<Rightarrow> cpu option \<Rightarrow> archive_state \<Rightarrow> exn + archive_state" where
  "archive_member data stop expected st =
     (let cursor = ar_cursor st; members = ar_members st + 1;
          header = slice data cursor (cursor + 60);
          width = bytes_int (strip_with bytes_space (slice header 48 58));
          payload = cursor + 60; member_end = cursor + 60 + width in
      if members > 100000 \<or> cursor + 60 > stop
      then raise MachoError ''Invalid static archive member table''
      else if archive_header_bad header then raise MachoError ''Invalid static archive member header''
      else if archive_metadata_bad header then raise MachoError ''Invalid static archive member metadata''
      else if member_end > stop then raise MachoError ''Invalid static archive member bounds''
      else rbind (archive_member_name data header payload member_end width (ar_names st))
        (\<lambda>(name, payload, names).
         rbind (archive_object data expected name payload member_end (ar_architectures st))
           (\<lambda>architectures.
            let cursor = member_end + width mod 2 in
            if cursor > stop then raise MachoError ''Invalid static archive padding''
            else Inr \<lparr>ar_cursor = cursor, ar_members = members,
                      ar_architectures = architectures, ar_names = names\<rparr>)))"

lemma archive_member_advances:
  "archive_member data stop expected st = Inr st' \<Longrightarrow> ar_cursor st < ar_cursor st' \<and> ar_cursor st' \<le> stop"
  by (auto simp: archive_member_def Let_def split: prod.splits if_splits)

function archive_loop :: "bytes \<Rightarrow> nat \<Rightarrow> cpu option \<Rightarrow> archive_state \<Rightarrow> exn + archive_state" where
  "archive_loop data stop expected st =
     (if ar_cursor st < stop
      then case archive_member data stop expected st of
             Inl e \<Rightarrow> Inl e
           | Inr st' \<Rightarrow> archive_loop data stop expected st'
      else Inr st)"
  by pat_completeness auto
termination
  by (relation "measure (\<lambda>(data, stop, expected, st). stop - ar_cursor st)")
     (auto dest!: archive_member_advances)

declare archive_loop.simps [simp del]

definition archive_architectures :: "bytes \<Rightarrow> nat \<Rightarrow> nat \<Rightarrow> cpu option \<Rightarrow> exn + string list" where
  "archive_architectures data start sz expected =
     (let stop = start + sz in
      if sz < 8 \<or> stop > length data \<or> slice data start (start + 8) \<noteq> ARCHIVE_MAGIC
      then raise MachoError ''Invalid static archive header''
      else rbind (archive_loop data stop expected
                   \<lparr>ar_cursor = start + 8, ar_members = 0, ar_architectures = [], ar_names = []\<rparr>)
        (\<lambda>st. if ar_architectures st = []
              then raise MachoError ''Static archive contains no validated object members''
              else Inr (ar_architectures st)))"

text \<open>\<open>None\<close> for a file that is not an archive, as in the source.\<close>

definition static_archive_architectures :: "bytes \<Rightarrow> exn + string list option" where
  "static_archive_architectures data =
     (let magic = take 8 data in
      if map_of FAT (take 4 magic) = None \<and> magic \<noteq> ARCHIVE_MAGIC then Inr None
      else if magic = ARCHIVE_MAGIC
      then rbind (archive_architectures data 0 (length data) None) (\<lambda>a. Inr (Some a))
      else rbind (fat_entries data) (\<lambda>entries.
        let archive_members = map (\<lambda>(_, _, offset, _). slice data offset (offset + 8) = ARCHIVE_MAGIC) entries in
        if \<not> list_ex id archive_members then Inr None
        else if \<not> list_all id archive_members
        then raise MachoError ''Mixed archive and Mach-O universal slices''
        else rbind (foldE (\<lambda>acc (cpu, subtype, offset, sz).
                      rbind (archive_architectures data offset sz (Some (cpu, subtype)))
                        (\<lambda>archs. Inr (fold List.insert archs acc))) [] entries)
               (\<lambda>archs. Inr (Some archs))))"

section \<open>Whole files\<close>

record inspect_state =
  in_variants :: "variant list"
  in_ranges :: "(nat \<times> nat) list"

definition inspect_slice ::
    "bytes \<Rightarrow> endian \<Rightarrow> bool \<Rightarrow> nat \<Rightarrow> inspect_state \<Rightarrow> nat \<Rightarrow> exn + inspect_state" where
  "inspect_slice data e wide count st index =
     rbind (unpack_from e (fat_format wide) data (8 + index * calcsize (fat_format wide))) (\<lambda>info.
       let offset = as_nat (info ! 2); sz = as_nat (info ! 3) in
       if offset < 8 + count * calcsize (fat_format wide) \<or> sz = 0 \<or> offset + sz > length data
       then raise MachoError ''Invalid universal Mach-O slice bounds''
       else if list_ex (overlaps offset sz) (in_ranges st)
       then raise MachoError ''Overlapping universal Mach-O slices''
       else rbind (thin data offset sz) (\<lambda>v.
         if cpu_type v \<noteq> as_int (info ! 0) \<or> cpu_subtype v \<noteq> as_int (info ! 1)
         then raise MachoError ''Universal Mach-O CPU metadata does not match its slice''
         else if architecture v \<in> set (map architecture (in_variants st))
         then raise MachoError ''Duplicate universal Mach-O architecture''
         else Inr \<lparr>in_variants = in_variants st @ [v], in_ranges = in_ranges st @ [(offset, offset + sz)]\<rparr>))"

text \<open>The result pairs the variants with \<open>is_fat\<close>.\<close>

definition inspect_macho :: "bytes \<Rightarrow> exn + (variant list \<times> bool)" where
  "inspect_macho data =
     (if length data < 4 then raise MachoError ''Truncated Mach-O header''
      else if map_of THIN (take 4 data) \<noteq> None
      then rbind (thin data 0 (length data)) (\<lambda>v. Inr ([v], False))
      else case map_of FAT (take 4 data) of
        None \<Rightarrow> raise MachoError ''Unsupported Mach-O header''
      | Some (e, wide) \<Rightarrow>
        if length data < 8 then raise MachoError ''Unsupported Mach-O header''
        else rbind (unpack_from e [fI] data 4) (\<lambda>f.
          let count = as_nat (f ! 0) in
          if \<not> (0 < count \<and> count \<le> 64) \<or> 8 + count * calcsize (fat_format wide) > length data
          then raise MachoError ''Invalid universal Mach-O header''
          else rbind (foldE (inspect_slice data e wide count)
                        \<lparr>in_variants = [], in_ranges = []\<rparr> [0..<count])
                 (\<lambda>st. Inr (in_variants st, True))))"

definition read_slices :: "bytes \<Rightarrow> exn + variant list" where
  "read_slices data = rbind (inspect_macho data) (\<lambda>r. Inr (fst r))"

section \<open>Only \<open>MachoError\<close>\<close>

lemma uuid_str_raises: "length b = 16 \<Longrightarrow> raises_only C (uuid_str b)"
  by (simp add: uuid_str_def)

lemma uuid_command_raises:
  "th_cursor st + width \<le> length data \<Longrightarrow> raises_only {MachoError} (uuid_command data command width st)"
  unfolding uuid_command_def by (intro raises_intros uuid_str_raises) simp_all

lemma symtab_command_raises:
  assumes "th_cursor st + width \<le> length data" and "start + sz \<le> length data"
  shows "raises_only {MachoError} (symtab_command data e wide start sz command width st)"
proof -
  have byte: "\<exists>b. item_at data (start + symbol_offset + i * stride + 4) = Inr b"
    if "i < n" "symbol_offset + n * stride \<le> sz" "stride = (if wide then 16 else 12)"
    for symbol_offset i n stride :: nat
  proof -
    have "start + symbol_offset + i * stride + 5 \<le> length data"
      using that assms(2) by (intro table_entry_end [where count = n]) (auto simp: mult.commute)
    then show ?thesis by simp
  qed
  show ?thesis
    unfolding symtab_command_def Let_def
    using assms(1) byte
    by (intro raises_intros raises_only_anyE raises_only_ex [OF byte]) (auto simp: calcsize_def)
qed

lemma section_entry_raises:
  assumes "base + (index + 1) * calcsize (section_format wide) \<le> length data"
  shows "raises_only {MachoError} (section_entry data e wide start base fs fz st index)"
  unfolding section_entry_def Let_def
  using assms by (intro raises_intros) (simp_all add: add.assoc)

lemma segment_command_raises:
  assumes "th_cursor st + width \<le> length data"
  shows "raises_only {MachoError} (segment_command data e start sz command width st)"
proof -
  have row: "raises_only {MachoError}
      (section_entry data e wide start (th_cursor st + calcsize (segment_format wide)) fs fz st' i)"
    if "i < n" "calcsize (segment_format wide) + n * calcsize (section_format wide) \<le> width"
    for i n wide fs fz st'
  proof (rule section_entry_raises)
    have "(i + 1) * calcsize (section_format wide) \<le> n * calcsize (section_format wide)"
      using that(1) by (intro mult_le_mono1) simp
    then show "th_cursor st + calcsize (segment_format wide) + (i + 1) * calcsize (section_format wide) \<le> length data"
      using that(2) assms by linarith
  qed
  show ?thesis
    unfolding segment_command_def Let_def
    using assms
    by (intro raises_intros raises_only_foldE [where P = "\<lambda>_. True"] row) auto
qed

text \<open>The commands other than the cursor update leave the cursor alone.\<close>

lemma uuid_command_cursor:
  "uuid_command data command width st = Inr st' \<Longrightarrow> th_cursor st' = th_cursor st"
  by (auto simp: uuid_command_def split: if_splits)

lemma symtab_command_cursor:
  "symtab_command data e wide start sz command width st = Inr st' \<Longrightarrow> th_cursor st' = th_cursor st"
  by (auto simp: symtab_command_def Let_def split: if_splits)

lemma section_entry_cursor:
  "section_entry data e wide start base fs fz st i = Inr st' \<Longrightarrow> th_cursor st' = th_cursor st"
  by (auto simp: section_entry_def add_section_def Let_def)

lemma segment_command_cursor:
  assumes "segment_command data e start sz command width st = Inr st'"
  shows "th_cursor st' = th_cursor st"
proof -
  have "th_cursor t' = th_cursor st"
    if "foldE (section_entry data e wide start base fs fz) t xs = Inr t'" "th_cursor t = th_cursor st"
    for wide base fs fz t xs t'
    using that by (rule foldE_invariant) (auto dest: section_entry_cursor)
  with assms show ?thesis
    by (fastforce simp: segment_command_def Let_def split: if_splits)
qed

lemmas command_cursor = uuid_command_cursor symtab_command_cursor segment_command_cursor

lemma load_command_raises:
  assumes "stop \<le> start + sz" and "start + sz \<le> length data"
  shows "raises_only {MachoError} (load_command data e wide start sz stop st)"
  unfolding load_command_def Let_def
  using assms
  by (intro raises_intros uuid_command_raises symtab_command_raises segment_command_raises)
     (auto simp: calcsize_def dest!: command_cursor)

theorem thin_raises: "raises_only {MachoError} (thin data start sz)"
proof -
  have loop: "raises_only {MachoError} (foldE (\<lambda>st _. load_command data e wide start sz stop st) st xs)"
    if "stop \<le> start + sz" "start + sz \<le> length data" for e wide stop st and xs :: "nat list"
    using load_command_raises [OF that] by (intro raises_only_foldE [where P = "\<lambda>_. True"]) auto
  show ?thesis
    unfolding thin_def Let_def
    by (auto split: option.split intro!: raises_intros loop)
qed

section \<open>What a parsed image guarantees\<close>

definition is_ascii :: "bytes \<Rightarrow> bool" where
  "is_ascii bs \<longleftrightarrow> (\<forall>b\<in>set bs. unat b < 128)"

lemma ascii_replace_inject:
  assumes "is_ascii b" and "ascii_replace a = ascii_replace b"
  shows "a = b"
proof -
  have "length a = length b"
    using arg_cong [OF assms(2), of length] by (simp add: ascii_replace_def)
  then show ?thesis using assms
  proof (induction a b rule: list_induct2)
    case (Cons x xs y ys)
    have "unat y < 128" "is_ascii ys"
      using Cons.prems by (simp_all add: is_ascii_def)
    moreover have "ascii_replace xs = ascii_replace ys"
      "(if unat x < 128 then unat x else 0xfffd) = (if unat y < 128 then unat y else 0xfffd)"
      using Cons.prems by (simp_all add: ascii_replace_def)
    ultimately have eq: "unat x = unat y" and tl: "xs = ys"
      using Cons.IH by (simp_all split: if_split_asm)
    from eq have "x = y" by (rule unsigned_word_eqI)
    with tl show ?case by simp
  qed simp
qed

text \<open>A section with contents lies in the file range of one of the segments.\<close>

definition section_inside :: "nat \<Rightarrow> segment list \<Rightarrow> section_row \<Rightarrow> bool" where
  "section_inside start segs s \<longleftrightarrow> 0 < sec_size s \<and>
     (\<exists>g\<in>set segs. start + seg_fileoff g \<le> sec_offset s
        \<and> sec_offset s + sec_size s \<le> start + seg_fileoff g + seg_filesize g)"

definition is_code :: "section_row \<Rightarrow> bool" where
  "is_code s \<longleftrightarrow> sec_has_contents s
     \<and> (sec_name s = ascii_replace (ascii ''__text'') \<or> sec_flags s AND 0x80000400 \<noteq> 0)"

definition is_dwarf :: "bytes \<Rightarrow> section_row \<Rightarrow> bool" where
  "is_dwarf name s \<longleftrightarrow> sec_has_contents s
     \<and> sec_segment s = ascii_replace (ascii ''__DWARF'') \<and> sec_name s = ascii_replace name"

definition thin_inv :: "nat \<Rightarrow> nat \<Rightarrow> thin_state \<Rightarrow> bool" where
  "thin_inv start sz st \<longleftrightarrow>
     (\<forall>g\<in>set (th_segments st). seg_fileoff g + seg_filesize g \<le> sz)
     \<and> (\<forall>s\<in>set (th_sections st). sec_has_contents s \<longrightarrow> section_inside start (th_segments st) s)
     \<and> (th_executable st \<longleftrightarrow> (\<exists>s\<in>set (th_sections st). is_code s))
     \<and> (\<forall>n. is_ascii n \<longrightarrow> (n \<in> set (th_debug_sections st) \<longleftrightarrow> (\<exists>s\<in>set (th_sections st). is_dwarf n s)))"

lemma is_ascii_literals [simp]:
  "is_ascii (ascii ''__DWARF'')" "is_ascii (ascii ''__text'')"
  "is_ascii (ascii ''__debug_info'')" "is_ascii (ascii ''__zdebug_info'')"
  "is_ascii (ascii ''__debug_line'')" "is_ascii (ascii ''__zdebug_line'')"
  by (simp_all add: is_ascii_def ascii_def)

lemma thin_inv_start: "thin_inv start sz (thin_start c)"
  by (simp add: thin_inv_def thin_start_def)

lemma section_entry_inv:
  assumes "section_entry data e wide start base fs fz st i = Inr st'"
    and "thin_inv start sz st" and "\<exists>g\<in>set (th_segments st). seg_fileoff g = fs \<and> seg_filesize g = fz"
  shows "thin_inv start sz st' \<and> th_segments st' = th_segments st"
proof -
  obtain info where info: "st' = add_section (rstrip_nul (as_bytes (info ! 0))) (rstrip_nul (as_bytes (info ! 1)))
      (section_row_of start fz info) st"
    and ok: "sec_has_contents (section_row_of start fz info) \<Longrightarrow>
      fs \<le> as_nat (info ! 4) \<and> as_nat (info ! 4) + sec_size (section_row_of start fz info) \<le> fs + fz"
    using assms(1) by (auto simp: section_entry_def Let_def not_less)
  define name where "name = rstrip_nul (as_bytes (info ! 0))"
  define seg where "seg = rstrip_nul (as_bytes (info ! 1))"
  define s where "s = section_row_of start fz info"
  have nm: "sec_name s = ascii_replace name" and sg: "sec_segment s = ascii_replace seg"
    by (simp_all add: s_def name_def seg_def section_row_of_def Let_def)
  have eq: "ascii_replace a = ascii_replace b \<longleftrightarrow> a = b" if "is_ascii b" for a b
    using ascii_replace_inject [OF that] by blast
  have code: "is_code s \<longleftrightarrow> sec_has_contents s \<and> (name = ascii ''__text'' \<or> sec_flags s AND 0x80000400 \<noteq> 0)"
    by (simp add: is_code_def nm eq)
  have dwarf: "is_dwarf n s \<longleftrightarrow> sec_has_contents s \<and> seg = ascii ''__DWARF'' \<and> name = n" if "is_ascii n" for n
    using that by (simp add: is_dwarf_def nm sg eq)
  have "0 < sec_size s \<and> sec_offset s = start + as_nat (info ! 4)" if "sec_has_contents s"
    using that by (simp add: s_def section_row_of_def Let_def)
  then have inside: "section_inside start (th_segments st) s" if "sec_has_contents s"
    using that ok assms(3) unfolding s_def section_inside_def by fastforce
  have st': "st' = add_section name seg s st"
    by (simp add: info name_def seg_def s_def)
  show ?thesis
    using assms(2) inside
    by (auto simp: thin_inv_def st' add_section_def code dwarf)
qed

lemma segment_command_inv:
  assumes "segment_command data e start sz command width st = Inr st'" and "thin_inv start sz st"
  shows "thin_inv start sz st'"
proof -
  have loop: "thin_inv start sz t' \<and> th_segments t' = th_segments t"
    if "foldE (section_entry data e wide start base fs fz) t xs = Inr t'" "thin_inv start sz t"
      "\<exists>g\<in>set (th_segments t). seg_fileoff g = fs \<and> seg_filesize g = fz" for wide base fs fz t xs t'
    using that(1)
    by (rule foldE_invariant [where P = "\<lambda>u. thin_inv start sz u \<and> th_segments u = th_segments t"])
       (use that(2,3) section_entry_inv in \<open>auto, metis+\<close>)
  have grown: "thin_inv start sz (st\<lparr>th_segments := th_segments st @ [g]\<rparr>)"
    if "seg_fileoff g + seg_filesize g \<le> sz" for g
    using assms(2) that by (auto simp: thin_inv_def section_inside_def)
  show ?thesis
    using assms(1,2)
    by (auto simp: segment_command_def Let_def split: if_splits intro!: grown dest!: loop)
qed

lemma load_command_inv:
  assumes "load_command data e wide start sz stop st = Inr st'" and "thin_inv start sz st"
  shows "thin_inv start sz st'"
proof -
  have skip: "thin_inv start sz u'" if "uuid_command data c w u = Inr u'" "thin_inv start sz u" for u u' c w
    using that by (auto simp: uuid_command_def thin_inv_def split: if_splits)
  have oso: "thin_inv start sz u'"
    if "symtab_command data e wide start sz c w u = Inr u'" "thin_inv start sz u" for u u' c w
    using that by (auto simp: symtab_command_def thin_inv_def Let_def split: if_splits)
  have cur: "thin_inv start sz (u\<lparr>th_cursor := c\<rparr>)" if "thin_inv start sz u" for u c
    using that by (simp add: thin_inv_def)
  show ?thesis
    using assms
    by (auto simp: load_command_def Let_def intro!: cur elim!: segment_command_inv oso skip)
qed

definition variant_ok :: "variant \<Rightarrow> bool" where
  "variant_ok v \<longleftrightarrow>
     supported_filetype (filetype v) \<and> architecture_of (cpu_type v) = Some (architecture v)
     \<and> (\<forall>g\<in>set (segments v). seg_fileoff g + seg_filesize g \<le> v_size v)
     \<and> (\<forall>s\<in>set (sections v). sec_has_contents s \<longrightarrow> section_inside (v_offset v) (segments v) s)
     \<and> (has_executable_text v \<longleftrightarrow> (\<exists>s\<in>set (sections v). is_code s))
     \<and> (has_debug_info v \<longleftrightarrow> (\<exists>s\<in>set (sections v).
           is_dwarf (ascii ''__debug_info'') s \<or> is_dwarf (ascii ''__zdebug_info'') s))
     \<and> (has_debug_line v \<longleftrightarrow> (\<exists>s\<in>set (sections v).
           is_dwarf (ascii ''__debug_line'') s \<or> is_dwarf (ascii ''__zdebug_line'') s))"

lemma thin_sound:
  assumes "thin data start sz = Inr v"
  shows "v_offset v = start \<and> v_size v = sz \<and> start + sz \<le> length data \<and> variant_ok v"
proof -
  have loop: "thin_inv start sz st"
    if "foldE (\<lambda>st _. load_command data e wide start sz stop st) (thin_start c) xs = Inr st"
    for e wide stop c st and xs :: "nat list"
    using that by (rule foldE_invariant) (auto intro: thin_inv_start dest: load_command_inv)
  obtain e hdr arch st where st: "thin_inv start sz st" and arch: "architecture_of (as_int (hdr ! 1)) = Some arch"
    and ft: "supported_filetype (as_nat (hdr ! 3))" and len: "start + sz \<le> length data"
    and v: "v = variant_of arch hdr e start sz st"
    using assms by (auto simp: thin_def Let_def not_less dest!: loop split: option.splits if_split_asm)
  have dbg: "(n \<in> set (th_debug_sections st)) = (\<exists>s\<in>set (th_sections st). is_dwarf n s)" if "is_ascii n" for n
    using st that by (simp add: thin_inv_def)
  have "variant_ok v"
    using st arch ft by (auto simp: variant_ok_def v variant_of_def dbg) (auto simp: thin_inv_def)
  with len show ?thesis by (simp add: v variant_of_def)
qed

section \<open>Universal files\<close>

text \<open>No two ranges of the list share a byte.\<close>

definition disjoint_ranges :: "(nat \<times> nat) list \<Rightarrow> bool" where
  "disjoint_ranges rs \<longleftrightarrow> sorted_wrt (\<lambda>r s. snd r \<le> fst s \<or> snd s \<le> fst r) rs"

lemma disjoint_ranges_simps [simp]: "disjoint_ranges []"
  by (simp add: disjoint_ranges_def)

lemma disjoint_ranges_snoc:
  "disjoint_ranges rs \<Longrightarrow> \<not> list_ex (overlaps offset n) rs \<Longrightarrow> disjoint_ranges (rs @ [(offset, offset + n)])"
  by (auto simp: disjoint_ranges_def sorted_wrt_append list_ex_iff overlaps_def not_less)

lemma table_row_raises:
  assumes "8 + count * calcsize fmt \<le> length data" and "i < count"
  shows "raises_only C (unpack_from e fmt data (8 + i * calcsize fmt))"
  using assms by (intro packed.entry_raises [where count = count]) (simp_all add: mult.commute)

lemma fat_loop_raises:
  assumes "8 + count * calcsize (fat_format wide) \<le> length data"
  shows "raises_only {MachoError} (foldE (fat_entry data e wide hdr_end) st [0..<count])"
proof -
  have "raises_only {MachoError} (fat_entry data e wide hdr_end st i)" if "i < count" for st i
    using assms that unfolding fat_entry_def Let_def
    by (intro raises_intros table_row_raises [where count = count]) auto
  then show ?thesis by (intro raises_only_foldE [where P = "\<lambda>_. True"]) auto
qed

lemma fat_entries_raises: "raises_only {MachoError} (fat_entries data)"
  unfolding fat_entries_def Let_def
  by (auto split: option.split intro!: raises_intros fat_loop_raises simp: calcsize_def [of "[fI]"])

text \<open>The CPU key and the byte range of one entry \<open>(cpu, subtype, offset, size)\<close>.\<close>

definition entry_key :: "int \<times> int \<times> nat \<times> nat \<Rightarrow> cpu" where
  "entry_key r = cpu_key (fst r, fst (snd r))"

definition entry_range :: "int \<times> int \<times> nat \<times> nat \<Rightarrow> nat \<times> nat" where
  "entry_range r = (fst (snd (snd r)), fst (snd (snd r)) + snd (snd (snd r)))"

definition entry_in :: "nat \<Rightarrow> nat \<Rightarrow> int \<times> int \<times> nat \<times> nat \<Rightarrow> bool" where
  "entry_in lo hi r \<longleftrightarrow> lo \<le> fst (entry_range r) \<and> fst (entry_range r) < snd (entry_range r) \<and> snd (entry_range r) \<le> hi"

definition fat_inv :: "nat \<Rightarrow> nat \<Rightarrow> fat_state \<Rightarrow> bool" where
  "fat_inv n hdr_end st \<longleftrightarrow>
     fat_ranges st = map entry_range (fat_result st) \<and> disjoint_ranges (fat_ranges st)
     \<and> set (fat_cpus st) = set (map entry_key (fat_result st)) \<and> distinct (map entry_key (fat_result st))
     \<and> list_all (entry_in hdr_end n) (fat_result st)"

lemma fat_entry_inv:
  assumes "fat_entry data e wide hdr_end st i = Inr st'" and "fat_inv (length data) hdr_end st"
  shows "fat_inv (length data) hdr_end st' \<and> length (fat_result st') = Suc (length (fat_result st))"
proof -
  obtain r where r: "st' = st\<lparr>fat_cpus := entry_key r # fat_cpus st, fat_ranges := fat_ranges st @ [entry_range r],
        fat_result := fat_result st @ [r]\<rparr>"
    and ok: "entry_in hdr_end (length data) r" "entry_key r \<notin> set (fat_cpus st)"
    and apart: "\<not> list_ex (overlaps (fst (entry_range r)) (snd (entry_range r) - fst (entry_range r))) (fat_ranges st)"
    using assms(1)
    by (auto simp: fat_entry_def Let_def entry_key_def entry_range_def entry_in_def cpu_key_def not_less)
  have "disjoint_ranges (fat_ranges st @ [entry_range r])"
    using disjoint_ranges_snoc [OF _ apart] assms(2) ok(1)
    by (auto simp: fat_inv_def entry_in_def)
  with assms(2) ok show ?thesis by (auto simp: r fat_inv_def)
qed

lemma fat_entries_spec:
  assumes "fat_entries data = Inr entries"
  shows "entries \<noteq> [] \<and> length entries \<le> 64 \<and> disjoint_ranges (map entry_range entries)
    \<and> distinct (map entry_key entries) \<and> list_all (entry_in 8 (length data)) entries"
proof -
  obtain e wide count st where count: "0 < count" "count \<le> 64"
    and st: "foldE (fat_entry data e wide (8 + count * calcsize (fat_format wide)))
        \<lparr>fat_result = [], fat_ranges = [], fat_cpus = []\<rparr> [0..<count] = Inr st"
    and entries: "entries = fat_result st"
    using assms by (auto simp: fat_entries_def Let_def split: option.splits if_split_asm)
  let ?h = "8 + count * calcsize (fat_format wide)"
  let ?s0 = "\<lparr>fat_result = [], fat_ranges = [], fat_cpus = []\<rparr>"
  have init: "fat_inv (length data) ?h ?s0" by (simp add: fat_inv_def)
  have "fat_inv (length data) ?h st \<and> length (fat_result st) = length [0..<count]"
    using st
    by (rule foldE_indexed [where P = "\<lambda>ys u. fat_inv (length data) ?h u \<and> length (fat_result u) = length ys"])
       (use init in \<open>auto dest: fat_entry_inv\<close>)
  moreover have "entry_in ?h (length data) r \<Longrightarrow> entry_in 8 (length data) r" for r
    by (simp add: entry_in_def)
  ultimately show ?thesis
    using count by (auto simp: entries fat_inv_def list_all_iff)
qed

lemma inspect_slice_raises:
  assumes "8 + count * calcsize (fat_format wide) \<le> length data" and "i < count"
  shows "raises_only {MachoError} (inspect_slice data e wide count st i)"
  unfolding inspect_slice_def Let_def
  using assms by (intro raises_intros table_row_raises [where count = count] thin_raises) auto

lemma inspect_macho_raises: "raises_only {MachoError} (inspect_macho data)"
proof -
  have "raises_only {MachoError} (foldE (inspect_slice data e wide count) st [0..<count])"
    if "8 + count * calcsize (fat_format wide) \<le> length data" for e wide count st
    using inspect_slice_raises [OF that] by (intro raises_only_foldE [where P = "\<lambda>_. True"]) auto
  then show ?thesis
    unfolding inspect_macho_def Let_def
    by (auto split: option.split intro!: raises_intros thin_raises simp: calcsize_def [of "[fI]"])
qed

definition variant_range :: "variant \<Rightarrow> nat \<times> nat" where
  "variant_range v = (v_offset v, v_offset v + v_size v)"

definition variants_ok :: "nat \<Rightarrow> variant list \<Rightarrow> bool" where
  "variants_ok n vs \<longleftrightarrow>
     list_all (\<lambda>v. variant_ok v \<and> snd (variant_range v) \<le> n) vs
     \<and> disjoint_ranges (map variant_range vs) \<and> distinct (map architecture vs)"

lemma inspect_slice_inv:
  assumes "inspect_slice data e wide count st i = Inr st'"
    and "variants_ok (length data) (in_variants st) \<and> in_ranges st = map variant_range (in_variants st)"
  shows "variants_ok (length data) (in_variants st') \<and> in_ranges st' = map variant_range (in_variants st')
    \<and> length (in_variants st') = Suc (length (in_variants st))"
proof -
  obtain offset sz v where v: "thin data offset sz = Inr v" "\<not> list_ex (overlaps offset sz) (in_ranges st)"
    and new: "architecture v \<notin> set (map architecture (in_variants st))"
    and st': "st' = \<lparr>in_variants = in_variants st @ [v], in_ranges = in_ranges st @ [(offset, offset + sz)]\<rparr>"
    using assms(1) by (auto simp: inspect_slice_def Let_def)
  have range: "variant_range v = (offset, offset + sz)" and ok: "variant_ok v" "offset + sz \<le> length data"
    using thin_sound [OF v(1)] by (auto simp: variant_range_def)
  have "disjoint_ranges (in_ranges st @ [(offset, offset + sz)])"
    using assms(2) v(2) by (intro disjoint_ranges_snoc) (simp_all add: variants_ok_def)
  with assms(2) new ok range show ?thesis
    by (simp add: variants_ok_def st')
qed

lemma inspect_macho_spec:
  assumes "inspect_macho data = Inr (vs, fat)"
  shows "variants_ok (length data) vs \<and> vs \<noteq> [] \<and> length vs \<le> 64 \<and> (\<not> fat \<longrightarrow> length vs = 1)"
proof (cases "map_of THIN (take 4 data)")
  case (Some p)
  with assms obtain v where "thin data 0 (length data) = Inr v" "vs = [v]" "\<not> fat"
    by (auto simp: inspect_macho_def split: if_split_asm)
  then show ?thesis
    using thin_sound [of data 0 "length data" v]
    by (simp add: variants_ok_def variant_range_def disjoint_ranges_def)
next
  case None
  with assms obtain e wide count st where count: "0 < count" "count \<le> 64"
    and st: "foldE (inspect_slice data e wide count) \<lparr>in_variants = [], in_ranges = []\<rparr> [0..<count] = Inr st"
    and vs: "vs = in_variants st" "fat"
    by (auto simp: inspect_macho_def Let_def split: option.splits if_split_asm)
  have init: "variants_ok (length data) []" by (simp add: variants_ok_def)
  have "variants_ok (length data) (in_variants st) \<and> in_ranges st = map variant_range (in_variants st)
      \<and> length (in_variants st) = length [0..<count]"
    using st
    by (rule foldE_indexed [where P = "\<lambda>ys u. variants_ok (length data) (in_variants u)
          \<and> in_ranges u = map variant_range (in_variants u) \<and> length (in_variants u) = length ys"])
       (use init in \<open>auto dest: inspect_slice_inv\<close>)
  with count vs show ?thesis by auto
qed

section \<open>Archives\<close>

lemma archive_member_raises:
  "raises_only {MachoError} (archive_member data stop expected st)"
proof -
  have name: "raises_only {MachoError} (archive_member_name data header payload member_end width names)"
    for header payload member_end width names
    unfolding archive_member_name_def Let_def
    by (auto split: option.split intro!: raises_intros)
  have obj: "raises_only {MachoError} (archive_object data expected name payload member_end archs)"
    for name payload member_end archs
    unfolding archive_object_def Let_def by (intro raises_intros thin_raises) auto
  show ?thesis
    unfolding archive_member_def Let_def
    by (auto split: prod.split intro!: raises_intros name obj)
qed

lemma archive_loop_raises: "raises_only {MachoError} (archive_loop data stop expected st)"
proof (induction data stop expected st rule: archive_loop.induct)
  case (1 data stop expected st)
  show ?case
  proof (cases "archive_member data stop expected st")
    case (Inl e)
    then show ?thesis
      using archive_member_raises [of data stop expected st]
      by (subst archive_loop.simps) (simp add: raises_only_def)
  next
    case (Inr st')
    with 1 show ?thesis by (subst archive_loop.simps) simp
  qed
qed

lemma archive_architectures_raises: "raises_only {MachoError} (archive_architectures data start sz expected)"
  unfolding archive_architectures_def Let_def
  by (intro raises_intros archive_loop_raises) auto

lemma static_archive_raises: "raises_only {MachoError} (static_archive_architectures data)"
  unfolding static_archive_architectures_def Let_def
  by (auto intro!: raises_intros archive_architectures_raises fat_entries_raises
      raises_only_foldE [where P = "\<lambda>_. True"] split: prod.split)

text \<open>
  A label an archive reports is backed by one of its object members: a parsed relocatable image
  inside the archive, of the CPU the universal header announced.
\<close>

definition archive_backed :: "bytes \<Rightarrow> nat \<Rightarrow> nat \<Rightarrow> cpu option \<Rightarrow> string \<Rightarrow> bool" where
  "archive_backed data lo hi expected label \<longleftrightarrow>
     (\<exists>payload sz item. thin data payload sz = Inr item \<and> lo \<le> payload \<and> payload + sz \<le> hi
        \<and> filetype item = 1 \<and> label = archive_label item
        \<and> (case expected of None \<Rightarrow> True | Some c \<Rightarrow> cpu_key (cpu_type item, cpu_subtype item) = cpu_key c))"

lemma archive_object_backed:
  assumes "archive_object data expected name payload stop archs = Inr archs'"
    and "lo \<le> payload" "payload \<le> stop" "stop \<le> hi"
    and "list_all (archive_backed data lo hi expected) archs"
  shows "list_all (archive_backed data lo hi expected) archs'"
proof (cases "name \<in> set archive_special_names")
  case False
  with assms(1) obtain item where "thin data payload (stop - payload) = Inr item" "filetype item = 1"
    and "case expected of None \<Rightarrow> True | Some c \<Rightarrow> cpu_key (cpu_type item, cpu_subtype item) = cpu_key c"
    and archs': "archs' = List.insert (archive_label item) archs"
    by (auto simp: archive_object_def Let_def split: if_split_asm option.splits)
  then have "archive_backed data lo hi expected (archive_label item)"
    using assms(2-4) unfolding archive_backed_def by (intro exI [of _ payload] exI [of _ "stop - payload"]) auto
  with assms(5) show ?thesis by (simp add: archs' list_all_iff)
qed (use assms in \<open>simp add: archive_object_def\<close>)

lemma archive_member_name_payload:
  "archive_member_name data header payload stop width names = Inr (name, payload', names') \<Longrightarrow>
   payload \<le> payload' \<and> payload' \<le> payload + width"
  by (auto simp: archive_member_name_def Let_def split: if_split_asm option.splits)

lemma archive_member_backed:
  assumes "archive_member data stop expected st = Inr st'" and "lo \<le> ar_cursor st"
    and "list_all (archive_backed data lo stop expected) (ar_architectures st)"
  shows "lo \<le> ar_cursor st' \<and> list_all (archive_backed data lo stop expected) (ar_architectures st')"
proof -
  obtain width name payload names archs header where
      nm: "archive_member_name data header (ar_cursor st + 60) (ar_cursor st + 60 + width) width (ar_names st)
             = Inr (name, payload, names)"
    and obj: "archive_object data expected name payload (ar_cursor st + 60 + width) (ar_architectures st) = Inr archs"
    and fit: "ar_cursor st + 60 + width \<le> stop" and st': "ar_architectures st' = archs"
    using assms(1) by (auto simp: archive_member_def Let_def split: prod.splits)
  have "list_all (archive_backed data lo stop expected) archs"
    using obj archive_member_name_payload [OF nm] fit assms(2,3)
    by (intro archive_object_backed [OF obj]) auto
  with st' archive_member_advances [OF assms(1)] assms(2) show ?thesis by simp
qed

lemma archive_loop_backed:
  assumes "archive_loop data stop expected st = Inr st'" and "lo \<le> ar_cursor st" and "ar_cursor st \<le> stop"
    and "list_all (archive_backed data lo stop expected) (ar_architectures st)"
  shows "ar_cursor st' = stop \<and> list_all (archive_backed data lo stop expected) (ar_architectures st')"
  using assms
proof (induction data stop expected st rule: archive_loop.induct)
  case (1 data stop expected st)
  show ?case
  proof (cases "ar_cursor st < stop")
    case True
    with 1(2) obtain u where u: "archive_member data stop expected st = Inr u"
      and rest: "archive_loop data stop expected u = Inr st'"
      by (subst (asm) archive_loop.simps) (auto split: sum.splits)
    show ?thesis
      using 1(1) [OF True u rest] archive_member_backed [OF u 1(3,5)] archive_member_advances [OF u] by simp
  next
    case False
    with 1 show ?thesis by (subst (asm) archive_loop.simps) simp
  qed
qed

lemma archive_architectures_spec:
  assumes "archive_architectures data start sz expected = Inr archs"
  shows "archs \<noteq> [] \<and> start + sz \<le> length data
    \<and> list_all (archive_backed data (start + 8) (start + sz) expected) archs"
proof -
  obtain st where st: "archive_loop data (start + sz) expected
      \<lparr>ar_cursor = start + 8, ar_members = 0, ar_architectures = [], ar_names = []\<rparr> = Inr st"
    and archs: "archs = ar_architectures st" "archs \<noteq> []" and len: "start + sz \<le> length data" "8 \<le> sz"
    using assms by (auto simp: archive_architectures_def Let_def split: if_split_asm)
  then show ?thesis using archive_loop_backed [OF st, of "start + 8"] by simp
qed

section \<open>Sample files\<close>

definition pad_to :: "nat \<Rightarrow> bytes \<Rightarrow> bytes" where
  "pad_to n bs = bs @ replicate (n - length bs) 0"

definition le32s :: "nat list \<Rightarrow> bytes" where
  "le32s ns = concat (map (bytes_le 4) ns)"

text \<open>A 32-bit relocatable object with one segment whose only section is \<open>__DWARF,__debug_info\<close>.\<close>

definition sample_object :: bytes where
  "sample_object =
     le32s [0xfeedface, 7, 3, 1, 1, 124, 0]
     @ le32s [1, 124] @ pad_to 16 (ascii ''__DWARF'') @ le32s [0, 4, 152, 4, 7, 7, 1, 0]
     @ pad_to 16 (ascii ''__debug_info'') @ pad_to 16 (ascii ''__DWARF'')
     @ le32s [0, 4, 152, 0, 0, 0, 0, 0, 0] @ [1, 2, 3, 4]"

definition sample_archive :: bytes where
  "sample_archive =
     ARCHIVE_MAGIC @ ascii ''a.o/            '' @ ascii ''0           '' @ ascii ''0     ''
     @ ascii ''0     '' @ ascii ''644     '' @ ascii ''156       '' @ ascii ''`'' @ [10] @ sample_object"

definition sample_fat :: bytes where
  "sample_fat =
     [0xbe, 0xba, 0xfe, 0xca] @ le32s [1, 7, 3, 28, 156, 0] @ sample_object"

lemma sample_fat_parses: "\<exists>v. inspect_macho sample_fat = Inr ([v], True) \<and> has_debug_info v"
proof -
  have "case inspect_macho sample_fat of Inl _ \<Rightarrow> False
      | Inr (vs, b) \<Rightarrow> b \<and> length vs = 1 \<and> has_debug_info (vs ! 0)"
    by code_simp
  then show ?thesis
    by (auto split: sum.splits prod.splits simp: length_Suc_conv)
qed

section \<open>Properties\<close>

text \<open>C37: Whatever bytes a file holds, \<open>inspect_macho\<close>, \<open>read_slices\<close> and
  \<open>static_archive_architectures\<close> raise nothing but \<open>MachoError\<close>: no \<open>struct.error\<close> from a
  short buffer, no \<open>IndexError\<close> from the symbol table scan, no \<open>ValueError\<close> from the UUID.\<close>

theorem macho_raises_only_macho_error:
  "raises_only {MachoError} (inspect_macho data) \<and> raises_only {MachoError} (read_slices data)
   \<and> raises_only {MachoError} (static_archive_architectures data)"
  unfolding read_slices_def
  by (intro conjI inspect_macho_raises static_archive_raises raises_only_rbind) auto

text \<open>C6: A successful \<open>inspect_macho\<close> returns between 1 and 64 variants, each a slice inside the
  file with a supported file type, segments inside the slice and sections with contents inside a
  segment; slices of a universal file share no byte and no two variants have one architecture.\<close>

theorem inspect_macho_sound:
  assumes "inspect_macho data = Inr (vs, fat)"
  shows "vs \<noteq> [] \<and> length vs \<le> 64 \<and> (\<not> fat \<longrightarrow> length vs = 1)
    \<and> list_all (\<lambda>v. variant_ok v \<and> v_offset v + v_size v \<le> length data) vs
    \<and> disjoint_ranges (map (\<lambda>v. (v_offset v, v_offset v + v_size v)) vs)
    \<and> distinct (map architecture vs)"
  using inspect_macho_spec [OF assms] by (simp add: variants_ok_def variant_range_def [abs_def])

theorem inspect_macho_sound_witness:
  "\<exists>v. inspect_macho sample_fat = Inr ([v], True) \<and> variant_ok v \<and> v_offset v + v_size v \<le> length sample_fat"
  using sample_fat_parses inspect_macho_sound [of sample_fat] by fastforce

text \<open>\<open>has_debug_info\<close> is never claimed without evidence: some section with contents named
  \<open>__debug_info\<close> or \<open>__zdebug_info\<close> of segment \<open>__DWARF\<close> has a non-empty byte range inside
  its slice and inside the file.\<close>

theorem macho_debug_evidence:
  assumes "inspect_macho data = Inr (vs, fat)" and "v \<in> set vs" and "has_debug_info v"
  shows "\<exists>s\<in>set (sections v). (is_dwarf (ascii ''__debug_info'') s \<or> is_dwarf (ascii ''__zdebug_info'') s)
    \<and> v_offset v \<le> sec_offset s \<and> 0 < sec_size s
    \<and> sec_offset s + sec_size s \<le> v_offset v + v_size v \<and> sec_offset s + sec_size s \<le> length data"
proof -
  have ok: "variant_ok v" and len: "v_offset v + v_size v \<le> length data"
    using inspect_macho_spec [OF assms(1)] assms(2)
    by (auto simp: variants_ok_def variant_range_def list_all_iff)
  then obtain s where s: "s \<in> set (sections v)"
    and dw: "is_dwarf (ascii ''__debug_info'') s \<or> is_dwarf (ascii ''__zdebug_info'') s"
    using assms(3) by (auto simp: variant_ok_def)
  have "section_inside (v_offset v) (segments v) s"
    using ok s dw by (auto simp: variant_ok_def is_dwarf_def)
  then obtain g where "g \<in> set (segments v)" "0 < sec_size s" "v_offset v + seg_fileoff g \<le> sec_offset s"
    "sec_offset s + sec_size s \<le> v_offset v + seg_fileoff g + seg_filesize g"
    by (auto simp: section_inside_def)
  moreover have "seg_fileoff g + seg_filesize g \<le> v_size v"
    using ok \<open>g \<in> set (segments v)\<close> by (simp add: variant_ok_def)
  ultimately show ?thesis using s dw len by (intro bexI [of _ s]) auto
qed

theorem macho_debug_evidence_witness:
  "\<exists>v s. inspect_macho sample_fat = Inr ([v], True) \<and> s \<in> set (sections v)
     \<and> sec_offset s + sec_size s \<le> length sample_fat"
proof -
  obtain v where "inspect_macho sample_fat = Inr ([v], True)" "has_debug_info v"
    using sample_fat_parses by blast
  then show ?thesis using macho_debug_evidence [of sample_fat "[v]" True v] by auto
qed

text \<open>The entries of an accepted universal header are at most 64, non-empty ranges of the
  file behind the magic that share no byte, and no two name the same CPU once capability bits of
  the subtype are masked.\<close>

theorem fat_entries_sound:
  assumes "fat_entries data = Inr entries"
  shows "entries \<noteq> [] \<and> length entries \<le> 64 \<and> disjoint_ranges (map entry_range entries)
    \<and> distinct (map entry_key entries) \<and> list_all (entry_in 8 (length data)) entries"
  by (rule fat_entries_spec [OF assms])

theorem fat_entries_sound_witness:
  "fat_entries sample_fat = Inr [(7, 3, 28, 156)] \<and> entry_in 8 (length sample_fat) (7, 3, 28, 156)"
proof -
  have "(case fat_entries sample_fat of Inl _ \<Rightarrow> False | Inr es \<Rightarrow> es = [(7, 3, 28, 156)])"
    by code_simp
  then have "fat_entries sample_fat = Inr [(7, 3, 28, 156)]"
    by (simp split: sum.splits)
  with fat_entries_sound [OF this] show ?thesis by simp
qed

text \<open>Every architecture a static archive reports is backed by a member that parses as a
  relocatable Mach-O image inside the file; in a universal file the member also has the CPU its
  slice announces.\<close>

theorem static_archive_backed:
  assumes "static_archive_architectures data = Inr (Some archs)"
  shows "archs \<noteq> [] \<and> (\<forall>label\<in>set archs. \<exists>lo hi expected.
    hi \<le> length data \<and> archive_backed data lo hi expected label)"
proof -
  let ?P = "\<lambda>archs. \<forall>label\<in>set archs. \<exists>lo hi expected.
    hi \<le> length data \<and> archive_backed data lo hi expected label"
  have one: "archs' \<noteq> [] \<and> ?P archs'" if "archive_architectures data start sz expected = Inr archs'"
    for start sz expected archs'
    using archive_architectures_spec [OF that] by (auto simp: list_all_iff)
  have ins: "set (fold List.insert xs acc) = set xs \<union> set acc" for xs acc :: "string list"
    by (induction xs arbitrary: acc) simp_all
  have nonempty: "fold List.insert xs acc \<noteq> []" if "xs \<noteq> [] \<or> acc \<noteq> []" for xs acc :: "string list"
    using ins [of xs acc] that by (metis Un_empty set_empty)
  show ?thesis
  proof (cases "take 8 data = ARCHIVE_MAGIC")
    case True
    with assms one show ?thesis
      by (auto simp: static_archive_architectures_def Let_def split: if_split_asm)
  next
    case False
    with assms obtain entries where entries: "fat_entries data = Inr entries" and
      loop: "foldE (\<lambda>acc (cpu, subtype, offset, sz).
                rbind (archive_architectures data offset sz (Some (cpu, subtype)))
                  (\<lambda>archs. Inr (fold List.insert archs acc))) [] entries = Inr archs"
      by (auto simp: static_archive_architectures_def Let_def split: if_split_asm)
    from loop have "?P archs \<and> (entries \<noteq> [] \<longrightarrow> archs \<noteq> [])"
    proof (rule foldE_indexed [where P = "\<lambda>ys a. ?P a \<and> (ys \<noteq> [] \<longrightarrow> a \<noteq> [])"], goal_cases)
      case (2 ys acc x acc')
      then obtain start sz expected new where new: "archive_architectures data start sz expected = Inr new"
        and acc': "acc' = fold List.insert new acc"
        by (cases x) auto
      have "?P acc'"
        unfolding acc' ins using one [OF new] 2(2) by blast
      then show ?case
        using one [OF new] nonempty [of new acc] unfolding acc' by blast
    qed simp
    with fat_entries_spec [OF entries] show ?thesis by auto
  qed
qed

theorem static_archive_backed_witness:
  "static_archive_architectures sample_archive = Inr (Some [''i386''])
   \<and> (\<exists>lo hi expected. hi \<le> length sample_archive \<and> archive_backed sample_archive lo hi expected ''i386'')"
proof -
  have "static_archive_architectures sample_archive = Inr (Some [''i386''])"
    by code_simp
  with static_archive_backed [OF this] show ?thesis by simp
qed

end
