(* ===== verification/Elf_Image.thy ===== *)
theory Elf_Image
  imports Py_Struct
begin

unbundle bit_operations_syntax

text \<open>
  \<open>tool/sentry_elf.py\<close>: the facts companion matching needs from one ELF file, read offline.
  \<open>inspect_elf\<close> follows the function of that name; the loop over sections is \<open>elf_section\<close>,
  the loop over the notes of a section is \<open>elf_notes\<close>. SHA-256 is the parameter \<open>sha256\<close>. The
  lemmas show that only \<open>ElfError\<close> can escape, that the note loop ends, and that build
  identifiers and code hashes come from bytes of the file.
\<close>

section \<open>Notes\<close>

text \<open>\<open>(n + 3) & ~3\<close>.\<close>

definition align4 :: "nat \<Rightarrow> nat" where
  "align4 n = nat ((int n + 3) AND NOT 3)"

lemma align4_eq: "align4 n = (n + 3) div 4 * 4"
proof -
  have "x AND NOT (mask 2) = push_bit 2 (drop_bit 2 x)" for x :: int
  proof (rule bit_eqI)
    have "2 \<le> n \<Longrightarrow> Suc (Suc (n - 2)) = n" for n by simp
    then show "bit (x AND NOT (mask 2)) n = bit (push_bit 2 (drop_bit 2 x)) n" for n
      by (cases "2 \<le> n") (simp_all add: bit_simps)
  qed
  then have "(int n + 3) AND NOT (mask 2) = (int n + 3) div 4 * 4"
    by (simp add: push_bit_eq_mult drop_bit_eq_div)
  also have "mask 2 = (3 :: int)" by (simp add: mask_eq_exp_minus_1)
  finally have "(int n + 3) AND NOT 3 = int ((n + 3) div 4 * 4)" by (simp add: zdiv_int)
  then show ?thesis unfolding align4_def by (metis nat_int)
qed

lemma align4_bounds: "n \<le> align4 n" "align4 n \<le> n + 3" "align4 n mod 4 = 0"
  unfolding align4_eq by presburger+

text \<open>One note: the header words, its aligned value, and the build identifier it may carry.\<close>

definition elf_note ::
    "bytes \<Rightarrow> endian \<Rightarrow> nat \<Rightarrow> nat \<Rightarrow> nat \<Rightarrow> string list \<Rightarrow> exn + (nat \<times> string list)" where
  "elf_note data e start stop cursor build_ids =
     rbind (unpack_from e [fI, fI, fI] data cursor) (\<lambda>f.
       let name_size = as_nat (f ! 0); value_size = as_nat (f ! 1); note_type = as_nat (f ! 2);
           cursor = cursor + 12; name_end = cursor + name_size;
           value_start = start + align4 (name_end - start); value_end = value_start + value_size;
           next_cursor = start + align4 (value_end - start) in
       if name_end > stop \<or> value_end > stop then raise ElfError ''Invalid ELF note bounds''
       else if note_type = 3 \<and> rstrip_with [0] (slice data cursor name_end) = ascii ''GNU''
       then if \<not> (4 \<le> value_size \<and> value_size \<le> 64) then raise ElfError ''Invalid GNU build identifier''
            else Inr (next_cursor, List.insert (bytes_hex (slice data value_start value_end)) build_ids)
       else Inr (next_cursor, build_ids))"

lemma elf_note_advances:
  "elf_note data e start stop cursor ids = Inr (cursor', ids') \<Longrightarrow> start \<le> cursor \<Longrightarrow> cursor + 12 \<le> cursor'"
  using align4_bounds(1) [of "cursor + 12 + as_nat (decode_fields e [fI, fI, fI] (drop cursor data) ! 0) - start"]
    align4_bounds(1) [of "start + align4 (cursor + 12 + as_nat (decode_fields e [fI, fI, fI] (drop cursor data) ! 0) - start)
        + as_nat (decode_fields e [fI, fI, fI] (drop cursor data) ! 1) - start"]
  by (auto simp: elf_note_def Let_def unpack_from_Inr split: if_split_asm)

function elf_notes ::
    "bytes \<Rightarrow> endian \<Rightarrow> nat \<Rightarrow> nat \<Rightarrow> nat \<Rightarrow> string list \<Rightarrow> exn + string list" where
  "elf_notes data e start stop cursor build_ids =
     (if start \<le> cursor \<and> cursor + 12 \<le> stop
      then case elf_note data e start stop cursor build_ids of
             Inl ex \<Rightarrow> Inl ex
           | Inr (cursor', build_ids') \<Rightarrow> elf_notes data e start stop cursor' build_ids'
      else Inr build_ids)"
  by pat_completeness auto
termination
  by (relation "measure (\<lambda>(data, e, start, stop, cursor, ids). stop - cursor)")
     (auto dest!: elf_note_advances)

declare elf_notes.simps [simp del]

section \<open>Sections\<close>

text \<open>The value of one entry of \<open>code_sections\<close>.\<close>

record code_section =
  cs_sha256 :: string
  cs_size :: nat
  cs_address :: nat

record elf_state =
  es_present :: "bytes list"
  es_build_ids :: "string list"
  es_executable_text :: bool
  es_code_sections :: "(string \<times> code_section) list"
  es_code_names :: "bytes list"

definition elf_header_format :: "nat \<Rightarrow> field list" where
  "elf_header_format bits =
     (if bits = 1 then [fH, fH, fI, fI, fI, fI, fI, fH, fH, fH, fH, fH, fH]
      else [fH, fH, fI, fQ, fQ, fQ, fI, fH, fH, fH, fH, fH, fH])"

definition elf_section_format :: "nat \<Rightarrow> field list" where
  "elf_section_format bits =
     (if bits = 1 then [fI, fI, fI, fI, fI, fI, fI, fI, fI, fI]
      else [fI, fI, fQ, fQ, fQ, fQ, fI, fI, fQ, fQ])"

definition elf_architecture :: "nat \<Rightarrow> string option" where
  "elf_architecture machine = map_of [(3, ''i386''), (40, ''arm''), (62, ''x86_64''), (183, ''aarch64'')] machine"

text \<open>The duplicate check and the hash of \<open>.text\<close> and \<open>.rodata\<close>.\<close>

definition elf_code_section ::
    "(bytes \<Rightarrow> string) \<Rightarrow> bytes \<Rightarrow> bytes \<Rightarrow> nat \<Rightarrow> nat \<Rightarrow> nat \<Rightarrow> nat \<Rightarrow> elf_state \<Rightarrow> exn + elf_state" where
  "elf_code_section sha256 data name kind address start sz st =
     (if name \<in> {ascii ''.text'', ascii ''.rodata''} then
        if name \<in> set (es_code_names st) then raise ElfError ''Duplicate ELF code section''
        else Inr (st\<lparr>es_code_names := name # es_code_names st,
                     es_code_sections :=
                       (if kind = 1 then es_code_sections st @
                          [(bytes_text name, \<lparr>cs_sha256 = sha256 (slice data start (start + sz)),
                              cs_size = sz, cs_address = address\<rparr>)]
                        else es_code_sections st)\<rparr>)
      else Inr st)"

text \<open>What a section adds to \<open>present\<close> and \<open>executable_text\<close>.\<close>

definition elf_mark :: "bytes \<Rightarrow> nat \<Rightarrow> nat \<Rightarrow> nat \<Rightarrow> elf_state \<Rightarrow> elf_state" where
  "elf_mark name kind flags sz st =
     st\<lparr>es_present := (if kind \<noteq> 8 \<and> sz \<noteq> 0 then List.insert name (es_present st) else es_present st),
        es_executable_text := (es_executable_text st \<or> kind = 1 \<and> flags AND 4 \<noteq> 0 \<and> sz \<noteq> 0)\<rparr>"

text \<open>Only \<open>SHT_NOTE\<close> sections are read further.\<close>

definition elf_section_notes ::
    "bytes \<Rightarrow> endian \<Rightarrow> nat \<Rightarrow> nat \<Rightarrow> nat \<Rightarrow> elf_state \<Rightarrow> exn + elf_state" where
  "elf_section_notes data e kind start sz st =
     (if kind \<noteq> 7 then Inr st
      else rbind (elf_notes data e start (start + sz) start (es_build_ids st)) (\<lambda>ids.
             Inr (st\<lparr>es_build_ids := ids\<rparr>)))"

definition elf_section ::
    "(bytes \<Rightarrow> string) \<Rightarrow> bytes \<Rightarrow> endian \<Rightarrow> bytes \<Rightarrow> elf_state \<Rightarrow> sval list \<Rightarrow> exn + elf_state" where
  "elf_section sha256 data e names st entry =
     (let name_offset = as_nat (entry ! 0); kind = as_nat (entry ! 1); flags = as_nat (entry ! 2);
          address = as_nat (entry ! 3); start = as_nat (entry ! 4); sz = as_nat (entry ! 5) in
      if name_offset \<ge> length names then raise ElfError ''Invalid ELF section name''
      else case bytes_find names [0] name_offset of
        None \<Rightarrow> raise ElfError ''Invalid ELF section name terminator''
      | Some name_end \<Rightarrow>
        let name = slice names name_offset name_end in
        if kind \<noteq> 8 \<and> start + sz > length data then raise ElfError ''Truncated ELF section''
        else rbind (elf_code_section sha256 data name kind address start sz st) (\<lambda>st.
          elf_section_notes data e kind start sz (elf_mark name kind flags sz st)))"

section \<open>The file\<close>

record elf_info =
  elf_build_id :: string
  elf_arch :: string
  elf_code_sections :: "(string \<times> code_section) list"
  elf_has_debug_info :: bool
  elf_has_debug_line :: bool
  elf_has_executable_text :: bool
  elf_unwind_sections :: "string list"

text \<open>\<open>sorted\<close> of the unwind names that are present; the list is in ASCII order already.\<close>

definition unwind_names :: "string list" where
  "unwind_names = [''.ARM.exidx'', ''.ARM.extab'', ''.eh_frame'', ''.eh_frame_hdr'']"

definition elf_info_of :: "string \<Rightarrow> elf_state \<Rightarrow> elf_info" where
  "elf_info_of arch st =
     \<lparr>elf_build_id = (case es_build_ids st of [] \<Rightarrow> [] | b # _ \<Rightarrow> b),
      elf_arch = arch, elf_code_sections = es_code_sections st,
      elf_has_debug_info = list_ex (\<lambda>n. n \<in> set (es_present st)) [ascii ''.debug_info'', ascii ''.zdebug_info''],
      elf_has_debug_line = list_ex (\<lambda>n. n \<in> set (es_present st)) [ascii ''.debug_line'', ascii ''.zdebug_line''],
      elf_has_executable_text = es_executable_text st,
      elf_unwind_sections = filter (\<lambda>n. ascii n \<in> set (es_present st)) unwind_names\<rparr>"

definition elf_start :: elf_state where
  "elf_start = \<lparr>es_present = [], es_build_ids = [], es_executable_text = False,
     es_code_sections = [], es_code_names = []\<rparr>"

text \<open>The section rows and the section-name bytes the loop runs over.\<close>

definition elf_table ::
    "bytes \<Rightarrow> nat \<Rightarrow> endian \<Rightarrow> sval list \<Rightarrow> exn + (sval list list \<times> bytes)" where
  "elf_table data bits e hdr =
     (let offset = as_nat (hdr ! 5); width = as_nat (hdr ! 10);
          count = as_nat (hdr ! 11); strings_index = as_nat (hdr ! 12) in
      if width < calcsize (elf_section_format bits) \<or> offset < 16 + calcsize (elf_header_format bits)
         \<or> offset + width > length data
      then raise ElfError ''Invalid ELF section table''
      else rbind (unpack_from e (elf_section_format bits) data offset) (\<lambda>first.
        let count = (if count = 0 then as_nat (first ! 5) else count);
            strings_index = (if strings_index = 0xffff then as_nat (first ! 6) else strings_index) in
        if \<not> (0 < count \<and> count \<le> 100000) \<or> offset + width * count > length data \<or> strings_index \<ge> count
        then raise ElfError ''Invalid ELF section table bounds''
        else rbind (traverse (\<lambda>index. unpack_from e (elf_section_format bits) data (offset + index * width))
                     [0..<count]) (\<lambda>sections.
          rbind (item_at sections strings_index) (\<lambda>strings.
            if as_nat (strings ! 4) + as_nat (strings ! 5) > length data
            then raise ElfError ''Invalid ELF section name table''
            else Inr (sections, slice data (as_nat (strings ! 4)) (as_nat (strings ! 4) + as_nat (strings ! 5)))))))"

definition inspect_elf :: "(bytes \<Rightarrow> string) \<Rightarrow> bytes \<Rightarrow> exn + elf_info" where
  "inspect_elf sha256 data =
     (if length data < 52 then raise ElfError ''Invalid ELF header''
      else rbind (item_at data 4) (\<lambda>d4. rbind (item_at data 5) (\<lambda>d5.
        if take 4 data \<noteq> 0x7f # ascii ''ELF'' \<or> d4 \<notin> {1, 2} \<or> d5 \<notin> {1, 2}
        then raise ElfError ''Unsupported ELF header''
        else let bits = unat d4; e = (if d5 = 1 then Little else Big) in
          if 16 + calcsize (elf_header_format bits) > length data then raise ElfError ''Truncated ELF header''
          else rbind (unpack_from e (elf_header_format bits) data 16) (\<lambda>hdr.
            case elf_architecture (as_nat (hdr ! 1)) of
              None \<Rightarrow> raise ElfError ''Unsupported ELF architecture or artifact type''
            | Some arch \<Rightarrow>
              if as_nat (hdr ! 0) \<notin> {2, 3}
              then raise ElfError ''Unsupported ELF architecture or artifact type''
              else rbind (elf_table data bits e hdr) (\<lambda>(sections, names).
                rbind (foldE (elf_section sha256 data e names) elf_start sections) (\<lambda>st.
                  if length (es_build_ids st) > 1 then raise ElfError ''Conflicting GNU build identifiers''
                  else Inr (elf_info_of arch st)))))))"

section \<open>Only \<open>ElfError\<close>\<close>

lemma elf_note_raises: "cursor + 12 \<le> length data \<Longrightarrow> raises_only {ElfError} (elf_note data e start stop cursor ids)"
  unfolding elf_note_def Let_def by (intro raises_intros) (auto simp: calcsize_def)

lemma elf_notes_raises:
  "stop \<le> length data \<Longrightarrow> raises_only {ElfError} (elf_notes data e start stop cursor ids)"
proof (induction data e start stop cursor ids rule: elf_notes.induct)
  case (1 data e start stop cursor ids)
  show ?case
  proof (cases "start \<le> cursor \<and> cursor + 12 \<le> stop")
    case True
    then have step: "raises_only {ElfError} (elf_note data e start stop cursor ids)"
      using 1(2) by (intro elf_note_raises) simp
    show ?thesis
    proof (cases "elf_note data e start stop cursor ids")
      case (Inl ex)
      with True step show ?thesis by (subst elf_notes.simps) (simp add: raises_only_def)
    next
      case (Inr p)
      obtain c i where "p = (c, i)" by (cases p)
      with Inr True 1(1) [OF True Inr _ 1(2)] show ?thesis by (subst elf_notes.simps) simp
    qed
  next
    case False
    then show ?thesis by (subst elf_notes.simps) auto
  qed
qed

lemma elf_section_raises: "raises_only {ElfError} (elf_section sha256 data e names st entry)"
  unfolding elf_section_def elf_code_section_def elf_section_notes_def Let_def
  by (auto split: option.split intro!: raises_intros elf_notes_raises)

lemma elf_table_raises: "raises_only {ElfError} (elf_table data bits e hdr)"
proof -
  have rows: "raises_only {ElfError}
      (traverse (\<lambda>i. unpack_from e (elf_section_format bits) data (base + i * stride)) [0..<count])"
    if "base + stride * count \<le> length data" "calcsize (elf_section_format bits) \<le> stride" for base stride count
    using that by (intro raises_only_traverse packed.entry_raises [where count = count]) auto
  show ?thesis
    unfolding elf_table_def Let_def
    by (intro raises_intros rows) (auto dest!: traverse_length)
qed

lemma inspect_elf_raises: "raises_only {ElfError} (inspect_elf sha256 data)"
  unfolding inspect_elf_def Let_def
  by (auto split: option.split prod.split intro!: raises_intros elf_table_raises
      raises_only_foldE [where P = "\<lambda>_. True"] elf_section_raises)

section \<open>Provenance of the facts\<close>

definition id_from_file :: "bytes \<Rightarrow> string \<Rightarrow> bool" where
  "id_from_file data b \<longleftrightarrow>
     (\<exists>off n. 4 \<le> n \<and> n \<le> 64 \<and> off + n \<le> length data \<and> b = bytes_hex (slice data off (off + n)))"

definition code_from_file :: "(bytes \<Rightarrow> string) \<Rightarrow> bytes \<Rightarrow> string \<times> code_section \<Rightarrow> bool" where
  "code_from_file sha256 data c \<longleftrightarrow>
     fst c \<in> {''.text'', ''.rodata''}
     \<and> (\<exists>start. start + cs_size (snd c) \<le> length data
          \<and> cs_sha256 (snd c) = sha256 (slice data start (start + cs_size (snd c))))"

definition elf_inv :: "(bytes \<Rightarrow> string) \<Rightarrow> bytes \<Rightarrow> elf_state \<Rightarrow> bool" where
  "elf_inv sha256 data st \<longleftrightarrow>
     list_all (id_from_file data) (es_build_ids st)
     \<and> list_all (code_from_file sha256 data) (es_code_sections st)
     \<and> set (map fst (es_code_sections st)) \<subseteq> bytes_text ` set (es_code_names st)
     \<and> set (es_code_names st) \<subseteq> {ascii ''.text'', ascii ''.rodata''}
     \<and> distinct (map fst (es_code_sections st))"

lemma elf_note_ids:
  assumes "elf_note data e start stop cursor ids = Inr (cursor', ids')"
    and "stop \<le> length data" and "list_all (id_from_file data) ids"
  shows "list_all (id_from_file data) ids'"
proof -
  have id: "id_from_file data (bytes_hex (slice data a b))" if "4 \<le> b - a" "b - a \<le> 64" "a \<le> b" "b \<le> stop" for a b
    using that assms(2) unfolding id_from_file_def by (intro exI [of _ a] exI [of _ "b - a"]) simp
  show ?thesis
    using assms(1,3) by (auto simp: elf_note_def Let_def list_all_iff intro!: id split: if_split_asm)
qed

lemma elf_notes_ids:
  assumes "elf_notes data e start stop cursor ids = Inr ids'"
    and "stop \<le> length data" and "list_all (id_from_file data) ids"
  shows "list_all (id_from_file data) ids'"
  using assms
proof (induction data e start stop cursor ids rule: elf_notes.induct)
  case (1 data e start stop cursor ids)
  show ?case
  proof (cases "start \<le> cursor \<and> cursor + 12 \<le> stop")
    case True
    with 1(2) obtain c i where n1: "elf_note data e start stop cursor ids = Inr (c, i)"
      and n2: "elf_notes data e start stop c i = Inr ids'"
      by (subst (asm) elf_notes.simps) (auto split: sum.splits prod.splits)
    show ?thesis
      using elf_note_ids [OF n1 1(3,4)] by (rule 1(1) [OF True n1 refl n2 1(3)])
  next
    case False
    with 1(2,4) show ?thesis by (subst (asm) elf_notes.simps) (auto split: if_split_asm)
  qed
qed

lemma bytes_text_code [simp]: "bytes_text (ascii ''.text'') = ''.text''" "bytes_text (ascii ''.rodata'') = ''.rodata''"
  by code_simp+

lemma elf_code_section_inv:
  assumes "elf_code_section sha256 data name kind address start sz st = Inr st'"
    and "kind \<noteq> 8 \<longrightarrow> start + sz \<le> length data" and "elf_inv sha256 data st"
  shows "elf_inv sha256 data st'"
proof (cases "name \<in> {ascii ''.text'', ascii ''.rodata''}")
  case True
  with assms(1) have st': "st' = st\<lparr>es_code_names := name # es_code_names st,
      es_code_sections := (if kind = 1 then es_code_sections st @
        [(bytes_text name, \<lparr>cs_sha256 = sha256 (slice data start (start + sz)), cs_size = sz, cs_address = address\<rparr>)]
        else es_code_sections st)\<rparr>" and new: "name \<notin> set (es_code_names st)"
    by (simp_all add: elf_code_section_def)
  have "bytes_text name \<notin> set (map fst (es_code_sections st))"
    using True new assms(3) by (force simp: elf_inv_def)
  moreover have "code_from_file sha256 data
      (bytes_text name, \<lparr>cs_sha256 = sha256 (slice data start (start + sz)), cs_size = sz, cs_address = address\<rparr>)"
    if "kind = 1"
    using that True assms(2) by (auto simp: code_from_file_def)
  ultimately show ?thesis
    using assms(3) True by (auto simp: elf_inv_def st')
qed (use assms in \<open>simp add: elf_code_section_def\<close>)

lemma elf_mark_inv: "elf_inv sha256 data (elf_mark n k f z st) = elf_inv sha256 data st"
  by (simp add: elf_inv_def elf_mark_def)

lemma elf_section_notes_inv:
  assumes "elf_section_notes data e kind start sz st = Inr st'"
    and "kind \<noteq> 8 \<longrightarrow> start + sz \<le> length data" and "elf_inv sha256 data st"
  shows "elf_inv sha256 data st'"
proof (cases "kind = 7")
  case True
  with assms(1) obtain ids where ids: "elf_notes data e start (start + sz) start (es_build_ids st) = Inr ids"
    and st': "st' = st\<lparr>es_build_ids := ids\<rparr>"
    by (auto simp: elf_section_notes_def)
  have "list_all (id_from_file data) ids"
    using assms(2,3) True by (intro elf_notes_ids [OF ids]) (simp_all add: elf_inv_def)
  with assms(3) show ?thesis by (simp add: elf_inv_def st')
qed (use assms in \<open>simp add: elf_section_notes_def\<close>)

lemma elf_section_inv:
  assumes "elf_section sha256 data e names st entry = Inr st'" and "elf_inv sha256 data st"
  shows "elf_inv sha256 data st'"
proof -
  let ?kind = "as_nat (entry ! 1)" and ?start = "as_nat (entry ! 4)" and ?sz = "as_nat (entry ! 5)"
  obtain ne s where kind: "?kind \<noteq> 8 \<longrightarrow> ?start + ?sz \<le> length data"
    and code: "elf_code_section sha256 data (slice names (as_nat (entry ! 0)) ne) ?kind (as_nat (entry ! 3)) ?start ?sz st = Inr s"
    and rest: "elf_section_notes data e ?kind ?start ?sz
      (elf_mark (slice names (as_nat (entry ! 0)) ne) ?kind (as_nat (entry ! 2)) ?sz s) = Inr st'"
    using assms(1) unfolding elf_section_def Let_def
    by (auto simp: not_less split: option.splits)
  show ?thesis
    using elf_code_section_inv [OF code kind assms(2)]
    by (intro elf_section_notes_inv [OF rest kind]) (simp add: elf_mark_inv)
qed

lemma elf_loop_inv:
  assumes "foldE (elf_section sha256 data e names) elf_start rows = Inr st"
  shows "elf_inv sha256 data st"
proof -
  have "elf_inv sha256 data elf_start" by (simp add: elf_inv_def elf_start_def)
  with assms show ?thesis by (rule foldE_invariant) (rule elf_section_inv)
qed

lemma inspect_elf_spec:
  assumes "inspect_elf sha256 data = Inr info"
  shows "elf_arch info \<in> {''i386'', ''arm'', ''x86_64'', ''aarch64''}
    \<and> (elf_build_id info = [] \<or> id_from_file data (elf_build_id info))
    \<and> list_all (code_from_file sha256 data) (elf_code_sections info)
    \<and> distinct (map fst (elf_code_sections info))"
proof -
  obtain machine arch e rows names st where arch: "elf_architecture machine = Some arch"
    and loop: "foldE (elf_section sha256 data e names) elf_start rows = Inr st"
    and info: "info = elf_info_of arch st"
    using assms by (auto simp: inspect_elf_def Let_def split: option.splits if_split_asm prod.splits)
  have "arch \<in> {''i386'', ''arm'', ''x86_64'', ''aarch64''}"
    using arch by (auto simp: elf_architecture_def split: if_split_asm)
  with elf_loop_inv [OF loop] show ?thesis
    by (auto simp: info elf_info_of_def elf_inv_def split: list.split)
qed

section \<open>A sample file\<close>

definition elf_row :: "nat list \<Rightarrow> bytes" where
  "elf_row ns = concat (map (bytes_le 4) ns)"

text \<open>
  A 32-bit shared object with an executable \<open>.text\<close>, one GNU build-id note of eight bytes and the
  section name table.
\<close>

definition sample_elf :: bytes where
  "sample_elf =
     0x7f # ascii ''ELF'' @ [1, 1, 1] @ replicate 9 0
     @ bytes_le 2 3 @ bytes_le 2 3 @ elf_row [1, 0, 0, 52, 0] @ concat (map (bytes_le 2) [52, 0, 0, 40, 4, 3])
     @ elf_row [0, 0, 0, 0, 0, 0, 0, 0, 0, 0]
     @ elf_row [1, 1, 6, 4096, 212, 4, 0, 0, 4, 0]
     @ elf_row [7, 7, 2, 0, 216, 24, 0, 0, 4, 0]
     @ elf_row [13, 3, 0, 0, 240, 23, 0, 0, 1, 0]
     @ [1, 2, 3, 4]
     @ elf_row [4, 8, 3] @ ascii ''GNU'' @ [0] @ [0xde, 0xad, 0xbe, 0xef, 1, 2, 3, 4]
     @ 0 # ascii ''.text'' @ 0 # ascii ''.note'' @ 0 # ascii ''.shstrtab'' @ [0]"

lemma sample_elf_parses:
  "\<exists>info. inspect_elf bytes_hex sample_elf = Inr info \<and> elf_build_id info = ''deadbeef01020304''
     \<and> map fst (elf_code_sections info) = [''.text'']"
proof -
  have "case inspect_elf bytes_hex sample_elf of Inl _ \<Rightarrow> False
    | Inr info \<Rightarrow> elf_build_id info = ''deadbeef01020304'' \<and> map fst (elf_code_sections info) = [''.text'']"
    by code_simp
  then show ?thesis by (simp split: sum.splits)
qed

section \<open>Properties\<close>

text \<open>Whatever bytes a file holds, \<open>inspect_elf\<close> raises nothing but \<open>ElfError\<close>: every
  read of the header, of the section table, of a name and of a note stays inside the file.\<close>

theorem inspect_elf_raises_only_elf_error: "raises_only {ElfError} (inspect_elf sha256 data)"
  by (rule inspect_elf_raises)

text \<open>C20: A build identifier reported by \<open>inspect_elf\<close> is the hexadecimal text of 4 to 64
  consecutive bytes of the file (so 8 to 128 lower-case hexadecimal digits), and each code hash is
  taken over a byte range of the file, at most once for \<open>.text\<close> and \<open>.rodata\<close>.\<close>

theorem inspect_elf_provenance:
  assumes "inspect_elf sha256 data = Inr info"
  shows "elf_arch info \<in> {''i386'', ''arm'', ''x86_64'', ''aarch64''}
    \<and> (elf_build_id info = [] \<or>
        (id_from_file data (elf_build_id info) \<and> 8 \<le> length (elf_build_id info)
         \<and> length (elf_build_id info) \<le> 128 \<and> list_all is_lower_hex (elf_build_id info)))
    \<and> list_all (code_from_file sha256 data) (elf_code_sections info)
    \<and> distinct (map fst (elf_code_sections info))"
proof -
  have "8 \<le> length b \<and> length b \<le> 128 \<and> list_all is_lower_hex b" if "id_from_file data b" for b
    using that by (auto simp: id_from_file_def list_all_iff dest: bytes_hex_lower)
  then show ?thesis using inspect_elf_spec [OF assms] by blast
qed

theorem inspect_elf_provenance_witness:
  "\<exists>info. inspect_elf bytes_hex sample_elf = Inr info \<and> id_from_file sample_elf (elf_build_id info)
     \<and> list_all (code_from_file bytes_hex sample_elf) (elf_code_sections info)"
proof -
  obtain info where info: "inspect_elf bytes_hex sample_elf = Inr info" and "elf_build_id info \<noteq> []"
    using sample_elf_parses by (metis list.distinct(1))
  with inspect_elf_provenance [OF info] show ?thesis by blast
qed

end
