(* ===== verification/Py_Value.thy ===== *)
theory Py_Value
  imports Py_Prelude
begin

text \<open>
  Python's values as \<open>json\<close> and the dictionaries of the release tools give them, and the text
  operations the tools apply to them. Text is a list of characters; a character stands for a code
  point below 256, which is enough for checks that accept or refuse ASCII characters one by one
  and treat all others alike. Decimal text is given with its printer \<open>dec\<close> and reader
  \<open>dec_value\<close>, which are inverse to each other.
\<close>

section \<open>Values\<close>

text \<open>A dictionary keeps its items in insertion order. A float is its source text.\<close>

datatype pyval =
    PNone
  | PBool bool
  | PInt int
  | PFloat string
  | PStr string
  | PList "pyval list"
  | PDict "(string \<times> pyval) list"

type_synonym pydict = "(string \<times> pyval) list"

text \<open>\<open>d.get(key)\<close>, \<open>d.get(key, default)\<close> and \<open>d[key]\<close>.\<close>

definition dict_get :: "pydict \<Rightarrow> string \<Rightarrow> pyval" where
  "dict_get d key = (case map_of d key of None \<Rightarrow> PNone | Some v \<Rightarrow> v)"

definition dict_get_default :: "pydict \<Rightarrow> string \<Rightarrow> pyval \<Rightarrow> pyval" where
  "dict_get_default d key v = (case map_of d key of None \<Rightarrow> v | Some w \<Rightarrow> w)"

definition dict_item :: "pydict \<Rightarrow> string \<Rightarrow> exn + pyval" where
  "dict_item d key = (case map_of d key of None \<Rightarrow> raise KeyError key | Some v \<Rightarrow> Inr v)"

text \<open>\<open>d[key] = v\<close>: an existing key keeps its place.\<close>

fun dict_set :: "pydict \<Rightarrow> string \<Rightarrow> pyval \<Rightarrow> pydict" where
  "dict_set [] k v = [(k, v)]"
| "dict_set ((k', w) # d) k v = (if k' = k then (k, v) # d else (k', w) # dict_set d k v)"

lemma map_of_dict_set [simp]: "map_of (dict_set d k v) = (map_of d)(k \<mapsto> v)"
  by (induction d k v rule: dict_set.induct) (auto simp: fun_eq_iff)

lemma set_keys_dict_set [simp]: "fst ` set (dict_set d k v) = insert k (fst ` set d)"
  by (induction d k v rule: dict_set.induct) auto

lemma distinct_dict_set [simp]: "distinct (map fst (dict_set d k v)) = distinct (map fst d)"
proof (induction d k v rule: dict_set.induct)
  case (2 k' w d k v)
  have "set (map fst (dict_set d k v)) = insert k (set (map fst d))" by simp
  with 2 show ?case by (auto simp del: set_map)
qed simp

primrec is_str :: "pyval \<Rightarrow> bool" where
  "is_str PNone = False"
| "is_str (PBool b) = False"
| "is_str (PInt i) = False"
| "is_str (PFloat f) = False"
| "is_str (PStr s) = True"
| "is_str (PList xs) = False"
| "is_str (PDict d) = False"

primrec text_of :: "pyval \<Rightarrow> string option" where
  "text_of PNone = None"
| "text_of (PBool b) = None"
| "text_of (PInt i) = None"
| "text_of (PFloat f) = None"
| "text_of (PStr s) = Some s"
| "text_of (PList xs) = None"
| "text_of (PDict d) = None"

text \<open>A list whose elements are all text, the only lists that can equal an allowed one.\<close>

definition texts_of :: "pyval list \<Rightarrow> string list option" where
  "texts_of vs = those (map text_of vs)"

text \<open>\<open>value.get(key) in allowed\<close> for a set of strings: an unhashable value raises.\<close>

definition member_of :: "pyval \<Rightarrow> string list \<Rightarrow> exn + bool" where
  "member_of v allowed = (case v of
      PList xs \<Rightarrow> raise TypeError ''unhashable''
    | PDict d \<Rightarrow> raise TypeError ''unhashable''
    | PStr s \<Rightarrow> Inr (s \<in> set allowed)
    | _ \<Rightarrow> Inr False)"

lemma member_of_True: "member_of v allowed = Inr True \<longleftrightarrow> (\<exists>s. v = PStr s \<and> s \<in> set allowed)"
  by (cases v) (auto simp: member_of_def)

section \<open>Text\<close>

definition ord :: "char \<Rightarrow> nat" where
  "ord c = of_char c"

definition is_digit :: "char \<Rightarrow> bool" where
  "is_digit c \<longleftrightarrow> 48 \<le> ord c \<and> ord c \<le> 57"

definition is_alpha :: "char \<Rightarrow> bool" where
  "is_alpha c \<longleftrightarrow> 65 \<le> ord c \<and> ord c \<le> 90 \<or> 97 \<le> ord c \<and> ord c \<le> 122"

definition is_alnum :: "char \<Rightarrow> bool" where
  "is_alnum c \<longleftrightarrow> is_digit c \<or> is_alpha c"

text \<open>\<open>re.fullmatch(r"[a-f0-9]{n}", s)\<close>.\<close>

definition lower_hex :: "nat \<Rightarrow> string \<Rightarrow> bool" where
  "lower_hex n s \<longleftrightarrow> length s = n \<and> list_all is_lower_hex s"

text \<open>\<open>sub in s\<close>, \<open>s.endswith(sub)\<close>, \<open>s.split(c)\<close>.\<close>

definition contains :: "'a list \<Rightarrow> 'a list \<Rightarrow> bool" where
  "contains sub s \<longleftrightarrow> find_from s sub 0 \<noteq> None"

lemma find_from_None: "find_from xs sub i = None \<longleftrightarrow> \<not> sublist sub xs"
proof (induction xs sub i rule: find_from.induct)
  case (2 x xs sub i)
  then show ?case by (auto simp: sublist_Cons_right)
qed simp

lemma contains_iff: "contains sub s \<longleftrightarrow> sublist sub s"
  using find_from_None [of s sub 0] by (auto simp: contains_def)

definition ends_with :: "'a list \<Rightarrow> 'a list \<Rightarrow> bool" where
  "ends_with sub s \<longleftrightarrow> prefix (rev sub) (rev s)"

lemma ends_with_iff: "ends_with sub s \<longleftrightarrow> suffix sub s"
  by (simp add: ends_with_def suffix_to_prefix)

fun split_on :: "'a \<Rightarrow> 'a list \<Rightarrow> 'a list list" where
  "split_on c [] = [[]]"
| "split_on c (x # xs) =
     (if x = c then [] # split_on c xs
      else case split_on c xs of [] \<Rightarrow> [[x]] | p # ps \<Rightarrow> (x # p) # ps)"

lemma split_on_nonempty [simp]: "split_on c xs \<noteq> []"
  by (induction c xs rule: split_on.induct) (auto split: list.splits)

lemma split_on_hd_empty: "hd (split_on c xs) = [] \<longleftrightarrow> xs = [] \<or> hd xs = c"
  by (cases xs) (auto split: list.splits)

lemma split_on_tl_empty:
  "[] \<in> set (tl (split_on c xs)) \<Longrightarrow> last xs = c \<or> sublist [c, c] xs"
proof (induction xs)
  case (Cons x xs)
  show ?case
  proof (cases "x = c")
    case True
    with Cons.prems have "[] \<in> set (split_on c xs)" by simp
    then have "hd (split_on c xs) = [] \<or> [] \<in> set (tl (split_on c xs))"
      by (cases "split_on c xs") auto
    with Cons.IH True show ?thesis
      by (cases xs) (auto simp: split_on_hd_empty sublist_Cons_right split: list.splits)
  next
    case False
    with Cons.prems have "[] \<in> set (tl (split_on c xs))" by (auto split: list.splits)
    with Cons.IH False show ?thesis
      by (cases xs) (auto simp: sublist_Cons_right split: list.splits)
  qed
qed simp

text \<open>An empty component comes from the ends or from two separators in a row.\<close>

lemma split_on_empty_part:
  assumes "[] \<in> set (split_on c xs)"
  shows "xs = [] \<or> hd xs = c \<or> last xs = c \<or> sublist [c, c] xs"
proof -
  from assms have "hd (split_on c xs) = [] \<or> [] \<in> set (tl (split_on c xs))"
    by (cases "split_on c xs") auto
  then show ?thesis using split_on_hd_empty split_on_tl_empty by metis
qed

text \<open>\<open>s.split(c, n)[n]\<close>: what follows the first \<open>n\<close> separators, if there are so many.\<close>

fun after_separators :: "'a \<Rightarrow> nat \<Rightarrow> 'a list \<Rightarrow> 'a list option" where
  "after_separators c n [] = (if n = 0 then Some [] else None)"
| "after_separators c n (x # xs) =
     (if n = 0 then Some (x # xs) else after_separators c (if x = c then n - 1 else n) xs)"

lemma after_separators_subset: "after_separators c n s = Some t \<Longrightarrow> suffix t s"
  by (induction c n s rule: after_separators.induct) (auto intro: suffix_ConsI split: if_split_asm)

text \<open>\<open>str.strip()\<close> on this range of characters.\<close>

definition text_space :: string where
  "text_space = map char_of [9, 10, 11, 12, 13, 28, 29, 30, 31, 32, 133, 160 :: nat]"

definition text_strip :: "string \<Rightarrow> string" where
  "text_strip s = strip_with text_space s"

text \<open>\<open>s.split()\<close>: the words between runs of blanks.\<close>

definition split_words :: "string \<Rightarrow> string list" where
  "split_words s = filter (\<lambda>w. w \<noteq> [])
     (split_on (CHR 0x20) (map (\<lambda>c. if c \<in> set text_space then CHR 0x20 else c) s))"

text \<open>\<open>s.splitlines(keepends=True)\<close> and \<open>s.splitlines()\<close> on this range of characters.\<close>

definition is_line_end :: "char \<Rightarrow> bool" where
  "is_line_end c \<longleftrightarrow> ord c \<in> set [10, 11, 12, 13, 28, 29, 30, 133]"

fun lines_keep :: "string \<Rightarrow> string list" where
  "lines_keep [] = []"
| "lines_keep [c] = [[c]]"
| "lines_keep (c # d # s) =
     (if is_line_end c \<and> \<not> (ord c = 13 \<and> ord d = 10) then [c] # lines_keep (d # s)
      else case lines_keep (d # s) of [] \<Rightarrow> [[c]] | l # ls \<Rightarrow> (c # l) # ls)"

definition drop_line_end :: "string \<Rightarrow> string" where
  "drop_line_end l =
     (if l = [] then []
      else if length l \<ge> 2 \<and> ord (last l) = 10 \<and> ord (last (butlast l)) = 13 then butlast (butlast l)
      else if is_line_end (last l) then butlast l else l)"

definition split_lines :: "string \<Rightarrow> string list" where
  "split_lines s = map drop_line_end (lines_keep s)"

lemma lines_keep_empty [simp]: "lines_keep s = [] \<longleftrightarrow> s = []"
  by (induction s rule: lines_keep.induct) (auto split: list.splits)

lemma concat_lines_keep [simp]: "concat (lines_keep s) = s"
proof (induction s rule: lines_keep.induct)
  case (3 c d s)
  obtain l ls where "lines_keep (d # s) = l # ls" by (cases "lines_keep (d # s)") auto
  with 3 show ?case by (cases "is_line_end c \<and> \<not> (ord c = 13 \<and> ord d = 10)") auto
qed simp_all

section \<open>Decimal text\<close>

definition digit_char :: "nat \<Rightarrow> char" where
  "digit_char n = char_of (48 + n)"

definition digit_value :: "char \<Rightarrow> nat" where
  "digit_value c = ord c - 48"

text \<open>\<open>str(n)\<close> and \<open>int(s)\<close> for text of ASCII digits.\<close>

fun dec :: "nat \<Rightarrow> string" where
  "dec n = (if n < 10 then [digit_char n] else dec (n div 10) @ [digit_char (n mod 10)])"

declare dec.simps [simp del]

definition dec_value :: "string \<Rightarrow> nat" where
  "dec_value s = foldl (\<lambda>n c. 10 * n + digit_value c) 0 s"

lemma ord_digit_char [simp]: "n < 10 \<Longrightarrow> ord (digit_char n) = 48 + n"
  by (simp add: ord_def digit_char_def)

lemma digit_value_char [simp]: "n < 10 \<Longrightarrow> digit_value (digit_char n) = n"
  by (simp add: digit_value_def)

lemma is_digit_char [simp]: "n < 10 \<Longrightarrow> is_digit (digit_char n)"
  by (simp add: is_digit_def)

lemma dec_value_dec [simp]: "dec_value (dec n) = n"
proof (induction n rule: dec.induct)
  case (1 n)
  then show ?case
    by (subst dec.simps) (auto simp: dec_value_def)
qed

lemma dec_digits: "list_all is_digit (dec n)"
proof (induction n rule: dec.induct)
  case (1 n)
  then show ?case by (subst dec.simps) simp
qed

lemma dec_nonempty [simp]: "dec n \<noteq> []"
  by (subst dec.simps) simp

lemma dec_head: "0 < n \<Longrightarrow> digit_value (hd (dec n)) \<noteq> 0"
proof (induction n rule: dec.induct)
  case (1 n)
  then show ?case by (subst dec.simps) (auto simp: hd_append)
qed

lemma dec_length: "n < 10 ^ k \<Longrightarrow> 0 < k \<Longrightarrow> length (dec n) \<le> k"
proof (induction n arbitrary: k rule: dec.induct)
  case (1 n)
  show ?case
  proof (cases "n < 10")
    case True
    then show ?thesis using 1(3) by (subst dec.simps) simp
  next
    case False
    then have "k \<noteq> 1" using 1(2) by auto
    then have k: "k = Suc (k - 1)" "0 < k - 1" using 1(3) by simp_all
    obtain j where k: "k = Suc j" "0 < j" using k by blast
    then have "n div 10 < 10 ^ j" using 1(2) by (simp add: less_mult_imp_div_less mult.commute)
    with 1(1) [OF False] k False show ?thesis by (subst dec.simps) simp
  qed
qed

definition int_text :: "int \<Rightarrow> string" where
  "int_text i = (if i < 0 then ''-'' @ dec (nat (- i)) else dec (nat i))"

text \<open>\<open>sep.join(parts)\<close>.\<close>

fun join :: "string \<Rightarrow> string list \<Rightarrow> string" where
  "join sep [] = []"
| "join sep [p] = p"
| "join sep (p # q # ps) = p @ sep @ join sep (q # ps)"

end
