(* ===== verification/Release_Request.thy ===== *)
theory Release_Request
  imports Py_Value
begin

text \<open>
  \<open>tool/release_request.py\<close>: public release requests are normalised and policy is read from the
  pinned source. Events and configuration are JSON values, the environment is a map, the file
  system is a map from paths to contents, the JSON syntax and \<open>git rev-parse HEAD\<close> are parameters
  (\<open>parse\<close>, \<open>head\<close>). The locale \<open>text_gate\<close> is the contract of the three functions that check one
  piece of text; what is written to the Actions output rests on it.
\<close>

section \<open>Constants\<close>

definition REPOSITORY :: string where
  "REPOSITORY = ''wvjh3z/XFlClash''"

definition TARGETS :: "string list" where
  "TARGETS = [''android'', ''windows-amd64'', ''linux-amd64'', ''linux-arm64'', ''macos-amd64'', ''macos-arm64'',
     ''desktop'', ''desktop-except-linux-amd64'', ''all'']"

definition FLAVORS :: "string list" where
  "FLAVORS = [''brand_a'', ''brand_b'']"

definition MAX_BUILD_NUMBER :: nat where
  "MAX_BUILD_NUMBER = 65535"

definition PUBLIC_DEFAULTS :: pydict where
  "PUBLIC_DEFAULTS = [(''flavor'', PStr ''brand_a''), (''target'', PStr ''android''),
     (''build_number'', PStr []), (''upload'', PBool False)]"

type_synonym environment = "string \<Rightarrow> string option"

text \<open>\<open>env.get(key, "")\<close>.\<close>

definition env_text :: "environment \<Rightarrow> string \<Rightarrow> string" where
  "env_text env key = (case env key of None \<Rightarrow> [] | Some v \<Rightarrow> v)"

section \<open>Checked text\<close>

definition source_sha :: "pyval \<Rightarrow> exn + string" where
  "source_sha value =
     (case value of
        PStr s \<Rightarrow> if lower_hex 40 s then Inr s else raise RequestError ''Invalid release source SHA''
      | _ \<Rightarrow> raise RequestError ''Invalid release source SHA'')"

definition ref_char_bad :: "char \<Rightarrow> bool" where
  "ref_char_bad c \<longleftrightarrow> ord c < 33 \<or> ord c = 127 \<or> c \<in> set (''~^:?*['' @ [char_of (92 :: nat)])"

text \<open>The constraints of \<open>git check-ref-format\<close> on the part after \<open>refs/heads/\<close> or \<open>refs/tags/\<close>.\<close>

definition ref_name_bad :: "string \<Rightarrow> bool" where
  "ref_name_bad name \<longleftrightarrow>
     name = [] \<or> prefix ''/'' name \<or> ends_with ''/'' name \<or> ends_with ''.'' name
     \<or> contains ''//'' name \<or> contains ''..'' name \<or> contains [CHR ''@'', CHR 0x7B] name
     \<or> list_ex ref_char_bad name
     \<or> list_ex (\<lambda>part. prefix ''.'' part \<or> ends_with ''.lock'' part) (split_on (CHR ''/'') name)"

definition source_ref :: "pyval \<Rightarrow> exn + string" where
  "source_ref value =
     (case value of
        PStr s \<Rightarrow>
          if length s > 1024 \<or> \<not> (prefix ''refs/heads/'' s \<or> prefix ''refs/tags/'' s)
          then raise RequestError ''Release source requires a branch or tag reference''
          else (case after_separators (CHR ''/'') 2 s of
              None \<Rightarrow> raise IndexError ''list index out of range''
            | Some name \<Rightarrow>
                if ref_name_bad name then raise RequestError ''Invalid release source reference''
                else Inr s)
      | _ \<Rightarrow> raise RequestError ''Release source requires a branch or tag reference'')"

text \<open>\<open>re.fullmatch(r"[1-9][0-9]{0,k}", s)\<close>.\<close>

definition positive_decimal :: "nat \<Rightarrow> string \<Rightarrow> bool" where
  "positive_decimal k s \<longleftrightarrow>
     s \<noteq> [] \<and> length s \<le> Suc k \<and> list_all is_digit s \<and> hd s \<noteq> CHR ''0''"

definition requested_number :: "pyval \<Rightarrow> exn + string" where
  "requested_number value =
     (case value of
        PNone \<Rightarrow> Inr []
      | PStr s \<Rightarrow>
          if s = [] then Inr []
          else if \<not> positive_decimal 4 s \<or> dec_value s > MAX_BUILD_NUMBER
          then raise RequestError ''Build number must be an integer from 1 to 65535''
          else Inr s
      | _ \<Rightarrow> raise RequestError ''Build number must be an integer from 1 to 65535'')"

section \<open>Requests\<close>

record request =
  rq_flavor :: string
  rq_target :: string
  rq_requested_number :: string
  rq_upload :: string
  rq_source_sha :: string
  rq_source_ref :: string

text \<open>\<open>value in choices\<close> for a tuple of strings.\<close>

definition text_choice :: "pyval \<Rightarrow> string list \<Rightarrow> string option" where
  "text_choice value choices =
     (case value of PStr s \<Rightarrow> if s \<in> set choices then Some s else None | _ \<Rightarrow> None)"

text \<open>The text forms of a Boolean are accepted beside the Booleans themselves.\<close>

definition upload_option :: "pyval \<Rightarrow> exn + bool" where
  "upload_option value =
     (case value of
        PStr s \<Rightarrow> if s = ''true'' then Inr True else if s = ''false'' then Inr False
                 else raise RequestError ''Invalid release upload option''
      | PBool b \<Rightarrow> Inr b
      | _ \<Rightarrow> raise RequestError ''Invalid release upload option'')"

definition normalize_inputs :: "pydict \<Rightarrow> environment \<Rightarrow> exn + request" where
  "normalize_inputs supplied env =
     (if \<not> list_all (\<lambda>k. k \<in> set (map fst PUBLIC_DEFAULTS)) (map fst supplied)
      then raise RequestError ''Invalid public release input fields''
      else let value = (\<lambda>k. dict_get_default supplied k (dict_get PUBLIC_DEFAULTS k)) in
        case (text_choice (value ''flavor'') FLAVORS, text_choice (value ''target'') TARGETS) of
          (Some flavor, Some target) \<Rightarrow>
            rbind (requested_number (value ''build_number'')) (\<lambda>number.
            rbind (upload_option (value ''upload'')) (\<lambda>upload.
            rbind (source_sha (PStr (env_text env ''GITHUB_SHA''))) (\<lambda>sha.
            rbind (source_ref (PStr (env_text env ''GITHUB_REF''))) (\<lambda>ref.
              Inr \<lparr>rq_flavor = flavor, rq_target = target, rq_requested_number = number,
                   rq_upload = (if upload then ''true'' else ''false''),
                   rq_source_sha = sha, rq_source_ref = ref\<rparr>))))
        | _ \<Rightarrow> raise RequestError ''Invalid release brand or target'')"

definition normalize :: "pyval \<Rightarrow> environment \<Rightarrow> exn + request" where
  "normalize event env =
     (if env ''GITHUB_REPOSITORY'' \<noteq> Some REPOSITORY
      then raise RequestError ''Release requests are restricted to this repository''
      else case event of
        PDict d \<Rightarrow>
          if env ''GITHUB_EVENT_NAME'' \<noteq> Some ''workflow_dispatch''
          then raise RequestError ''Unsupported release event''
          else (case dict_get_default d ''inputs'' (PDict []) of
              PDict supplied \<Rightarrow> normalize_inputs supplied env
            | _ \<Rightarrow> raise RequestError ''Invalid public release input fields'')
      | _ \<Rightarrow> raise RequestError ''Invalid release event'')"

definition request_outputs :: "request \<Rightarrow> (string \<times> string) list" where
  "request_outputs r =
     [(''flavor'', rq_flavor r), (''target'', rq_target r), (''requested_number'', rq_requested_number r),
      (''upload'', rq_upload r), (''source_sha'', rq_source_sha r), (''source_ref'', rq_source_ref r)]"

section \<open>Configuration of the pinned source\<close>

text \<open>\<open>head\<close> is the output of \<open>git rev-parse HEAD\<close> or the exception running it raised.\<close>

definition check_source_checkout :: "exn + string \<Rightarrow> string \<Rightarrow> exn + unit" where
  "check_source_checkout head expected =
     rbind (source_sha (PStr expected)) (\<lambda>sha.
       case head of
         Inl e \<Rightarrow>
           if exn_class_of e \<in> {OSError, SubprocessError}
           then raise RequestError ''Release source checkout is unavailable'' else Inl e
       | Inr out \<Rightarrow>
           if text_strip out \<noteq> sha
           then raise RequestError ''Release source checkout differs from the requested snapshot''
           else Inr ())"

text \<open>The hook \<open>unique_object\<close> refuses a repeated key; \<open>json\<close> applies it to every object, innermost first.\<close>

definition unique_object :: "pydict \<Rightarrow> exn + pydict" where
  "unique_object pairs =
     foldE (\<lambda>result (key, v). if key \<in> set (map fst result) then raise ValueError [] else Inr (dict_set result key v))
       [] pairs"

lemma traverse_cong [fundef_cong]:
  "xs = ys \<Longrightarrow> (\<And>x. x \<in> set ys \<Longrightarrow> f x = g x) \<Longrightarrow> traverse f xs = traverse g ys"
proof (induction xs arbitrary: ys)
  case (Cons x xs)
  then show ?case by (cases ys) auto
qed simp

fun decode_unique :: "pyval \<Rightarrow> exn + pyval" where
  "decode_unique (PList xs) = rbind (traverse decode_unique xs) (\<lambda>ys. Inr (PList ys))"
| "decode_unique (PDict pairs) =
     rbind (traverse (\<lambda>p. rbind (decode_unique (snd p)) (\<lambda>v. Inr (fst p, v))) pairs) (\<lambda>kvs.
     rbind (unique_object kvs) (\<lambda>d. Inr (PDict d)))"
| "decode_unique v = Inr v"

definition READ_FAILED :: string where
  "READ_FAILED = ''Release JSON configuration or event is unavailable or invalid''"

definition read_json ::
    "(string \<Rightarrow> bytes option) \<Rightarrow> (bytes \<Rightarrow> pyval option) \<Rightarrow> string \<Rightarrow> exn + pyval" where
  "read_json files parse path =
     (case files path of
        None \<Rightarrow> raise RequestError READ_FAILED
      | Some data \<Rightarrow>
          if length data > 65536 then raise RequestError READ_FAILED
          else case parse data of
            None \<Rightarrow> raise RequestError READ_FAILED
          | Some raw \<Rightarrow> (case decode_unique raw of
                Inl e \<Rightarrow> raise RequestError READ_FAILED
              | Inr v \<Rightarrow> Inr v))"

text \<open>A pinned commit, or an explicit tag that passes the reference check.\<close>

definition sdk_reference :: "pyval \<Rightarrow> exn + string" where
  "sdk_reference value =
     (case value of
        PStr s \<Rightarrow>
          if lower_hex 40 s then Inr s
          else if \<not> prefix ''refs/tags/'' s
          then raise RequestError ''Release SDK requires a fixed commit or explicit tag''
          else rbind (source_ref (PStr s)) (\<lambda>_. Inr s)
      | _ \<Rightarrow> raise RequestError ''Release SDK requires a fixed commit or explicit tag'')"

definition verify_policy :: "pyval \<Rightarrow> exn + string" where
  "verify_policy value =
     (case value of
        PBool b \<Rightarrow> Inr (if b then ''true'' else ''false'')
      | _ \<Rightarrow> raise RequestError ''Invalid release symbolication policy'')"

text \<open>The result is the pair of \<open>sdk_ref\<close> and the text of \<open>verify_symbolication\<close>.\<close>

definition config_values :: "pydict \<Rightarrow> exn + (string \<times> string)" where
  "config_values d =
     (if set (map fst d) \<noteq> {''sdk_ref'', ''verify_symbolication''}
      then raise RequestError ''Invalid release configuration schema''
      else rbind (sdk_reference (dict_get d ''sdk_ref'')) (\<lambda>sdk.
        rbind (verify_policy (dict_get d ''verify_symbolication'')) (\<lambda>verify. Inr (sdk, verify))))"

definition config ::
    "exn + string \<Rightarrow> exn + pyval \<Rightarrow> environment \<Rightarrow> exn + (string \<times> string)" where
  "config head configuration env =
     rbind (check_source_checkout head (env_text env ''BUILD_SOURCE_SHA'')) (\<lambda>_.
     rbind configuration (\<lambda>vals.
       case vals of
         PDict d \<Rightarrow> config_values d
       | _ \<Rightarrow> raise RequestError ''Invalid release configuration schema''))"

section \<open>The command\<close>

datatype action = Normalize | Config

text \<open>What is appended to the file \<open>GITHUB_OUTPUT\<close>: one \<open>key=value\<close> line per item.\<close>

definition output_text :: "(string \<times> string) list \<Rightarrow> string" where
  "output_text vals = concat (map (\<lambda>(k, v). k @ ''='' @ v @ [CHR 0x0A]) vals)"

text \<open>
  The items the command writes. \<open>root_config\<close> is the path \<open>tool/release-config.json\<close> of the project
  root.
\<close>

definition main_values ::
    "action \<Rightarrow> environment \<Rightarrow> (string \<Rightarrow> bytes option) \<Rightarrow> (bytes \<Rightarrow> pyval option) \<Rightarrow> exn + string \<Rightarrow> string
     \<Rightarrow> exn + (string \<times> string) list" where
  "main_values act env files parse head root_config =
     (case act of
        Normalize \<Rightarrow> (case env ''GITHUB_EVENT_PATH'' of
            None \<Rightarrow> raise KeyError ''GITHUB_EVENT_PATH''
          | Some path \<Rightarrow> rbind (read_json files parse path) (\<lambda>event.
              rbind (normalize event env) (\<lambda>r. Inr (request_outputs r))))
      | Config \<Rightarrow> rbind (config head (read_json files parse root_config) env) (\<lambda>(sdk, verify).
          Inr [(''sdk_ref'', sdk), (''verify_symbolication'', verify)]))"

text \<open>
  The exit code and what was appended, if anything; \<open>writable\<close> says which files can be opened for
  appending.
\<close>

definition request_main ::
    "action \<Rightarrow> environment \<Rightarrow> (string \<Rightarrow> bytes option) \<Rightarrow> (bytes \<Rightarrow> pyval option) \<Rightarrow> exn + string \<Rightarrow> string
     \<Rightarrow> (string \<Rightarrow> bool) \<Rightarrow> exn + (nat \<times> (string \<times> string) option)" where
  "request_main act env files parse head root_config writable =
     (let written = rbind (main_values act env files parse head root_config) (\<lambda>vals.
            case env ''GITHUB_OUTPUT'' of
              None \<Rightarrow> raise KeyError ''GITHUB_OUTPUT''
            | Some path \<Rightarrow> if \<not> writable path then raise OSError path else Inr (path, output_text vals)) in
      case written of
        Inr w \<Rightarrow> Inr (0, Some w)
      | Inl e \<Rightarrow> if exn_class_of e \<in> {RequestError, OSError, KeyError} then Inr (1, None) else Inl e)"

section \<open>The contract of a text check\<close>

text \<open>No character that could start another line or field of the Actions output file.\<close>

definition one_line :: "string \<Rightarrow> bool" where
  "one_line s \<longleftrightarrow> list_all (\<lambda>c. 33 \<le> ord c) s"

text \<open>
  A gate answers with the text it was given, which it accepts again, on one line, and refuses with
  \<open>RequestError\<close> only.
\<close>

locale text_gate =
  fixes gate :: "pyval \<Rightarrow> exn + string"
  assumes accepted_again: "gate v = Inr s \<Longrightarrow> gate (PStr s) = Inr s"
    and accepted_one_line: "gate v = Inr s \<Longrightarrow> one_line s"
    and refuses: "raises_only {RequestError} (gate v)"
begin

lemma accepted_no_newline: "gate v = Inr s \<Longrightarrow> CHR 0x0A \<notin> set s"
  using accepted_one_line [of v s] by (auto simp: one_line_def list_all_iff ord_def)

lemma gate_cases:
  obtains s where "gate v = Inr s" "gate (PStr s) = Inr s" | e where "gate v = Inl e" "exn_class_of e = RequestError"
  using refuses [of v] accepted_again [of v]
  by (cases "gate v") (auto simp: raises_only_def)

end

lemma ord_digit: "is_digit c \<Longrightarrow> 33 \<le> ord c"
  by (simp add: is_digit_def)

lemma ord_lower_hex: "is_lower_hex c \<Longrightarrow> 33 \<le> ord c"
  by (auto simp: is_lower_hex_def ord_def Let_def)

lemma lower_hex_one_line: "lower_hex n s \<Longrightarrow> one_line s"
  by (auto simp: lower_hex_def one_line_def list_all_iff intro: ord_lower_hex)

lemma source_sha_Inr: "source_sha v = Inr s \<longleftrightarrow> v = PStr s \<and> lower_hex 40 s"
  by (cases v) (auto simp: source_sha_def)

interpretation sha: text_gate source_sha
proof
  show "raises_only {RequestError} (source_sha v)" for v
    by (cases v) (auto simp: source_sha_def)
qed (auto simp: source_sha_Inr intro: lower_hex_one_line)

text \<open>Behind a branch or tag prefix there is always a name.\<close>

lemma ref_name: 
  "prefix ''refs/heads/'' s \<Longrightarrow> after_separators (CHR ''/'') 2 s = Some (drop 11 s)"
  "prefix ''refs/tags/'' s \<Longrightarrow> after_separators (CHR ''/'') 2 s = Some (drop 10 s)"
proof -
  have "after_separators c 0 xs = Some xs" for c :: char and xs by (cases xs) auto
  then show
    "prefix ''refs/heads/'' s \<Longrightarrow> after_separators (CHR ''/'') 2 s = Some (drop 11 s)"
    "prefix ''refs/tags/'' s \<Longrightarrow> after_separators (CHR ''/'') 2 s = Some (drop 10 s)"
    by (auto simp: prefix_def)
qed

lemma source_ref_Inr:
  "source_ref v = Inr s \<longleftrightarrow> v = PStr s \<and> length s \<le> 1024 \<and>
     (prefix ''refs/heads/'' s \<and> \<not> ref_name_bad (drop 11 s) \<or> prefix ''refs/tags/'' s \<and> \<not> ref_name_bad (drop 10 s))"
  by (cases v) (auto simp: source_ref_def ref_name not_less)

lemma name_one_line: "\<not> ref_name_bad name \<Longrightarrow> one_line name"
  by (auto simp: ref_name_bad_def one_line_def list_all_iff list_ex_iff ref_char_bad_def not_less)

lemma literal_one_line: "one_line ''refs/heads/''" "one_line ''refs/tags/''"
  by code_simp+

lemma one_line_append [simp]: "one_line (a @ b) \<longleftrightarrow> one_line a \<and> one_line b"
  by (simp add: one_line_def)

lemma prefixed_one_line:
  "prefix p s \<Longrightarrow> n = length p \<Longrightarrow> one_line p \<Longrightarrow> one_line (drop n s) \<Longrightarrow> one_line s"
  by (auto simp: prefix_def)

interpretation ref: text_gate source_ref
proof
  fix v s assume ok: "source_ref v = Inr s"
  then show "source_ref (PStr s) = Inr s" by (simp add: source_ref_Inr)
  from ok show "one_line s"
    using prefixed_one_line [of "''refs/heads/''" s 11] prefixed_one_line [of "''refs/tags/''" s 10]
    by (auto simp: source_ref_Inr literal_one_line dest!: name_one_line)
next
  show "raises_only {RequestError} (source_ref v)" for v
    by (cases v) (auto simp: source_ref_def ref_name)
qed

lemma requested_number_Inr:
  "requested_number v = Inr s \<longleftrightarrow> s = [] \<and> (v = PNone \<or> v = PStr [])
     \<or> v = PStr s \<and> positive_decimal 4 s \<and> dec_value s \<le> MAX_BUILD_NUMBER"
  by (cases v) (auto simp: requested_number_def positive_decimal_def not_less)

interpretation number: text_gate requested_number
proof
  fix v s assume "requested_number v = Inr s"
  then show "requested_number (PStr s) = Inr s" "one_line s"
    by (auto simp: requested_number_Inr positive_decimal_def one_line_def list_all_iff intro: ord_digit)
next
  show "raises_only {RequestError} (requested_number v)" for v
    by (cases v) (auto simp: requested_number_def)
qed

lemma ref_name_parts:
  assumes ok: "\<not> ref_name_bad name"
  shows "list_all (\<lambda>part. part \<noteq> [] \<and> hd part \<noteq> CHR ''.'' \<and> \<not> suffix ''.lock'' part) (split_on (CHR ''/'') name)"
proof -
  have "[] \<notin> set (split_on (CHR ''/'') name)"
  proof
    assume "[] \<in> set (split_on (CHR ''/'') name)"
    then have "name = [] \<or> hd name = CHR ''/'' \<or> last name = CHR ''/'' \<or> sublist ''//'' name"
      by (rule split_on_empty_part)
    moreover have "name \<noteq> []" "\<not> prefix ''/'' name" "\<not> suffix ''/'' name" "\<not> sublist ''//'' name"
      using ok by (simp_all add: ref_name_bad_def contains_iff ends_with_iff)
    moreover from this have "hd name \<noteq> CHR ''/''" by (cases name) auto
    ultimately show False
      using append_butlast_last_id [of name] unfolding suffix_def by metis
  qed
  moreover have "\<forall>part \<in> set (split_on (CHR ''/'') name). \<not> prefix ''.'' part \<and> \<not> suffix ''.lock'' part"
    using ok by (simp add: ref_name_bad_def list_ex_iff ends_with_iff)
  moreover have "hd part \<noteq> CHR ''.''" if "part \<noteq> []" "\<not> prefix ''.'' part" for part
    using that by (cases part) auto
  ultimately show ?thesis unfolding list_all_iff by metis
qed

lemma source_ref_name:
  assumes "source_ref v = Inr s"
  obtains name where "s = ''refs/heads/'' @ name \<or> s = ''refs/tags/'' @ name" "\<not> ref_name_bad name"
proof -
  from assms consider "prefix ''refs/heads/'' s" "\<not> ref_name_bad (drop 11 s)"
    | "prefix ''refs/tags/'' s" "\<not> ref_name_bad (drop 10 s)"
    unfolding source_ref_Inr by blast
  then show thesis
  proof cases
    case 1
    then obtain n where "s = ''refs/heads/'' @ n" by (auto elim: prefixE)
    with 1 that show thesis by simp
  next
    case 2
    then obtain n where "s = ''refs/tags/'' @ n" by (auto elim: prefixE)
    with 2 that show thesis by simp
  qed
qed

section \<open>Accepted requests\<close>

lemma normalize_Inr:
  assumes "normalize event env = Inr r"
  shows "rq_flavor r \<in> set FLAVORS \<and> rq_target r \<in> set TARGETS \<and> rq_upload r \<in> {''true'', ''false''}
    \<and> requested_number (PStr (rq_requested_number r)) = Inr (rq_requested_number r)
    \<and> source_sha (PStr (env_text env ''GITHUB_SHA'')) = Inr (rq_source_sha r)
    \<and> source_ref (PStr (env_text env ''GITHUB_REF'')) = Inr (rq_source_ref r)
    \<and> env ''GITHUB_REPOSITORY'' = Some REPOSITORY \<and> env ''GITHUB_EVENT_NAME'' = Some ''workflow_dispatch''"
proof -
  have choice: "s \<in> set cs" if "text_choice v cs = Some s" for v cs s
    using that by (auto simp: text_choice_def split: pyval.splits if_split_asm)
  obtain supplied where "normalize_inputs supplied env = Inr r"
    and env: "env ''GITHUB_REPOSITORY'' = Some REPOSITORY" "env ''GITHUB_EVENT_NAME'' = Some ''workflow_dispatch''"
    using assms by (auto simp: normalize_def split: pyval.splits if_split_asm)
  then obtain f t v number b sha ref where "text_choice f FLAVORS = Some (rq_flavor r)"
    "text_choice t TARGETS = Some (rq_target r)" "requested_number v = Inr (rq_requested_number r)"
    "rq_upload r = (if b then ''true'' else ''false'')"
    "source_sha (PStr (env_text env ''GITHUB_SHA'')) = Inr (rq_source_sha r)"
    "source_ref (PStr (env_text env ''GITHUB_REF'')) = Inr (rq_source_ref r)"
    by (auto simp: normalize_inputs_def Let_def split: if_split_asm option.splits)
  with env show ?thesis by (auto dest: choice number.accepted_again)
qed

lemma normalize_raises: "raises_only {RequestError} (normalize event env)"
proof -
  have up: "raises_only {RequestError} (upload_option v)" for v
    by (cases v) (auto simp: upload_option_def)
  show ?thesis
    unfolding normalize_def normalize_inputs_def Let_def
    by (auto split: pyval.split option.split prod.split
        intro!: raises_intros up sha.refuses ref.refuses number.refuses)
qed

text \<open>The event that asks for an accepted request again, as a caller that stored its outputs would.\<close>

definition event_of :: "request \<Rightarrow> pyval" where
  "event_of r = PDict [(''inputs'', PDict [(''flavor'', PStr (rq_flavor r)), (''target'', PStr (rq_target r)),
     (''build_number'', PStr (rq_requested_number r)), (''upload'', PStr (rq_upload r))])]"

lemma normalize_event_of:
  assumes "normalize event env = Inr r"
  shows "normalize (event_of r) env = Inr r"
proof -
  have "text_choice (PStr s) cs = Some s" if "s \<in> set cs" for s cs
    using that by (simp add: text_choice_def)
  moreover have "upload_option (PStr s) = Inr (s = ''true'')" if "s \<in> {''true'', ''false''}" for s
    using that by (auto simp: upload_option_def)
  ultimately show ?thesis
    using normalize_Inr [OF assms]
    by (auto simp: normalize_def event_of_def normalize_inputs_def PUBLIC_DEFAULTS_def dict_get_default_def)
qed

section \<open>The Actions output\<close>

lemma split_on_line: "c \<notin> set a \<Longrightarrow> split_on c (a @ c # b) = a # split_on c b"
  by (induction a) auto

lemma output_text_lines:
  assumes "list_all (\<lambda>(k, v). one_line k \<and> one_line v) vals"
  shows "split_on (CHR 0x0A) (output_text vals) = map (\<lambda>(k, v). k @ ''='' @ v) vals @ [[]]"
  using assms
proof (induction vals)
  case (Cons p ps)
  obtain k v where p: "p = (k, v)" by (cases p)
  have free: "CHR 0x0A \<notin> set (k @ ''='' @ v)"
    using Cons.prems by (auto simp: p one_line_def list_all_iff ord_def)
  have "output_text (p # ps) = (k @ ''='' @ v) @ CHR 0x0A # output_text ps"
    by (simp add: output_text_def p)
  with Cons split_on_line [OF free, of "output_text ps"] show ?case by (simp add: p)
qed (simp add: output_text_def)

lemma choices_one_line: "list_all one_line FLAVORS" "list_all one_line TARGETS" "one_line ''true''" "one_line ''false''"
  by code_simp+

lemma keys_one_line:
  "list_all one_line [''flavor'', ''target'', ''requested_number'', ''upload'', ''source_sha'', ''source_ref'',
     ''sdk_ref'', ''verify_symbolication'']"
  by code_simp

lemma request_outputs_one_line:
  assumes "normalize event env = Inr r"
  shows "list_all (\<lambda>(k, v). one_line k \<and> one_line v) (request_outputs r)"
  using normalize_Inr [OF assms] keys_one_line choices_one_line
  by (auto simp: request_outputs_def list_all_iff
      dest: number.accepted_one_line sha.accepted_one_line ref.accepted_one_line)

lemma config_Inr:
  assumes "config head configuration env = Inr (sdk, verify)"
  shows "one_line sdk \<and> verify \<in> {''true'', ''false''} \<and> (lower_hex 40 sdk \<or> source_ref (PStr sdk) = Inr sdk)"
proof -
  have policy: "w \<in> {''true'', ''false''}" if "verify_policy v = Inr w" for v w
    using that by (cases v) (auto simp: verify_policy_def split: if_split_asm)
  obtain vals where "(case vals of PDict d \<Rightarrow> config_values d
      | _ \<Rightarrow> raise RequestError ''Invalid release configuration schema'') = Inr (sdk, verify)"
    using assms unfolding config_def rbind_eq_Inr by blast
  then obtain d where "config_values d = Inr (sdk, verify)" by (cases vals) auto
  then obtain v where sdk: "sdk_reference v = Inr sdk" and "verify \<in> {''true'', ''false''}"
    by (auto simp: config_values_def split: if_split_asm dest: policy)
  moreover have "lower_hex 40 sdk \<or> source_ref (PStr sdk) = Inr sdk"
    using sdk by (cases v) (auto simp: sdk_reference_def source_ref_Inr split: if_split_asm)
  ultimately show ?thesis
    by (auto dest: lower_hex_one_line ref.accepted_one_line)
qed

lemma read_json_raises: "raises_only {RequestError} (read_json files parse path)"
  unfolding read_json_def
  by (auto split: option.split sum.split intro!: raises_intros)

lemma config_raises:
  assumes "raises_only {OSError, SubprocessError} head" and "raises_only {RequestError} configuration"
  shows "raises_only {RequestError} (config head configuration env)"
proof -
  have checkout: "raises_only {RequestError} (check_source_checkout head sha)" for sha
    using assms(1) sha.refuses unfolding check_source_checkout_def
    by (intro raises_intros) (auto simp: raises_only_def split: sum.split)
  have sdk: "raises_only {RequestError} (sdk_reference v)" for v
    by (cases v) (auto simp: sdk_reference_def intro!: raises_intros ref.refuses)
  have policy: "raises_only {RequestError} (verify_policy v)" for v
    by (cases v) (auto simp: verify_policy_def)
  show ?thesis
    unfolding config_def config_values_def
    by (auto split: pyval.split intro!: raises_intros checkout sdk policy assms(2))
qed

text \<open>The keys each action writes.\<close>

definition output_keys :: "action \<Rightarrow> string list" where
  "output_keys act = (case act of
       Normalize \<Rightarrow> [''flavor'', ''target'', ''requested_number'', ''upload'', ''source_sha'', ''source_ref'']
     | Config \<Rightarrow> [''sdk_ref'', ''verify_symbolication''])"

lemma main_values_raise:
  assumes "raises_only {OSError, SubprocessError} head"
  shows "raises_only {RequestError, KeyError} (main_values act env files parse head root_config)"
  using read_json_raises normalize_raises config_raises [OF assms read_json_raises]
  unfolding main_values_def
  by (auto split: action.split option.split prod.split
      intro!: raises_intros intro: raises_only_mono [where C = "{RequestError}"])

lemma main_values_lines:
  assumes "main_values act env files parse head root_config = Inr vs"
  shows "map fst vs = output_keys act
    \<and> split_on (CHR 0x0A) (output_text vs) = map (\<lambda>(k, v). k @ ''='' @ v) vs @ [[]]"
proof (cases act)
  case Normalize
  with assms obtain event r where "normalize event env = Inr r" "vs = request_outputs r"
    by (auto simp: main_values_def split: option.splits)
  with Normalize output_text_lines [OF request_outputs_one_line] show ?thesis
    by (simp add: request_outputs_def output_keys_def)
next
  case Config
  with assms obtain sdk verify where "config head (read_json files parse root_config) env = Inr (sdk, verify)"
    and vs: "vs = [(''sdk_ref'', sdk), (''verify_symbolication'', verify)]"
    by (auto simp: main_values_def)
  then have "list_all (\<lambda>(k, v). one_line k \<and> one_line v) vs"
    using config_Inr keys_one_line choices_one_line by fastforce
  with Config output_text_lines vs show ?thesis by (simp add: output_keys_def)
qed

section \<open>Repeated keys\<close>

fun keys_unique :: "pyval \<Rightarrow> bool" where
  "keys_unique (PList xs) = list_all keys_unique xs"
| "keys_unique (PDict d) = (distinct (map fst d) \<and> list_all (\<lambda>p. keys_unique (snd p)) d)"
| "keys_unique v = True"

lemma unique_object_Inr:
  assumes "unique_object pairs = Inr d"
  shows "d = pairs \<and> distinct (map fst pairs)"
proof -
  let ?f = "\<lambda>result (key, v). if key \<in> set (map fst result) then raise ValueError [] else Inr (dict_set result key v)"
  have fresh: "dict_set d k v = d @ [(k, v)]" if "k \<notin> fst ` set d" for d k and v :: pyval
    using that by (induction d k v rule: dict_set.induct) auto
  have "foldE ?f [] pairs = Inr d" using assms by (simp add: unique_object_def)
  then show ?thesis
  proof (rule foldE_indexed [where P = "\<lambda>ys d. d = ys \<and> distinct (map fst ys)"], goal_cases)
    case (2 ys s x t)
    obtain k v where x: "x = (k, v)" by (cases x)
    with 2(3) have new: "k \<notin> set (map fst s)" "t = dict_set s k v" by (auto split: if_split_asm)
    with 2(2) fresh [of k s v] show ?case by (simp add: x)
  qed simp
qed

lemma decode_unique_keys: "decode_unique v = Inr w \<Longrightarrow> keys_unique w"
proof (induction v arbitrary: w rule: decode_unique.induct)
  case (1 xs)
  then obtain ys where "traverse decode_unique xs = Inr ys" "w = PList ys" by auto
  with 1 show ?case by (auto simp: list_all_iff dest!: traverse_set)
next
  case (2 pairs)
  then obtain kvs d where kvs: "traverse (\<lambda>p. rbind (decode_unique (snd p)) (\<lambda>v. Inr (fst p, v))) pairs = Inr kvs"
    and d: "unique_object kvs = Inr d" "w = PDict d" by auto
  have "keys_unique (snd p)" if "p \<in> set kvs" for p
    using traverse_set [OF kvs that] 2(1) by auto
  with unique_object_Inr [OF d(1)] d(2) show ?case by (auto simp: list_all_iff)
qed auto

section \<open>A sample request\<close>

definition sample_env :: environment where
  "sample_env = (\<lambda>_. None)
     (''GITHUB_REPOSITORY'' := Some ''wvjh3z/XFlClash'', ''GITHUB_EVENT_NAME'' := Some ''workflow_dispatch'',
      ''GITHUB_SHA'' := Some ''0123456789abcdef0123456789abcdef01234567'',
      ''GITHUB_REF'' := Some ''refs/heads/main'', ''GITHUB_OUTPUT'' := Some ''out'',
      ''GITHUB_EVENT_PATH'' := Some ''event'')"

definition sample_event :: pyval where
  "sample_event = PDict [(''inputs'', PDict [(''target'', PStr ''all''), (''build_number'', PStr ''17''),
     (''upload'', PStr ''true'')])]"

definition sample_request :: request where
  "sample_request = \<lparr>rq_flavor = ''brand_a'', rq_target = ''all'', rq_requested_number = ''17'',
     rq_upload = ''true'', rq_source_sha = ''0123456789abcdef0123456789abcdef01234567'',
     rq_source_ref = ''refs/heads/main''\<rparr>"

lemma sample_normalizes: "normalize sample_event sample_env = Inr sample_request"
proof -
  have "case normalize sample_event sample_env of Inl _ \<Rightarrow> False
    | Inr r \<Rightarrow> r = sample_request" by code_simp
  then show ?thesis by (simp split: sum.splits)
qed

lemma sample_env_files: "sample_env ''GITHUB_EVENT_PATH'' = Some ''event''" "sample_env ''GITHUB_OUTPUT'' = Some ''out''"
  by (simp_all add: sample_env_def)

lemma sample_main:
  "request_main Normalize sample_env (\<lambda>_. Some []) (\<lambda>_. Some sample_event) (Inr []) [] (\<lambda>_. True)
   = Inr (0, Some (''out'', output_text (request_outputs sample_request)))"
proof -
  have "decode_unique sample_event = Inr sample_event" by code_simp
  then show ?thesis
    by (simp add: request_main_def main_values_def read_json_def sample_normalizes sample_env_files)
qed

section \<open>Properties\<close>

text \<open>An accepted request has a flavor and a target of the fixed lists, an empty build number or
  one from 1 to 65535 without a leading zero, the commit and the reference of the environment in
  their checked forms, and comes from a workflow dispatch in the one repository.\<close>

theorem normalize_sound:
  assumes "normalize event env = Inr r"
  shows "rq_flavor r \<in> set FLAVORS \<and> rq_target r \<in> set TARGETS \<and> rq_upload r \<in> {''true'', ''false''}
    \<and> (rq_requested_number r = [] \<or> list_all is_digit (rq_requested_number r) \<and>
        hd (rq_requested_number r) \<noteq> CHR ''0'' \<and> dec_value (rq_requested_number r) \<le> 65535)
    \<and> lower_hex 40 (rq_source_sha r) \<and> env ''GITHUB_SHA'' = Some (rq_source_sha r)
    \<and> source_ref (PStr (rq_source_ref r)) = Inr (rq_source_ref r) \<and> env ''GITHUB_REF'' = Some (rq_source_ref r)
    \<and> env ''GITHUB_REPOSITORY'' = Some REPOSITORY \<and> env ''GITHUB_EVENT_NAME'' = Some ''workflow_dispatch''"
proof -
  have "env k = Some s" if "env_text env k = s" "s \<noteq> []" for k s
    using that by (simp add: env_text_def split: option.splits)
  moreover have "rq_source_sha r \<noteq> []" "env_text env ''GITHUB_SHA'' = rq_source_sha r"
    "rq_source_ref r \<noteq> []" "env_text env ''GITHUB_REF'' = rq_source_ref r"
    using normalize_Inr [OF assms] by (auto simp: source_sha_Inr source_ref_Inr lower_hex_def)
  ultimately have "env ''GITHUB_SHA'' = Some (rq_source_sha r)" "env ''GITHUB_REF'' = Some (rq_source_ref r)"
    by blast+
  with normalize_Inr [OF assms] show ?thesis
    by (auto simp: requested_number_Inr source_sha_Inr source_ref_Inr positive_decimal_def MAX_BUILD_NUMBER_def)
qed

theorem normalize_sound_witness:
  "normalize sample_event sample_env = Inr sample_request \<and> rq_target sample_request \<in> set TARGETS"
  using sample_normalizes normalize_sound [OF sample_normalizes] by simp

text \<open>Normalisation is stable: the event built from an accepted request is accepted in the same
  environment and gives the same request.\<close>

theorem normalize_stable:
  assumes "normalize event env = Inr r"
  shows "normalize (event_of r) env = Inr r"
  by (rule normalize_event_of [OF assms])

theorem normalize_stable_witness: "normalize (event_of sample_request) sample_env = Inr sample_request"
  by (rule normalize_stable [OF sample_normalizes])

text \<open>A name behind \<open>refs/heads/\<close> or \<open>refs/tags/\<close> that \<open>source_ref\<close> accepts keeps the rules
  of \<open>git check-ref-format\<close>: at most 1024 characters in all, no control character or blank in the
  name, no two dots in a row, no at sign before an opening brace, and every path component is non-empty, does not start with a dot and
  does not end in \<open>.lock\<close>.\<close>

theorem source_ref_rules:
  assumes "source_ref v = Inr s"
  shows "v = PStr s \<and> length s \<le> 1024
    \<and> (\<exists>name. (s = ''refs/heads/'' @ name \<or> s = ''refs/tags/'' @ name)
        \<and> list_all (\<lambda>c. 33 \<le> ord c \<and> ord c \<noteq> 127) name \<and> \<not> sublist ''..'' name \<and> \<not> sublist [CHR ''@'', CHR 0x7B] name
        \<and> list_all (\<lambda>part. part \<noteq> [] \<and> hd part \<noteq> CHR ''.'' \<and> \<not> suffix ''.lock'' part) (split_on (CHR ''/'') name))"
proof -
  obtain name where name: "s = ''refs/heads/'' @ name \<or> s = ''refs/tags/'' @ name" and ok: "\<not> ref_name_bad name"
    using assms by (rule source_ref_name)
  have "list_all (\<lambda>c. 33 \<le> ord c \<and> ord c \<noteq> 127) name" "\<not> sublist ''..'' name" "\<not> sublist [CHR ''@'', CHR 0x7B] name"
    using ok by (simp_all add: ref_name_bad_def contains_iff list_ex_iff list_all_iff ref_char_bad_def not_less)
  moreover have "v = PStr s \<and> length s \<le> 1024" using assms by (simp add: source_ref_Inr)
  ultimately show ?thesis using name ref_name_parts [OF ok] by blast
qed

theorem source_ref_rules_witness:
  "source_ref (PStr ''refs/tags/v1.2/rc'') = Inr ''refs/tags/v1.2/rc''
   \<and> (\<exists>name. ''refs/tags/v1.2/rc'' = ''refs/tags/'' @ name \<and> \<not> sublist ''..'' name)"
proof -
  have "case source_ref (PStr ''refs/tags/v1.2/rc'') of Inl _ \<Rightarrow> False | Inr s \<Rightarrow> s = ''refs/tags/v1.2/rc''"
    by code_simp
  then have "source_ref (PStr ''refs/tags/v1.2/rc'') = Inr ''refs/tags/v1.2/rc''"
    by (simp split: sum.splits)
  with source_ref_rules [OF this] show ?thesis by auto
qed

text \<open>C32: When \<open>git\<close> fails only as the source expects, the command always ends with exit code 0
  or 1. On 1 it has written nothing; on 0 the text appended to \<open>GITHUB_OUTPUT\<close> is exactly one line
  per fixed key, so no input can inject a further output.\<close>

theorem request_main_output:
  assumes "raises_only {OSError, SubprocessError} head"
  shows "request_main act env files parse head root_config writable = Inr (1, None)
    \<or> (\<exists>path vals. request_main act env files parse head root_config writable = Inr (0, Some (path, output_text vals))
        \<and> env ''GITHUB_OUTPUT'' = Some path
        \<and> map fst vals = (case act of
             Normalize \<Rightarrow> [''flavor'', ''target'', ''requested_number'', ''upload'', ''source_sha'', ''source_ref'']
           | Config \<Rightarrow> [''sdk_ref'', ''verify_symbolication''])
        \<and> split_on (CHR 0x0A) (output_text vals) = map (\<lambda>(k, v). k @ ''='' @ v) vals @ [[]])"
proof (cases "main_values act env files parse head root_config")
  case (Inl e)
  with main_values_raise [OF assms, of act env files parse root_config]
  have "exn_class_of e \<in> {RequestError, KeyError}" by (simp add: raises_only_def)
  with Inl show ?thesis unfolding request_main_def Let_def by auto
next
  case (Inr vs)
  note lines = main_values_lines [OF Inr, unfolded output_keys_def]
  show ?thesis
  proof (cases "env ''GITHUB_OUTPUT''")
    case None
    with Inr show ?thesis unfolding request_main_def Let_def by simp
  next
    case (Some path)
    with Inr lines show ?thesis
      unfolding request_main_def Let_def by (cases "writable path") auto
  qed
qed

theorem request_main_output_witness:
  "request_main Normalize sample_env (\<lambda>_. Some []) (\<lambda>_. Some sample_event) (Inr []) [] (\<lambda>_. True)
     = Inr (0, Some (''out'', output_text (request_outputs sample_request)))
   \<and> (\<exists>path vals. request_main Normalize sample_env (\<lambda>_. Some []) (\<lambda>_. Some sample_event) (Inr []) [] (\<lambda>_. True)
         = Inr (0, Some (path, output_text vals)) \<and> length vals = 6)"
proof -
  let ?run = "request_main Normalize sample_env (\<lambda>_. Some []) (\<lambda>_. Some sample_event) (Inr []) [] (\<lambda>_. True)"
  have "raises_only {OSError, SubprocessError} (Inr [] :: exn + string)" by simp
  from request_main_output [OF this, of Normalize sample_env "\<lambda>_. Some []" "\<lambda>_. Some sample_event" "[]" "\<lambda>_. True"]
  obtain path vals where "?run = Inr (0, Some (path, output_text vals))"
    and "map fst vals = [''flavor'', ''target'', ''requested_number'', ''upload'', ''source_sha'', ''source_ref'']"
    unfolding sample_main by auto
  then have "?run = Inr (0, Some (path, output_text vals)) \<and> length vals = 6"
    using length_map [of fst vals] by simp
  with sample_main show ?thesis by blast
qed

text \<open>A JSON document read for a request has no object with a repeated key at any depth, however
  the parser orders or repeats them.\<close>

theorem read_json_unique_keys:
  assumes "read_json files parse path = Inr v"
  shows "keys_unique v"
  using assms decode_unique_keys
  by (auto simp: read_json_def split: option.splits if_split_asm sum.splits)

theorem read_json_unique_keys_witness:
  "read_json (\<lambda>_. Some []) (\<lambda>_. Some sample_event) ''e'' = Inr sample_event \<and> keys_unique sample_event"
proof -
  have "decode_unique sample_event = Inr sample_event" by code_simp
  then have "read_json (\<lambda>_. Some []) (\<lambda>_. Some sample_event) ''e'' = Inr sample_event"
    by (simp add: read_json_def)
  with read_json_unique_keys [OF this] show ?thesis by simp
qed

end
