(* ===== verification/Py_Effects.thy ===== *)
theory Py_Effects
  imports Py_Value
begin

text \<open>
  Statements that change state and may raise, as the modules that run processes and rename files
  use them: a command maps a state to a result and the state it leaves, also when it raises. The
  rules of \<open>triple\<close>, collected in \<open>triple_intros\<close>, derive what holds after a command from what
  holds before it, for the normal and for the exceptional end. A component that talks to
  processes logs its actions; \<open>trace_ok\<close> says that every logged action was allowed by those
  before it.
\<close>

section \<open>Commands\<close>

type_synonym ('s, 'a) cmd = "'s \<Rightarrow> (exn + 'a) \<times> 's"

definition ret :: "'a \<Rightarrow> ('s, 'a) cmd" where
  "ret x s = (Inr x, s)"

definition throw :: "exn_class \<Rightarrow> string \<Rightarrow> ('s, 'a) cmd" where
  "throw c m s = (raise c m, s)"

definition lift_result :: "exn + 'a \<Rightarrow> ('s, 'a) cmd" where
  "lift_result m s = (m, s)"

definition seq :: "('s, 'a) cmd \<Rightarrow> ('a \<Rightarrow> ('s, 'b) cmd) \<Rightarrow> ('s, 'b) cmd" where
  "seq m f s = (case m s of (Inl e, t) \<Rightarrow> (Inl e, t) | (Inr x, t) \<Rightarrow> f x t)"

definition reading :: "('s \<Rightarrow> 'a) \<Rightarrow> ('s, 'a) cmd" where
  "reading f s = (Inr (f s), s)"

definition updating :: "('s \<Rightarrow> 's) \<Rightarrow> ('s, unit) cmd" where
  "updating f s = (Inr (), f s)"

text \<open>\<open>if c: raise ...\<close> before the rest of a block.\<close>

definition unless_raise :: "bool \<Rightarrow> exn_class \<Rightarrow> string \<Rightarrow> ('s, unit) cmd" where
  "unless_raise c k m = (if c then throw k m else ret ())"

text \<open>\<open>try: m except classes: h\<close>.\<close>

definition catching :: "('s, 'a) cmd \<Rightarrow> exn_class set \<Rightarrow> (exn \<Rightarrow> ('s, 'a) cmd) \<Rightarrow> ('s, 'a) cmd" where
  "catching m C h s = (case m s of
      (Inl e, t) \<Rightarrow> if exn_class_of e \<in> C then h e t else (Inl e, t)
    | (Inr x, t) \<Rightarrow> (Inr x, t))"

text \<open>The same with a test of the class.\<close>

definition catch_when :: "('s, 'a) cmd \<Rightarrow> (exn_class \<Rightarrow> bool) \<Rightarrow> (exn \<Rightarrow> ('s, 'a) cmd) \<Rightarrow> ('s, 'a) cmd" where
  "catch_when m P h s = (case m s of
      (Inl e, t) \<Rightarrow> if P (exn_class_of e) then h e t else (Inl e, t)
    | (Inr x, t) \<Rightarrow> (Inr x, t))"

text \<open>\<open>for x in xs: ...\<close> with a body that may return a value out of the loop.\<close>

primrec try_each :: "('a \<Rightarrow> ('s, 'b option) cmd) \<Rightarrow> 'a list \<Rightarrow> ('s, 'b option) cmd" where
  "try_each f [] = ret None"
| "try_each f (x # xs) = seq (f x) (\<lambda>r. case r of Some y \<Rightarrow> ret (Some y) | None \<Rightarrow> try_each f xs)"

text \<open>\<open>for x in xs: s = f(s, x)\<close>.\<close>

primrec loop_over :: "('b \<Rightarrow> 'a \<Rightarrow> ('s, 'b) cmd) \<Rightarrow> 'b \<Rightarrow> 'a list \<Rightarrow> ('s, 'b) cmd" where
  "loop_over f acc [] = ret acc"
| "loop_over f acc (x # xs) = seq (f acc x) (\<lambda>acc'. loop_over f acc' xs)"

text \<open>The commands that do one thing, unfolded.\<close>

lemmas cmd_defs = seq_def ret_def throw_def lift_result_def reading_def updating_def

lemma seq_cases:
  assumes "seq m f s = (r, t)"
  obtains (raised) e where "m s = (Inl e, t)" "r = Inl e"
  | (went_on) x u where "m s = (Inr x, u)" "f x u = (r, t)"
  using assms unfolding seq_def by (auto split: prod.splits sum.splits)

lemma seq_Inr: "seq m f s = (Inr y, t) \<longleftrightarrow> (\<exists>x u. m s = (Inr x, u) \<and> f x u = (Inr y, t))"
  by (auto simp: seq_def split: prod.splits sum.splits)

lemma cmd_Inr:
  "lift_result m s = (Inr x, t) \<longleftrightarrow> m = Inr x \<and> t = s"
  "ret y s = (Inr x, t) \<longleftrightarrow> x = y \<and> t = s"
  "throw c k s \<noteq> (Inr x, t)"
  by (auto simp: lift_result_def ret_def throw_def)

text \<open>What a loop keeps of its accumulator when it does not raise.\<close>

lemma loop_over_invariant:
  assumes "loop_over f acc xs s = (Inr r, t)" and "P acc"
    and "\<And>a x b u v. x \<in> set xs \<Longrightarrow> P a \<Longrightarrow> f a x u = (Inr b, v) \<Longrightarrow> P b"
  shows "P r"
  using assms
proof (induction xs arbitrary: acc s)
  case (Cons x xs)
  then obtain b u where "f acc x s = (Inr b, u)" and "loop_over f b xs u = (Inr r, t)" by (auto simp: seq_Inr)
  with Cons.IH [of b u] Cons.prems(2,3) show ?case by (meson list.set_intros)
qed (simp add: ret_def)

section \<open>Rules\<close>

named_theorems triple_intros

definition triple ::
    "('s \<Rightarrow> bool) \<Rightarrow> ('s, 'a) cmd \<Rightarrow> ('a \<Rightarrow> 's \<Rightarrow> bool) \<Rightarrow> (exn \<Rightarrow> 's \<Rightarrow> bool) \<Rightarrow> bool" where
  "triple P m Q E \<longleftrightarrow> (\<forall>s. P s \<longrightarrow> (case m s of (Inl e, t) \<Rightarrow> E e t | (Inr x, t) \<Rightarrow> Q x t))"

lemma triple_Inr: "triple P m Q E \<Longrightarrow> P s \<Longrightarrow> m s = (Inr x, t) \<Longrightarrow> Q x t"
  by (auto simp: triple_def)

lemma triple_Inl: "triple P m Q E \<Longrightarrow> P s \<Longrightarrow> m s = (Inl e, t) \<Longrightarrow> E e t"
  by (auto simp: triple_def)

lemma triple_normal: "(\<And>s x t. P s \<Longrightarrow> m s = (Inr x, t) \<Longrightarrow> Q x t) \<Longrightarrow> triple P m Q (\<lambda>_ _. True)"
  by (auto simp: triple_def split: prod.split sum.split)

lemma triple_conseq:
  "triple P m Q E \<Longrightarrow> (\<And>s. P' s \<Longrightarrow> P s) \<Longrightarrow> (\<And>x s. Q x s \<Longrightarrow> Q' x s) \<Longrightarrow> (\<And>e s. E e s \<Longrightarrow> E' e s)
   \<Longrightarrow> triple P' m Q' E'"
  by (fastforce simp: triple_def split: sum.splits prod.splits)

lemma triple_ret [triple_intros]: "(\<And>s. P s \<Longrightarrow> Q x s) \<Longrightarrow> triple P (ret x) Q E"
  by (simp add: triple_def ret_def)

lemma triple_throw [triple_intros]: "(\<And>s. P s \<Longrightarrow> E (Exn c m) s) \<Longrightarrow> triple P (throw c m) Q E"
  by (simp add: triple_def throw_def)

lemma triple_lift [triple_intros]:
  "(\<And>e s. m = Inl e \<Longrightarrow> P s \<Longrightarrow> E e s) \<Longrightarrow> (\<And>x s. m = Inr x \<Longrightarrow> P s \<Longrightarrow> Q x s) \<Longrightarrow> triple P (lift_result m) Q E"
  by (simp add: triple_def lift_result_def split: sum.split)

lemma triple_reading [triple_intros]: "(\<And>s. P s \<Longrightarrow> Q (f s) s) \<Longrightarrow> triple P (reading f) Q E"
  by (simp add: triple_def reading_def)

lemma triple_updating [triple_intros]: "(\<And>s. P s \<Longrightarrow> Q () (f s)) \<Longrightarrow> triple P (updating f) Q E"
  by (simp add: triple_def updating_def)

lemma triple_seq: "triple P m R E \<Longrightarrow> (\<And>x. triple (R x) (f x) Q E) \<Longrightarrow> triple P (seq m f) Q E"
  unfolding triple_def seq_def
proof (intro allI impI)
  fix s
  assume m: "\<forall>s. P s \<longrightarrow> (case m s of (Inl e, t) \<Rightarrow> E e t | (Inr x, t) \<Rightarrow> R x t)" and s: "P s"
    and f: "\<And>x. \<forall>s. R x s \<longrightarrow> (case f x s of (Inl e, t) \<Rightarrow> E e t | (Inr x, t) \<Rightarrow> Q x t)"
  obtain r t where r: "m s = (r, t)" by fastforce
  show "case case m s of (Inl e, t) \<Rightarrow> (Inl e, t) | (Inr x, t) \<Rightarrow> f x t of (Inl e, t) \<Rightarrow> E e t | (Inr x, t) \<Rightarrow> Q x t"
    using m [rule_format, OF s] f r by (cases r) simp_all
qed

lemma triple_unless [triple_intros]:
  "(\<And>s. c \<Longrightarrow> P s \<Longrightarrow> E (Exn k m) s) \<Longrightarrow> (\<And>s. \<not> c \<Longrightarrow> P s \<Longrightarrow> Q () s) \<Longrightarrow> triple P (unless_raise c k m) Q E"
  by (simp add: triple_def unless_raise_def throw_def ret_def)

lemma triple_if [triple_intros]:
  "(c \<Longrightarrow> triple P m Q E) \<Longrightarrow> (\<not> c \<Longrightarrow> triple P n Q E) \<Longrightarrow> triple P (if c then m else n) Q E"
  by simp

lemma triple_case_option [triple_intros]:
  "(v = None \<Longrightarrow> triple P m Q E) \<Longrightarrow> (\<And>x. v = Some x \<Longrightarrow> triple P (f x) Q E)
   \<Longrightarrow> triple P (case v of None \<Rightarrow> m | Some x \<Rightarrow> f x) Q E"
  by (simp split: option.split)

lemma triple_catching:
  "triple P m Q F \<Longrightarrow> (\<And>e. exn_class_of e \<in> C \<Longrightarrow> triple (F e) (h e) Q E)
   \<Longrightarrow> (\<And>e s. exn_class_of e \<notin> C \<Longrightarrow> F e s \<Longrightarrow> E e s) \<Longrightarrow> triple P (catching m C h) Q E"
  unfolding triple_def catching_def
proof (intro allI impI)
  fix s
  assume m: "\<forall>s. P s \<longrightarrow> (case m s of (Inl e, t) \<Rightarrow> F e t | (Inr x, t) \<Rightarrow> Q x t)" and s: "P s"
    and h: "\<And>e. exn_class_of e \<in> C \<Longrightarrow>
      \<forall>s. F e s \<longrightarrow> (case h e s of (Inl e, t) \<Rightarrow> E e t | (Inr x, t) \<Rightarrow> Q x t)"
    and out: "\<And>e s. exn_class_of e \<notin> C \<Longrightarrow> F e s \<Longrightarrow> E e s"
  obtain r t where r: "m s = (r, t)" by fastforce
  show "case case m s of (Inl e, t) \<Rightarrow> if exn_class_of e \<in> C then h e t else (Inl e, t) | (Inr x, t) \<Rightarrow> (Inr x, t)
    of (Inl e, t) \<Rightarrow> E e t | (Inr x, t) \<Rightarrow> Q x t"
    using m [rule_format, OF s] h out r by (cases r) auto
qed

text \<open>A loop keeps its invariant; the index set says which elements the body sees.\<close>

lemma triple_try_each:
  assumes "\<And>x. x \<in> set xs \<Longrightarrow> triple I (f x) (\<lambda>r s. case r of None \<Rightarrow> I s | Some y \<Rightarrow> Q (Some y) s) E"
    and "\<And>s. I s \<Longrightarrow> Q None s"
  shows "triple I (try_each f xs) Q E"
  using assms
proof (induction xs)
  case Nil
  then show ?case by (simp add: triple_ret)
next
  case (Cons x xs)
  have rest: "triple I (try_each f xs) Q E" using Cons by simp
  show ?case
    unfolding try_each.simps
    by (rule triple_seq [OF Cons.prems(1)])
       (auto intro!: triple_intros rest intro: triple_conseq split: option.split)
qed

lemma triple_loop_over:
  assumes "\<And>acc x. x \<in> set xs \<Longrightarrow> triple (I acc) (f acc x) I E"
  shows "triple (I acc) (loop_over f acc xs) I E"
  using assms
proof (induction xs arbitrary: acc)
  case (Cons x xs)
  then show ?case by (auto intro: triple_seq)
qed (simp add: triple_ret)

lemma triple_seq_pair:
  "triple P m (\<lambda>(a, b). R a b) E \<Longrightarrow> (\<And>a b. triple (R a b) (f a b) Q E) \<Longrightarrow> triple P (seq m (\<lambda>(a, b). f a b)) Q E"
  by (rule triple_seq) auto

text \<open>A fact about the data, not the state, leaves the precondition.\<close>

lemma triple_pure: "(C \<Longrightarrow> triple P m Q E) \<Longrightarrow> triple (\<lambda>s. C \<and> P s) m Q E"
  by (auto simp: triple_def)

text \<open>The loop with a body that may return, when the invariant counts the passes.\<close>

lemma triple_try_each_indexed:
  assumes "\<And>k x. k < length xs \<Longrightarrow> x = xs ! k \<Longrightarrow>
      triple (I (j + k)) (f x) (\<lambda>r s. case r of None \<Rightarrow> I (Suc (j + k)) s | Some y \<Rightarrow> Q (Some y) s) E"
    and "\<And>s. I (j + length xs) s \<Longrightarrow> Q None s"
  shows "triple (I j) (try_each f xs) Q E"
  using assms
proof (induction xs arbitrary: j)
  case Nil
  then show ?case by (simp add: triple_ret)
next
  case (Cons x xs)
  have body: "triple (I j) (f x) (\<lambda>r s. case r of None \<Rightarrow> I (Suc j) s | Some y \<Rightarrow> Q (Some y) s) E"
    using Cons.prems(1) [of 0 x] by (simp cong: option.case_cong)
  have rest: "triple (I (Suc j)) (try_each f xs) Q E"
  proof (rule Cons.IH)
    show "triple (I (Suc j + k)) (f y)
        (\<lambda>r s. case r of None \<Rightarrow> I (Suc (Suc j + k)) s | Some y \<Rightarrow> Q (Some y) s) E"
      if "k < length xs" "y = xs ! k" for k y
      using Cons.prems(1) [of "Suc k" y] that by (simp cong: option.case_cong)
    show "Q None s" if "I (Suc j + length xs) s" for s
      using Cons.prems(2) that by simp
  qed
  show ?case
    unfolding try_each.simps
    by (rule triple_seq [OF body])
       (auto intro!: triple_intros rest intro: triple_conseq split: option.split)
qed

section \<open>Invariants of a command\<close>

text \<open>What a command keeps however it ends; the rules follow the structure of the command.\<close>

named_theorems keeps_intros

definition keeps :: "('s \<Rightarrow> bool) \<Rightarrow> ('s, 'a) cmd \<Rightarrow> bool" where
  "keeps I m \<longleftrightarrow> (\<forall>s. I s \<longrightarrow> I (snd (m s)))"

lemma keepsD: "keeps I m \<Longrightarrow> I s \<Longrightarrow> m s = (r, t) \<Longrightarrow> I t"
  by (force simp: keeps_def)

lemma keepsI: "(\<And>s r t. I s \<Longrightarrow> m s = (r, t) \<Longrightarrow> I t) \<Longrightarrow> keeps I m"
  unfolding keeps_def by (metis prod.collapse)

lemma keeps_ret [keeps_intros]: "keeps I (ret x)"
  by (simp add: keeps_def ret_def)

lemma keeps_throw [keeps_intros]: "keeps I (throw c m)"
  by (simp add: keeps_def throw_def)

lemma keeps_lift [keeps_intros]: "keeps I (lift_result r)"
  by (simp add: keeps_def lift_result_def)

lemma keeps_reading [keeps_intros]: "keeps I (reading f)"
  by (simp add: keeps_def reading_def)

lemma keeps_unless [keeps_intros]: "keeps I (unless_raise c k m)"
  by (simp add: unless_raise_def keeps_intros)

lemma keeps_updating [keeps_intros]: "(\<And>s. I s \<Longrightarrow> I (f s)) \<Longrightarrow> keeps I (updating f)"
  by (simp add: keeps_def updating_def)

lemma keeps_seq [keeps_intros]: "keeps I m \<Longrightarrow> (\<And>x. keeps I (f x)) \<Longrightarrow> keeps I (seq m f)"
  by (rule keepsI) (auto elim!: seq_cases dest: keepsD)

lemma keeps_if [keeps_intros]: "(c \<Longrightarrow> keeps I m) \<Longrightarrow> (\<not> c \<Longrightarrow> keeps I n) \<Longrightarrow> keeps I (if c then m else n)"
  by simp

lemma keeps_case_option [keeps_intros]:
  "(v = None \<Longrightarrow> keeps I m) \<Longrightarrow> (\<And>x. v = Some x \<Longrightarrow> keeps I (f x)) \<Longrightarrow> keeps I (case v of None \<Rightarrow> m | Some x \<Rightarrow> f x)"
  by (cases v) simp_all

lemma keeps_case_sum [keeps_intros]:
  "(\<And>x. v = Inl x \<Longrightarrow> keeps I (f x)) \<Longrightarrow> (\<And>x. v = Inr x \<Longrightarrow> keeps I (g x))
   \<Longrightarrow> keeps I (case v of Inl x \<Rightarrow> f x | Inr x \<Rightarrow> g x)"
  by (cases v) simp_all

lemma keeps_case_prod [keeps_intros]: "(\<And>a b. v = (a, b) \<Longrightarrow> keeps I (f a b)) \<Longrightarrow> keeps I (case v of (a, b) \<Rightarrow> f a b)"
  by (cases v) simp

lemma keeps_catching [keeps_intros]:
  "keeps I m \<Longrightarrow> (\<And>e. keeps I (h e)) \<Longrightarrow> keeps I (catching m C h)"
  by (rule keepsI) (auto simp: catching_def split: prod.splits sum.splits if_splits dest: keepsD)

lemma keeps_catch_when [keeps_intros]:
  "keeps I m \<Longrightarrow> (\<And>e. keeps I (h e)) \<Longrightarrow> keeps I (catch_when m P h)"
  by (rule keepsI) (auto simp: catch_when_def split: prod.splits sum.splits if_splits dest: keepsD)

lemma keeps_try_each [keeps_intros]:
  "(\<And>x. x \<in> set xs \<Longrightarrow> keeps I (f x)) \<Longrightarrow> keeps I (try_each f xs)"
  by (induction xs) (auto intro!: keeps_intros)

lemma keeps_loop_over [keeps_intros]:
  "(\<And>acc x. x \<in> set xs \<Longrightarrow> keeps I (f acc x)) \<Longrightarrow> keeps I (loop_over f acc xs)"
  by (induction xs arbitrary: acc) (auto intro!: keeps_intros)

lemma triple_keeps: "keeps I m \<Longrightarrow> triple I m (\<lambda>_. I) (\<lambda>_. I)"
  by (auto simp: triple_def split: prod.split sum.split dest: keepsD)

lemma keeps_conj: "keeps I m \<Longrightarrow> keeps J m \<Longrightarrow> keeps (\<lambda>s. I s \<and> J s) m"
  by (auto simp: keeps_def)

section \<open>Traces\<close>

text \<open>Newest action first: every action was allowed by those logged before it.\<close>

primrec trace_ok :: "('e list \<Rightarrow> 'e \<Rightarrow> bool) \<Rightarrow> 'e list \<Rightarrow> bool" where
  "trace_ok G [] = True"
| "trace_ok G (e # evs) = (G evs e \<and> trace_ok G evs)"

lemma trace_ok_split: "trace_ok G (post @ e # pre) \<Longrightarrow> G pre e"
  by (induction post) simp_all

end
