(* ===== verification/Build_Number.thy ===== *)
theory Build_Number
  imports Release_Request Py_Effects
begin

text \<open>
  \<open>tool/release_build_number.py\<close>: release numbers are checked, and the counter of a source branch is
  advanced by a bounded compare-and-swap push. The disposable checkout with its \<open>git\<close> and its files
  is the record \<open>checkout\<close> of operations on a world of any type; every call is logged, and the
  theorems on \<open>publish\<close> are statements about this log.
\<close>

section \<open>Numbers\<close>

definition integer :: "nat \<Rightarrow> string \<Rightarrow> exn + nat" where
  "integer maximum value =
     (if \<not> positive_decimal 9 value \<or> dec_value value > maximum
      then raise BuildNumberError (''Build number must be an integer from 1 to '' @ dec maximum)
      else Inr (dec_value value))"

definition resolve :: "string \<Rightarrow> string \<Rightarrow> exn + nat" where
  "resolve current requested =
     rbind (integer MAX_BUILD_NUMBER current) (\<lambda>available.
     rbind (if requested \<noteq> [] then integer MAX_BUILD_NUMBER requested else Inr available) (\<lambda>number.
       if number < available
       then raise BuildNumberError ''Requested build number is below the counter in this source snapshot''
       else Inr number))"

definition next_counter :: "string \<Rightarrow> string \<Rightarrow> exn + nat" where
  "next_counter current built =
     rbind (integer (MAX_BUILD_NUMBER + 1) current) (\<lambda>c.
     rbind (integer MAX_BUILD_NUMBER built) (\<lambda>b. Inr (max c (b + 1))))"

section \<open>The checkout\<close>

text \<open>
  \<open>git_run args\<close> gives the exit code and the standard output, or the exception \<open>subprocess.run\<close>
  raises (\<open>OSError\<close>, a timeout). Paths are relative to the project root; \<open>out_append\<close> writes to the
  files Actions names by an absolute path.
\<close>

record 'w checkout =
  git_run :: "string list \<Rightarrow> 'w \<Rightarrow> (exn + (int \<times> string)) \<times> 'w"
  path_is_link :: "string \<Rightarrow> 'w \<Rightarrow> bool"
  path_is_file :: "string \<Rightarrow> 'w \<Rightarrow> bool"
  text_read :: "string \<Rightarrow> 'w \<Rightarrow> exn + string"
  text_write :: "string \<Rightarrow> string \<Rightarrow> 'w \<Rightarrow> (exn + unit) \<times> 'w"
  out_append :: "string \<Rightarrow> string \<Rightarrow> 'w \<Rightarrow> (exn + unit) \<times> 'w"

datatype event =
    Git "string list" int string
  | Read string string
  | Wrote string string
  | Appended string string

text \<open>The newest event is first.\<close>

record 'w run =
  world :: 'w
  events :: "event list"

definition log :: "event \<Rightarrow> 'w run \<Rightarrow> 'w run" where
  "log e s = s\<lparr>events := e # events s\<rparr>"

text \<open>The inner function \<open>git\<close> of \<open>publish\<close>.\<close>

definition git :: "'w checkout \<Rightarrow> bool \<Rightarrow> string list \<Rightarrow> ('w run, int \<times> string) cmd" where
  "git ops check args s =
     (case git_run ops args (world s) of
        (Inl e, w) \<Rightarrow> (Inl e, s\<lparr>world := w\<rparr>)
      | (Inr (code, out), w) \<Rightarrow>
          (if check \<and> code \<noteq> 0
           then raise BuildNumberError (''Number publication Git operation failed: '' @ hd args)
           else Inr (code, out), log (Git args code out) (s\<lparr>world := w\<rparr>)))"

definition read_text :: "'w checkout \<Rightarrow> string \<Rightarrow> ('w run, string) cmd" where
  "read_text ops path s =
     (case text_read ops path (world s) of
        Inl e \<Rightarrow> (Inl e, s)
      | Inr t \<Rightarrow> (Inr t, log (Read path t) s))"

definition write_text :: "'w checkout \<Rightarrow> string \<Rightarrow> string \<Rightarrow> ('w run, unit) cmd" where
  "write_text ops path t s =
     (case text_write ops path t (world s) of (r, w) \<Rightarrow> (r, log (Wrote path t) (s\<lparr>world := w\<rparr>)))"

definition append_text :: "'w checkout \<Rightarrow> string \<Rightarrow> string \<Rightarrow> ('w run, unit) cmd" where
  "append_text ops path t s =
     (case out_append ops path t (world s) of (r, w) \<Rightarrow> (r, log (Appended path t) (s\<lparr>world := w\<rparr>)))"

section \<open>Publication\<close>

definition relative_counter :: "string \<Rightarrow> string" where
  "relative_counter flavor = ''scripts/build_number.'' @ flavor @ ''.txt''"

text \<open>The guard of \<open>publish\<close>.\<close>

definition publication_bad :: "string \<Rightarrow> string \<Rightarrow> string \<Rightarrow> bool" where
  "publication_bad flavor ref source \<longleftrightarrow>
     flavor \<notin> set FLAVORS \<or> length ref > 1024 \<or> \<not> prefix ''refs/heads/'' ref
     \<or> list_ex (\<lambda>c. ord c < 32 \<or> ord c = 127) ref \<or> \<not> lower_hex 40 source"

text \<open>The text of the counter at the fetched tip, stripped.\<close>

definition fetched_counter :: "'w checkout \<Rightarrow> string \<Rightarrow> ('w run, string) cmd" where
  "fetched_counter ops flavor =
     seq (reading (\<lambda>s. path_is_link ops (relative_counter flavor) (world s) \<or> path_is_link ops ''scripts'' (world s)
            \<or> \<not> path_is_file ops (relative_counter flavor) (world s))) (\<lambda>bad.
     seq (unless_raise bad BuildNumberError ''Source branch counter is missing or unsafe'') (\<lambda>_.
     seq (read_text ops (relative_counter flavor)) (\<lambda>t. ret (text_strip t))))"

text \<open>One commit with the new counter on top of \<open>tip\<close>; the answer is its identifier.\<close>

definition commit_counter :: "'w checkout \<Rightarrow> string \<Rightarrow> string \<Rightarrow> nat \<Rightarrow> ('w run, string) cmd" where
  "commit_counter ops flavor tip number =
     seq (write_text ops (relative_counter flavor) (dec number @ [CHR 0x0A])) (\<lambda>_.
     seq (git ops True [''add'', ''--'', relative_counter flavor]) (\<lambda>_.
     seq (git ops True [''-c'', ''user.name=anonymous'', ''-c'', ''user.email=anonymous@users.noreply.github.com'',
            ''commit'', ''-m'', ''[xfork] chore(build): '' @ flavor @ '' next build '' @ dec number]) (\<lambda>_.
     seq (git ops True [''rev-parse'', ''HEAD'']) (\<lambda>(_, head).
     seq (git ops True [''rev-list'', ''--parents'', ''-n'', ''1'', text_strip head]) (\<lambda>(_, parents).
     seq (unless_raise (split_words parents \<noteq> [text_strip head, tip]) BuildNumberError
            ''Counter commit must directly extend the fetched branch'') (\<lambda>_.
       ret (text_strip head)))))))"

definition push_args :: "string \<Rightarrow> string \<Rightarrow> string \<Rightarrow> string list" where
  "push_args ref tip commit =
     [''push'', ''--force-with-lease='' @ ref @ '':'' @ tip, ''origin'', commit @ '':'' @ ref]"

text \<open>One pass of the loop: \<open>Some ()\<close> is the source's \<open>return\<close>.\<close>

definition publish_attempt ::
    "'w checkout \<Rightarrow> string \<Rightarrow> string \<Rightarrow> string \<Rightarrow> string \<Rightarrow> ('w run, unit option) cmd" where
  "publish_attempt ops flavor ref source built =
     seq (git ops True [''fetch'', ''--no-tags'', ''origin'', ref]) (\<lambda>_.
     seq (git ops True [''rev-parse'', ''--verify'', ''FETCH_HEAD^{commit}'']) (\<lambda>(_, out).
     let tip = text_strip out in
     seq (git ops False [''merge-base'', ''--is-ancestor'', source, tip]) (\<lambda>(code, _).
     seq (unless_raise (code \<noteq> 0) BuildNumberError ''Source branch no longer contains the built commit'') (\<lambda>_.
     seq (git ops True [''reset'', ''--hard'', tip]) (\<lambda>_.
     seq (fetched_counter ops flavor) (\<lambda>current.
     seq (lift_result (next_counter current built)) (\<lambda>number.
     seq (lift_result (integer (MAX_BUILD_NUMBER + 1) current)) (\<lambda>old.
       if number = old then ret (Some ())
       else
         seq (commit_counter ops flavor tip number) (\<lambda>commit.
         seq (git ops False (push_args ref tip commit)) (\<lambda>(pushed, _).
           ret (if pushed = 0 then Some () else None)))))))))))"

definition publish ::
    "'w checkout \<Rightarrow> string \<Rightarrow> string \<Rightarrow> string \<Rightarrow> string \<Rightarrow> ('w run, unit) cmd" where
  "publish ops flavor ref source built =
     seq (unless_raise (publication_bad flavor ref source) BuildNumberError
            ''Publication requires the original branch and source SHA'') (\<lambda>_.
     seq (lift_result (integer MAX_BUILD_NUMBER built)) (\<lambda>_.
     seq (git ops True [''check-ref-format'', ref]) (\<lambda>_.
     seq (git ops True [''rev-parse'', ''HEAD'']) (\<lambda>(_, head).
     seq (unless_raise (text_strip head \<noteq> source) BuildNumberError
            ''Number publication checkout differs from built source'') (\<lambda>_.
     seq (git ops True [''status'', ''--porcelain'', ''--untracked-files=normal'']) (\<lambda>(_, status).
     seq (unless_raise (text_strip status \<noteq> []) BuildNumberError
            ''Number publication requires a clean temporary checkout'') (\<lambda>_.
     seq (try_each (\<lambda>_. publish_attempt ops flavor ref source built) [1 ..< 4]) (\<lambda>r.
       case r of
         Some _ \<Rightarrow> ret ()
       | None \<Rightarrow> throw BuildNumberError ''Counter push failed after three attempts''))))))))"

section \<open>The command\<close>

datatype number_action = Resolve | Advance | Publish

definition env_item :: "environment \<Rightarrow> string \<Rightarrow> exn + string" where
  "env_item env key = (case env key of None \<Rightarrow> raise KeyError key | Some v \<Rightarrow> Inr v)"

text \<open>\<open>release_request.check_source_checkout\<close>: \<open>git\<close> runs only after the expected value is checked.\<close>

definition source_checkout :: "'w checkout \<Rightarrow> string \<Rightarrow> ('w run, unit) cmd" where
  "source_checkout ops expected =
     seq (lift_result (source_sha (PStr expected))) (\<lambda>_ s.
       case git ops False [''rev-parse'', ''HEAD''] s of
         (Inl e, t) \<Rightarrow> (check_source_checkout (Inl e) expected, t)
       | (Inr (code, out), t) \<Rightarrow>
           (check_source_checkout (if code \<noteq> 0 then raise SubprocessError [] else Inr out) expected, t))"

definition resolve_summary :: "string \<Rightarrow> string \<Rightarrow> nat \<Rightarrow> string" where
  "resolve_summary flavor requested number =
     ''## Build '' @ dec number @ [CHR 0x0A, CHR 0x0A] @ ''Brand: `'' @ flavor @ ''`'' @ [CHR 0x0A, CHR 0x0A]
     @ ''Number source: '' @ (if requested \<noteq> [] then ''manual input'' else ''source snapshot counter'')
     @ ''. All targets in this run use **'' @ dec number @ ''**.'' @ [CHR 0x0A]"

definition resolve_command :: "'w checkout \<Rightarrow> string \<Rightarrow> environment \<Rightarrow> string \<Rightarrow> ('w run, unit) cmd" where
  "resolve_command ops flavor env current =
     (let requested = env_text env ''REQUESTED_BUILD_NUMBER'' in
      seq (case env ''BUILD_SOURCE_SHA'' of
             None \<Rightarrow> ret ()
           | Some sha \<Rightarrow> seq (source_checkout ops sha) (\<lambda>_.
               seq (lift_result (source_ref (PStr (env_text env ''BUILD_SOURCE_REF'')))) (\<lambda>_. ret ()))) (\<lambda>_.
      seq (lift_result (resolve current requested)) (\<lambda>number.
      seq (lift_result (env_item env ''GITHUB_OUTPUT'')) (\<lambda>output.
      seq (append_text ops output (''build_number='' @ dec number @ [CHR 0x0A])) (\<lambda>_.
      seq (lift_result (env_item env ''GITHUB_STEP_SUMMARY'')) (\<lambda>summary.
      seq (append_text ops summary (resolve_summary flavor requested number)) (\<lambda>_.
      case env ''BUILD_SOURCE_SHA'' of
        None \<Rightarrow> ret ()
      | Some sha \<Rightarrow> seq (lift_result (env_item env ''BUILD_SOURCE_REF'')) (\<lambda>ref.
          append_text ops summary ([CHR 0x0A] @ ''Source: `'' @ sha @ ''` (`'' @ ref @ ''`).'' @ [CHR 0x0A])))))))))"

definition number_command ::
    "'w checkout \<Rightarrow> number_action \<Rightarrow> string \<Rightarrow> environment \<Rightarrow> ('w run, unit) cmd" where
  "number_command ops act flavor env =
     (case act of
        Publish \<Rightarrow> publish ops flavor (env_text env ''BUILD_SOURCE_REF'') (env_text env ''BUILD_SOURCE_SHA'')
          (env_text env ''RESOLVED_BUILD_NUMBER'')
      | Advance \<Rightarrow>
          seq (read_text ops (relative_counter flavor)) (\<lambda>t.
          seq (lift_result (next_counter (text_strip t) (env_text env ''RESOLVED_BUILD_NUMBER''))) (\<lambda>number.
            write_text ops (relative_counter flavor) (dec number @ [CHR 0x0A])))
      | Resolve \<Rightarrow>
          seq (read_text ops (relative_counter flavor)) (\<lambda>t. resolve_command ops flavor env (text_strip t)))"

text \<open>The exit code. \<open>RequestError\<close>, \<open>BuildNumberError\<close> and \<open>UnicodeError\<close> are subclasses of \<open>ValueError\<close>.\<close>

definition number_main ::
    "'w checkout \<Rightarrow> number_action \<Rightarrow> string \<Rightarrow> environment \<Rightarrow> ('w run, nat) cmd" where
  "number_main ops act flavor env =
     catching (seq (number_command ops act flavor env) (\<lambda>_. ret 0))
       {ValueError, BuildNumberError, RequestError, UnicodeError, OSError, KeyError, SubprocessError}
       (\<lambda>_. ret 1)"

section \<open>Lemmas on numbers\<close>

lemma integer_Inr:
  "integer k v = Inr n \<longleftrightarrow> positive_decimal 9 v \<and> n = dec_value v \<and> n \<le> k"
  by (auto simp: integer_def)

lemma positive_decimal_dec: "0 < n \<Longrightarrow> n < 10 ^ Suc k \<Longrightarrow> positive_decimal k (dec n)"
  using dec_head [of n] dec_length [of n "Suc k"] dec_digits [of n]
  by (auto simp: positive_decimal_def digit_value_def ord_def)

lemma dec_value_pos: "s \<noteq> [] \<Longrightarrow> list_all is_digit s \<Longrightarrow> hd s \<noteq> CHR ''0'' \<Longrightarrow> 0 < dec_value s"
proof -
  have grow: "n \<le> foldl (\<lambda>n c. 10 * n + digit_value c) n s" for n s
  proof (induction s arbitrary: n)
    case (Cons c s)
    have "n \<le> 10 * n + digit_value c" by simp
    also have "\<dots> \<le> foldl (\<lambda>n c. 10 * n + digit_value c) (10 * n + digit_value c) s" by (rule Cons)
    finally show ?case by simp
  qed simp
  assume s: "s \<noteq> []" "list_all is_digit s" "hd s \<noteq> CHR ''0''"
  then obtain c t where c: "s = c # t" "is_digit c" "c \<noteq> CHR ''0''" by (cases s) auto
  have "ord c \<noteq> 48"
  proof
    assume "ord c = 48"
    then have "char_of (ord c) = (char_of (48 :: nat) :: char)" by simp
    also have "char_of (48 :: nat) = CHR ''0''" by code_simp
    finally show False using c(3) by (simp add: ord_def)
  qed
  with c(2) have "0 < digit_value c" by (simp add: digit_value_def is_digit_def)
  with grow [of "digit_value c" t] c(1) show ?thesis by (simp add: dec_value_def)
qed

lemma integer_range: "integer k v = Inr n \<Longrightarrow> 0 < n \<and> n \<le> k"
  by (auto simp: integer_Inr positive_decimal_def intro: dec_value_pos)

lemma integer_dec [simp]: "0 < n \<Longrightarrow> n \<le> k \<Longrightarrow> n < 10 ^ 10 \<Longrightarrow> integer k (dec n) = Inr n"
  by (simp add: integer_Inr positive_decimal_dec)

lemma next_counter_Inr:
  "next_counter current built = Inr n \<longleftrightarrow>
     (\<exists>c b. integer 65536 current = Inr c \<and> integer 65535 built = Inr b \<and> n = max c (b + 1))"
  by (auto simp: next_counter_def MAX_BUILD_NUMBER_def)

section \<open>The log of a publication\<close>

primrec is_push :: "event \<Rightarrow> bool" where
  "is_push (Git args code out) \<longleftrightarrow> args \<noteq> [] \<and> hd args = ''push''"
| "is_push (Read path t) \<longleftrightarrow> False"
| "is_push (Wrote path t) \<longleftrightarrow> False"
| "is_push (Appended path t) \<longleftrightarrow> False"

text \<open>
  The write of the counter follows its reading at once, and the new number is the larger of the
  old one and the successor of the built one, and larger than the old one.
\<close>

definition write_ready :: "string \<Rightarrow> string \<Rightarrow> event list \<Rightarrow> string \<Rightarrow> string \<Rightarrow> bool" where
  "write_ready flavor built pre path t \<longleftrightarrow> path = relative_counter flavor \<and>
     (\<exists>old c b rest. pre = Read path old # rest \<and> integer 65536 (text_strip old) = Inr c
        \<and> integer 65535 built = Inr b \<and> c < b + 1 \<and> t = dec (b + 1) @ [CHR 0x0A])"

text \<open>
  A push is the end of one uninterrupted pass: fetch, the tip, the ancestor check, the reset to the
  tip, the counter read and written, one commit, and the check that its only parent is the tip; its
  lease names that tip.
\<close>

definition push_ready :: "string \<Rightarrow> string \<Rightarrow> string \<Rightarrow> event list \<Rightarrow> string list \<Rightarrow> bool" where
  "push_ready flavor ref source pre args \<longleftrightarrow>
     (\<exists>tip commit new old parents head fetched o1 o2 o3 o4 o5 rest message.
        args = push_args ref tip commit
        \<and> pre = [Git [''rev-list'', ''--parents'', ''-n'', ''1'', commit] 0 parents,
             Git [''rev-parse'', ''HEAD''] 0 head,
             Git [''-c'', ''user.name=anonymous'', ''-c'', ''user.email=anonymous@users.noreply.github.com'',
               ''commit'', ''-m'', message] 0 o5,
             Git [''add'', ''--'', relative_counter flavor] 0 o4,
             Wrote (relative_counter flavor) new, Read (relative_counter flavor) old,
             Git [''reset'', ''--hard'', tip] 0 o3,
             Git [''merge-base'', ''--is-ancestor'', source, tip] 0 o2,
             Git [''rev-parse'', ''--verify'', ''FETCH_HEAD^{commit}''] 0 fetched,
             Git [''fetch'', ''--no-tags'', ''origin'', ref] 0 o1] @ rest
        \<and> text_strip fetched = tip \<and> text_strip head = commit \<and> split_words parents = [commit, tip])"

primrec allowed :: "string \<Rightarrow> string \<Rightarrow> string \<Rightarrow> string \<Rightarrow> event list \<Rightarrow> event \<Rightarrow> bool" where
  "allowed flavor ref source built pre (Git args code out) \<longleftrightarrow>
     (args \<noteq> [] \<and> hd args = ''push'' \<longrightarrow> push_ready flavor ref source pre args)"
| "allowed flavor ref source built pre (Read path t) \<longleftrightarrow> path = relative_counter flavor"
| "allowed flavor ref source built pre (Wrote path t) \<longleftrightarrow> write_ready flavor built pre path t"
| "allowed flavor ref source built pre (Appended path t) \<longleftrightarrow> False"

definition pushes :: "event list \<Rightarrow> nat" where
  "pushes evs = length (filter is_push evs)"

lemma pushes_simps [simp]:
  "pushes [] = 0"
  "pushes (e # evs) = (if is_push e then Suc (pushes evs) else pushes evs)"
  by (simp_all add: pushes_def)

text \<open>A push that \<open>git\<close> reported as accepted.\<close>

primrec is_accepted :: "event \<Rightarrow> bool" where
  "is_accepted (Git args code out) \<longleftrightarrow> args \<noteq> [] \<and> hd args = ''push'' \<and> code = 0"
| "is_accepted (Read path t) \<longleftrightarrow> False"
| "is_accepted (Wrote path t) \<longleftrightarrow> False"
| "is_accepted (Appended path t) \<longleftrightarrow> False"

definition accepted :: "event list \<Rightarrow> nat" where
  "accepted evs = length (filter is_accepted evs)"

lemma accepted_simps [simp]:
  "accepted [] = 0"
  "accepted (e # evs) = (if is_accepted e then Suc (accepted evs) else accepted evs)"
  by (simp_all add: accepted_def)

text \<open>What the log looks like while nothing is published, and after a return of the source.\<close>

definition log_inv :: "string \<Rightarrow> string \<Rightarrow> string \<Rightarrow> string \<Rightarrow> nat \<Rightarrow> nat \<Rightarrow> 'w run \<Rightarrow> bool" where
  "log_inv flavor ref source built k n s \<longleftrightarrow>
     trace_ok (allowed flavor ref source built) (events s) \<and> pushes (events s) \<le> k \<and> accepted (events s) = n"

definition sufficient :: "string \<Rightarrow> string \<Rightarrow> event list \<Rightarrow> bool" where
  "sufficient flavor built evs \<longleftrightarrow> (\<exists>t rest c b. evs = Read (relative_counter flavor) t # rest
     \<and> integer 65536 (text_strip t) = Inr c \<and> integer 65535 built = Inr b \<and> b < c)"

definition published :: "string \<Rightarrow> string \<Rightarrow> string \<Rightarrow> string \<Rightarrow> nat \<Rightarrow> 'w run \<Rightarrow> bool" where
  "published flavor ref source built k s \<longleftrightarrow>
     log_inv flavor ref source built k 1 s \<and> is_accepted (hd (events s))
     \<or> log_inv flavor ref source built k 0 s \<and> sufficient flavor built (events s)"

text \<open>Rules that follow a command step by step, with the log known exactly and a fact \<open>J\<close> kept when a step raises.\<close>

named_theorems log_steps

lemma step_git [log_steps]:
  "(\<And>s. events s = L \<Longrightarrow> J s) \<Longrightarrow> (\<And>s code out. events s = Git args code out # L \<Longrightarrow> J s)
   \<Longrightarrow> (\<And>out. triple (\<lambda>s. events s = Git args 0 out # L) (f (0, out)) Q (\<lambda>_. J))
   \<Longrightarrow> triple (\<lambda>s. events s = L) (seq (git ops True args) f) Q (\<lambda>_. J)"
proof (rule triple_seq [where R = "\<lambda>r s. fst r = 0 \<and> events s = Git args 0 (snd r) # L"], goal_cases)
  case 1
  then show ?case by (auto simp: triple_def git_def log_def split: prod.split sum.split)
next
  case (2 r)
  then show ?case by (cases r) (auto intro!: triple_pure)
qed

lemma step_git_unchecked [log_steps]:
  "(\<And>s. events s = L \<Longrightarrow> J s)
   \<Longrightarrow> (\<And>code out. triple (\<lambda>s. events s = Git args code out # L) (f (code, out)) Q (\<lambda>_. J))
   \<Longrightarrow> triple (\<lambda>s. events s = L) (seq (git ops False args) f) Q (\<lambda>_. J)"
proof (rule triple_seq [where R = "\<lambda>r s. events s = Git args (fst r) (snd r) # L"], goal_cases)
  case 1
  then show ?case by (auto simp: triple_def git_def log_def split: prod.split sum.split)
next
  case (2 r)
  then show ?case by (cases r) simp
qed

lemma step_read [log_steps]:
  "(\<And>s. events s = L \<Longrightarrow> J s) \<Longrightarrow> (\<And>t. triple (\<lambda>s. events s = Read path t # L) (f t) Q (\<lambda>_. J))
   \<Longrightarrow> triple (\<lambda>s. events s = L) (seq (read_text ops path) f) Q (\<lambda>_. J)"
proof (rule triple_seq [where R = "\<lambda>t s. events s = Read path t # L"], goal_cases)
  case 1
  then show ?case by (auto simp: triple_def read_text_def log_def split: prod.split sum.split)
next
  case (2 r)
  then show ?case by simp
qed

lemma step_write [log_steps]:
  "(\<And>s. events s = Wrote path t # L \<Longrightarrow> J s) \<Longrightarrow> triple (\<lambda>s. events s = Wrote path t # L) (f ()) Q (\<lambda>_. J)
   \<Longrightarrow> triple (\<lambda>s. events s = L) (seq (write_text ops path t) f) Q (\<lambda>_. J)"
proof (rule triple_seq [where R = "\<lambda>_ s. events s = Wrote path t # L"], goal_cases)
  case 1
  then show ?case by (auto simp: triple_def write_text_def log_def split: prod.split sum.split)
next
  case (2 r)
  then show ?case by simp
qed

lemma step_unless [log_steps]:
  "(\<And>s. events s = L \<Longrightarrow> J s) \<Longrightarrow> (\<not> c \<Longrightarrow> triple (\<lambda>s. events s = L) (f ()) Q (\<lambda>_. J))
   \<Longrightarrow> triple (\<lambda>s. events s = L) (seq (unless_raise c k m) f) Q (\<lambda>_. J)"
  by (auto simp: triple_def seq_def unless_raise_def throw_def ret_def)

lemma step_lift [log_steps]:
  "(\<And>s. events s = L \<Longrightarrow> J s) \<Longrightarrow> (\<And>x. m = Inr x \<Longrightarrow> triple (\<lambda>s. events s = L) (f x) Q (\<lambda>_. J))
   \<Longrightarrow> triple (\<lambda>s. events s = L) (seq (lift_result m) f) Q (\<lambda>_. J)"
  by (cases m) (auto simp: triple_def seq_def lift_result_def)

lemma step_reading [log_steps]: "(\<And>x. triple P (f x) Q E) \<Longrightarrow> triple P (seq (reading g) f) Q E"
  by (rule triple_seq [where R = "\<lambda>_. P"]) (auto intro: triple_reading)

lemma step_ret [log_steps]: "(\<And>s. events s = L \<Longrightarrow> Q x s) \<Longrightarrow> triple (\<lambda>s. events s = L) (ret x) Q E"
  by (rule triple_ret)

lemma seq_assoc: "seq (seq m f) g = seq m (\<lambda>x. seq (f x) g)"
  by (auto simp: seq_def fun_eq_iff split: prod.split sum.split)

lemma seq_ret: "seq (ret x) g = g x"
  by (simp add: seq_def ret_def fun_eq_iff)

lemma seq_if: "seq (if c then m else n) g = (if c then seq m g else seq n g)"
  by simp

lemma write_readyI:
  "next_counter (text_strip t) built = Inr n \<Longrightarrow> integer (Suc MAX_BUILD_NUMBER) (text_strip t) = Inr old \<Longrightarrow> n \<noteq> old
   \<Longrightarrow> write_ready flavor built (Read (relative_counter flavor) t # rest) (relative_counter flavor) (dec n @ [CHR 0x0A])"
  by (auto simp: write_ready_def next_counter_Inr MAX_BUILD_NUMBER_def max_def split: if_split_asm)

lemma push_args_head [simp]: "push_args ref tip commit \<noteq> []" "hd (push_args ref tip commit) = ''push''"
  by (simp_all add: push_args_def)

lemma push_readyI:
  "split_words parents = [text_strip head, text_strip fetched]
   \<Longrightarrow> push_ready flavor ref source
     (Git [''rev-list'', ''--parents'', ''-n'', ''1'', text_strip head] 0 parents #
      Git [''rev-parse'', ''HEAD''] 0 head #
      Git [''-c'', ''user.name=anonymous'', ''-c'', ''user.email=anonymous@users.noreply.github.com'',
        ''commit'', ''-m'', message] 0 o5 #
      Git [''add'', ''--'', relative_counter flavor] 0 o4 #
      Wrote (relative_counter flavor) new # Read (relative_counter flavor) old #
      Git [''reset'', ''--hard'', text_strip fetched] 0 o3 #
      Git [''merge-base'', ''--is-ancestor'', source, text_strip fetched] 0 o2 #
      Git [''rev-parse'', ''--verify'', ''FETCH_HEAD^{commit}''] 0 fetched #
      Git [''fetch'', ''--no-tags'', ''origin'', ref] 0 o1 # rest)
     (push_args ref (text_strip fetched) (text_strip head))"
  unfolding push_ready_def by (intro exI conjI) (rule refl | simp)+

lemma sufficientI:
  "next_counter (text_strip t) built = Inr n \<Longrightarrow> integer (Suc MAX_BUILD_NUMBER) (text_strip t) = Inr n
   \<Longrightarrow> sufficient flavor built (Read (relative_counter flavor) t # rest)"
  by (auto simp: sufficient_def next_counter_Inr MAX_BUILD_NUMBER_def max_def split: if_split_asm)

text \<open>One pass keeps the log allowed, and adds one push at most.\<close>

lemma publish_attempt_log:
  assumes "trace_ok (allowed flavor ref source built) L" "pushes L \<le> k" "accepted L = 0"
  shows "triple (\<lambda>s. events s = L) (publish_attempt ops flavor ref source built)
    (\<lambda>r. case r of None \<Rightarrow> log_inv flavor ref source built (Suc k) 0 | Some _ \<Rightarrow> published flavor ref source built (Suc k))
    (\<lambda>_. log_inv flavor ref source built (Suc k) 0)"
proof -
  have le: "pushes L \<le> Suc k" using assms(2) by simp
  show ?thesis
    unfolding publish_attempt_def fetched_counter_def commit_counter_def seq_assoc Let_def split_beta
      fst_conv snd_conv seq_ret
    by (intro log_steps triple_if)
       (simp_all add: log_inv_def published_def assms le write_readyI push_readyI sufficientI)
qed

lemma log_inv_mono: "log_inv flavor ref source built j n s \<Longrightarrow> j \<le> k \<Longrightarrow> log_inv flavor ref source built k n s"
  by (simp add: log_inv_def)

lemma published_mono: "published flavor ref source built j s \<Longrightarrow> j \<le> k \<Longrightarrow> published flavor ref source built k s"
  by (auto simp: published_def intro: log_inv_mono)

lemma triple_events:
  "(\<And>s. P s \<Longrightarrow> triple (\<lambda>s'. events s' = events s) m Q E) \<Longrightarrow> triple P m Q E"
  by (simp add: triple_def)

lemma publish_attempt_inv:
  assumes "j < k"
  shows "triple (log_inv flavor ref source built j 0) (publish_attempt ops flavor ref source built)
    (\<lambda>r s. case r of None \<Rightarrow> log_inv flavor ref source built (Suc j) 0 s | Some _ \<Rightarrow> published flavor ref source built k s)
    (\<lambda>_. log_inv flavor ref source built k 0)"
proof (rule triple_events)
  fix s assume "log_inv flavor ref source built j 0 (s :: 'a run)"
  then have "trace_ok (allowed flavor ref source built) (events s)" "pushes (events s) \<le> j" "accepted (events s) = 0"
    by (simp_all add: log_inv_def)
  from publish_attempt_log [OF this, of ops] show "triple (\<lambda>s'. events s' = events s)
      (publish_attempt ops flavor ref source built)
      (\<lambda>r s. case r of None \<Rightarrow> log_inv flavor ref source built (Suc j) 0 s | Some _ \<Rightarrow> published flavor ref source built k s)
      (\<lambda>_. log_inv flavor ref source built k 0)"
    by (rule triple_conseq)
       (use assms in \<open>auto split: option.splits intro: log_inv_mono [of _ _ _ _ "Suc j"] published_mono [of _ _ _ _ "Suc j"]\<close>)
qed

lemma publish_log:
  "triple (\<lambda>s. events s = []) (publish ops flavor ref source built)
     (\<lambda>_. published flavor ref source built 3) (\<lambda>_. log_inv flavor ref source built 3 0)"
proof -
  have loop: "triple (log_inv flavor ref source built 0 0)
      (try_each (\<lambda>_. publish_attempt ops flavor ref source built) [1 ..< 4])
      (\<lambda>r s. case r of None \<Rightarrow> log_inv flavor ref source built 3 0 s | Some _ \<Rightarrow> published flavor ref source built 3 s)
      (\<lambda>_. log_inv flavor ref source built 3 0)"
    by (rule triple_try_each_indexed [where I = "\<lambda>j. log_inv flavor ref source built j 0" and j = 0])
       (use publish_attempt_inv [of _ 3] in \<open>simp_all cong: option.case_cong\<close>)
  have start: "triple (\<lambda>s. events s = L) (seq (try_each (\<lambda>_. publish_attempt ops flavor ref source built) [1 ..< 4])
       (\<lambda>r. case r of Some _ \<Rightarrow> ret () | None \<Rightarrow> throw BuildNumberError ''Counter push failed after three attempts''))
       (\<lambda>_. published flavor ref source built 3) (\<lambda>_. log_inv flavor ref source built 3 0)"
    if "trace_ok (allowed flavor ref source built) L" "pushes L = 0" "accepted L = 0" for L
  proof (rule triple_seq [where R = "\<lambda>r s. case r of None \<Rightarrow> log_inv flavor ref source built 3 0 s
      | Some _ \<Rightarrow> published flavor ref source built 3 s"])
    show "triple (\<lambda>s. events s = L) (try_each (\<lambda>_. publish_attempt ops flavor ref source built) [1 ..< 4])
        (\<lambda>r s. case r of None \<Rightarrow> log_inv flavor ref source built 3 0 s | Some _ \<Rightarrow> published flavor ref source built 3 s)
        (\<lambda>_. log_inv flavor ref source built 3 0)"
      by (rule triple_conseq [OF loop]) (simp_all add: log_inv_def that)
  next
    fix r :: "unit option"
    show "triple (\<lambda>s. case r of None \<Rightarrow> log_inv flavor ref source built 3 0 s | Some _ \<Rightarrow> published flavor ref source built 3 s)
        (case r of Some _ \<Rightarrow> ret () | None \<Rightarrow> throw BuildNumberError ''Counter push failed after three attempts'')
        (\<lambda>_. published flavor ref source built 3) (\<lambda>_. log_inv flavor ref source built 3 0)"
      by (cases r) (simp_all add: triple_ret triple_throw)
  qed
  show ?thesis
    unfolding publish_def split_beta fst_conv snd_conv
    by (intro log_steps start) (simp_all add: log_inv_def)
qed

section \<open>A sample checkout\<close>

text \<open>Its world says whether the counter commit exists.\<close>

definition sample_sha :: string where
  "sample_sha = ''0123456789abcdef0123456789abcdef01234567''"

definition sample_git :: "string list \<Rightarrow> bool \<Rightarrow> (exn + (int \<times> string)) \<times> bool" where
  "sample_git args committed =
     (if args = [''rev-parse'', ''HEAD''] then (Inr (0, (if committed then ''c1'' else sample_sha) @ [CHR 0x0A]), committed)
      else if hd args = ''rev-parse'' then (Inr (0, ''t1'' @ [CHR 0x0A]), committed)
      else if hd args = ''rev-list'' then (Inr (0, ''c1 t1'' @ [CHR 0x0A]), committed)
      else (Inr (0, []), committed \<or> hd args = ''-c''))"

definition sample_checkout :: "bool checkout" where
  "sample_checkout = \<lparr>git_run = sample_git, path_is_link = (\<lambda>_ _. False), path_is_file = (\<lambda>_ _. True),
     text_read = (\<lambda>_ _. Inr ''5''), text_write = (\<lambda>_ _ w. (Inr (), w)), out_append = (\<lambda>_ _ w. (Inr (), w))\<rparr>"

lemma sample_ground:
  "text_strip ''t1\<newline>'' = ''t1''" "text_strip ''c1\<newline>'' = ''c1''" "text_strip (sample_sha @ [CHR 0x0A]) = sample_sha"
  "text_strip ''5'' = ''5''" "text_strip [] = []" "split_words ''c1 t1\<newline>'' = [''c1'', ''t1'']" "dec 8 = ''8''"
  "publication_bad ''brand_a'' ''refs/heads/main'' sample_sha = False"
  by code_simp+

lemma sample_numbers: "next_counter ''5'' ''7'' = Inr 8" "integer (Suc MAX_BUILD_NUMBER) ''5'' = Inr 5" "integer MAX_BUILD_NUMBER ''7'' = Inr 7"
proof -
  have "case next_counter ''5'' ''7'' of Inl _ \<Rightarrow> False | Inr n \<Rightarrow> n = 8" 
   "case integer (Suc MAX_BUILD_NUMBER) ''5'' of Inl _ \<Rightarrow> False | Inr n \<Rightarrow> n = 5"
   "case integer MAX_BUILD_NUMBER ''7'' of Inl _ \<Rightarrow> False | Inr n \<Rightarrow> n = 7"
    by code_simp+
  then show "next_counter ''5'' ''7'' = Inr 8" "integer (Suc MAX_BUILD_NUMBER) ''5'' = Inr 5" "integer MAX_BUILD_NUMBER ''7'' = Inr 7"
    by (simp_all split: sum.splits)
qed

lemma sample_git_runs:
  "git sample_checkout check args s = (let (r, w) = sample_git args (world s) in
     case r of Inl e \<Rightarrow> (Inl e, s\<lparr>world := w\<rparr>)
     | Inr (code, out) \<Rightarrow> (if check \<and> code \<noteq> 0
           then raise BuildNumberError (''Number publication Git operation failed: '' @ hd args)
           else Inr (code, out), log (Git args code out) (s\<lparr>world := w\<rparr>)))"
  by (simp add: git_def sample_checkout_def Let_def split_beta split: sum.split)

lemmas run_step = seq_def sample_git_runs sample_git_def unless_raise_def ret_def lift_result_def reading_def log_def
  sample_ground sample_numbers

lemma sample_files:
  "read_text sample_checkout p s = (Inr ''5'', log (Read p ''5'') s)"
  "write_text sample_checkout p t s = (Inr (), log (Wrote p t) s)"
  by (simp_all add: read_text_def write_text_def sample_checkout_def)

lemma sample_fetched: "fetched_counter sample_checkout ''brand_a'' s
  = (Inr ''5'', log (Read (relative_counter ''brand_a'') ''5'') s)"
  by (simp add: fetched_counter_def run_step sample_files) (simp add: sample_checkout_def)

definition sample_commit_log :: "event list" where
  "sample_commit_log =
     [Git [''rev-list'', ''--parents'', ''-n'', ''1'', ''c1''] 0 ''c1 t1\<newline>'', Git [''rev-parse'', ''HEAD''] 0 ''c1\<newline>'',
      Git [''-c'', ''user.name=anonymous'', ''-c'', ''user.email=anonymous@users.noreply.github.com'', ''commit'', ''-m'',
        ''[xfork] chore(build): brand_a next build 8''] 0 [],
      Git [''add'', ''--'', relative_counter ''brand_a''] 0 [], Wrote (relative_counter ''brand_a'') ''8\<newline>'']"

definition sample_fetch_log :: "event list" where
  "sample_fetch_log =
     [Read (relative_counter ''brand_a'') ''5'', Git [''reset'', ''--hard'', ''t1''] 0 [],
      Git [''merge-base'', ''--is-ancestor'', sample_sha, ''t1''] 0 [],
      Git [''rev-parse'', ''--verify'', ''FETCH_HEAD^{commit}''] 0 ''t1\<newline>'',
      Git [''fetch'', ''--no-tags'', ''origin'', ''refs/heads/main''] 0 []]"

lemma sample_commit: "commit_counter sample_checkout ''brand_a'' ''t1'' 8 \<lparr>world = False, events = L\<rparr>
  = (Inr ''c1'', \<lparr>world = True, events = sample_commit_log @ L\<rparr>)"
  by (simp add: commit_counter_def run_step sample_files sample_commit_log_def)

lemma sample_attempt:
  "publish_attempt sample_checkout ''brand_a'' ''refs/heads/main'' sample_sha ''7'' \<lparr>world = False, events = L\<rparr>
   = (Inr (Some ()), \<lparr>world = True, events =
       Git (push_args ''refs/heads/main'' ''t1'' ''c1'') 0 [] # sample_commit_log @ sample_fetch_log @ L\<rparr>)"
  by (simp add: publish_attempt_def run_step sample_fetched sample_commit Let_def)
     (simp add: sample_fetch_log_def push_args_def)

definition sample_run :: "bool run" where
  "sample_run = snd (publish sample_checkout ''brand_a'' ''refs/heads/main'' sample_sha ''7'' \<lparr>world = False, events = []\<rparr>)"

lemma sample_publish_run:
  "publish sample_checkout ''brand_a'' ''refs/heads/main'' sample_sha ''7'' \<lparr>world = False, events = []\<rparr> = (Inr (), sample_run)"
  "\<exists>L. events sample_run =
     Git (push_args ''refs/heads/main'' ''t1'' ''c1'') 0 [] # sample_commit_log @ sample_fetch_log @ L"
  by (simp_all add: sample_run_def publish_def run_step sample_attempt upt_conv_Cons)

lemma publish_log_cases:
  assumes "publish ops flavor ref source built s = (r, t)" and "events s = []"
  shows "case r of Inl e \<Rightarrow> log_inv flavor ref source built 3 0 t | Inr _ \<Rightarrow> published flavor ref source built 3 t"
  using publish_log [of ops flavor ref source built, unfolded triple_def, rule_format, of s] assms by simp

lemma publish_trace:
  assumes "publish ops flavor ref source built s = (r, t)" and "events s = []"
  shows "trace_ok (allowed flavor ref source built) (events t)" "pushes (events t) \<le> 3"
  using publish_log_cases [OF assms] by (cases r; auto simp: published_def log_inv_def)+

section \<open>Properties\<close>

text \<open>The number a run builds with is from 1 to 65535 and never below the counter of the source
  snapshot; a requested number is used as it is, and without one the counter is used.\<close>

theorem resolve_bounds:
  assumes "resolve current requested = Inr n"
  shows "1 \<le> n \<and> n \<le> 65535 \<and> dec_value current \<le> n
    \<and> n = dec_value (if requested = [] then current else requested)"
proof -
  obtain a where a: "integer 65535 current = Inr a" "a \<le> n"
    and n: "(if requested = [] then Inr a else integer 65535 requested) = Inr n"
    using assms by (auto simp: resolve_def MAX_BUILD_NUMBER_def not_less split: if_split_asm)
  then have "integer 65535 (if requested = [] then current else requested) = Inr n" by (auto split: if_split_asm)
  with a integer_range [OF this] show ?thesis by (auto simp: integer_Inr)
qed

theorem resolve_bounds_witness:
  "resolve ''12'' ''40'' = Inr 40 \<and> dec_value ''12'' \<le> (40 :: nat)"
proof -
  have "case resolve ''12'' ''40'' of Inl _ \<Rightarrow> False | Inr n \<Rightarrow> n = 40" by code_simp
  then have run: "resolve ''12'' ''40'' = Inr 40" by (simp split: sum.splits)
  with resolve_bounds [OF run] show ?thesis by simp
qed

text \<open>The advanced counter is above the built number, not below the old counter and at most
  65536; its decimal text is read back as the same number, advancing again changes nothing, and the
  next run without a request builds with it while numbers last.\<close>

theorem next_counter_advances:
  assumes "next_counter current built = Inr n"
  shows "dec_value built < n \<and> dec_value current \<le> n \<and> n \<le> 65536
    \<and> next_counter (dec n) built = Inr n \<and> (n \<le> 65535 \<longrightarrow> resolve (dec n) [] = Inr n)"
proof -
  obtain c b where c: "integer 65536 current = Inr c" and b: "integer 65535 built = Inr b" and n: "n = max c (b + 1)"
    using assms by (auto simp: next_counter_Inr)
  have "0 < n" "n \<le> 65536" using n integer_range [OF c] integer_range [OF b] by auto
  then have "integer 65536 (dec n) = Inr n" by simp
  with b n have "next_counter (dec n) built = Inr n" by (auto simp: next_counter_Inr)
  moreover have "resolve (dec n) [] = Inr n" if "n \<le> 65535"
    using that \<open>0 < n\<close> by (simp add: resolve_def MAX_BUILD_NUMBER_def)
  ultimately show ?thesis using c b n \<open>n \<le> 65536\<close> by (auto simp: integer_Inr)
qed

theorem next_counter_advances_witness:
  "next_counter ''5'' ''7'' = Inr 8 \<and> resolve (dec 8) [] = Inr 8"
proof -
  have "case next_counter ''5'' ''7'' of Inl _ \<Rightarrow> False | Inr n \<Rightarrow> n = 8" by code_simp
  then have run: "next_counter ''5'' ''7'' = Inr 8" by (simp split: sum.splits)
  with next_counter_advances [OF run] show ?thesis by simp
qed

text \<open>C3: Whatever \<open>git\<close> answers, a publication pushes at most three times, and every push is a
  compare-and-swap: its lease is the tip fetched in the same uninterrupted pass, the built commit was
  checked to be an ancestor of that tip, and the pushed commit was checked to have the tip as its sole
  parent.\<close>

theorem publish_pushes_guarded:
  assumes "publish ops flavor ref source built s = (r, t)" and "events s = []"
  shows "pushes (events t) \<le> 3
    \<and> (\<forall>post args code out pre. events t = post @ Git (''push'' # args) code out # pre
        \<longrightarrow> push_ready flavor ref source pre (''push'' # args))"
  using publish_trace [OF assms] by (auto dest!: trace_ok_split)

theorem publish_pushes_guarded_witness:
  "\<exists>pre. push_ready ''brand_a'' ''refs/heads/main'' sample_sha pre (push_args ''refs/heads/main'' ''t1'' ''c1'')"
proof -
  obtain pre where "events sample_run = [] @ Git (''push'' # tl (push_args ''refs/heads/main'' ''t1'' ''c1'')) 0 [] # pre"
    using sample_publish_run(2) by (auto simp: push_args_def)
  moreover have "''push'' # tl (push_args ''refs/heads/main'' ''t1'' ''c1'') = push_args ''refs/heads/main'' ''t1'' ''c1''"
    by (simp add: push_args_def)
  ultimately show ?thesis
    using publish_pushes_guarded [OF sample_publish_run(1)] by (metis run.select_convs(2))
qed

text \<open>C30: A publication that returns has either seen its last push accepted, and no other, or it
  found a counter above the built number at the tip and pushed nothing that was accepted; one that
  raises has no accepted push behind it.\<close>

theorem publish_outcome:
  assumes "publish ops flavor ref source built s = (r, t)" and "events s = []"
  shows "case r of
      Inl e \<Rightarrow> accepted (events t) = 0
    | Inr _ \<Rightarrow> accepted (events t) = 1 \<and> is_accepted (hd (events t))
        \<or> accepted (events t) = 0 \<and> sufficient flavor built (events t)"
  using publish_log_cases [OF assms] by (cases r) (auto simp: published_def log_inv_def)

theorem publish_outcome_witness: "accepted (events sample_run) = 1"
proof -
  have "\<not> sufficient ''brand_a'' ''7'' (events sample_run)"
    using sample_publish_run(2) by (auto simp: sufficient_def)
  with publish_outcome [OF sample_publish_run(1)] show ?thesis by simp
qed

text \<open>The only file a publication writes is the counter of its flavor, right after reading it,
  and what it writes is the successor of the built number, above the number read.\<close>

theorem publish_writes_counter:
  assumes "publish ops flavor ref source built s = (r, t)" and "events s = []"
    and "events t = post @ Wrote path new # pre"
  shows "write_ready flavor built pre path new"
  using publish_trace(1) [OF assms(1,2)] assms(3) by (auto dest!: trace_ok_split)

theorem publish_writes_counter_witness:
  "\<exists>pre. write_ready ''brand_a'' ''7'' pre (relative_counter ''brand_a'') (''8'' @ [CHR 0x0A])"
proof -
  obtain post pre where "events sample_run = post @ Wrote (relative_counter ''brand_a'') (''8'' @ [CHR 0x0A]) # pre"
    using sample_publish_run(2) in_set_conv_decomp
      [of "Wrote (relative_counter ''brand_a'') (''8'' @ [CHR 0x0A])" "events sample_run"]
    by (auto simp: sample_commit_log_def)
  from publish_writes_counter [OF sample_publish_run(1) _ this] show ?thesis by auto
qed

end
