(* ===== verification/Py_Re.thy ===== *)
theory Py_Re
  imports Py_Value
begin

text \<open>
  The regular expressions of Python's \<open>re\<close> that the tools use, all of them regular: classes of
  characters, sequences, alternatives, repetition. \<open>matches\<close> says inductively which texts a pattern
  stands for, \<open>fullmatch\<close> decides it by derivatives, and \<open>fullmatch_iff\<close> shows that they agree.
  \<open>re.search\<close> is a full match with anything before and after.
\<close>

section \<open>Patterns\<close>

text \<open>A class holds ranges of code points and may be negated.\<close>

datatype regex =
    RNone
  | REps
  | RClass bool "(nat \<times> nat) list"
  | RSeq regex regex
  | RAlt regex regex
  | RStar regex

definition in_class :: "bool \<Rightarrow> (nat \<times> nat) list \<Rightarrow> char \<Rightarrow> bool" where
  "in_class neg ranges c \<longleftrightarrow> neg \<noteq> list_ex (\<lambda>(a, b). a \<le> ord c \<and> ord c \<le> b) ranges"

inductive matches :: "regex \<Rightarrow> string \<Rightarrow> bool" where
  m_eps: "matches REps []"
| m_class: "in_class neg rs c \<Longrightarrow> matches (RClass neg rs) [c]"
| m_seq: "matches r s \<Longrightarrow> matches r' s' \<Longrightarrow> matches (RSeq r r') (s @ s')"
| m_left: "matches r s \<Longrightarrow> matches (RAlt r r') s"
| m_right: "matches r' s \<Longrightarrow> matches (RAlt r r') s"
| m_stop: "matches (RStar r) []"
| m_more: "matches r s \<Longrightarrow> matches (RStar r) s' \<Longrightarrow> matches (RStar r) (s @ s')"

inductive_cases matches_NoneE [elim!]: "matches RNone s"
inductive_cases matches_EpsE [elim!]: "matches REps s"
inductive_cases matches_ClassE [elim!]: "matches (RClass neg rs) s"
inductive_cases matches_SeqE [elim!]: "matches (RSeq r r') s"
inductive_cases matches_AltE: "matches (RAlt r r') s"
inductive_cases matches_StarE: "matches (RStar r) s"

declare matches.intros [intro]

lemma matches_simps [simp]:
  "\<not> matches RNone s"
  "matches REps s \<longleftrightarrow> s = []"
  "matches (RClass neg rs) s \<longleftrightarrow> (\<exists>c. s = [c] \<and> in_class neg rs c)"
  "matches (RAlt r r') s \<longleftrightarrow> matches r s \<or> matches r' s"
  by (auto elim: matches_AltE)

lemma matches_Seq: "matches (RSeq r r') s \<longleftrightarrow> (\<exists>a b. s = a @ b \<and> matches r a \<and> matches r' b)"
  by auto

text \<open>A non-empty repetition starts with a non-empty first round.\<close>

lemma matches_Star_Cons:
  "matches (RStar r) (c # s) \<longleftrightarrow> (\<exists>a b. s = a @ b \<and> matches r (c # a) \<and> matches (RStar r) b)"
proof
  have "\<exists>a b. s = a @ b \<and> matches r (c # a) \<and> matches (RStar r) b"
    if "matches q t" "q = RStar r" "t = c # s" for q t
    using that
  proof (induction arbitrary: s rule: matches.induct)
    case (m_more r' u v)
    then show ?case by (cases u) auto
  qed auto
  then show "matches (RStar r) (c # s) \<Longrightarrow> \<exists>a b. s = a @ b \<and> matches r (c # a) \<and> matches (RStar r) b"
    by blast
next
  assume "\<exists>a b. s = a @ b \<and> matches r (c # a) \<and> matches (RStar r) b"
  then obtain a b where "s = a @ b" "matches r (c # a)" "matches (RStar r) b" by blast
  then have "matches (RStar r) ((c # a) @ b)" by blast
  then show "matches (RStar r) (c # s)" using \<open>s = a @ b\<close> by simp
qed

section \<open>The matcher\<close>

primrec nullable :: "regex \<Rightarrow> bool" where
  "nullable RNone = False"
| "nullable REps = True"
| "nullable (RClass neg rs) = False"
| "nullable (RSeq r r') = (nullable r \<and> nullable r')"
| "nullable (RAlt r r') = (nullable r \<or> nullable r')"
| "nullable (RStar r) = True"

text \<open>Sequences and alternatives that leave out dead and repeated parts.\<close>

definition rseq :: "regex \<Rightarrow> regex \<Rightarrow> regex" where
  "rseq r r' = (if r = RNone \<or> r' = RNone then RNone else if r = REps then r' else RSeq r r')"

definition ralt :: "regex \<Rightarrow> regex \<Rightarrow> regex" where
  "ralt r r' = (if r = RNone then r' else if r' = RNone \<or> r = r' then r else RAlt r r')"

primrec deriv :: "char \<Rightarrow> regex \<Rightarrow> regex" where
  "deriv c RNone = RNone"
| "deriv c REps = RNone"
| "deriv c (RClass neg rs) = (if in_class neg rs c then REps else RNone)"
| "deriv c (RSeq r r') = (if nullable r then ralt (rseq (deriv c r) r') (deriv c r') else rseq (deriv c r) r')"
| "deriv c (RAlt r r') = ralt (deriv c r) (deriv c r')"
| "deriv c (RStar r) = rseq (deriv c r) (RStar r)"

fun fullmatch :: "regex \<Rightarrow> string \<Rightarrow> bool" where
  "fullmatch r [] = nullable r"
| "fullmatch r (c # s) = fullmatch (deriv c r) s"

lemma nullable_iff: "nullable r \<longleftrightarrow> matches r []"
  by (induction r) (auto simp: matches_Seq)

lemma matches_rseq [simp]: "matches (rseq r r') s \<longleftrightarrow> matches (RSeq r r') s"
  by (auto simp: rseq_def matches_Seq)

lemma matches_ralt [simp]: "matches (ralt r r') s \<longleftrightarrow> matches r s \<or> matches r' s"
  by (auto simp: ralt_def)

lemma matches_Seq_Cons:
  "matches (RSeq r r') (c # s) \<longleftrightarrow>
     (\<exists>a b. s = a @ b \<and> matches r (c # a) \<and> matches r' b) \<or> nullable r \<and> matches r' (c # s)"
  by (auto simp: matches_Seq nullable_iff Cons_eq_append_conv)

lemma matches_deriv: "matches (deriv c r) s \<longleftrightarrow> matches r (c # s)"
proof (induction r arbitrary: s)
  case (RSeq r r')
  have "matches (RSeq (deriv c r) r') s \<longleftrightarrow> (\<exists>a b. s = a @ b \<and> matches r (c # a) \<and> matches r' b)"
    using RSeq.IH(1) by (simp add: matches_Seq)
  with RSeq.IH(2) show ?case by (simp add: matches_Seq_Cons)
next
  case (RStar r)
  then show ?case by (simp add: matches_Seq matches_Star_Cons)
qed auto

lemma fullmatch_iff: "fullmatch r s \<longleftrightarrow> matches r s"
  by (induction s arbitrary: r) (simp_all add: nullable_iff matches_deriv)

section \<open>Abbreviated patterns\<close>

definition rchar :: "char \<Rightarrow> regex" where
  "rchar c = RClass False [(ord c, ord c)]"

primrec rlit :: "string \<Rightarrow> regex" where
  "rlit [] = REps"
| "rlit (c # s) = RSeq (rchar c) (rlit s)"

definition rany :: regex where
  "rany = RClass True []"

definition ropt :: "regex \<Rightarrow> regex" where
  "ropt r = RAlt r REps"

definition rplus :: "regex \<Rightarrow> regex" where
  "rplus r = RSeq r (RStar r)"

primrec rtimes :: "nat \<Rightarrow> regex \<Rightarrow> regex" where
  "rtimes 0 r = REps"
| "rtimes (Suc n) r = RSeq r (rtimes n r)"

primrec rupto :: "nat \<Rightarrow> regex \<Rightarrow> regex" where
  "rupto 0 r = REps"
| "rupto (Suc n) r = ropt (RSeq r (rupto n r))"

definition rseqs :: "regex list \<Rightarrow> regex" where
  "rseqs rs = foldr RSeq rs REps"

definition ralts :: "regex list \<Rightarrow> regex" where
  "ralts rs = foldr RAlt rs RNone"

definition rdigit :: regex where
  "rdigit = RClass False [(48, 57)]"

definition rsearch :: "regex \<Rightarrow> string \<Rightarrow> bool" where
  "rsearch r s \<longleftrightarrow> fullmatch (RSeq (RStar rany) (RSeq r (RStar rany))) s"

lemma matches_class_star: "matches (RStar (RClass neg rs)) s \<longleftrightarrow> list_all (in_class neg rs) s"
  by (induction s) (auto simp: matches_Star_Cons)

lemma matches_any_star [simp]: "matches (RStar rany) s"
  by (simp add: rany_def matches_class_star in_class_def list_all_iff)

lemma matches_lit [simp]: "matches (rlit t) s \<longleftrightarrow> s = t"
proof (induction t arbitrary: s)
  case (Cons c t)
  have "ord a = ord c \<longleftrightarrow> a = c" for a by (simp add: ord_def)
  then show ?case using Cons by (auto simp: matches_Seq rchar_def in_class_def)
qed simp

lemma matches_class_seq:
  "matches (RSeq (RClass neg rs) r) s \<longleftrightarrow> (case s of [] \<Rightarrow> False | c # t \<Rightarrow> in_class neg rs c \<and> matches r t)"
proof (cases s)
  case (Cons c t)
  have "(\<exists>a b. t = a @ b \<and> matches (RClass neg rs) (c # a) \<and> matches r b) \<longleftrightarrow> in_class neg rs c \<and> matches r t"
    by auto
  with Cons show ?thesis by (simp add: matches_Seq_Cons)
qed (simp add: matches_Seq)

lemma matches_plus_class: "matches (rplus (RClass neg rs)) s \<longleftrightarrow> s \<noteq> [] \<and> list_all (in_class neg rs) s"
  by (cases s) (auto simp: rplus_def matches_class_seq matches_class_star)

lemma matches_times_class: "matches (rtimes n (RClass neg rs)) s \<longleftrightarrow> length s = n \<and> list_all (in_class neg rs) s"
proof (induction n arbitrary: s)
  case (Suc n)
  then show ?case by (cases s) (auto simp: matches_class_seq)
qed auto

lemma rsearch_iff: "rsearch r s \<longleftrightarrow> (\<exists>a m b. s = a @ m @ b \<and> matches r m)"
  by (auto simp: rsearch_def fullmatch_iff matches_Seq)

text \<open>A longer text still contains what a shorter one did.\<close>

lemma rsearch_mono: "rsearch r s \<Longrightarrow> sublist s t \<Longrightarrow> rsearch r t"
  unfolding rsearch_iff sublist_def by (metis append.assoc)

section \<open>First matches\<close>

text \<open>
  The matches \<open>re\<close> tries at the start of a text, in its order: alternatives from the left, repetition as long as
  possible first. Each comes with the text after it. A round of a repetition that reads nothing is not repeated.
\<close>

fun star_runs :: "(string \<Rightarrow> (string \<times> string) list) \<Rightarrow> nat \<Rightarrow> string \<Rightarrow> (string \<times> string) list" where
  "star_runs f 0 s = [([], s)]"
| "star_runs f (Suc n) s =
     concat (map (\<lambda>(m, t). if m = [] then [] else map (\<lambda>(m', u). (m @ m', u)) (star_runs f n t)) (f s)) @ [([], s)]"

primrec runs :: "regex \<Rightarrow> string \<Rightarrow> (string \<times> string) list" where
  "runs RNone s = []"
| "runs REps s = [([], s)]"
| "runs (RClass neg rs) s = (case s of [] \<Rightarrow> [] | c # t \<Rightarrow> if in_class neg rs c then [([c], t)] else [])"
| "runs (RSeq r q) s = concat (map (\<lambda>(m, t). map (\<lambda>(m', u). (m @ m', u)) (runs q t)) (runs r s))"
| "runs (RAlt r q) s = runs r s @ runs q s"
| "runs (RStar r) s = star_runs (runs r) (length s) s"

lemma star_runs_sound:
  assumes "\<And>s m t. (m, t) \<in> set (f s) \<Longrightarrow> s = m @ t \<and> matches r m"
  shows "(m, t) \<in> set (star_runs f n s) \<Longrightarrow> s = m @ t \<and> matches (RStar r) m"
proof (induction n arbitrary: s m t)
  case (Suc n)
  then consider "m = []" "t = s" | a b c where "(a, b) \<in> set (f s)" "(c, t) \<in> set (star_runs f n b)" "m = a @ c"
    by (auto split: if_splits)
  then show ?case
  proof cases
    case 2
    then show ?thesis using Suc.IH [of c t b] assms [of a b s] by auto
  qed auto
qed auto

text \<open>Every match found is one.\<close>

lemma runs_sound: "(m, t) \<in> set (runs r s) \<Longrightarrow> s = m @ t \<and> matches r m"
proof (induction r arbitrary: s m t)
  case (RSeq r q)
  then show ?case by (fastforce intro: matches.m_seq)
next
  case (RStar r)
  then show ?case using star_runs_sound [of "runs r" r m t "length s" s] by simp
qed (auto split: list.splits if_splits)

text \<open>\<open>re.sub(p + q, r"\1" + repl, s)\<close> with the group \<open>p\<close>; the guard looks at the character before.\<close>

definition first_pair :: "regex \<Rightarrow> regex \<Rightarrow> string \<Rightarrow> (string \<times> string \<times> string) option" where
  "first_pair p q s =
     (case concat (map (\<lambda>(m, t). map (\<lambda>(m', u). (m, m', u)) (runs q t)) (runs p s)) of [] \<Rightarrow> None | x # _ \<Rightarrow> Some x)"

fun sub_go :: "nat \<Rightarrow> (char option \<Rightarrow> bool) \<Rightarrow> regex \<Rightarrow> regex \<Rightarrow> string \<Rightarrow> char option \<Rightarrow> string \<Rightarrow> string" where
  "sub_go 0 ok p q repl prev s = s"
| "sub_go (Suc n) ok p q repl prev [] = []"
| "sub_go (Suc n) ok p q repl prev (c # s) =
     (case (if ok prev then first_pair p q (c # s) else None) of
        Some (m, m', u) \<Rightarrow> if m @ m' = [] then c # sub_go n ok p q repl (Some c) s
          else m @ repl @ sub_go n ok p q repl (Some (last (m @ m'))) u
      | None \<Rightarrow> c # sub_go n ok p q repl (Some c) s)"

definition re_sub :: "(char option \<Rightarrow> bool) \<Rightarrow> regex \<Rightarrow> regex \<Rightarrow> string \<Rightarrow> string \<Rightarrow> string" where
  "re_sub ok p q repl s = sub_go (length s) ok p q repl None s"

text \<open>Patterns without regard to the case of ASCII letters, and some classes.\<close>

definition case_ranges :: "(nat \<times> nat) list \<Rightarrow> (nat \<times> nat) list" where
  "case_ranges rs = rs @ map (\<lambda>(a, b). (max a 65 + 32, min b 90 + 32)) (filter (\<lambda>(a, b). max a 65 \<le> min b 90) rs)
     @ map (\<lambda>(a, b). (max a 97 - 32, min b 122 - 32)) (filter (\<lambda>(a, b). max a 97 \<le> min b 122) rs)"

primrec nocase :: "regex \<Rightarrow> regex" where
  "nocase RNone = RNone"
| "nocase REps = REps"
| "nocase (RClass neg rs) = RClass neg (case_ranges rs)"
| "nocase (RSeq r q) = RSeq (nocase r) (nocase q)"
| "nocase (RAlt r q) = RAlt (nocase r) (nocase q)"
| "nocase (RStar r) = RStar (nocase r)"

definition space_ranges :: "(nat \<times> nat) list" where
  "space_ranges = [(9, 13), (28, 32), (133, 133), (160, 160)]"

definition word_ranges :: "(nat \<times> nat) list" where
  "word_ranges = [(48, 57), (65, 90), (95, 95), (97, 122), (170, 170), (178, 179), (181, 181), (185, 186),
     (188, 190), (192, 214), (216, 246), (248, 255)]"

definition rspace :: regex where
  "rspace = RClass False space_ranges"

definition rword :: regex where
  "rword = RClass False word_ranges"

definition rnonword :: regex where
  "rnonword = RClass True word_ranges"

text \<open>The dot: any character but a line feed.\<close>

definition rdot :: regex where
  "rdot = RClass True [(10, 10)]"

text \<open>\<open>re.search\<close> of a pattern whose word boundaries at the ends are spelled out as characters that are no part of a word.\<close>

definition search_padded :: "regex \<Rightarrow> string \<Rightarrow> bool" where
  "search_padded r s \<longleftrightarrow> rsearch r (char_of (10 :: nat) # s @ [char_of (10 :: nat)])"

end
