(* ===== verification/Release_Pipeline.thy ===== *)
theory Release_Pipeline
  imports Py_Effects Py_Re
begin

text \<open>
  \<open>tool/release_pipeline.py\<close>: the release context is read and checked, the packaging command is
  composed from it, and the distribution directory is normalised and verified. The directory is an
  association list from names to entries, the manifest is a JSON value, and \<open>faults\<close> is the plan of
  the operating system: each operation on the file system takes the next fault and raises \<open>OSError\<close>
  when it is set. The hash function is the parameter \<open>sha256\<close>.
\<close>

section \<open>The release context\<close>

record build_context =
  c_flavor :: string
  c_platform :: string
  c_arch :: string
  c_product_version :: string
  c_base_version :: string
  c_build_number :: int
  c_source_revision :: string
  c_build_tag :: string
  c_package_prefix :: string
  c_package_app_name :: string
  c_targets :: "string list"

definition context_keys :: "string list" where
  "context_keys = [''schema_version'', ''flavor'', ''platform'', ''arch'', ''product_version'', ''base_version'',
     ''build_number'', ''source_revision'', ''build_tag'', ''package_prefix'', ''package_app_name'', ''targets'']"

text \<open>The patterns of the text fields.\<close>

definition re_number :: regex where
  "re_number = RAlt (rlit ''0'') (RSeq (RClass False [(49, 57)]) (RStar rdigit))"

definition re_identifiers :: regex where
  "re_identifiers = (let part = rplus (RClass False [(65, 90), (97, 122), (48, 57), (45, 45)]) in
     RSeq part (RStar (RSeq (rlit ''.'') part)))"

definition re_product_version :: regex where
  "re_product_version = rseqs [re_number, rlit ''.'', re_number, rlit ''.'', re_number,
     ropt (RSeq (rlit ''-'') re_identifiers), ropt (RSeq (rlit ''+'') re_identifiers)]"

definition re_base_version :: regex where
  "re_base_version = rseqs [rplus rdigit, rlit ''.'', rplus rdigit, rlit ''.'', rplus rdigit]"

definition re_package_name :: regex where
  "re_package_name = RSeq (RClass False [(65, 90), (97, 122), (48, 57)])
     (RStar (RClass False [(65, 90), (97, 122), (48, 57), (46, 46), (95, 95), (45, 45)]))"

definition context_patterns :: "(string \<times> (string \<Rightarrow> bool)) list" where
  "context_patterns =
     [(''product_version'', fullmatch re_product_version), (''base_version'', fullmatch re_base_version),
      (''source_revision'', lower_hex 40), (''build_tag'', fullmatch (rtimes 12 rdigit)),
      (''package_prefix'', fullmatch re_package_name), (''package_app_name'', fullmatch re_package_name)]"

definition text_field_ok :: "pydict \<Rightarrow> string \<times> (string \<Rightarrow> bool) \<Rightarrow> bool" where
  "text_field_ok d p = (case dict_get d (fst p) of PStr s \<Rightarrow> snd p s | _ \<Rightarrow> False)"

definition allowed_targets :: "string \<Rightarrow> string \<Rightarrow> string list list" where
  "allowed_targets platform arch =
     (if (platform, arch) = (''android'', []) then [[''apk'']]
      else if (platform, arch) = (''windows'', ''amd64'') then [[''exe''], [''exe'', ''zip'']]
      else if (platform, arch) = (''macos'', ''amd64'') then [[''dmg'']]
      else if (platform, arch) = (''macos'', ''arm64'') then [[''dmg'']]
      else if (platform, arch) = (''linux'', ''amd64'') then [[''deb'', ''appimage''], [''deb'', ''appimage'', ''rpm'']]
      else if (platform, arch) = (''linux'', ''arm64'') then [[''deb'', ''appimage'']]
      else [])"

definition context_targets :: "pydict \<Rightarrow> exn + (string \<times> string \<times> string list)" where
  "context_targets d =
     (case (dict_get d ''platform'', dict_get d ''arch'', dict_get d ''targets'') of
        (PStr platform, PStr arch, PList targets) \<Rightarrow>
          (case texts_of targets of
             Some ts \<Rightarrow> if ts \<in> set (allowed_targets platform arch) then Inr (platform, arch, ts)
               else raise PipelineError ''invalid_target_set''
           | None \<Rightarrow> raise PipelineError ''invalid_target_set'')
      | _ \<Rightarrow> raise PipelineError ''invalid_target_types'')"

definition field_text :: "pydict \<Rightarrow> string \<Rightarrow> string" where
  "field_text d key = (case dict_get d key of PStr s \<Rightarrow> s | _ \<Rightarrow> [])"

definition read_context :: "pyval \<Rightarrow> exn + build_context" where
  "read_context c =
     (case c of
        PDict d \<Rightarrow>
          if set (map fst d) \<noteq> set context_keys \<or> dict_get d ''schema_version'' \<noteq> PInt 1
             \<or> \<not> (dict_get d ''flavor'' = PStr ''brand_a'' \<or> dict_get d ''flavor'' = PStr ''brand_b'')
          then raise PipelineError ''invalid_context''
          else if \<not> list_all (text_field_ok d) context_patterns
          then raise PipelineError ''invalid_context_field''
          else (case dict_get d ''build_number'' of
              PInt n \<Rightarrow>
                if \<not> (1 \<le> n \<and> n \<le> 65535) then raise PipelineError ''invalid_build_number''
                else rbind (context_targets d) (\<lambda>(platform, arch, targets).
                  Inr \<lparr>c_flavor = field_text d ''flavor'', c_platform = platform, c_arch = arch,
                    c_product_version = field_text d ''product_version'', c_base_version = field_text d ''base_version'',
                    c_build_number = n, c_source_revision = field_text d ''source_revision'',
                    c_build_tag = field_text d ''build_tag'', c_package_prefix = field_text d ''package_prefix'',
                    c_package_app_name = field_text d ''package_app_name'', c_targets = targets\<rparr>)
            | _ \<Rightarrow> raise PipelineError ''invalid_build_number'')
      | _ \<Rightarrow> raise PipelineError ''invalid_context'')"

section \<open>The packaging command\<close>

definition package_environment :: "build_context \<Rightarrow> (string \<rightharpoonup> string) \<Rightarrow> exn + (string \<rightharpoonup> string)" where
  "package_environment c env =
     (if c_platform c = ''macos'' then
        (case map_of [(''amd64'', ''x86_64''), (''arm64'', ''arm64'')] (c_arch c) of
           None \<Rightarrow> raise KeyError (c_arch c)
         | Some arch \<Rightarrow> Inr (env(''FLUTTER_XCODE_ARCHS'' \<mapsto> arch,
             ''FLUTTER_XCODE_EXCLUDED_ARCHS'' \<mapsto> (if arch = ''x86_64'' then ''arm64'' else ''x86_64''),
             ''FLUTTER_XCODE_ONLY_ACTIVE_ARCH'' \<mapsto> ''NO'', ''FLUTTER_MACOS_ARM64_ONLY'' \<mapsto> ''false'')))
      else Inr env)"

definition package_arguments :: "build_context \<Rightarrow> string list" where
  "package_arguments c =
     (let options = [''dart-define-from-file=env.json'', ''build-name='' @ c_base_version c,
            ''build-number='' @ int_text (c_build_number c), ''split-debug-info=build/debug-info'']
          @ (if c_platform c = ''android'' then [''split-per-abi''] else []) in
      [''pub'', ''global'', ''run'', ''flutter_distributor:main'', ''package'', ''--skip-clean'',
       ''--platform'', c_platform c, ''--targets'', join '','' (c_targets c),
       ''--flutter-build-args='' @ join '','' options]
      @ (if c_platform c = ''android''
         then [''--build-target-platform=android-arm,android-arm64'', ''--build-flavor'', c_flavor c]
         else [''--description'', c_arch c]))"

definition re_app_env :: regex where
  "re_app_env = RSeq (RClass False [(65, 90), (97, 122)])
     (rupto 31 (RClass False [(65, 90), (97, 122), (48, 57), (95, 95), (45, 45)]))"

definition re_core_hash :: regex where
  "re_core_hash = rtimes 64 (RClass False [(48, 57), (97, 102), (65, 70)])"

text \<open>\<open>core_file\<close> is the content of \<open>core_sha256.json\<close> when it exists; the answer is what \<open>env.json\<close> holds.\<close>

definition core_hash :: "pyval option \<Rightarrow> exn + string" where
  "core_hash core_file =
     (case core_file of
        None \<Rightarrow> Inr []
      | Some (PDict d) \<Rightarrow>
          (case dict_get_default d ''CORE_SHA256'' (PStr []) of
             PStr core \<Rightarrow> if core \<noteq> [] \<and> \<not> fullmatch re_core_hash core
               then raise PipelineError ''invalid_core_hash'' else Inr core
           | _ \<Rightarrow> raise PipelineError ''invalid_core_hash'')
      | Some _ \<Rightarrow> raise AttributeError ''get'')"

definition compose :: "build_context \<Rightarrow> pyval \<Rightarrow> pyval option \<Rightarrow> string \<Rightarrow> exn + pydict" where
  "compose c base core_file app_env =
     (if \<not> fullmatch re_app_env app_env then raise PipelineError ''invalid_app_environment''
      else case base of
        PDict d \<Rightarrow>
          if dict_get d ''XB_FLAVOR_ID'' \<noteq> PStr (c_flavor c) then raise PipelineError ''defines_flavor_mismatch''
          else rbind (core_hash core_file) (\<lambda>core.
            Inr (fold (\<lambda>(k, v) e. dict_set e k (PStr v))
              [(''APP_ENV'', app_env), (''CORE_SHA256'', core), (''XB_FORM_A'', ''true''),
               (''XB_BUILD_TAG'', c_build_tag c), (''XB_PRODUCT_VERSION'', c_product_version c),
               (''XB_BUILD_NUMBER'', int_text (c_build_number c))] d))
      | _ \<Rightarrow> raise PipelineError ''defines_flavor_mismatch'')"

section \<open>The distribution directory\<close>

definition artifact_suffixes :: "(string \<times> string) list" where
  "artifact_suffixes = [(''exe'', ''-setup.exe''), (''zip'', ''.zip''), (''dmg'', ''.dmg''), (''deb'', ''.deb''),
     (''appimage'', ''.AppImage''), (''rpm'', ''.rpm'')]"

definition artifact_stem :: "build_context \<Rightarrow> string" where
  "artifact_stem c = c_package_prefix c @ ''-'' @ c_product_version c @ ''-'' @ c_platform c @ ''-''"

text \<open>Pairs of the suffix of the packager's file and the final name.\<close>

definition expected_artifacts :: "build_context \<Rightarrow> exn + (string \<times> string) list" where
  "expected_artifacts c =
     (if c_platform c = ''android''
      then Inr [(''armeabi-v7a.apk'', artifact_stem c @ ''armeabi-v7a.apk''),
                (''arm64-v8a.apk'', artifact_stem c @ ''arm64-v8a.apk'')]
      else traverse (\<lambda>t. case map_of artifact_suffixes t of
             None \<Rightarrow> raise KeyError t
           | Some suf \<Rightarrow> Inr (if t = ''exe'' then ''setup.exe'' else suf, artifact_stem c @ c_arch c @ suf))
        (c_targets c))"

text \<open>A link shows what it leads to; a dangling one leads to nothing.\<close>

datatype target = TFile bytes | TDir | TNone
datatype entry = File bytes | Link target | Dir

type_synonym directory = "(string \<times> entry) list"

primrec is_link :: "entry \<Rightarrow> bool" where
  "is_link (File bs) = False"
| "is_link (Link t) = True"
| "is_link Dir = False"

primrec exists_entry :: "entry \<Rightarrow> bool" where
  "exists_entry (File bs) = True"
| "exists_entry (Link t) = (t \<noteq> TNone)"
| "exists_entry Dir = True"

text \<open>The content \<open>open\<close> reads, through a link too; None where it raises or is no regular file.\<close>

primrec content_of :: "entry \<Rightarrow> bytes option" where
  "content_of (File bs) = Some bs"
| "content_of (Link t) = (case t of TFile bs \<Rightarrow> Some bs | _ \<Rightarrow> None)"
| "content_of Dir = None"

record dist_state =
  dist_link :: bool
  dist_dir :: "directory option"
  manifest_link :: bool
  manifest_file :: "pyval option"
  faults :: "bool list"

definition fallible :: "(dist_state, unit) cmd" where
  "fallible s =
     (case faults s of
        [] \<Rightarrow> (Inr (), s)
      | f # fs \<Rightarrow> (if f then raise OSError [] else Inr (), s\<lparr>faults := fs\<rparr>))"

text \<open>The parent directory is made first; the text goes to a temporary file that replaces the old one.\<close>

definition write_json :: "pyval \<Rightarrow> (dist_state, unit) cmd" where
  "write_json v =
     seq fallible (\<lambda>_.
     seq (reading manifest_link) (\<lambda>l.
     seq (unless_raise l PipelineError ''output_symlink'') (\<lambda>_.
     seq fallible (\<lambda>_.
       updating (\<lambda>s. s\<lparr>manifest_file := Some v\<rparr>)))))"

definition package_suffixes :: "string list" where
  "package_suffixes = [''.apk'', ''.exe'', ''.zip'', ''.dmg'', ''.deb'', ''.AppImage'', ''.rpm'']"

definition package_name :: "string \<Rightarrow> bool" where
  "package_name name \<longleftrightarrow> list_ex (\<lambda>suf. ends_with suf name) package_suffixes"

text \<open>\<open>p.is_file() or p.is_symlink()\<close>, then the suffix test.\<close>

definition packages :: "directory \<Rightarrow> directory" where
  "packages d = filter (\<lambda>(name, e). e \<noteq> Dir \<and> package_name name) d"

text \<open>\<open>s.removesuffix(t)\<close>.\<close>

definition remove_suffix :: "string \<Rightarrow> string \<Rightarrow> string" where
  "remove_suffix t s = (if ends_with t s then take (length s - length t) s else s)"

definition packager_name :: "build_context \<Rightarrow> string \<Rightarrow> string" where
  "packager_name c suf = c_package_app_name c @ ''-'' @ c_base_version c @ ''-android-''
     @ remove_suffix ''.apk'' suf @ ''-'' @ c_flavor c @ ''.apk''"

definition artifact_matches :: "build_context \<Rightarrow> string \<Rightarrow> string \<Rightarrow> string \<Rightarrow> bool" where
  "artifact_matches c suf target name =
     (if c_platform c = ''android'' then name = packager_name c suf \<or> name = target else ends_with suf name)"

definition plan_artifact :: "build_context \<Rightarrow> directory \<Rightarrow> string \<times> string \<Rightarrow> exn + (string \<times> string)" where
  "plan_artifact c d = (\<lambda>(suf, target).
     case filter (\<lambda>(name, e). artifact_matches c suf target name) (packages d) of
       [(name, e)] \<Rightarrow>
         if is_link e \<or> content_of e = Some [] then raise PipelineError ''empty_or_symlink_artifact''
         else if name \<noteq> target \<and> (case map_of d target of None \<Rightarrow> False | Some e' \<Rightarrow> exists_entry e')
         then raise PipelineError ''artifact_destination_exists''
         else Inr (name, target)
     | _ \<Rightarrow> raise PipelineError (''missing_or_duplicate_artifact: '' @ suf))"

definition plan_artifacts :: "build_context \<Rightarrow> directory \<Rightarrow> exn + (string \<times> string) list" where
  "plan_artifacts c d =
     rbind (expected_artifacts c) (\<lambda>expected.
     rbind (traverse (plan_artifact c d) expected) (\<lambda>plans.
       if set (map fst (packages d)) \<noteq> set (map fst plans) then raise PipelineError ''unexpected_artifact''
       else Inr plans))"

text \<open>A rename keeps the place of the entry in the listing and replaces what the new name held.\<close>

definition rename_entry :: "string \<Rightarrow> string \<Rightarrow> directory \<Rightarrow> directory" where
  "rename_entry a b d = map (\<lambda>(k, e). (if k = a then b else k, e)) (filter (\<lambda>(k, e). k \<noteq> b) d)"

definition rename :: "string \<Rightarrow> string \<Rightarrow> (dist_state, unit) cmd" where
  "rename a b =
     seq fallible (\<lambda>_ s.
       case dist_dir s of
         None \<Rightarrow> (raise OSError a, s)
       | Some d \<Rightarrow>
           if map_of d a = None \<or> map_of d b = Some Dir then (raise OSError a, s)
           else (Inr (), s\<lparr>dist_dir := Some (rename_entry a b d)\<rparr>))"

text \<open>Completed renames are kept newest first; an \<open>OSError\<close> undoes them in that order and is raised again.\<close>

fun roll_back :: "(string \<times> string) list \<Rightarrow> (dist_state, unit) cmd" where
  "roll_back [] = ret ()"
| "roll_back ((a, b) # completed) = seq (rename b a) (\<lambda>_. roll_back completed)"

fun rename_all :: "(string \<times> string) list \<Rightarrow> (string \<times> string) list \<Rightarrow> (dist_state, unit) cmd" where
  "rename_all completed [] = ret ()"
| "rename_all completed ((a, b) # plans) =
     (if a = b then rename_all completed plans
      else (\<lambda>s. case rename a b s of
          (Inr _, t) \<Rightarrow> rename_all ((a, b) # completed) plans t
        | (Inl e, t) \<Rightarrow> seq (roll_back completed) (\<lambda>_. lift_result (Inl e)) t))"

definition artifact_record :: "(bytes \<Rightarrow> string) \<Rightarrow> directory \<Rightarrow> string \<Rightarrow> exn + pyval" where
  "artifact_record sha256 d name =
     (case Option.bind (map_of d name) content_of of
        None \<Rightarrow> raise OSError name
      | Some bs \<Rightarrow> Inr (PDict [(''file'', PStr name), (''size'', PInt (int (length bs))), (''sha256'', PStr (sha256 bs))]))"

definition failed_report :: pyval where
  "failed_report = PDict [(''schema_version'', PInt 1), (''passed'', PBool False), (''artifacts'', PList [])]"

definition identity_fields :: "build_context \<Rightarrow> pydict" where
  "identity_fields c = [(''flavor'', PStr (c_flavor c)), (''platform'', PStr (c_platform c)), (''arch'', PStr (c_arch c)),
     (''product_version'', PStr (c_product_version c)), (''build_number'', PInt (c_build_number c)),
     (''source_revision'', PStr (c_source_revision c))]"

definition normalized_report :: "build_context \<Rightarrow> pyval list \<Rightarrow> pyval" where
  "normalized_report c records = PDict ([(''schema_version'', PInt 1), (''passed'', PBool True)]
     @ identity_fields c @ [(''artifacts'', PList records)])"

text \<open>The part of \<open>normalize\<close> that touches the directory, once the plans are checked.\<close>

definition carry_out :: "(bytes \<Rightarrow> string) \<Rightarrow> build_context \<Rightarrow> (string \<times> string) list \<Rightarrow> (dist_state, pyval) cmd" where
  "carry_out sha256 c plans =
     seq (rename_all [] plans) (\<lambda>_.
     seq (reading (\<lambda>s. case dist_dir s of None \<Rightarrow> [] | Some d \<Rightarrow> d)) (\<lambda>d.
     seq (lift_result (traverse (artifact_record sha256 d) (map snd plans))) (\<lambda>records.
     seq (write_json (normalized_report c records)) (\<lambda>_.
       ret (normalized_report c records)))))"

definition normalize :: "(bytes \<Rightarrow> string) \<Rightarrow> build_context \<Rightarrow> (dist_state, pyval) cmd" where
  "normalize sha256 c =
     seq (write_json failed_report) (\<lambda>_.
     seq (reading (\<lambda>s. if dist_link s then None else dist_dir s)) (\<lambda>dist.
     case dist of
       None \<Rightarrow> throw PipelineError ''missing_or_unsafe_dist''
     | Some d \<Rightarrow> seq (lift_result (plan_artifacts c d)) (carry_out sha256 c)))"

section \<open>Verification of the prepared files\<close>

text \<open>
  A JSON value equals an integer also as a Boolean or a float; which float texts denote the integer
  is the parameter \<open>float_is\<close>.
\<close>

definition int_equal :: "(string \<Rightarrow> int \<Rightarrow> bool) \<Rightarrow> pyval \<Rightarrow> int \<Rightarrow> bool" where
  "int_equal float_is v n = (case v of
      PInt i \<Rightarrow> i = n | PBool b \<Rightarrow> (if b then 1 else 0) = n | PFloat f \<Rightarrow> float_is f n | _ \<Rightarrow> False)"

definition identity_matches :: "(string \<Rightarrow> int \<Rightarrow> bool) \<Rightarrow> build_context \<Rightarrow> pydict \<Rightarrow> bool" where
  "identity_matches float_is c report \<longleftrightarrow>
     list_all (\<lambda>(key, v). case v of
         PInt n \<Rightarrow> int_equal float_is (dict_get report key) n
       | _ \<Rightarrow> dict_get report key = v) (identity_fields c)"

text \<open>\<open>len(rows)\<close> and the set of \<open>r.get('file')\<close>; the set raises on rows without \<open>get\<close> and on unhashable values.\<close>

definition rows_of :: "pyval \<Rightarrow> exn + pyval list" where
  "rows_of v = (case v of
      PList xs \<Rightarrow> Inr xs
    | PDict d \<Rightarrow> Inr (map (\<lambda>p. PStr (fst p)) d)
    | PStr s \<Rightarrow> Inr (map (\<lambda>ch. PStr [ch]) s)
    | _ \<Rightarrow> raise TypeError ''len'')"

definition row_file :: "pyval \<Rightarrow> exn + pyval" where
  "row_file r = (case r of
      PDict d \<Rightarrow> (case dict_get d ''file'' of
          PList xs \<Rightarrow> raise TypeError ''unhashable''
        | PDict e \<Rightarrow> raise TypeError ''unhashable''
        | v \<Rightarrow> Inr v)
    | _ \<Rightarrow> raise AttributeError ''get'')"

text \<open>One row of the manifest against the directory; the answer is the name of the file.\<close>

definition verify_row :: "(bytes \<Rightarrow> string) \<Rightarrow> directory \<Rightarrow> pyval \<Rightarrow> exn + string" where
  "verify_row sha256 d r =
     (case r of
        PDict row \<Rightarrow>
          (case (dict_get row ''file'', dict_get row ''size'', dict_get row ''sha256'') of
             (PStr name, PInt sz, PStr digest) \<Rightarrow>
               if sz \<le> 0 \<or> \<not> lower_hex 64 digest then raise PipelineError ''invalid_manifest_record''
               else (case map_of d name of
                   Some (File bs) \<Rightarrow>
                     if int (length bs) \<noteq> sz then raise PipelineError ''final_artifact_changed''
                     else if sha256 bs \<noteq> digest then raise PipelineError ''final_artifact_changed''
                     else Inr name
                 | _ \<Rightarrow> raise PipelineError ''final_artifact_changed'')
           | _ \<Rightarrow> raise PipelineError ''invalid_manifest_record'')
      | _ \<Rightarrow> raise AttributeError ''get'')"

definition manifest_rows :: "build_context \<Rightarrow> pydict \<Rightarrow> string list \<Rightarrow> exn + pyval list" where
  "manifest_rows c report wanted =
     (if dict_get report ''passed'' \<noteq> PBool True then raise PipelineError ''manifest_inventory_mismatch''
      else rbind (rows_of (dict_get_default report ''artifacts'' (PList []))) (\<lambda>rows.
        if length rows \<noteq> card (set wanted) then raise PipelineError ''manifest_inventory_mismatch''
        else rbind (traverse row_file rows) (\<lambda>names.
          if set names \<noteq> PStr ` set wanted then raise PipelineError ''manifest_inventory_mismatch''
          else Inr rows)))"

text \<open>The answer lists the names of the files; the source joins each to the path of the directory.\<close>

definition verified_files ::
    "(string \<Rightarrow> int \<Rightarrow> bool) \<Rightarrow> (bytes \<Rightarrow> string) \<Rightarrow> build_context \<Rightarrow> dist_state \<Rightarrow> exn + string list" where
  "verified_files float_is sha256 c s =
     (case manifest_file s of
        None \<Rightarrow> raise OSError ''manifest''
      | Some (PDict report) \<Rightarrow>
          if \<not> identity_matches float_is c report then raise PipelineError ''manifest_identity_mismatch''
          else rbind (expected_artifacts c) (\<lambda>expected.
          rbind (manifest_rows c report (map snd expected)) (\<lambda>rows.
            if dist_link s then raise PipelineError ''unsafe_dist''
            else case dist_dir s of
              None \<Rightarrow> raise OSError ''dist''
            | Some d \<Rightarrow>
                if set (filter package_name (map fst d)) \<noteq> set (map snd expected)
                then raise PipelineError ''unexpected_final_artifact''
                else traverse (verify_row sha256 d) rows))
      | Some _ \<Rightarrow> raise AttributeError ''get'')"

section \<open>The upload identity\<close>

definition re_repository :: regex where
  "re_repository = (let part = rplus (RClass False [(65, 90), (97, 122), (48, 57), (95, 95), (46, 46), (45, 45)]) in
     rseqs [part, rlit ''/'', part])"

definition upload_arguments :: "build_context \<Rightarrow> string \<Rightarrow> string \<Rightarrow> string list \<Rightarrow> exn + string list" where
  "upload_arguments c tag repo files =
     (if tag \<noteq> ''pkg-'' @ c_flavor c @ ''-v'' @ c_product_version c \<or> \<not> fullmatch re_repository repo
      then raise PipelineError ''invalid_upload_identity''
      else Inr ([''gh'', ''release'', ''upload'', tag] @ files @ [''--repo'', repo, ''--clobber'']))"

text \<open>The check before packaging: the output directory holds no package of an earlier run.\<close>

definition output_directory_clean :: "dist_state \<Rightarrow> bool" where
  "output_directory_clean s \<longleftrightarrow> \<not> dist_link s \<and>
     (case dist_dir s of None \<Rightarrow> True | Some d \<Rightarrow> \<not> list_ex package_name (map fst d))"

section \<open>The artifacts of a context\<close>

definition context_ok :: "build_context \<Rightarrow> bool" where
  "context_ok c \<longleftrightarrow> c_targets c \<in> set (allowed_targets (c_platform c) (c_arch c))
     \<and> c_flavor c \<in> {''brand_a'', ''brand_b''} \<and> 1 \<le> c_build_number c \<and> c_build_number c \<le> 65535
     \<and> matches re_product_version (c_product_version c) \<and> matches re_base_version (c_base_version c)
     \<and> lower_hex 40 (c_source_revision c) \<and> matches (rtimes 12 rdigit) (c_build_tag c)
     \<and> matches re_package_name (c_package_prefix c) \<and> matches re_package_name (c_package_app_name c)"

lemma context_targets_Inr:
  "context_targets d = Inr (platform, arch, ts) \<Longrightarrow> ts \<in> set (allowed_targets platform arch)"
  by (auto simp: context_targets_def split: pyval.splits option.splits if_split_asm)

lemma read_context_ok:
  assumes "read_context v = Inr c"
  shows "context_ok c"
proof -
  obtain d where v: "v = PDict d" using assms by (cases v) (auto simp: read_context_def)
  have pat: "p (field_text d k)" if "text_field_ok d (k, p)" for k p
    using that by (auto simp: text_field_ok_def field_text_def split: pyval.splits)
  from assms v have flavor: "field_text d ''flavor'' \<in> {''brand_a'', ''brand_b''}"
    and fields_ok: "list_all (text_field_ok d) context_patterns"
    by (auto simp: read_context_def field_text_def split: if_split_asm)
  from assms v flavor obtain n platform arch ts where n: "1 \<le> n" "n \<le> 65535"
    and "context_targets d = Inr (platform, arch, ts)"
    and "c = \<lparr>c_flavor = field_text d ''flavor'', c_platform = platform, c_arch = arch,
        c_product_version = field_text d ''product_version'', c_base_version = field_text d ''base_version'',
        c_build_number = n, c_source_revision = field_text d ''source_revision'',
        c_build_tag = field_text d ''build_tag'', c_package_prefix = field_text d ''package_prefix'',
        c_package_app_name = field_text d ''package_app_name'', c_targets = ts\<rparr>"
    by (auto simp: read_context_def split: if_split_asm pyval.splits)
  with flavor fields_ok show ?thesis
    by (simp add: context_ok_def context_targets_Inr)
       (auto simp: context_patterns_def fullmatch_iff dest!: pat)
qed

lemma package_name_suffix: "package_name name \<longleftrightarrow> (\<exists>suf \<in> set package_suffixes. suffix suf name)"
  by (simp add: package_name_def list_ex_iff ends_with_iff)

lemma allowed_targets_cases:
  assumes "ts \<in> set (allowed_targets platform arch)"
  shows "distinct ts" "ts \<noteq> []" "platform \<noteq> ''android'' \<Longrightarrow> set ts \<subseteq> fst ` set artifact_suffixes"
  using assms by (auto simp: allowed_targets_def artifact_suffixes_def split: if_split_asm)

lemma artifact_suffix_facts:
  "map_of artifact_suffixes t = Some suf \<Longrightarrow> \<exists>p \<in> set package_suffixes. suffix p suf"
  by (auto simp: artifact_suffixes_def package_suffixes_def suffix_def split: if_split_asm)

lemma expected_artifacts_ok:
  assumes "context_ok c"
  obtains xs where "expected_artifacts c = Inr xs" "distinct (map snd xs)"
    "\<forall>x \<in> set xs. package_name (snd x)" "xs \<noteq> []"
proof (cases "c_platform c = ''android''")
  case True
  have "package_name (artifact_stem c @ ''armeabi-v7a.apk'')" "package_name (artifact_stem c @ ''arm64-v8a.apk'')"
    by (auto simp: package_name_suffix package_suffixes_def suffix_def)
  with True show thesis by (intro that) (auto simp: expected_artifacts_def)
next
  case False
  let ?f = "\<lambda>t. case map_of artifact_suffixes t of None \<Rightarrow> raise KeyError t
     | Some suf \<Rightarrow> Inr (if t = ''exe'' then ''setup.exe'' else suf, artifact_stem c @ c_arch c @ suf)"
  have ts: "distinct (c_targets c)" "set (c_targets c) \<subseteq> fst ` set artifact_suffixes" "c_targets c \<noteq> []"
    using allowed_targets_cases [of "c_targets c" "c_platform c" "c_arch c"] assms False
    by (simp_all add: context_ok_def)
  have "\<exists>y. ?f t = Inr y" if "t \<in> set (c_targets c)" for t
    using that ts(2) by (auto simp: map_of_eq_None_iff split: option.split)
  then obtain xs where xs: "traverse ?f (c_targets c) = Inr xs"
    using traverse_total [of "c_targets c" ?f] by blast
  have nth: "\<exists>suf. map_of artifact_suffixes (c_targets c ! i) = Some suf \<and> snd (xs ! i) = artifact_stem c @ c_arch c @ suf"
    if "i < length (c_targets c)" for i
    using traverse_nth [OF xs that] by (auto split: option.splits dest!: arg_cong [where f = snd])
  have inj: "t = u" if "map_of artifact_suffixes t = Some suf" "map_of artifact_suffixes u = Some suf" for t u suf
    using that by (auto simp: artifact_suffixes_def split: if_split_asm)
  have len: "length xs = length (c_targets c)" by (rule traverse_length [OF xs])
  show thesis
  proof (rule that)
    show "expected_artifacts c = Inr xs" using False xs by (simp add: expected_artifacts_def)
    show "xs \<noteq> []" using len ts(3) by auto
    show "distinct (map snd xs)"
      unfolding distinct_conv_nth
    proof (intro allI impI)
      fix i j assume ij: "i < length (map snd xs)" "j < length (map snd xs)" "i \<noteq> j"
      obtain s1 s2 where "map_of artifact_suffixes (c_targets c ! i) = Some s1" "snd (xs ! i) = artifact_stem c @ c_arch c @ s1"
        "map_of artifact_suffixes (c_targets c ! j) = Some s2" "snd (xs ! j) = artifact_stem c @ c_arch c @ s2"
        using nth [of i] nth [of j] ij len by auto
      moreover have "c_targets c ! i \<noteq> c_targets c ! j"
        using ts(1) ij len by (simp add: nth_eq_iff_index_eq)
      ultimately show "map snd xs ! i \<noteq> map snd xs ! j" using ij inj by auto
    qed
    show "\<forall>x \<in> set xs. package_name (snd x)"
    proof
      fix x assume "x \<in> set xs"
      then obtain i where "i < length (c_targets c)" "x = xs ! i" using len by (auto simp: in_set_conv_nth)
      with nth [of i] obtain suf where suf: "map_of artifact_suffixes (c_targets c ! i) = Some suf"
        and x: "snd x = (artifact_stem c @ c_arch c) @ suf" by auto
      obtain p where "p \<in> set package_suffixes" "suffix p suf" using artifact_suffix_facts [OF suf] by blast
      with x show "package_name (snd x)" unfolding package_name_suffix by (metis suffix_appendI)
    qed
  qed
qed

lemma suffix_both: "suffix a s \<Longrightarrow> suffix b s \<Longrightarrow> suffix a b \<or> suffix b a"
  by (meson suffix_same_cases)

text \<open>No name can be taken for two of the artifacts of a context.\<close>

definition separated :: "string \<Rightarrow> string \<Rightarrow> bool" where
  "separated a b \<longleftrightarrow> \<not> suffix a b \<and> \<not> suffix b a"

lemma separated_neq: "separated a b \<Longrightarrow> suffix a x \<Longrightarrow> suffix b y \<Longrightarrow> x \<noteq> y"
  using suffix_both [of a x b] by (auto simp: separated_def)

lemma desktop_suffixes_separated:
  "\<forall>t \<in> fst ` set artifact_suffixes. \<forall>u \<in> fst ` set artifact_suffixes. t \<noteq> u \<longrightarrow>
     separated (if t = ''exe'' then ''setup.exe'' else the (map_of artifact_suffixes t))
       (if u = ''exe'' then ''setup.exe'' else the (map_of artifact_suffixes u))"
  by (simp add: artifact_suffixes_def separated_def suffix_to_prefix)

lemma android_names:
  "flavor \<in> {''brand_a'', ''brand_b''} \<Longrightarrow>
     separated (flavor @ ''.apk'') ''armeabi-v7a.apk'' \<and> separated (flavor @ ''.apk'') ''arm64-v8a.apk''"
  by (auto simp: separated_def suffix_to_prefix)

lemma packager_names_differ: "packager_name c ''armeabi-v7a.apk'' \<noteq> packager_name c ''arm64-v8a.apk''"
proof -
  have "remove_suffix ''.apk'' ''armeabi-v7a.apk'' = ''armeabi-v7a''" "remove_suffix ''.apk'' ''arm64-v8a.apk'' = ''arm64-v8a''"
    by code_simp+
  then show ?thesis by (simp add: packager_name_def)
qed

lemma expected_separated:
  assumes "context_ok c" "expected_artifacts c = Inr xs" "i < length xs" "j < length xs" "i \<noteq> j"
    "artifact_matches c (fst (xs ! i)) (snd (xs ! i)) name"
  shows "\<not> artifact_matches c (fst (xs ! j)) (snd (xs ! j)) name"
proof (cases "c_platform c = ''android''")
  case True
  have xs: "xs = [(''armeabi-v7a.apk'', artifact_stem c @ ''armeabi-v7a.apk''),
      (''arm64-v8a.apk'', artifact_stem c @ ''arm64-v8a.apk'')]"
    using True assms(2) by (simp add: expected_artifacts_def)
  have own: "suffix (c_flavor c @ ''.apk'') (packager_name c s)" for s
    unfolding packager_name_def suffix_def by (intro exI [of _ "c_package_app_name c @ ''-'' @ c_base_version c
        @ ''-android-'' @ remove_suffix ''.apk'' s @ ''-''"]) simp
  have final: "suffix t (artifact_stem c @ t)" for t by (simp add: suffix_def)
  have sep: "separated (c_flavor c @ ''.apk'') ''armeabi-v7a.apk''" "separated (c_flavor c @ ''.apk'') ''arm64-v8a.apk''"
    using android_names [of "c_flavor c"] assms(1) by (simp_all add: context_ok_def)
  have "packager_name c s \<noteq> artifact_stem c @ ''armeabi-v7a.apk''" "packager_name c s \<noteq> artifact_stem c @ ''arm64-v8a.apk''" for s
    by (rule separated_neq [OF sep(1) own final], rule separated_neq [OF sep(2) own final])
  moreover have "artifact_stem c @ ''armeabi-v7a.apk'' \<noteq> artifact_stem c @ ''arm64-v8a.apk''" by simp
  moreover have "i = 0 \<and> j = 1 \<or> i = 1 \<and> j = 0" using assms(3-5) unfolding xs by auto
  moreover have "artifact_matches c (fst (xs ! k)) (snd (xs ! k)) name \<longleftrightarrow>
      name = packager_name c (fst (xs ! k)) \<or> name = snd (xs ! k)" for k
    using True by (simp add: artifact_matches_def)
  moreover have "fst (xs ! 0) = ''armeabi-v7a.apk''" "fst (xs ! 1) = ''arm64-v8a.apk''"
    "snd (xs ! 0) = artifact_stem c @ ''armeabi-v7a.apk''" "snd (xs ! 1) = artifact_stem c @ ''arm64-v8a.apk''"
    unfolding xs by simp_all
  ultimately show ?thesis using packager_names_differ [of c] assms(6) by (elim disjE conjE) metis+
next
  case False
  let ?suf = "\<lambda>t. if t = ''exe'' then ''setup.exe'' else the (map_of artifact_suffixes t)"
  have trav: "traverse (\<lambda>t. case map_of artifact_suffixes t of None \<Rightarrow> raise KeyError t
     | Some suf \<Rightarrow> Inr (if t = ''exe'' then ''setup.exe'' else suf, artifact_stem c @ c_arch c @ suf)) (c_targets c) = Inr xs"
    using assms(2) False by (simp add: expected_artifacts_def)
  have ts: "distinct (c_targets c)" "set (c_targets c) \<subseteq> fst ` set artifact_suffixes"
    using allowed_targets_cases [of "c_targets c" "c_platform c" "c_arch c"] assms(1) False by (simp_all add: context_ok_def)
  have len: "length xs = length (c_targets c)" by (rule traverse_length [OF trav])
  have fst_xs: "fst (xs ! k) = ?suf (c_targets c ! k)" if "k < length xs" for k
    using traverse_nth [OF trav, of k] that len by (auto split: option.splits dest!: arg_cong [where f = fst])
  have neq: "c_targets c ! i \<noteq> c_targets c ! j" using ts(1) assms(3-5) len by (simp add: nth_eq_iff_index_eq)
  have mem: "c_targets c ! i \<in> fst ` set artifact_suffixes" "c_targets c ! j \<in> fst ` set artifact_suffixes"
    using ts(2) assms(3,4) len nth_mem by (metis subsetD)+
  have "separated (fst (xs ! i)) (fst (xs ! j))"
    unfolding fst_xs [OF assms(3)] fst_xs [OF assms(4)]
    by (rule desktop_suffixes_separated [rule_format, OF mem neq])
  with assms(6) False show ?thesis
    by (auto simp: artifact_matches_def ends_with_iff separated_def dest: suffix_both)
qed

section \<open>Plans\<close>

lemma no_key_iff: "b \<notin> fst ` set d \<longleftrightarrow> (\<forall>e. (b, e) \<notin> set d)"
  by force

lemma plan_artifact_Inr:
  assumes "plan_artifact c d (suf, target) = Inr p"
  shows "\<exists>a e. p = (a, target) \<and> (a, e) \<in> set d \<and> e \<noteq> Dir \<and> \<not> is_link e \<and> content_of e \<noteq> Some []
    \<and> package_name a \<and> artifact_matches c suf target a
    \<and> (a = target \<or> (case map_of d target of None \<Rightarrow> True | Some e' \<Rightarrow> \<not> exists_entry e'))"
proof -
  obtain a e where one: "filter (\<lambda>(name, e). artifact_matches c suf target name) (packages d) = [(a, e)]"
    using assms by (auto simp: plan_artifact_def split: list.splits)
  then have "(a, e) \<in> set (filter (\<lambda>(name, e). artifact_matches c suf target name) (packages d))" by simp
  then have "artifact_matches c suf target a" "(a, e) \<in> set d" "e \<noteq> Dir" "package_name a"
    by (auto simp: packages_def)
  with assms one show ?thesis
    by (auto simp: plan_artifact_def split: if_split_asm option.splits)
qed

text \<open>What a plan guarantees, with every fact the renames and the manifest need.\<close>

definition plan_ok :: "directory \<Rightarrow> (string \<times> string) list \<Rightarrow> bool" where
  "plan_ok d plans \<longleftrightarrow> distinct (map fst plans) \<and> distinct (map snd plans)
     \<and> (\<forall>(a, b) \<in> set plans. (\<exists>bs. bs \<noteq> [] \<and> (a, File bs) \<in> set d) \<and> package_name b
          \<and> (a \<noteq> b \<longrightarrow> b \<notin> fst ` set d))
     \<and> (\<forall>(k, e) \<in> set d. package_name k \<and> e \<noteq> Dir \<longrightarrow> k \<in> fst ` set plans)"

lemma plan_ok_facts:
  assumes "plan_ok d plans"
  shows "distinct (map fst plans)" "distinct (map snd plans)"
    and "(a, b) \<in> set plans \<Longrightarrow> \<exists>bs. bs \<noteq> [] \<and> (a, File bs) \<in> set d"
    and "(a, b) \<in> set plans \<Longrightarrow> package_name b"
    and "(a, b) \<in> set plans \<Longrightarrow> a \<noteq> b \<Longrightarrow> b \<notin> fst ` set d"
    and "(k, e) \<in> set d \<Longrightarrow> package_name k \<Longrightarrow> e \<noteq> Dir \<Longrightarrow> k \<in> fst ` set plans"
proof -
  note ok = assms [unfolded plan_ok_def]
  show "distinct (map fst plans)" "distinct (map snd plans)" using ok by simp_all
  have "case (a, b) of (a, b) \<Rightarrow> (\<exists>bs. bs \<noteq> [] \<and> (a, File bs) \<in> set d) \<and> package_name b
      \<and> (a \<noteq> b \<longrightarrow> b \<notin> fst ` set d)" if "(a, b) \<in> set plans" using ok that by (elim conjE) (rule bspec)
  then show "(a, b) \<in> set plans \<Longrightarrow> \<exists>bs. bs \<noteq> [] \<and> (a, File bs) \<in> set d" "(a, b) \<in> set plans \<Longrightarrow> package_name b"
    "(a, b) \<in> set plans \<Longrightarrow> a \<noteq> b \<Longrightarrow> b \<notin> fst ` set d" by simp_all
  have "case (k, e) of (k, e) \<Rightarrow> package_name k \<and> e \<noteq> Dir \<longrightarrow> k \<in> fst ` set plans"
    if "(k, e) \<in> set d" using ok that by (elim conjE) (rule bspec)
  then show "(k, e) \<in> set d \<Longrightarrow> package_name k \<Longrightarrow> e \<noteq> Dir \<Longrightarrow> k \<in> fst ` set plans" by simp
qed

lemma plan_artifacts_ok:
  assumes "plan_artifacts c d = Inr plans" and "context_ok c" and keys: "distinct (map fst d)"
  shows "plan_ok d plans \<and> (\<exists>xs. expected_artifacts c = Inr xs \<and> map snd plans = map snd xs)"
proof -
  obtain xs where xs: "expected_artifacts c = Inr xs" and targets: "distinct (map snd xs)" "\<forall>x \<in> set xs. package_name (snd x)"
    using expected_artifacts_ok [OF assms(2)] by metis
  from assms(1) xs have trav: "traverse (plan_artifact c d) xs = Inr plans"
    and all: "set (map fst (packages d)) = set (map fst plans)"
    by (auto simp: plan_artifacts_def split: if_split_asm)
  have len: "length plans = length xs" by (rule traverse_length [OF trav])
  have nth: "\<exists>a e. plans ! i = (a, snd (xs ! i)) \<and> (a, e) \<in> set d \<and> e \<noteq> Dir \<and> \<not> is_link e \<and> content_of e \<noteq> Some []
      \<and> package_name a \<and> artifact_matches c (fst (xs ! i)) (snd (xs ! i)) a
      \<and> (a = snd (xs ! i) \<or> (case map_of d (snd (xs ! i)) of None \<Rightarrow> True | Some e' \<Rightarrow> \<not> exists_entry e'))"
    if "i < length xs" for i
    using plan_artifact_Inr [of c d "fst (xs ! i)" "snd (xs ! i)"] traverse_nth [OF trav that] by simp
  have snds: "map snd plans = map snd xs"
    using nth len by (intro nth_equalityI) fastforce+
  have "distinct (map fst plans)"
    unfolding distinct_conv_nth
  proof (intro allI impI)
    fix i j assume ij: "i < length (map fst plans)" "j < length (map fst plans)" "i \<noteq> j"
    then have "artifact_matches c (fst (xs ! i)) (snd (xs ! i)) (fst (plans ! i))"
      "artifact_matches c (fst (xs ! j)) (snd (xs ! j)) (fst (plans ! j))"
      using nth [of i] nth [of j] len by auto
    with expected_separated [OF assms(2) xs, of i j] ij len show "map fst plans ! i \<noteq> map fst plans ! j" by auto
  qed
  moreover have content: "\<exists>bs. bs \<noteq> [] \<and> (a, File bs) \<in> set d" if "(a, b) \<in> set plans" for a b
  proof -
    obtain i where "i < length xs" "plans ! i = (a, b)" using \<open>(a, b) \<in> set plans\<close> len unfolding in_set_conv_nth by metis
    with nth [of i] obtain e where "(a, e) \<in> set d" "e \<noteq> Dir" "\<not> is_link e" "content_of e \<noteq> Some []" by auto
    then show ?thesis by (cases e) auto
  qed
  moreover have "b \<notin> fst ` set d" if "(a, b) \<in> set plans" "a \<noteq> b" for a b
  proof
    assume "b \<in> fst ` set d"
    then obtain e' where e': "(b, e') \<in> set d" by auto
    then have look: "map_of d b = Some e'" using keys by simp
    obtain i where i: "i < length xs" "plans ! i = (a, b)" using \<open>(a, b) \<in> set plans\<close> len unfolding in_set_conv_nth by metis
    with nth [of i] look that(2) have gone: "\<not> exists_entry e'" by auto
    have "package_name b" using i nth [of i] targets(2) by auto
    moreover have "e' \<noteq> Dir" using gone by auto
    ultimately have "b \<in> set (map fst (packages d))" using e' by (force simp: packages_def)
    then obtain b' where "(b, b') \<in> set plans" using all by auto
    from content [OF this] obtain bs where "(b, File bs) \<in> set d" by blast
    with look keys gone show False by (metis exists_entry.simps(1) map_of_is_SomeI option.inject)
  qed
  moreover have "k \<in> fst ` set plans" if "(k, e) \<in> set d" "package_name k" "e \<noteq> Dir" for k e
  proof -
    have "k \<in> set (map fst (packages d))" using that by (force simp: packages_def)
    then show ?thesis using all by simp
  qed
  moreover have "package_name b" if "(a, b) \<in> set plans" for a b
  proof -
    have "b \<in> set (map snd plans)" using that by force
    with snds targets(2) show ?thesis by auto
  qed
  ultimately show ?thesis
    using xs snds targets(1) unfolding plan_ok_def by (auto simp: no_key_iff)
qed

section \<open>Renames\<close>

lemma rename_entry_fresh:
  assumes "b \<notin> fst ` set d"
  shows "rename_entry a b d = map (\<lambda>(k, e). (if k = a then b else k, e)) d"
proof -
  have "filter (\<lambda>(k, e). k \<noteq> b) d = d" using assms by (auto simp: no_key_iff intro!: filter_True)
  then show ?thesis by (simp add: rename_entry_def)
qed

lemma rename_entry_back:
  assumes "b \<notin> fst ` set d" "a \<noteq> b"
  shows "rename_entry b a (rename_entry a b d) = d"
proof -
  have a: "a \<notin> fst ` set (rename_entry a b d)"
    using assms by (auto simp: rename_entry_fresh no_key_iff split: if_split_asm)
  have "(if (if k = a then b else k) = b then a else if k = a then b else k) = k" if "(k, e) \<in> set d" for k e
    using assms that by (auto simp: no_key_iff)
  then show ?thesis
    unfolding rename_entry_fresh [OF a] unfolding rename_entry_fresh [OF assms(1)] map_map
    by (intro map_idI) auto
qed

lemma rename_entry_keys:
  "b \<notin> fst ` set d \<Longrightarrow> map fst (rename_entry a b d) = map (\<lambda>k. if k = a then b else k) (map fst d)"
  by (auto simp: rename_entry_fresh)

lemma rename_entry_key_set:
  assumes "b \<notin> fst ` set d" "a \<in> fst ` set d"
  shows "fst ` set (rename_entry a b d) = insert b (fst ` set d - {a})"
proof -
  have "fst ` set (rename_entry a b d) = (\<lambda>k. if k = a then b else k) ` fst ` set d"
    using arg_cong [OF rename_entry_keys [OF assms(1), of a], of set] by (simp only: set_map)
  with assms show ?thesis by auto
qed

lemma rename_entry_distinct:
  assumes "b \<notin> fst ` set d" "distinct (map fst d)"
  shows "distinct (map fst (rename_entry a b d))"
  unfolding rename_entry_keys [OF assms(1)]
  using assms by (subst distinct_map) (auto simp: inj_on_def)

lemma rename_entry_set:
  "b \<notin> fst ` set d \<Longrightarrow> (k, e) \<in> set (rename_entry a b d) \<longleftrightarrow>
     (k = b \<and> (a, e) \<in> set d) \<or> (k \<noteq> a \<and> (k, e) \<in> set d)"
  by (auto simp: rename_entry_fresh no_key_iff image_iff split: prod.splits if_split_asm)

text \<open>\<open>renamed completed d d'\<close>: the completed renames, newest first, lead from \<open>d\<close> to \<open>d'\<close>.\<close>

inductive renamed :: "(string \<times> string) list \<Rightarrow> directory \<Rightarrow> directory \<Rightarrow> bool" where
  none: "renamed [] d d"
| step: "renamed cs d d' \<Longrightarrow> a \<in> fst ` set d' \<Longrightarrow> b \<notin> fst ` set d' \<Longrightarrow> a \<noteq> b
    \<Longrightarrow> renamed ((a, b) # cs) d (rename_entry a b d')"

inductive_cases renamed_NilE [elim!]: "renamed [] d d'"
inductive_cases renamed_ConsE [elim!]: "renamed (c # cs) d d'"

lemma renamed_distinct: "renamed cs d d' \<Longrightarrow> distinct (map fst d) \<Longrightarrow> distinct (map fst d')"
  by (induction rule: renamed.induct) (simp_all add: rename_entry_distinct del: distinct_map)

lemma rename_entry_entries: "b \<notin> fst ` set d \<Longrightarrow> map snd (rename_entry a b d) = map snd d"
  by (auto simp: rename_entry_fresh)

lemma renamed_entries: "renamed cs d d' \<Longrightarrow> map snd d' = map snd d"
  by (induction rule: renamed.induct) (simp_all add: rename_entry_entries)

text \<open>How many of the next operations of the file system fail.\<close>

definition failing :: "dist_state \<Rightarrow> nat" where
  "failing s = length (filter id (faults s))"

definition same_manifest :: "dist_state \<Rightarrow> dist_state \<Rightarrow> bool" where
  "same_manifest s t \<longleftrightarrow> dist_link t = dist_link s \<and> manifest_link t = manifest_link s \<and> manifest_file t = manifest_file s"

lemma same_manifest_refl [simp]: "same_manifest s s"
  by (simp add: same_manifest_def)

lemma same_manifest_trans: "same_manifest s t \<Longrightarrow> same_manifest t u \<Longrightarrow> same_manifest s u"
  by (simp add: same_manifest_def)

lemma rename_fault:
  assumes "faults s = True # fs"
  shows "rename a b s = (raise OSError [], s\<lparr>faults := fs\<rparr>)"
  using assms by (simp add: rename_def seq_def fallible_def)

lemma rename_ok:
  assumes "faults s = [] \<or> \<not> hd (faults s)" "dist_dir s = Some d" "a \<in> fst ` set d" "b \<notin> fst ` set d"
  shows "rename a b s = (Inr (), s\<lparr>dist_dir := Some (rename_entry a b d), faults := tl (faults s)\<rparr>)"
proof -
  have "map_of d a \<noteq> None" "map_of d b = None" using assms(3,4) by (auto simp: map_of_eq_None_iff)
  with assms(1,2) show ?thesis
    by (cases "faults s") (auto simp: rename_def seq_def fallible_def)
qed

lemma roll_back_restores:
  assumes "renamed cs d0 d" "dist_dir s = Some d" "failing s = 0"
  shows "\<exists>t. roll_back cs s = (Inr (), t) \<and> dist_dir t = Some d0 \<and> same_manifest s t"
  using assms
proof (induction cs arbitrary: d s)
  case (Cons c cs)
  then obtain d' a b where c: "c = (a, b)" and d': "renamed cs d0 d'" "a \<in> fst ` set d'" "b \<notin> fst ` set d'" "a \<noteq> b"
    and d: "d = rename_entry a b d'" by auto
  let ?s = "s\<lparr>dist_dir := Some d', faults := tl (faults s)\<rparr>"
  have quiet: "faults s = [] \<or> \<not> hd (faults s)" "failing ?s = 0"
    using Cons.prems(3) by (cases "faults s"; simp add: failing_def split: if_split_asm)+
  have "b \<in> fst ` set d" "a \<notin> fst ` set d" using d' by (simp_all add: d rename_entry_key_set)
  with rename_ok [of s d b a] quiet(1) Cons.prems(2) have "rename b a s = (Inr (), ?s)"
    by (simp add: d rename_entry_back d')
  moreover obtain t where "roll_back cs ?s = (Inr (), t)" "dist_dir t = Some d0" "same_manifest ?s t"
    using Cons.IH [OF d'(1), of ?s] quiet(2) by auto
  ultimately show ?case by (auto simp: c seq_def same_manifest_def)
qed (auto simp: ret_def)

definition pending :: "directory \<Rightarrow> (string \<times> string) list \<Rightarrow> bool" where
  "pending d plans \<longleftrightarrow> distinct (map fst plans) \<and> distinct (map snd plans)
     \<and> (\<forall>(a, b) \<in> set plans. a \<in> fst ` set d \<and> (a \<noteq> b \<longrightarrow> b \<notin> fst ` set d))"

text \<open>The entries after the plans are carried out: each source under its final name, all others as before.\<close>

definition carried_out :: "(string \<times> string) list \<Rightarrow> directory \<Rightarrow> directory \<Rightarrow> bool" where
  "carried_out plans d d' \<longleftrightarrow> (\<forall>k e. (k, e) \<in> set d' \<longleftrightarrow>
     (\<exists>a. (a, k) \<in> set plans \<and> (a, e) \<in> set d) \<or> (k \<notin> fst ` set plans \<and> (k, e) \<in> set d))"

lemma pending_free:
  assumes "pending d ((a, b) # plans)" "(a', b') \<in> set plans"
  shows "a' \<noteq> a" "b' \<noteq> b" "a' \<noteq> b"
proof -
  show "a' \<noteq> a" "b' \<noteq> b" using assms by (auto simp: pending_def image_iff)
  moreover have "a' \<in> fst ` set d" "a \<noteq> b \<longrightarrow> b \<notin> fst ` set d" using assms by (auto simp: pending_def)
  ultimately show "a' \<noteq> b" by metis
qed

lemma pending_Cons:
  assumes "pending d ((a, b) # plans)"
  shows "pending (if a = b then d else rename_entry a b d) plans"
proof -
  have ab: "a \<in> fst ` set d" "a \<noteq> b \<Longrightarrow> b \<notin> fst ` set d" "distinct (map fst plans)" "distinct (map snd plans)"
    using assms by (auto simp: pending_def)
  have rest: "a' \<in> fst ` set d" "a' \<noteq> b' \<Longrightarrow> b' \<notin> fst ` set d" if "(a', b') \<in> set plans" for a' b'
    using assms that by (auto simp: pending_def)
  show ?thesis
  proof (cases "a = b")
    case False
    have "a' \<in> fst ` set (rename_entry a b d) \<and> (a' \<noteq> b' \<longrightarrow> b' \<notin> fst ` set (rename_entry a b d))"
      if "(a', b') \<in> set plans" for a' b'
      using rest [OF that] pending_free [OF assms that] rename_entry_key_set [OF ab(2) [OF False] ab(1)] by simp
    with False ab(3,4) show ?thesis unfolding pending_def by auto
  qed (use ab rest in \<open>auto simp: pending_def no_key_iff\<close>)
qed

lemma carried_out_Cons:
  assumes "pending d ((a, b) # plans)" "carried_out plans (if a = b then d else rename_entry a b d) d'"
  shows "carried_out ((a, b) # plans) d d'"
proof -
  have free: "a' \<noteq> a \<and> a' \<noteq> b" if "(a', b') \<in> set plans" for a' b'
    using pending_free [OF assms(1) that] by blast
  then have no: "a \<notin> fst ` set plans" "b \<notin> fst ` set plans" by force+
  show ?thesis
  proof (cases "a = b")
    case True
    with assms(2) no show ?thesis by (auto simp: carried_out_def)
  next
    case False
    then have "b \<notin> fst ` set d" using assms(1) by (auto simp: pending_def)
    note set_iff = rename_entry_set [OF this, of _ _ a]
    have "(\<exists>a'. (a', k) \<in> set plans \<and> (a', e) \<in> set (rename_entry a b d)) \<longleftrightarrow>
        (\<exists>a'. (a', k) \<in> set plans \<and> (a', e) \<in> set d)" for k e
      using free unfolding set_iff by blast
    moreover have "(k \<notin> fst ` set plans \<and> (k, e) \<in> set (rename_entry a b d)) \<longleftrightarrow>
        k = b \<and> (a, e) \<in> set d \<or> (k \<notin> fst ` set plans \<and> k \<noteq> a \<and> (k, e) \<in> set d)" for k e
      using no unfolding set_iff by blast
    ultimately show ?thesis
      using assms(2) False unfolding carried_out_def by simp blast
  qed
qed

lemma rename_same: "rename a b s = (r, t) \<Longrightarrow> same_manifest s t"
  by (auto simp: rename_def seq_def fallible_def same_manifest_def split: list.splits option.splits if_split_asm)

lemma roll_back_same: "roll_back cs s = (r, t) \<Longrightarrow> same_manifest s t"
proof (induction cs arbitrary: s)
  case (Cons c cs)
  obtain a b where c: "c = (a, b)" by (cases c)
  obtain r' u where u: "rename b a s = (r', u)" by fastforce
  show ?case
  proof (cases r')
    case (Inl e)
    with Cons.prems u c have "t = u" by (simp add: seq_def)
    with rename_same [OF u] show ?thesis by simp
  next
    case (Inr x)
    with Cons.prems u c have "roll_back cs u = (r, t)" by (simp add: seq_def)
    with Cons.IH rename_same [OF u] show ?thesis using same_manifest_trans by blast
  qed
qed (simp add: ret_def)

text \<open>
  The phase of renames carries out all the plans or raises; with at most one failing operation it
  then leaves the directory as the first of the completed renames found it.
\<close>

lemma rename_all_spec:
  assumes "renamed cs d0 d" "dist_dir s = Some d" "pending d plans"
    and "rename_all cs plans s = (r, t)"
  shows "same_manifest s t \<and> (case r of
      Inl e \<Rightarrow> failing s \<le> 1 \<longrightarrow> exn_class_of e = OSError \<and> dist_dir t = Some d0
    | Inr _ \<Rightarrow> \<exists>cs' d'. dist_dir t = Some d' \<and> renamed cs' d0 d' \<and> carried_out plans d d')"
  using assms
proof (induction plans arbitrary: cs d s)
  case Nil
  then show ?case by (auto simp: ret_def carried_out_def)
next
  case (Cons p plans)
  obtain a b where p: "p = (a, b)" by (cases p)
  note pend = Cons.prems(3) [unfolded p]
  show ?case
  proof (cases "a = b")
    case True
    with Cons.prems p have run: "rename_all cs plans s = (r, t)" by simp
    have "pending d plans" using pending_Cons [OF pend] True by simp
    from Cons.IH [OF Cons.prems(1,2) this run] show ?thesis
      using carried_out_Cons [OF pend] True by (auto simp: p split: sum.splits)
  next
    case False
    have ab: "a \<in> fst ` set d" "b \<notin> fst ` set d" using pend False by (auto simp: pending_def)
    show ?thesis
    proof (cases "faults s = [] \<or> \<not> hd (faults s)")
      case True
      let ?s = "s\<lparr>dist_dir := Some (rename_entry a b d), faults := tl (faults s)\<rparr>"
      have run: "rename_all ((a, b) # cs) plans ?s = (r, t)"
        using Cons.prems(4) False rename_ok [OF True Cons.prems(2) ab] by (simp add: p)
      have few: "failing s \<le> 1 \<longrightarrow> failing ?s \<le> 1"
        by (cases "faults s") (auto simp: failing_def split: if_split_asm)
      have "pending (rename_entry a b d) plans" using pending_Cons [OF pend] False by simp
      from Cons.IH [OF renamed.step [OF Cons.prems(1) ab False] _ this run]
      show ?thesis
        using carried_out_Cons [OF pend] False few by (auto simp: p same_manifest_def split: sum.splits)
    next
      case hit: False
      then obtain fs where fs: "faults s = True # fs" by (cases "faults s") auto
      let ?s = "s\<lparr>faults := fs\<rparr>"
      obtain q u where u: "roll_back cs ?s = (q, u)" by fastforce
      have run: "t = u" "r = (case q of Inl e \<Rightarrow> Inl e | Inr _ \<Rightarrow> raise OSError [])"
        using Cons.prems(4) False rename_fault [OF fs, of a b] u
        by (auto simp: p seq_def lift_result_def split: sum.splits)
      have "same_manifest s t" using roll_back_same [OF u] run(1) by (simp add: same_manifest_def)
      moreover have "q = Inr () \<and> dist_dir u = Some d0" if "failing s \<le> 1"
      proof -
        have "failing ?s = 0" using that fs by (simp add: failing_def)
        with roll_back_restores [OF Cons.prems(1), of ?s] Cons.prems(2) u show ?thesis by auto
      qed
      ultimately show ?thesis using run by (auto split: sum.splits)
    qed
  qed
qed

section \<open>Normalisation\<close>

lemma fallible_cases:
  assumes "fallible s = (r, t)"
  shows "dist_dir t = dist_dir s \<and> same_manifest s t \<and> failing t \<le> failing s
    \<and> (case r of Inl e \<Rightarrow> exn_class_of e = OSError | Inr _ \<Rightarrow> True)"
  using assms by (auto simp: fallible_def same_manifest_def failing_def split: list.splits if_split_asm)

lemma write_json_cases:
  assumes "write_json v s = (r, t)"
  shows "dist_dir t = dist_dir s \<and> dist_link t = dist_link s \<and> failing t \<le> failing s
    \<and> manifest_file t = (case r of Inl e \<Rightarrow> manifest_file s | Inr _ \<Rightarrow> Some v)"
proof -
  obtain r1 s1 r2 s2 where f1: "fallible s = (r1, s1)" and f2: "fallible s1 = (r2, s2)" by (metis surj_pair)
  note fs = fallible_cases [OF f1] fallible_cases [OF f2]
  show ?thesis
  proof (cases r1)
    case (Inl e)
    with assms f1 fs show ?thesis by (auto simp: write_json_def seq_def same_manifest_def)
  next
    case (Inr x)
    show ?thesis
    proof (cases "manifest_link s1")
      case True
      with assms f1 fs Inr show ?thesis
        by (auto simp: write_json_def seq_def same_manifest_def reading_def unless_raise_def throw_def)
    next
      case False
      with assms f1 f2 fs Inr show ?thesis
        by (cases r2) (auto simp: write_json_def seq_def same_manifest_def reading_def unless_raise_def ret_def
            updating_def failing_def)
    qed
  qed
qed

lemma plan_ok_pending: "plan_ok d plans \<Longrightarrow> pending d plans"
proof -
  assume ok: "plan_ok d plans"
  have "a \<in> fst ` set d" if "(a, b) \<in> set plans" for a b
    using plan_ok_facts(3) [OF ok that] by force
  with plan_ok_facts(1,2,5) [OF ok] show ?thesis by (auto simp: pending_def)
qed

lemma carry_out_cases:
  assumes run: "carry_out sha256 c plans s = (r, t)" and d: "dist_dir s = Some d" and ok: "pending d plans"
  shows "dist_link t = dist_link s \<and> (case r of
      Inl e \<Rightarrow> manifest_file t = manifest_file s
        \<and> (failing s \<le> 1 \<longrightarrow> dist_dir t = dist_dir s \<or> (\<exists>d'. dist_dir t = Some d' \<and> carried_out plans d d'))
    | Inr report \<Rightarrow> \<exists>cs d' records. dist_dir t = Some d' \<and> renamed cs d d' \<and> carried_out plans d d'
        \<and> traverse (artifact_record sha256 d') (map snd plans) = Inr records
        \<and> report = normalized_report c records \<and> manifest_file t = Some report)"
  using run unfolding carry_out_def
proof (cases rule: seq_cases)
  case (raised e)
  from rename_all_spec [OF renamed.none d ok raised(1)] show ?thesis
    using d raised(2) by (auto simp: same_manifest_def)
next
  case (went_on x u)
  from rename_all_spec [OF renamed.none d ok went_on(1)] obtain cs d'
    where same: "same_manifest s u" and d': "dist_dir u = Some d'" "renamed cs d d'" "carried_out plans d d'" by auto
  let ?records = "traverse (artifact_record sha256 d') (map snd plans)"
  have rest: "seq (lift_result ?records) (\<lambda>records. seq (write_json (normalized_report c records)) (\<lambda>_.
      ret (normalized_report c records))) u = (r, t)"
    using went_on(2) d'(1) by (simp add: seq_def reading_def)
  then show ?thesis
  proof (cases rule: seq_cases)
    case (raised e)
    then show ?thesis using same d' by (auto simp: lift_result_def same_manifest_def)
  next
    case (went_on records v)
    then have v: "v = u" and records: "?records = Inr records" by (auto simp: lift_result_def)
    from went_on(2) show ?thesis
    proof (cases rule: seq_cases)
      case (raised e)
      with write_json_cases [OF raised(1)] show ?thesis using same d' v by (auto simp: same_manifest_def)
    next
      case (went_on y w)
      with write_json_cases [OF went_on(1)] show ?thesis
        using same d' v records by (auto simp: same_manifest_def ret_def)
    qed
  qed
qed

text \<open>What a run of \<open>normalize\<close> leaves behind.\<close>

definition prepared :: "(bytes \<Rightarrow> string) \<Rightarrow> build_context \<Rightarrow> directory \<Rightarrow> dist_state \<Rightarrow> pyval \<Rightarrow> bool" where
  "prepared sha256 c d t report \<longleftrightarrow> (\<exists>plans d' records.
     plan_artifacts c d = Inr plans \<and> dist_dir t = Some d' \<and> distinct (map fst d') \<and> map snd d' = map snd d
     \<and> carried_out plans d d' \<and> traverse (artifact_record sha256 d') (map snd plans) = Inr records
     \<and> report = normalized_report c records \<and> manifest_file t = Some report \<and> \<not> dist_link t)"

definition abandoned :: "build_context \<Rightarrow> dist_state \<Rightarrow> dist_state \<Rightarrow> bool" where
  "abandoned c s t \<longleftrightarrow> (manifest_file t = Some failed_report \<or> manifest_file t = manifest_file s)
     \<and> (failing s \<le> 1 \<longrightarrow> dist_dir t = dist_dir s \<or>
          (\<exists>d plans d'. dist_dir s = Some d \<and> plan_artifacts c d = Inr plans \<and> dist_dir t = Some d' \<and> carried_out plans d d'))"

lemma normalize_cases:
  assumes run: "normalize sha256 c s = (r, t)" and c: "context_ok c"
    and keys: "\<And>d. dist_dir s = Some d \<Longrightarrow> distinct (map fst d)"
  shows "case r of Inl e \<Rightarrow> abandoned c s t
    | Inr report \<Rightarrow> \<exists>d. dist_dir s = Some d \<and> prepared sha256 c d t report"
  using run unfolding normalize_def
proof (cases rule: seq_cases)
  case (raised e)
  with write_json_cases [OF raised(1)] show ?thesis by (simp add: abandoned_def)
next
  case (went_on x u)
  note u = write_json_cases [OF went_on(1)]
  show ?thesis
  proof (cases "if dist_link u then None else dist_dir u")
    case None
    with went_on(2) u show ?thesis by (auto simp: seq_def reading_def throw_def abandoned_def)
  next
    case (Some d)
    then have d: "dist_dir s = Some d" "dist_dir u = Some d" "\<not> dist_link u" using u by (auto split: if_split_asm)
    have "seq (lift_result (plan_artifacts c d)) (carry_out sha256 c) u = (r, t)"
      using went_on(2) d by (simp add: seq_def reading_def)
    then show ?thesis
    proof (cases rule: seq_cases)
      case (raised e)
      then show ?thesis using u by (auto simp: lift_result_def abandoned_def)
    next
      case (went_on plans v)
      then have plans: "plan_artifacts c d = Inr plans" and v: "v = u" by (auto simp: lift_result_def)
      have "pending d plans" using plan_artifacts_ok [OF plans c keys [OF d(1)]] plan_ok_pending by blast
      from carry_out_cases [OF went_on(2) [unfolded v] d(2) this] show ?thesis
        using u d plans keys [OF d(1)]
        by (cases r) (auto simp: abandoned_def prepared_def dest: renamed_distinct renamed_entries)
    qed
  qed
qed

text \<open>The prepared files are the ones \<open>verified_files\<close> accepts.\<close>

lemma traverse_follow:
  assumes "traverse f xs = Inr ys" and "\<And>x y. x \<in> set xs \<Longrightarrow> f x = Inr y \<Longrightarrow> g y = Inr (h x)"
  shows "traverse g ys = Inr (map h xs)"
  using assms by (induction xs arbitrary: ys) auto

lemma prepared_packages:
  assumes "plan_ok d plans" "carried_out plans d d'"
    and "\<And>k. (k, Dir) \<in> set d \<Longrightarrow> \<not> package_name k"
  shows "set (filter package_name (map fst d')) = set (map snd plans)"
proof (intro equalityI subsetI)
  fix k assume "k \<in> set (filter package_name (map fst d'))"
  then obtain e where k: "(k, e) \<in> set d'" "package_name k" by auto
  show "k \<in> set (map snd plans)"
  proof (rule ccontr)
    assume "k \<notin> set (map snd plans)"
    then have "\<nexists>a. (a, k) \<in> set plans" by force
    with assms(2) k(1) have "k \<notin> fst ` set plans" "(k, e) \<in> set d" by (auto simp: carried_out_def)
    moreover from this(2) k(2) have "e \<noteq> Dir" using assms(3) by blast
    ultimately show False using plan_ok_facts(6) [OF assms(1)] k(2) by blast
  qed
next
  fix k assume "k \<in> set (map snd plans)"
  then obtain a where a: "(a, k) \<in> set plans" by auto
  with plan_ok_facts(3,4) [OF assms(1)] obtain bs where "(a, File bs) \<in> set d" "package_name k" by blast
  with assms(2) a have "(k, File bs) \<in> set d'" unfolding carried_out_def by blast
  with \<open>package_name k\<close> show "k \<in> set (filter package_name (map fst d'))" by force
qed

lemma prepared_verified:
  assumes prep: "prepared sha256 c d t report" and c: "context_ok c" and keys: "distinct (map fst d)"
    and dirs: "\<And>k. (k, Dir) \<in> set d \<Longrightarrow> \<not> package_name k"
    and hash: "\<And>bs. lower_hex 64 (sha256 bs)"
  shows "\<exists>xs. expected_artifacts c = Inr xs \<and> verified_files float_is sha256 c t = Inr (map snd xs)"
proof -
  obtain plans d' records where plans: "plan_artifacts c d = Inr plans" and d': "dist_dir t = Some d'"
    "distinct (map fst d')" "carried_out plans d d'" and records: "traverse (artifact_record sha256 d') (map snd plans) = Inr records"
    and t: "manifest_file t = Some (normalized_report c records)" "\<not> dist_link t"
    using prep unfolding prepared_def by auto
  obtain xs where ok: "plan_ok d plans" and xs: "expected_artifacts c = Inr xs" "map snd plans = map snd xs"
    using plan_artifacts_ok [OF plans c keys] by blast
  have row: "row_file y = Inr (PStr x) \<and> verify_row sha256 d' y = Inr x"
    if x: "x \<in> set (map snd plans)" "artifact_record sha256 d' x = Inr y" for x y
  proof -
    obtain a where a: "(a, x) \<in> set plans" using x(1) by auto
    then obtain bs where bs: "bs \<noteq> []" "(a, File bs) \<in> set d" using plan_ok_facts(3) [OF ok] by blast
    then have "(x, File bs) \<in> set d'" using a d'(3) unfolding carried_out_def by blast
    then have "map_of d' x = Some (File bs)" using d'(2) by simp
    with x(2) bs(1) hash [of bs] show ?thesis
      by (auto simp: artifact_record_def row_file_def verify_row_def dict_get_def)
  qed
  have len: "length records = card (set (map snd xs))"
    using ok traverse_length [OF records] xs(2) distinct_card [of "map snd xs"] unfolding plan_ok_def by simp
  have files: "traverse row_file records = Inr (map PStr (map snd plans))"
    "traverse (verify_row sha256 d') records = Inr (map snd plans)"
    using traverse_follow [OF records, of row_file PStr] traverse_follow [OF records, of "verify_row sha256 d'" id] row
    by auto
  have rows: "manifest_rows c rep (map snd xs) = Inr records"
    if "normalized_report c records = PDict rep" for rep
  proof -
    have "dict_get rep ''passed'' = PBool True" "dict_get_default rep ''artifacts'' (PList []) = PList records"
      using that by (auto simp: normalized_report_def identity_fields_def dict_get_def dict_get_default_def)
    then show ?thesis using files(1) len xs(2) by (auto simp: manifest_rows_def rows_of_def)
  qed
  have same: "identity_matches float_is c rep" if "normalized_report c records = PDict rep" for rep
    using that by (auto simp: identity_matches_def normalized_report_def identity_fields_def dict_get_def int_equal_def)
  obtain rep where rep: "normalized_report c records = PDict rep" by (simp add: normalized_report_def)
  show ?thesis
    using rep same [OF rep] rows [OF rep] t d'(1) files(2) xs prepared_packages [OF ok d'(3) dirs]
    by (auto simp: verified_files_def)
qed

section \<open>Verified files\<close>

lemma traverse_all: "traverse f xs = Inr ys \<Longrightarrow> x \<in> set xs \<Longrightarrow> \<exists>y \<in> set ys. f x = Inr y"
  by (induction xs arbitrary: ys) auto

lemma verify_row_Inr:
  assumes "verify_row sha256 d r = Inr name"
  shows "\<exists>row bs. r = PDict row \<and> dict_get row ''file'' = PStr name \<and> row_file r = Inr (PStr name)
    \<and> map_of d name = Some (File bs) \<and> bs \<noteq> [] \<and> dict_get row ''size'' = PInt (int (length bs))
    \<and> dict_get row ''sha256'' = PStr (sha256 bs)"
proof -
  obtain row where r: "r = PDict row" using assms by (cases r) (auto simp: verify_row_def)
  with assms show ?thesis
    by (auto simp: verify_row_def row_file_def split: pyval.splits option.splits entry.splits if_split_asm)
qed

lemma verified_files_Inr:
  assumes "verified_files float_is sha256 c s = Inr files"
  obtains report rows xs d where "manifest_file s = Some (PDict report)" "expected_artifacts c = Inr xs"
    "dict_get report ''passed'' = PBool True" "identity_matches float_is c report"
    "rows_of (dict_get_default report ''artifacts'' (PList [])) = Inr rows"
    "dist_dir s = Some d" "\<not> dist_link s" "set (filter package_name (map fst d)) = set (map snd xs)"
    "traverse (verify_row sha256 d) rows = Inr files" "set files = set (map snd xs)"
proof -
  obtain report where report: "manifest_file s = Some (PDict report)"
    using assms by (auto simp: verified_files_def split: option.splits pyval.splits)
  with assms obtain xs rows d where facts: "expected_artifacts c = Inr xs" "identity_matches float_is c report"
    "manifest_rows c report (map snd xs) = Inr rows" "\<not> dist_link s" "dist_dir s = Some d"
    "set (filter package_name (map fst d)) = set (map snd xs)" "traverse (verify_row sha256 d) rows = Inr files"
    by (auto simp: verified_files_def split: if_split_asm option.splits)
  then obtain names where names: "dict_get report ''passed'' = PBool True"
    "rows_of (dict_get_default report ''artifacts'' (PList [])) = Inr rows" "traverse row_file rows = Inr names"
    "set names = PStr ` set (map snd xs)"
    by (auto simp: manifest_rows_def split: if_split_asm)
  have "PStr ` set files = set names"
  proof (intro equalityI subsetI)
    fix v assume "v \<in> PStr ` set files"
    then obtain f where f: "v = PStr f" "f \<in> set files" by blast
    then obtain r where "r \<in> set rows" "verify_row sha256 d r = Inr f" using traverse_set [OF facts(7)] by blast
    with verify_row_Inr traverse_all [OF names(3)] f(1) show "v \<in> set names" by (metis sum.inject(2))
  next
    fix v assume "v \<in> set names"
    then obtain r where "r \<in> set rows" "row_file r = Inr v" using traverse_set [OF names(3)] by blast
    with verify_row_Inr traverse_all [OF facts(7)] show "v \<in> PStr ` set files" by (metis sum.inject(2) image_eqI)
  qed
  then have "set files = set (map snd xs)" using names(4) by (simp add: inj_image_eq_iff inj_def)
  with that [OF report facts(1) names(1) facts(2) names(2) facts(5,4,6,7)] show thesis by blast
qed

section \<open>A sample release\<close>

definition sample_context_json :: pyval where
  "sample_context_json = PDict [(''schema_version'', PInt 1), (''flavor'', PStr ''brand_a''), (''platform'', PStr ''linux''),
     (''arch'', PStr ''arm64''), (''product_version'', PStr ''1.2.3-pre.1''), (''base_version'', PStr ''1.2.3''),
     (''build_number'', PInt 7), (''source_revision'', PStr ''0123456789abcdef0123456789abcdef01234567''),
     (''build_tag'', PStr ''202501020304''), (''package_prefix'', PStr ''Brand''), (''package_app_name'', PStr ''brand''),
     (''targets'', PList [PStr ''deb'', PStr ''appimage''])]"

definition sample_context :: build_context where
  "sample_context = \<lparr>c_flavor = ''brand_a'', c_platform = ''linux'', c_arch = ''arm64'', c_product_version = ''1.2.3-pre.1'',
     c_base_version = ''1.2.3'', c_build_number = 7, c_source_revision = ''0123456789abcdef0123456789abcdef01234567'',
     c_build_tag = ''202501020304'', c_package_prefix = ''Brand'', c_package_app_name = ''brand'',
     c_targets = [''deb'', ''appimage'']\<rparr>"

definition sample_dist :: directory where
  "sample_dist = [(''1.2.3'', Dir), (''brand.deb'', File [1, 2]), (''notes.txt'', File []), (''brand.AppImage'', File [3])]"

definition sample_state :: dist_state where
  "sample_state = \<lparr>dist_link = False, dist_dir = Some sample_dist, manifest_link = False, manifest_file = None, faults = []\<rparr>"

definition sample_hash :: "bytes \<Rightarrow> string" where
  "sample_hash bs = replicate 62 (CHR ''0'') @ bytes_hex [of_nat (length bs)]"

lemma sample_hash_hex: "lower_hex 64 (sample_hash bs)"
proof -
  have "is_lower_hex (CHR ''0'')" by code_simp
  then show ?thesis using bytes_hex_lower by (auto simp: lower_hex_def sample_hash_def list_all_iff)
qed

lemma sample_reads: "read_context sample_context_json = Inr sample_context"
proof -
  have "case read_context sample_context_json of Inl _ \<Rightarrow> False | Inr c \<Rightarrow> c = sample_context" by code_simp
  then show ?thesis by (simp split: sum.splits)
qed

definition sample_prepared :: dist_state where
  "sample_prepared = snd (normalize sample_hash sample_context sample_state)"

lemma sample_normalized:
  "\<exists>report. normalize sample_hash sample_context sample_state = (Inr report, sample_prepared)"
proof -
  have "case fst (normalize sample_hash sample_context sample_state) of Inl _ \<Rightarrow> False | Inr _ \<Rightarrow> True" by code_simp
  then show ?thesis
    by (cases "normalize sample_hash sample_context sample_state") (auto simp: sample_prepared_def split: sum.splits)
qed

lemma sample_dist_facts: "dist_dir sample_state = Some sample_dist" "distinct (map fst sample_dist)"
  "(k, Dir) \<in> set sample_dist \<Longrightarrow> \<not> package_name k"
proof -
  show "dist_dir sample_state = Some sample_dist" by (simp add: sample_state_def)
  show "distinct (map fst sample_dist)" by code_simp
  have "\<not> package_name ''1.2.3''" by code_simp
  then show "(k, Dir) \<in> set sample_dist \<Longrightarrow> \<not> package_name k" by (auto simp: sample_dist_def)
qed

section \<open>Properties\<close>



text \<open>No distribution file is lost or altered by a successful normalisation: the directory holds the
  same entries in the same order under names that are still pairwise different, and each planned
  source is found under its final name.\<close>

theorem normalize_loses_nothing:
  assumes "read_context v = Inr c" and "normalize sha256 c s = (Inr report, t)"
    and "dist_dir s = Some d" and "distinct (map fst d)"
  shows "\<exists>d' plans. dist_dir t = Some d' \<and> map snd d' = map snd d \<and> distinct (map fst d')
    \<and> plan_artifacts c d = Inr plans
    \<and> (\<forall>a b e. (a, b) \<in> set plans \<and> (a, e) \<in> set d \<longrightarrow> (b, e) \<in> set d')
    \<and> (\<forall>k e. (k, e) \<in> set d \<and> k \<notin> fst ` set plans \<longrightarrow> (k, e) \<in> set d')"
  using normalize_cases [OF assms(2) read_context_ok [OF assms(1)]] assms(3,4)
  by (fastforce simp: prepared_def carried_out_def)

theorem normalize_loses_nothing_witness:
  "\<exists>d'. dist_dir sample_prepared = Some d' \<and> map snd d' = [Dir, File [1, 2], File [], File [3]]"
proof -
  obtain report where run: "normalize sample_hash sample_context sample_state = (Inr report, sample_prepared)"
    using sample_normalized by blast
  from normalize_loses_nothing [OF sample_reads run sample_dist_facts(1,2)] show ?thesis
    by (auto simp: sample_dist_def)
qed

text \<open>C11: The renames are all or nothing: when at most one operation of the file system fails, a failed
  phase of renames raises \<open>OSError\<close> and leaves the directory exactly as it was.\<close>

theorem renames_roll_back:
  assumes "read_context v = Inr c" and "plan_artifacts c d = Inr plans" and "distinct (map fst d)"
    and "dist_dir s = Some d" and "length (filter id (faults s)) \<le> 1"
    and "rename_all [] plans s = (Inl e, t)"
  shows "exn_class_of e = OSError \<and> dist_dir t = Some d"
proof -
  have "pending d plans"
    using plan_artifacts_ok [OF assms(2) read_context_ok [OF assms(1)] assms(3)] plan_ok_pending by blast
  with rename_all_spec [OF renamed.none assms(4) _ assms(6)] assms(5) show ?thesis by (simp add: failing_def)
qed

theorem renames_roll_back_witness:
  "dist_dir (snd (rename_all []
      [(''brand.deb'', ''Brand-1.2.3-pre.1-linux-arm64.deb''), (''brand.AppImage'', ''Brand-1.2.3-pre.1-linux-arm64.AppImage'')]
      (sample_state\<lparr>faults := [False, True]\<rparr>))) = Some sample_dist"
proof -
  let ?plans = "[(''brand.deb'', ''Brand-1.2.3-pre.1-linux-arm64.deb''),
     (''brand.AppImage'', ''Brand-1.2.3-pre.1-linux-arm64.AppImage'')]"
  have "case plan_artifacts sample_context sample_dist of Inl _ \<Rightarrow> False | Inr p \<Rightarrow> p = ?plans" by code_simp
  then have plans: "plan_artifacts sample_context sample_dist = Inr ?plans" by (simp split: sum.splits)
  have "case fst (rename_all [] ?plans (sample_state\<lparr>faults := [False, True]\<rparr>)) of Inl _ \<Rightarrow> True | Inr _ \<Rightarrow> False"
    by code_simp
  then obtain e t where run: "rename_all [] ?plans (sample_state\<lparr>faults := [False, True]\<rparr>) = (Inl e, t)"
    by (cases "rename_all [] ?plans (sample_state\<lparr>faults := [False, True]\<rparr>)") (auto split: sum.splits)
  have "dist_dir (sample_state\<lparr>faults := [False, True]\<rparr>) = Some sample_dist" by (simp add: sample_state_def)
  from renames_roll_back [OF sample_reads plans sample_dist_facts(2) this _ run] run show ?thesis by simp
qed



text \<open>C33: Verification is sound: the files it returns are the expected artifacts and the only names in
  the directory that look like packages; each is a regular, non-empty file whose length and hash are
  the ones a row of the passed manifest records.\<close>

theorem verified_files_sound:
  assumes "verified_files float_is sha256 c s = Inr files"
  shows "\<exists>xs d report rows. expected_artifacts c = Inr xs \<and> set files = set (map snd xs) \<and> dist_dir s = Some d
    \<and> set (filter package_name (map fst d)) = set files
    \<and> manifest_file s = Some (PDict report) \<and> dict_get report ''passed'' = PBool True
    \<and> rows_of (dict_get_default report ''artifacts'' (PList [])) = Inr rows
    \<and> (\<forall>f \<in> set files. \<exists>bs row. map_of d f = Some (File bs) \<and> bs \<noteq> [] \<and> PDict row \<in> set rows
        \<and> dict_get row ''file'' = PStr f \<and> dict_get row ''size'' = PInt (int (length bs))
        \<and> dict_get row ''sha256'' = PStr (sha256 bs))"
proof -
  obtain report rows xs d where facts: "manifest_file s = Some (PDict report)" "expected_artifacts c = Inr xs"
    "dict_get report ''passed'' = PBool True" "rows_of (dict_get_default report ''artifacts'' (PList [])) = Inr rows"
    "dist_dir s = Some d" "set (filter package_name (map fst d)) = set (map snd xs)" "set files = set (map snd xs)"
    and rows: "traverse (verify_row sha256 d) rows = Inr files"
    using verified_files_Inr [OF assms] by metis
  have "\<exists>bs row. map_of d f = Some (File bs) \<and> bs \<noteq> [] \<and> PDict row \<in> set rows
      \<and> dict_get row ''file'' = PStr f \<and> dict_get row ''size'' = PInt (int (length bs))
      \<and> dict_get row ''sha256'' = PStr (sha256 bs)" if f: "f \<in> set files" for f
  proof -
    obtain r where "r \<in> set rows" "verify_row sha256 d r = Inr f" using traverse_set [OF rows f] by blast
    with verify_row_Inr [of sha256 d r f] show ?thesis by blast
  qed
  with facts show ?thesis by blast
qed

theorem verified_files_sound_witness:
  "\<exists>files d. verified_files (\<lambda>_ _. False) sample_hash sample_context sample_prepared = Inr files
     \<and> dist_dir sample_prepared = Some d \<and> set (filter package_name (map fst d)) = set files"
proof -
  have "case verified_files (\<lambda>_ _. False) sample_hash sample_context sample_prepared of Inl _ \<Rightarrow> False | Inr _ \<Rightarrow> True"
    by code_simp
  then obtain files where "verified_files (\<lambda>_ _. False) sample_hash sample_context sample_prepared = Inr files"
    by (auto split: sum.splits)
  with verified_files_sound [OF this] show ?thesis by auto
qed

text \<open>An accepted release context names a target set of its platform and architecture, a build
  number from 1 to 65535, a full commit, and a version, a tag and package names in the shapes of
  their patterns.\<close>

theorem read_context_sound:
  assumes "read_context v = Inr c"
  shows "c_targets c \<in> set (allowed_targets (c_platform c) (c_arch c)) \<and> c_flavor c \<in> {''brand_a'', ''brand_b''}
    \<and> 1 \<le> c_build_number c \<and> c_build_number c \<le> 65535 \<and> lower_hex 40 (c_source_revision c)
    \<and> matches re_product_version (c_product_version c) \<and> matches re_base_version (c_base_version c)
    \<and> length (c_build_tag c) = 12 \<and> list_all is_digit (c_build_tag c) \<and> c_package_prefix c \<noteq> []"
proof -
  note ok = read_context_ok [OF assms, unfolded context_ok_def]
  have "in_class False [(48, 57)] = is_digit" by (simp add: in_class_def is_digit_def fun_eq_iff)
  then have "length (c_build_tag c) = 12 \<and> list_all is_digit (c_build_tag c)"
    using ok by (simp add: rdigit_def matches_times_class)
  moreover have "c_package_prefix c \<noteq> []"
    using ok by (auto simp: re_package_name_def matches_class_seq)
  ultimately show ?thesis using ok by blast
qed

theorem read_context_sound_witness:
  "read_context sample_context_json = Inr sample_context \<and> lower_hex 40 (c_source_revision sample_context)"
  using sample_reads read_context_sound [OF sample_reads] by simp

text \<open>The composed defines are the private defines of the same flavor with exactly six keys set from
  the context, the environment and the core file; every other key keeps its value.\<close>

theorem compose_defines:
  assumes "compose c base core_file app_env = Inr e"
  shows "\<exists>d core. base = PDict d \<and> dict_get d ''XB_FLAVOR_ID'' = PStr (c_flavor c)
    \<and> (core = [] \<or> matches re_core_hash core) \<and> matches re_app_env app_env
    \<and> map_of e = (map_of d)(''APP_ENV'' \<mapsto> PStr app_env, ''CORE_SHA256'' \<mapsto> PStr core, ''XB_FORM_A'' \<mapsto> PStr ''true'',
        ''XB_BUILD_TAG'' \<mapsto> PStr (c_build_tag c), ''XB_PRODUCT_VERSION'' \<mapsto> PStr (c_product_version c),
        ''XB_BUILD_NUMBER'' \<mapsto> PStr (int_text (c_build_number c)))"
proof -
  have core: "core = [] \<or> matches re_core_hash core" if "core_hash core_file = Inr core" for core
    using that by (auto simp: core_hash_def fullmatch_iff split: option.splits pyval.splits if_split_asm)
  obtain d where d: "base = PDict d" using assms by (cases base) (auto simp: compose_def split: if_split_asm)
  with assms core show ?thesis by (auto simp: compose_def fullmatch_iff split: if_split_asm)
qed

theorem compose_defines_witness:
  "\<exists>e. compose sample_context (PDict [(''XB_FLAVOR_ID'', PStr ''brand_a'')]) None ''stable'' = Inr e
     \<and> map_of e ''XB_BUILD_NUMBER'' = Some (PStr ''7'')"
proof -
  let ?base = "PDict [(''XB_FLAVOR_ID'', PStr ''brand_a'')]"
  have "case compose sample_context ?base None ''stable'' of Inl _ \<Rightarrow> False | Inr _ \<Rightarrow> True" by code_simp
  then obtain e where e: "compose sample_context ?base None ''stable'' = Inr e" by (auto split: sum.splits)
  have "int_text (c_build_number sample_context) = ''7''" by code_simp
  with compose_defines [OF e] e show ?thesis by auto
qed

end
