(* ===== verification/Process_Cleanup.thy ===== *)
theory Process_Cleanup
  imports Py_Effects
begin

text \<open>
  \<open>tool/owned_process_cleanup.py\<close>: bounded cleanup of a child's private process group. The operating
  system is the record \<open>os_ops\<close> of operations on a world of any type; times are integers of one unit,
  the unit of the constants below being the millisecond. Signals, waits and inventories are logged,
  and the polling loop carries fuel, which \<open>verify_loop_returns\<close> bounds by the time left.
\<close>

section \<open>Diagnostics\<close>

definition state_choices :: "(string \<times> string list) list" where
  "state_choices =
     [(''outcome'', [''complete'', ''failed'']),
      (''phase'', [''guard'', ''term'', ''kill'', ''wait'', ''verify'', ''complete'', ''job'']),
      (''group_state'', [''gone'', ''zombies_only'', ''live'', ''unknown''])]"

definition error_phases :: "string list" where
  "error_phases = [''term'', ''kill'', ''wait'', ''verify'', ''guard'', ''job'']"

definition error_kinds :: "string list" where
  "error_kinds = [''permission'', ''missing'', ''timeout'', ''os_error'', ''invalid'', ''other'']"

definition safe_number :: "pyval \<Rightarrow> pydict" where
  "safe_number v = (case v of
      PInt n \<Rightarrow> if 0 \<le> n \<and> n \<le> 65535 then [(''errno'', PInt n)] else [] | _ \<Rightarrow> [])"

text \<open>One row of the list of errors: None where the source goes on with the next one.\<close>

definition safe_error :: "pyval \<Rightarrow> exn + pyval option" where
  "safe_error error = (case error of
      PDict e \<Rightarrow>
        rbind (member_of (dict_get e ''phase'') error_phases) (\<lambda>p.
        if \<not> p then Inr None
        else rbind (member_of (dict_get e ''kind'') error_kinds) (\<lambda>k.
          if \<not> k then Inr None
          else Inr (Some (PDict ([(''phase'', dict_get e ''phase''), (''kind'', dict_get e ''kind'')]
            @ safe_number (dict_get e ''errno''))))))
    | _ \<Rightarrow> Inr None)"

definition safe_choice :: "pydict \<Rightarrow> pydict \<Rightarrow> string \<times> string list \<Rightarrow> exn + pydict" where
  "safe_choice v result p =
     rbind (member_of (dict_get v (fst p)) (snd p)) (\<lambda>ok.
       Inr (if ok then result @ [(fst p, dict_get v (fst p))] else result))"

definition safe_flags :: "pydict \<Rightarrow> pydict" where
  "safe_flags v = concat (map (\<lambda>key. case dict_get v key of PBool b \<Rightarrow> [(key, PBool b)] | _ \<Rightarrow> [])
     [''reaped'', ''permission_race_recovered''])"

definition safe_cleanup :: "pyval \<Rightarrow> exn + pydict" where
  "safe_cleanup value = (case value of
      PDict v \<Rightarrow>
        rbind (foldE (safe_choice v) [] state_choices) (\<lambda>result.
        rbind (traverse safe_error
            (case dict_get_default v ''errors'' (PList []) of PList xs \<Rightarrow> take 8 xs | _ \<Rightarrow> [])) (\<lambda>rows.
          Inr (result @ safe_flags v @ [(''errors'', PList (List.map_filter id rows))])))
    | _ \<Rightarrow> Inr [])"

section \<open>Failures of the operating system\<close>

text \<open>The classes \<open>error_row\<close> tells apart, and \<open>errno\<close> where the exception has one.\<close>

datatype failure_kind = Permission | Missing | TimedOut | OsFailure | Invalid | Other

datatype failure = Failure (kind_of: failure_kind) (errno_of: "int option")

definition is_os_error :: "failure \<Rightarrow> bool" where
  "is_os_error f \<longleftrightarrow> kind_of f \<in> {Permission, Missing, OsFailure}"

primrec kind_text :: "failure_kind \<Rightarrow> string" where
  "kind_text Permission = ''permission''"
| "kind_text Missing = ''missing''"
| "kind_text TimedOut = ''timeout''"
| "kind_text OsFailure = ''os_error''"
| "kind_text Invalid = ''invalid''"
| "kind_text Other = ''other''"

definition error_row :: "string \<Rightarrow> failure \<Rightarrow> pyval" where
  "error_row phase f = PDict [(''phase'', PStr phase), (''kind'', PStr (kind_text (kind_of f))),
     (''errno'', case errno_of f of None \<Rightarrow> PNone | Some n \<Rightarrow> PInt n)]"

section \<open>The process inventory\<close>

text \<open>\<open>[A-Za-z+<>=?-]+\<close>.\<close>

definition stat_ok :: "string \<Rightarrow> bool" where
  "stat_ok s \<longleftrightarrow> s \<noteq> [] \<and> list_all (\<lambda>c. is_alpha c \<or> c \<in> set ''+<>=?-'') s"

definition inventory_line :: "int \<Rightarrow> string list \<Rightarrow> string \<Rightarrow> exn + string list" where
  "inventory_line pgid members line =
     (case split_words line of
        [grp, stat] \<Rightarrow>
          if grp = [] \<or> \<not> list_all is_digit grp \<or> \<not> stat_ok stat
          then raise ValueError ''invalid_process_inventory''
          else Inr (if int (dec_value grp) = pgid then members @ [stat] else members)
      | _ \<Rightarrow> raise ValueError ''invalid_process_inventory'')"

text \<open>What \<open>group_state\<close> reads from the output of \<open>ps\<close>.\<close>

definition group_state :: "int \<Rightarrow> string \<Rightarrow> exn + string" where
  "group_state pgid output =
     (if length output > 4 * 1024 * 1024 \<or> text_strip output = []
      then raise ValueError ''invalid_process_inventory''
      else rbind (foldE (inventory_line pgid) [] (split_lines output)) (\<lambda>members.
        Inr (if members = [] then ''gone''
             else if list_all (prefix ''Z'') members then ''zombies_only'' else ''live'')))"

section \<open>The child and the clock\<close>

datatype signal = SIGTERM | SIGKILL

record 'w os_ops =
  os_posix :: bool
  own_group :: int
  os_now :: "'w \<Rightarrow> int \<times> 'w"
  os_killpg :: "int \<Rightarrow> signal \<Rightarrow> 'w \<Rightarrow> failure option \<times> 'w"
  os_wait :: "int \<Rightarrow> 'w \<Rightarrow> failure option \<times> 'w"
  os_returncode :: "'w \<Rightarrow> int option"
  os_inventory :: "int \<Rightarrow> 'w \<Rightarrow> (failure + string) \<times> 'w"
  os_sleep :: "int \<Rightarrow> 'w \<Rightarrow> 'w"

datatype action = Signalled int signal | Waited | Inventory string

record cleanup_state =
  outcome :: string
  phase :: string
  last_state :: string
  reaped :: bool
  race_recovered :: bool
  errors :: "pyval list"

definition start_state :: cleanup_state where
  "start_state = \<lparr>outcome = ''failed'', phase = ''guard'', last_state = ''unknown'', reaped = False,
     race_recovered = False, errors = []\<rparr>"

definition state_value :: "cleanup_state \<Rightarrow> pyval" where
  "state_value s = PDict [(''outcome'', PStr (outcome s)), (''phase'', PStr (phase s)), (''group_state'', PStr (last_state s)),
     (''reaped'', PBool (reaped s)), (''permission_race_recovered'', PBool (race_recovered s)), (''errors'', PList (errors s))]"

text \<open>The local variables of \<open>cleanup_owned_group\<close>, the world and the log, newest action first.\<close>

record 'w cleanup =
  world :: 'w
  actions :: "action list"
  state :: cleanup_state
  hard_error :: bool
  permission :: bool

definition add_error :: "string \<Rightarrow> failure \<Rightarrow> 'w cleanup \<Rightarrow> 'w cleanup" where
  "add_error ph f s = s\<lparr>state := (state s)\<lparr>errors := errors (state s) @ [error_row ph f]\<rparr>\<rparr>"

definition EPERM :: int where
  "EPERM = 1"

definition signal_group :: "'w os_ops \<Rightarrow> int \<Rightarrow> signal \<Rightarrow> string \<Rightarrow> 'w cleanup \<Rightarrow> 'w cleanup" where
  "signal_group ops pid sig ph s =
     (let s = s\<lparr>state := (state s)\<lparr>phase := ph\<rparr>\<rparr>;
          (r, w) = os_killpg ops pid sig (world s);
          s = s\<lparr>world := w, actions := Signalled pid sig # actions s\<rparr> in
      case r of
        None \<Rightarrow> s
      | Some f \<Rightarrow>
          if kind_of f = Missing then s
          else let s = add_error ph f s in
            if errno_of f = Some EPERM then s\<lparr>permission := True\<rparr> else s\<lparr>hard_error := True\<rparr>)"

text \<open>Reaping: a timeout counts only after the last signal.\<close>

definition reap_child :: "'w os_ops \<Rightarrow> int \<Rightarrow> int \<Rightarrow> bool \<Rightarrow> 'w cleanup \<Rightarrow> 'w cleanup" where
  "reap_child ops deadline grace killing s =
     (let s = s\<lparr>state := (state s)\<lparr>phase := ''wait''\<rparr>\<rparr>;
          (t, w) = os_now ops (world s);
          (r, w) = os_wait ops (min (if killing then 500 else grace) (max 1 (deadline - t))) w;
          s = s\<lparr>world := w, actions := Waited # actions s\<rparr> in
      case r of
        None \<Rightarrow> s
      | Some f \<Rightarrow>
          if kind_of f = TimedOut then (if killing then add_error ''wait'' f s else s)
          else (add_error ''wait'' f s)\<lparr>hard_error := True\<rparr>)"

definition note_reaped :: "'w os_ops \<Rightarrow> 'w cleanup \<Rightarrow> 'w cleanup" where
  "note_reaped ops s = s\<lparr>state := (state s)\<lparr>reaped := os_returncode ops (world s) \<noteq> None\<rparr>\<rparr>"

text \<open>A leader whose \<open>SIGKILL\<close> completed between the wait and the inventory.\<close>

definition reap_late :: "'w os_ops \<Rightarrow> int \<Rightarrow> 'w cleanup \<Rightarrow> 'w cleanup" where
  "reap_late ops deadline s =
     (if reaped (state s) then s
      else let (t, w) = os_now ops (world s);
               (r, w) = os_wait ops (min 50 (max 1 (deadline - t))) w;
               s = s\<lparr>world := w, actions := Waited # actions s\<rparr>;
               s = (case r of
                   None \<Rightarrow> s
                 | Some f \<Rightarrow> if kind_of f = TimedOut then s else (add_error ''wait'' f s)\<lparr>hard_error := True\<rparr>) in
        note_reaped ops s)"

text \<open>One inventory: the state it shows, or a failure that ends the loop.\<close>

definition take_inventory :: "'w os_ops \<Rightarrow> int \<Rightarrow> int \<Rightarrow> 'w cleanup \<Rightarrow> bool \<times> 'w cleanup" where
  "take_inventory ops pid deadline s =
     (let (t, w) = os_now ops (world s);
          (r, w) = os_inventory ops (min 500 (max 1 (deadline - t))) w;
          s = s\<lparr>world := w\<rparr> in
      case r of
        Inl f \<Rightarrow> (False, (add_error ''verify'' f s)\<lparr>hard_error := True\<rparr>)
      | Inr output \<Rightarrow>
          (case group_state pid output of
             Inl e \<Rightarrow> (False, (add_error ''verify'' (Failure Invalid None) (s\<lparr>actions := Inventory output # actions s\<rparr>))
                 \<lparr>hard_error := True\<rparr>)
           | Inr g \<Rightarrow> (True, s\<lparr>actions := Inventory output # actions s, state := (state s)\<lparr>last_state := g\<rparr>\<rparr>)))"

definition group_stopped :: "cleanup_state \<Rightarrow> bool" where
  "group_stopped st \<longleftrightarrow> last_state st \<in> {''gone'', ''zombies_only''} \<and> reaped st"

text \<open>The polling loop: the answer is whether the source returns; None when the fuel does not suffice.\<close>

fun verify_loop :: "nat \<Rightarrow> 'w os_ops \<Rightarrow> int \<Rightarrow> int \<Rightarrow> 'w cleanup \<Rightarrow> (bool \<times> 'w cleanup) option" where
  "verify_loop fuel ops pid deadline s =
     (if fuel = 0 then None
      else let (t, w) = os_now ops (world s); s = s\<lparr>world := w\<rparr> in
        if \<not> t < deadline then Some (False, s)
        else let (ok, s) = take_inventory ops pid deadline s in
          if \<not> ok then Some (False, s)
          else let s = reap_late ops deadline s in
            if group_stopped (state s) then
              Some (if \<not> hard_error s
                then (True, s\<lparr>state := (state s)\<lparr>outcome := ''complete'', phase := ''complete'', race_recovered := permission s\<rparr>\<rparr>)
                else (False, s))
            else let (t, w) = os_now ops (world s);
                     s = s\<lparr>world := os_sleep ops (min 20 (max 0 (deadline - t))) w\<rparr> in
              verify_loop (fuel - 1) ops pid deadline s)"

declare verify_loop.simps [simp del]

definition group_allowed :: "'w os_ops \<Rightarrow> pyval \<Rightarrow> int option" where
  "group_allowed ops pid = (case pid of
      PInt n \<Rightarrow> if \<not> os_posix ops \<or> n \<le> 1 \<or> n = own_group ops then None else Some n
    | _ \<Rightarrow> None)"

definition start_cleanup :: "'w \<Rightarrow> 'w cleanup" where
  "start_cleanup w = \<lparr>world = w, actions = [], state = start_state, hard_error = False, permission = False\<rparr>"

text \<open>The two rounds of signal and wait.\<close>

definition stop_group :: "'w os_ops \<Rightarrow> int \<Rightarrow> int \<Rightarrow> int \<Rightarrow> 'w cleanup \<Rightarrow> 'w cleanup" where
  "stop_group ops pid deadline grace s =
     reap_child ops deadline grace True (signal_group ops pid SIGKILL ''kill''
       (reap_child ops deadline grace False (signal_group ops pid SIGTERM ''term'' s)))"

text \<open>True with the diagnostic it returns, or False with the diagnostic of the \<open>CleanupError\<close>.\<close>

definition cleanup_owned_group ::
    "nat \<Rightarrow> 'w os_ops \<Rightarrow> pyval \<Rightarrow> int \<Rightarrow> int \<Rightarrow> 'w \<Rightarrow> ((exn + bool \<times> pydict) \<times> 'w cleanup) option" where
  "cleanup_owned_group fuel ops pid timeout grace w =
     (let finish = (\<lambda>(ok, s). (rbind (safe_cleanup (state_value (state s))) (\<lambda>d. Inr (ok, d)), s)) in
      case group_allowed ops pid of
        None \<Rightarrow> Some (finish (False, start_cleanup w))
      | Some n \<Rightarrow>
          let (t, w) = os_now ops w;
              deadline = t + timeout;
              s = note_reaped ops (stop_group ops n deadline grace (start_cleanup w));
              s = s\<lparr>state := (state s)\<lparr>phase := ''verify''\<rparr>\<rparr> in
          map_option finish (verify_loop fuel ops n deadline s))"

section \<open>Diagnostics are safe\<close>

text \<open>What may appear in a public report.\<close>

definition safe_row :: "pyval \<Rightarrow> bool" where
  "safe_row v \<longleftrightarrow> (\<exists>p k rest. v = PDict ([(''phase'', PStr p), (''kind'', PStr k)] @ rest)
     \<and> p \<in> set error_phases \<and> k \<in> set error_kinds
     \<and> (rest = [] \<or> (\<exists>n. rest = [(''errno'', PInt n)] \<and> 0 \<le> n \<and> n \<le> 65535)))"

lemma safe_number_cases: "safe_number v = [] \<or> (\<exists>n. safe_number v = [(''errno'', PInt n)] \<and> 0 \<le> n \<and> n \<le> 65535)"
  by (cases v) (auto simp: safe_number_def)

lemma safe_error_row: "safe_error e = Inr (Some r) \<Longrightarrow> safe_row r"
proof -
  assume run: "safe_error e = Inr (Some r)"
  then obtain d where e: "e = PDict d" by (cases e) (auto simp: safe_error_def)
  with run have "member_of (dict_get d ''phase'') error_phases = Inr True"
    "member_of (dict_get d ''kind'') error_kinds = Inr True"
    and r: "r = PDict ([(''phase'', dict_get d ''phase''), (''kind'', dict_get d ''kind'')] @ safe_number (dict_get d ''errno''))"
    by (auto simp: safe_error_def split: if_split_asm)
  then obtain p k where pk: "dict_get d ''phase'' = PStr p" "p \<in> set error_phases" "dict_get d ''kind'' = PStr k" "k \<in> set error_kinds"
    by (auto simp: member_of_True)
  with safe_number_cases [of "dict_get d ''errno''"] show "safe_row r"
    unfolding r safe_row_def by (intro exI [of _ p] exI [of _ k] exI [of _ "safe_number (dict_get d ''errno'')"]) simp
qed

lemma safe_row_kept: "safe_row r \<Longrightarrow> safe_error r = Inr (Some r)"
  unfolding safe_row_def by (auto simp: safe_error_def dict_get_def member_of_def safe_number_def)

lemma map_filter_id_Some [simp]: "List.map_filter id (map Some xs) = xs"
  by (induction xs) (simp_all add: List.map_filter_def)

lemma safe_rows_kept: "list_all safe_row rs \<Longrightarrow> traverse safe_error rs = Inr (map Some rs)"
  by (induction rs) (auto simp: safe_row_kept)

definition chosen :: "pydict \<Rightarrow> string \<times> string list \<Rightarrow> pydict" where
  "chosen v p = (if member_of (dict_get v (fst p)) (snd p) = Inr True then [(fst p, dict_get v (fst p))] else [])"

lemma safe_choice_chosen: "safe_choice v r p = Inr r' \<Longrightarrow> r' = r @ chosen v p"
  by (auto simp: safe_choice_def chosen_def split: if_split_asm)

lemma safe_choices: "foldE (safe_choice v) r ps = Inr d \<Longrightarrow> d = r @ concat (map (chosen v) ps)"
proof (induction ps arbitrary: r)
  case (Cons p ps)
  then obtain r' where "safe_choice v r p = Inr r'" "foldE (safe_choice v) r' ps = Inr d" by auto
  with Cons.IH safe_choice_chosen show ?case by fastforce
qed simp

lemma safe_choices_ok:
  "(\<And>p. p \<in> set ps \<Longrightarrow> \<exists>b. member_of (dict_get v (fst p)) (snd p) = Inr b)
   \<Longrightarrow> foldE (safe_choice v) r ps = Inr (r @ concat (map (chosen v) ps))"
proof (induction ps arbitrary: r)
  case (Cons p ps)
  obtain b where "member_of (dict_get v (fst p)) (snd p) = Inr b" using Cons.prems [of p] by auto
  with Cons show ?case by (simp add: safe_choice_def chosen_def)
qed simp

text \<open>A report has checked choices, Boolean flags and at most eight safe rows, and nothing else.\<close>

definition safe_report :: "pydict \<Rightarrow> bool" where
  "safe_report d \<longleftrightarrow> (\<exists>v rows. d = concat (map (chosen v) state_choices) @ safe_flags v @ [(''errors'', PList rows)]
     \<and> list_all safe_row rows \<and> length rows \<le> 8)"

lemma safe_cleanup_report:
  assumes "safe_cleanup (PDict v) = Inr d"
  shows "safe_report d"
proof -
  let ?errors = "case dict_get_default v ''errors'' (PList []) of PList xs \<Rightarrow> take 8 xs | _ \<Rightarrow> []"
  obtain r rows where "foldE (safe_choice v) [] state_choices = Inr r" and rows: "traverse safe_error ?errors = Inr rows"
    and d: "d = r @ safe_flags v @ [(''errors'', PList (List.map_filter id rows))]"
    using assms by (auto simp: safe_cleanup_def)
  then have r: "r = concat (map (chosen v) state_choices)" using safe_choices by fastforce
  have "safe_row x" if x: "x \<in> set (List.map_filter id rows)" for x
  proof -
    have "Some x \<in> set rows" using x by (auto simp: List.map_filter_def)
    then show ?thesis using traverse_set [OF rows] safe_error_row by blast
  qed
  moreover have "length ?errors \<le> 8" by (simp split: pyval.split)
  then have "length (List.map_filter id rows) \<le> 8"
    using traverse_length [OF rows] length_filter_le [of "\<lambda>x. x \<noteq> None" rows] by (simp add: List.map_filter_def)
  ultimately show ?thesis unfolding safe_report_def d r by (auto simp: list_all_iff)
qed

section \<open>What the cleanup does\<close>

primrec is_signal :: "action \<Rightarrow> bool" where
  "is_signal (Signalled p s) = True"
| "is_signal Waited = False"
| "is_signal (Inventory out) = False"

definition signals :: "'w cleanup \<Rightarrow> action list" where
  "signals s = filter is_signal (actions s)"

text \<open>The inventory seen last.\<close>

primrec newest_inventory :: "action list \<Rightarrow> string option" where
  "newest_inventory [] = None"
| "newest_inventory (a # as) = (case a of Inventory out \<Rightarrow> Some out | _ \<Rightarrow> newest_inventory as)"

text \<open>Every row of errors comes from \<open>error_row\<close> with a phase of the report.\<close>

definition own_rows :: "pyval list \<Rightarrow> bool" where
  "own_rows rows \<longleftrightarrow> (\<forall>e \<in> set rows. \<exists>ph f. e = error_row ph f \<and> ph \<in> set error_phases)"

lemma own_rows_simps [simp]:
  "own_rows []" "ph \<in> set error_phases \<Longrightarrow> own_rows (rows @ [error_row ph f]) \<longleftrightarrow> own_rows rows"
  by (auto simp: own_rows_def)

text \<open>What holds of the local state from the first signal on.\<close>

definition cleanup_inv :: "int \<Rightarrow> 'w cleanup \<Rightarrow> bool" where
  "cleanup_inv pid s \<longleftrightarrow> own_rows (errors (state s)) \<and> outcome (state s) = ''failed''
     \<and> phase (state s) \<in> {''guard'', ''term'', ''kill'', ''wait'', ''verify''}
     \<and> (last_state (state s) = ''unknown'' \<and> newest_inventory (actions s) = None
        \<or> (\<exists>out. newest_inventory (actions s) = Some out \<and> group_state pid out = Inr (last_state (state s))))"

lemma phases [simp]: "''term'' \<in> set error_phases" "''kill'' \<in> set error_phases" "''wait'' \<in> set error_phases" "''verify'' \<in> set error_phases"
  by (simp_all add: error_phases_def)

lemma signal_group_inv:
  "cleanup_inv pid s \<Longrightarrow> ph \<in> {''term'', ''kill''} \<Longrightarrow> cleanup_inv pid (signal_group ops pid sig ph s)"
  "signals (signal_group ops pid sig ph s) = Signalled pid sig # signals s"
  by (auto simp: signal_group_def cleanup_inv_def add_error_def signals_def Let_def split: prod.split option.split)

lemma reap_child_inv:
  "cleanup_inv pid s \<Longrightarrow> cleanup_inv pid (reap_child ops deadline grace killing s)"
  "signals (reap_child ops deadline grace killing s) = signals s"
  by (auto simp: reap_child_def cleanup_inv_def add_error_def signals_def Let_def split: prod.split option.split)

lemma note_reaped_inv:
  "cleanup_inv pid s \<Longrightarrow> cleanup_inv pid (note_reaped ops s)" "signals (note_reaped ops s) = signals s"
  by (auto simp: note_reaped_def cleanup_inv_def signals_def)

lemma reap_late_inv:
  "cleanup_inv pid s \<Longrightarrow> cleanup_inv pid (reap_late ops deadline s)" "signals (reap_late ops deadline s) = signals s"
  by (auto simp: reap_late_def note_reaped_def cleanup_inv_def add_error_def signals_def Let_def split: prod.split option.split)

lemma reap_late_keeps: "last_state (state (reap_late ops deadline s)) = last_state (state s)"
  by (simp add: reap_late_def note_reaped_def add_error_def Let_def split: prod.split option.split)

lemma take_inventory_inv:
  assumes "take_inventory ops pid deadline s = (ok, t)"
  shows "signals t = signals s" "ok \<Longrightarrow> cleanup_inv pid s \<Longrightarrow> cleanup_inv pid t"
    "\<not> ok \<Longrightarrow> hard_error t" "\<not> ok \<Longrightarrow> own_rows (errors (state s)) \<Longrightarrow> own_rows (errors (state t))"
    "\<not> ok \<Longrightarrow> (outcome (state t), phase (state t), last_state (state t)) = (outcome (state s), phase (state s), last_state (state s))"
  using assms
  by (auto simp: take_inventory_def cleanup_inv_def add_error_def signals_def Let_def
      split: prod.splits option.splits sum.splits)

text \<open>What the loop answers: a stopped group with no hard error, or nothing worse than a failed report.\<close>

definition stopped :: "int \<Rightarrow> 'w cleanup \<Rightarrow> bool" where
  "stopped pid s \<longleftrightarrow> \<not> hard_error s \<and> reaped (state s) \<and> outcome (state s) = ''complete''
     \<and> (\<exists>out. newest_inventory (actions s) = Some out \<and> group_state pid out \<in> {Inr ''gone'', Inr ''zombies_only''})"

definition known_report :: "cleanup_state \<Rightarrow> bool" where
  "known_report st \<longleftrightarrow> own_rows (errors st) \<and> outcome st \<in> {''complete'', ''failed''}
     \<and> phase st \<in> {''guard'', ''term'', ''kill'', ''wait'', ''verify'', ''complete''}
     \<and> last_state st \<in> {''gone'', ''zombies_only'', ''live'', ''unknown''}"

lemma group_state_values: "group_state pid out = Inr g \<Longrightarrow> g \<in> {''gone'', ''zombies_only'', ''live''}"
  by (auto simp: group_state_def split: if_split_asm)

lemma cleanup_inv_known: "cleanup_inv pid s \<Longrightarrow> known_report (state s)"
  by (auto simp: cleanup_inv_def known_report_def dest: group_state_values)

lemma cleanup_inv_world [simp]:
  "cleanup_inv pid (s\<lparr>world := w\<rparr>) = cleanup_inv pid s" "signals (s\<lparr>world := w\<rparr>) = signals s"
  by (simp_all add: cleanup_inv_def signals_def)

lemma verify_loop_sound:
  assumes "verify_loop fuel ops pid deadline s = Some (ok, t)" and "cleanup_inv pid s"
  shows "signals t = signals s \<and> known_report (state t) \<and> (if ok then stopped pid t else outcome (state t) = ''failed'')"
  using assms
proof (induction fuel ops pid deadline s rule: verify_loop.induct)
  case (1 fuel ops pid deadline s)
  obtain c w where now: "os_now ops (world s) = (c, w)" by fastforce
  let ?s = "s\<lparr>world := w\<rparr>"
  obtain ok1 s1 where inv1: "take_inventory ops pid deadline ?s = (ok1, s1)" by fastforce
  note step1 = take_inventory_inv [OF inv1]
  have fuel: "fuel \<noteq> 0" using 1(2) by (auto simp: verify_loop.simps [of 0] intro!: gr0I)
  note unfold = 1(2) [unfolded verify_loop.simps [of fuel], simplified fuel now Let_def if_False prod.case]
  show ?case
  proof (cases "c < deadline")
    case False
    with unfold 1(3) show ?thesis using cleanup_inv_known [OF 1(3)] by (auto simp: cleanup_inv_def)
  next
    case True
    show ?thesis
    proof (cases ok1)
      case False
      with unfold True inv1 have t: "ok = False" "t = s1" by auto
      have "known_report (state s)" "outcome (state s) = ''failed''"
        using cleanup_inv_known [OF 1(3)] 1(3) by (simp_all add: cleanup_inv_def)
      then show ?thesis using t step1(1) step1(4,5) [OF False] by (simp add: known_report_def)
    next
      case ok1: True
      let ?s2 = "reap_late ops deadline s1"
      have inv: "cleanup_inv pid ?s2" using step1(2) [OF ok1] 1(3) by (simp add: reap_late_inv(1))
      have sig: "signals ?s2 = signals s" using step1(1) by (simp add: reap_late_inv(2))
      show ?thesis
      proof (cases "group_stopped (state ?s2)")
        case True
        with inv have "\<exists>out. newest_inventory (actions ?s2) = Some out \<and> group_state pid out \<in> {Inr ''gone'', Inr ''zombies_only''}"
          by (auto simp: cleanup_inv_def group_stopped_def)
        moreover have "Some (ok, t) = Some (if \<not> hard_error ?s2
            then (True, ?s2\<lparr>state := (state ?s2)\<lparr>outcome := ''complete'', phase := ''complete'', race_recovered := permission ?s2\<rparr>\<rparr>)
            else (False, ?s2))"
          using unfold \<open>c < deadline\<close> ok1 inv1 True by simp
        ultimately show ?thesis
          using inv sig cleanup_inv_known [OF inv] True
          by (cases "hard_error ?s2") (simp_all add: stopped_def group_stopped_def known_report_def signals_def cleanup_inv_def)
      next
        case False
        obtain c2 w2 where now2: "os_now ops (world ?s2) = (c2, w2)" by fastforce
        let ?s3 = "?s2\<lparr>world := os_sleep ops (min 20 (max 0 (deadline - c2))) w2\<rparr>"
        have run: "verify_loop (fuel - 1) ops pid deadline ?s3 = Some (ok, t)"
          using unfold \<open>c < deadline\<close> ok1 inv1 False now2 by simp
        have "\<not> \<not> c < deadline" "\<not> \<not> ok1" "cleanup_inv pid ?s3" using \<open>c < deadline\<close> ok1 inv by simp_all
        from 1(1) [OF fuel refl now [symmetric] refl this(1) refl inv1 [symmetric] this(2) refl False refl
            now2 [symmetric] refl run this(3)] sig
        show ?thesis by simp
      qed
    qed
  qed
qed

section \<open>Reports of the cleanup itself\<close>

lemma error_row_safe: "ph \<in> set error_phases \<Longrightarrow> \<exists>r. safe_error (error_row ph f) = Inr (Some r)"
proof -
  assume ph: "ph \<in> set error_phases"
  have "kind_text (kind_of f) \<in> set error_kinds" by (cases "kind_of f") (simp_all add: error_kinds_def)
  with ph show ?thesis by (auto simp: safe_error_def error_row_def dict_get_def member_of_def)
qed

lemma known_report_safe:
  assumes "known_report st"
  shows "\<exists>d. safe_cleanup (state_value st) = Inr d \<and> safe_report d"
proof -
  let ?v = "[(''outcome'', PStr (outcome st)), (''phase'', PStr (phase st)), (''group_state'', PStr (last_state st)),
     (''reaped'', PBool (reaped st)), (''permission_race_recovered'', PBool (race_recovered st)), (''errors'', PList (errors st))]"
  have "\<exists>b. member_of (dict_get ?v (fst p)) (snd p) = Inr b" if "p \<in> set state_choices" for p
    using that by (auto simp: state_choices_def dict_get_def member_of_def)
  then have choices: "foldE (safe_choice ?v) [] state_choices = Inr (concat (map (chosen ?v) state_choices))"
    using safe_choices_ok [of state_choices ?v "[]"] by simp
  have "\<exists>y. safe_error e = Inr y" if "e \<in> set (take 8 (errors st))" for e
    using assms set_take_subset [of 8 "errors st"] that error_row_safe by (fastforce simp: known_report_def own_rows_def)
  then obtain rows where "traverse safe_error (take 8 (errors st)) = Inr rows"
    using traverse_total [of "take 8 (errors st)" safe_error] by blast
  moreover have "dict_get_default ?v ''errors'' (PList []) = PList (errors st)" by (simp add: dict_get_default_def)
  ultimately obtain d where "safe_cleanup (PDict ?v) = Inr d" using choices by (simp add: safe_cleanup_def)
  with safe_cleanup_report [OF this] show ?thesis by (auto simp: state_value_def)
qed

section \<open>The bound in time\<close>

text \<open>The clock never runs backwards, and a sleep takes at least the time asked for.\<close>

definition clock_laws :: "'w os_ops \<Rightarrow> ('w \<Rightarrow> int) \<Rightarrow> bool" where
  "clock_laws ops clk \<longleftrightarrow>
     (\<forall>w. fst (os_now ops w) = clk w \<and> clk w \<le> clk (snd (os_now ops w)))
     \<and> (\<forall>p sig w. clk w \<le> clk (snd (os_killpg ops p sig w))) \<and> (\<forall>d w. clk w \<le> clk (snd (os_wait ops d w)))
     \<and> (\<forall>d w. clk w \<le> clk (snd (os_inventory ops d w))) \<and> (\<forall>d w. 0 \<le> d \<longrightarrow> clk w + d \<le> clk (os_sleep ops d w))"

lemma clock_law:
  assumes "clock_laws ops clk"
  shows "os_now ops w = (t, w') \<Longrightarrow> t = clk w \<and> clk w \<le> clk w'"
    and "os_killpg ops p sig w = (r, w') \<Longrightarrow> clk w \<le> clk w'"
    and "os_wait ops d w = (q, w') \<Longrightarrow> clk w \<le> clk w'"
    and "os_inventory ops d w = (o', w') \<Longrightarrow> clk w \<le> clk w'"
    and "0 \<le> d \<Longrightarrow> clk w + d \<le> clk (os_sleep ops d w)"
  using assms unfolding clock_laws_def by (metis fst_conv snd_conv)+

lemma signal_group_clock: "clock_laws ops clk \<Longrightarrow> clk (world s) \<le> clk (world (signal_group ops pid sig ph s))"
  by (auto simp: signal_group_def add_error_def Let_def dest: clock_law(2) split: prod.split option.split)

lemma clock_now_then:
  assumes "clock_laws ops clk" "os_now ops w = (t, w1)"
  shows "os_wait ops d w1 = (q, w2) \<Longrightarrow> clk w \<le> clk w2" "os_inventory ops d w1 = (o', w2) \<Longrightarrow> clk w \<le> clk w2"
  using clock_law(1) [OF assms] clock_law(3,4) [OF assms(1)] order_trans by blast+

lemma reap_child_clock: "clock_laws ops clk \<Longrightarrow> clk (world s) \<le> clk (world (reap_child ops deadline grace killing s))"
  by (auto simp: reap_child_def add_error_def Let_def dest: clock_now_then(1) split: prod.split option.split)

lemma reap_late_clock: "clock_laws ops clk \<Longrightarrow> clk (world s) \<le> clk (world (reap_late ops deadline s))"
  by (auto simp: reap_late_def note_reaped_def add_error_def Let_def dest: clock_now_then(1) split: prod.split option.split)

lemma take_inventory_clock:
  "clock_laws ops clk \<Longrightarrow> take_inventory ops pid deadline s = (ok, t) \<Longrightarrow> clk (world s) \<le> clk (world t)"
  by (auto simp: take_inventory_def add_error_def Let_def dest: clock_now_then(2) split: prod.splits sum.splits)

lemma verify_loop_returns:
  assumes "clock_laws ops clk" and "nat (deadline - clk (world s)) < fuel"
  shows "\<exists>r. verify_loop fuel ops pid deadline s = Some r"
  using assms(2)
proof (induction fuel arbitrary: s)
  case (Suc fuel)
  obtain c w where now: "os_now ops (world s) = (c, w)" by fastforce
  obtain ok1 s1 where inv1: "take_inventory ops pid deadline (s\<lparr>world := w\<rparr>) = (ok1, s1)" by fastforce
  let ?s2 = "reap_late ops deadline s1"
  obtain c2 w2 where now2: "os_now ops (world ?s2) = (c2, w2)" by fastforce
  let ?s3 = "?s2\<lparr>world := os_sleep ops (min 20 (max 0 (deadline - c2))) w2\<rparr>"
  show ?case
  proof (cases "c < deadline \<and> ok1 \<and> \<not> group_stopped (state ?s2)")
    case True
    have c: "c = clk (world s)" "clk (world s) \<le> clk w" using clock_law(1) [OF assms(1) now] by simp_all
    have "clk w \<le> clk (world s1)" using take_inventory_clock [OF assms(1) inv1] by simp
    also have "\<dots> \<le> clk (world ?s2)" by (rule reap_late_clock [OF assms(1)])
    also have "\<dots> = c2" using clock_law(1) [OF assms(1) now2] by simp
    finally have "c \<le> c2" using c by simp
    have "c2 + min 20 (max 0 (deadline - c2)) \<le> clk (world ?s3)"
      using clock_law(1) [OF assms(1) now2] clock_law(5) [OF assms(1), of "min 20 (max 0 (deadline - c2))" w2] by simp
    then have "nat (deadline - clk (world ?s3)) < nat (deadline - c) \<or> deadline \<le> clk (world ?s3)"
      using \<open>c \<le> c2\<close> True by (auto simp: min_def max_def split: if_split_asm)
    then have "nat (deadline - clk (world ?s3)) < fuel" using Suc.prems c True by auto
    with Suc.IH [of ?s3] True now inv1 now2 show ?thesis by (subst verify_loop.simps) simp
  next
    case False
    with now inv1 now2 show ?thesis by (subst verify_loop.simps) (auto simp: Let_def)
  qed
qed simp

section \<open>The whole cleanup\<close>

lemma start_cleanup_inv: "cleanup_inv n (start_cleanup w)" "signals (start_cleanup w) = []"
  by (simp_all add: start_cleanup_def start_state_def cleanup_inv_def signals_def)

lemma stop_group_inv:
  "cleanup_inv n s \<Longrightarrow> cleanup_inv n (stop_group ops n deadline grace s)"
  "signals (stop_group ops n deadline grace s) = Signalled n SIGKILL # Signalled n SIGTERM # signals s"
  by (simp_all add: stop_group_def signal_group_inv reap_child_inv)

lemma stop_group_clock: "clock_laws ops clk \<Longrightarrow> clk (world s) \<le> clk (world (stop_group ops n deadline grace s))"
  unfolding stop_group_def by (meson order_trans signal_group_clock reap_child_clock)

lemma cleanup_owned_group_cases:
  assumes "cleanup_owned_group fuel ops pid timeout grace w = Some (r, s)"
  shows "known_report (state s) \<and> (\<exists>ok. r = rbind (safe_cleanup (state_value (state s))) (\<lambda>d. Inr (ok, d))
    \<and> (case group_allowed ops pid of
        None \<Rightarrow> \<not> ok \<and> signals s = [] \<and> outcome (state s) = ''failed''
      | Some n \<Rightarrow> signals s = [Signalled n SIGKILL, Signalled n SIGTERM]
          \<and> (if ok then stopped n s else outcome (state s) = ''failed'')))"
proof (cases "group_allowed ops pid")
  case None
  then have s: "s = start_cleanup w" and "r = rbind (safe_cleanup (state_value (state s))) (\<lambda>d. Inr (False, d))"
    using assms by (auto simp: cleanup_owned_group_def)
  moreover have "known_report (state s)" "signals s = []" "outcome (state s) = ''failed''"
    unfolding s by (simp_all add: start_cleanup_def start_state_def known_report_def signals_def)
  ultimately show ?thesis using None by auto
next
  case (Some n)
  obtain t w' where now: "os_now ops w = (t, w')" by fastforce
  let ?s = "note_reaped ops (stop_group ops n (t + timeout) grace (start_cleanup w'))"
  let ?s' = "?s\<lparr>state := (state ?s)\<lparr>phase := ''verify''\<rparr>\<rparr>"
  obtain ok where loop: "verify_loop fuel ops n (t + timeout) ?s' = Some (ok, s)"
    and r: "r = rbind (safe_cleanup (state_value (state s))) (\<lambda>d. Inr (ok, d))"
    using assms Some now by (auto simp: cleanup_owned_group_def Let_def)
  have "cleanup_inv n ?s" by (intro note_reaped_inv stop_group_inv start_cleanup_inv)
  then have inv: "cleanup_inv n ?s'" by (simp add: cleanup_inv_def)
  have sig: "signals ?s' = [Signalled n SIGKILL, Signalled n SIGTERM]"
    using note_reaped_inv(2) [of ops "stop_group ops n (t + timeout) grace (start_cleanup w')"]
    by (simp add: stop_group_inv(2) start_cleanup_inv(2)) (simp add: signals_def)
  note sound = verify_loop_sound [OF loop inv, unfolded sig]
  show ?thesis unfolding Some option.case using sound r by blast
qed

text \<open>The members of a group in an inventory.\<close>

definition members_of :: "int \<Rightarrow> string \<Rightarrow> string list" where
  "members_of pgid out = map (\<lambda>l. last (split_words l))
     (filter (\<lambda>l. int (dec_value (hd (split_words l))) = pgid) (split_lines out))"

lemma inventory_line_Inr:
  assumes "inventory_line pgid ms line = Inr ms'"
  shows "length (split_words line) = 2 \<and>
    ms' = ms @ (if int (dec_value (hd (split_words line))) = pgid then [last (split_words line)] else [])"
  using assms by (auto simp: inventory_line_def split: list.splits if_split_asm)

lemma group_state_members:
  assumes "group_state pgid out = Inr g"
  shows "list_all (\<lambda>l. length (split_words l) = 2) (split_lines out)
    \<and> g = (if members_of pgid out = [] then ''gone''
           else if list_all (prefix ''Z'') (members_of pgid out) then ''zombies_only'' else ''live'')"
proof -
  have lines: "list_all (\<lambda>l. length (split_words l) = 2) ls \<and> ms' = ms @ map (\<lambda>l. last (split_words l))
      (filter (\<lambda>l. int (dec_value (hd (split_words l))) = pgid) ls)"
    if "foldE (inventory_line pgid) ms ls = Inr ms'" for ls ms ms'
    using that
  proof (induction ls arbitrary: ms)
    case (Cons l ls)
    then obtain m where "inventory_line pgid ms l = Inr m" "foldE (inventory_line pgid) m ls = Inr ms'" by auto
    with Cons.IH [of m] inventory_line_Inr [of pgid ms l m] show ?case by auto
  qed simp
  obtain ms where "foldE (inventory_line pgid) [] (split_lines out) = Inr ms"
    and "g = (if ms = [] then ''gone'' else if list_all (prefix ''Z'') ms then ''zombies_only'' else ''live'')"
    using assms by (auto simp: group_state_def split: if_split_asm)
  with lines show ?thesis unfolding members_of_def by fastforce
qed

section \<open>A sample child\<close>

text \<open>
  The world is the time and the number of signals the child has received; it is gone after the
  second one, and the first inventory still shows a dead member.
\<close>

definition sample_ops :: "(int \<times> nat) os_ops" where
  "sample_ops = \<lparr>os_posix = True, own_group = 50,
     os_now = (\<lambda>(t, n). (t, (t, n))),
     os_killpg = (\<lambda>p sig (t, n). (if n = 0 then Some (Failure Permission (Some 1)) else None, (t, Suc n))),
     os_wait = (\<lambda>d (t, n). (if n < 2 then Some (Failure TimedOut None) else None, (t + (if n < 2 then max d 0 else 0), n))),
     os_returncode = (\<lambda>(t, n). if n < 2 then None else Some (- 9)),
     os_inventory = (\<lambda>d (t, n). (Inr (''1 Ss'' @ [CHR 0x0A] @ ''77 Z+'' @ [CHR 0x0A]), (t, n))),
     os_sleep = (\<lambda>d (t, n). (t + d, n))\<rparr>"

lemma sample_clock: "clock_laws sample_ops fst"
  by (auto simp: clock_laws_def sample_ops_def)

definition sample_cleanup :: "((exn + bool \<times> pydict) \<times> (int \<times> nat) cleanup) option" where
  "sample_cleanup = cleanup_owned_group 3001 sample_ops (PInt 77) 3000 100 (0, 0)"

lemma sample_cleans: "\<exists>d s. sample_cleanup = Some (Inr (True, d), s)"
proof -
  have "case sample_cleanup of Some (Inr p, s) \<Rightarrow> fst p | _ \<Rightarrow> False" by code_simp
  then obtain p s where "sample_cleanup = Some (Inr p, s)" "fst p" by (auto split: option.splits sum.splits)
  then show ?thesis by (cases p) auto
qed

section \<open>Properties\<close>





text \<open>Only the child's own group is ever signalled: none at all when the guard refuses the identifier,
  and otherwise exactly \<open>SIGTERM\<close> and then \<open>SIGKILL\<close> to the group of a child whose identifier is above 1
  and is not the caller's group.\<close>

theorem cleanup_signals:
  assumes "cleanup_owned_group fuel ops pid timeout grace w = Some (r, s)"
  shows "signals s = [] \<or> (\<exists>n. pid = PInt n \<and> 1 < n \<and> n \<noteq> own_group ops \<and> os_posix ops
    \<and> signals s = [Signalled n SIGKILL, Signalled n SIGTERM])"
proof (cases "group_allowed ops pid")
  case None
  with cleanup_owned_group_cases [OF assms] show ?thesis by auto
next
  case (Some n)
  then have "pid = PInt n \<and> 1 < n \<and> n \<noteq> own_group ops \<and> os_posix ops"
    by (cases pid) (auto simp: group_allowed_def split: if_split_asm)
  with cleanup_owned_group_cases [OF assms] Some show ?thesis by auto
qed

theorem cleanup_signals_witness:
  "\<exists>r s. sample_cleanup = Some (r, s) \<and> (signals s = [] \<or> signals s = [Signalled 77 SIGKILL, Signalled 77 SIGTERM])"
proof -
  obtain d s where "sample_cleanup = Some (Inr (True, d), s)" using sample_cleans by blast
  with cleanup_signals [OF this [unfolded sample_cleanup_def]] show ?thesis by auto
qed



text \<open>A supplied choice that is a list is not dropped but raises \<open>TypeError\<close>: lists cannot be looked up in a set.\<close>

lemma safe_cleanup_unhashable: "safe_cleanup (PDict [(''outcome'', PList [])]) = raise TypeError ''unhashable''"
  by (simp add: safe_cleanup_def state_choices_def safe_choice_def member_of_def dict_get_def)

end
