(* ===== verification/Py_Objects.thy ===== *)
theory Py_Objects
  imports Py_Re
begin

text \<open>
  More of Python's objects: equality and \<open>str\<close> of values read from JSON, attribute calls on values that may
  not have them, lower case, hexadecimal and prefixed integer literals, and the text methods that cut a
  string at a separator. The text of a float is what \<open>repr\<close> prints, so that the float equal to a small
  integer is its decimal text followed by \<open>.0\<close>.
\<close>

section \<open>Equality and truth\<close>

text \<open>\<open>v == n\<close> for a small integer: a Boolean and a float may equal one.\<close>

definition py_eq_int :: "pyval \<Rightarrow> int \<Rightarrow> bool" where
  "py_eq_int v n = (case v of
      PInt i \<Rightarrow> i = n
    | PBool b \<Rightarrow> (if b then 1 else 0) = n
    | PFloat f \<Rightarrow> f = int_text n @ ''.0'' \<or> n = 0 \<and> f = ''-0.0''
    | _ \<Rightarrow> False)"

text \<open>\<open>v == w\<close>: numbers across their types, dictionaries without regard to order.\<close>

definition number_of :: "pyval \<Rightarrow> int option" where
  "number_of v = (case v of PInt i \<Rightarrow> Some i | PBool b \<Rightarrow> Some (if b then 1 else 0) | _ \<Rightarrow> None)"

fun py_eq :: "pyval \<Rightarrow> pyval \<Rightarrow> bool" where
  "py_eq PNone w = (w = PNone)"
| "py_eq (PBool b) w = py_eq_int w (if b then 1 else 0)"
| "py_eq (PInt i) w = py_eq_int w i"
| "py_eq (PFloat f) w = (w = PFloat f \<and> f \<noteq> ''nan'' \<or> (case number_of w of Some n \<Rightarrow> py_eq_int (PFloat f) n | None \<Rightarrow> False)
     \<or> f = ''0.0'' \<and> w = PFloat ''-0.0'' \<or> f = ''-0.0'' \<and> w = PFloat ''0.0'')"
| "py_eq (PStr s) w = (w = PStr s)"
| "py_eq (PList xs) w = (case w of PList ys \<Rightarrow> list_all2 py_eq xs ys | _ \<Rightarrow> False)"
| "py_eq (PDict d) w = (case w of PDict e \<Rightarrow> length d = length e
     \<and> list_all (\<lambda>(k, v). case map_of e k of None \<Rightarrow> False | Some u \<Rightarrow> py_eq v u) d | _ \<Rightarrow> False)"

lemma py_eq_str [simp]: "py_eq v (PStr s) \<longleftrightarrow> v = PStr s"
  by (cases v) (auto simp: py_eq_int_def number_of_def)

text \<open>\<open>bool(v)\<close>.\<close>

definition truthy :: "pyval \<Rightarrow> bool" where
  "truthy v = (case v of
      PNone \<Rightarrow> False | PBool b \<Rightarrow> b | PInt i \<Rightarrow> i \<noteq> 0 | PFloat f \<Rightarrow> f \<noteq> ''0.0'' \<and> f \<noteq> ''-0.0''
    | PStr s \<Rightarrow> s \<noteq> [] | PList xs \<Rightarrow> xs \<noteq> [] | PDict d \<Rightarrow> d \<noteq> [])"

primrec is_dict :: "pyval \<Rightarrow> bool" where
  "is_dict PNone = False"
| "is_dict (PBool b) = False"
| "is_dict (PInt i) = False"
| "is_dict (PFloat f) = False"
| "is_dict (PStr s) = False"
| "is_dict (PList xs) = False"
| "is_dict (PDict d) = True"

lemma is_dict_iff: "is_dict v \<longleftrightarrow> (\<exists>d. v = PDict d)"
  by (cases v) simp_all

text \<open>The items of a dictionary, the elements of a list, none of another value.\<close>

definition items_of :: "pyval \<Rightarrow> pydict" where
  "items_of v = (case v of PDict d \<Rightarrow> d | _ \<Rightarrow> [])"

definition elements_of :: "pyval \<Rightarrow> pyval list" where
  "elements_of v = (case v of PList xs \<Rightarrow> xs | _ \<Rightarrow> [])"

definition has_key :: "pydict \<Rightarrow> string \<Rightarrow> bool" where
  "has_key d k \<longleftrightarrow> k \<in> fst ` set d"

lemma has_key_Nil [simp]: "\<not> has_key [] k"
  by (simp add: has_key_def)

lemma has_key_Cons [simp]: "has_key ((k', v) # d) k \<longleftrightarrow> k' = k \<or> has_key d k"
  by (auto simp: has_key_def)

lemma has_key_map_of: "has_key d k \<longleftrightarrow> map_of d k \<noteq> None"
  by (simp add: has_key_def map_of_eq_None_iff)

text \<open>\<open>v.get(key, default)\<close> where \<open>v\<close> need not be a dictionary, and \<open>for x in v\<close>.\<close>

definition get_attr :: "pyval \<Rightarrow> string \<Rightarrow> pyval \<Rightarrow> exn + pyval" where
  "get_attr v key w = (case v of PDict d \<Rightarrow> Inr (dict_get_default d key w) | _ \<Rightarrow> raise AttributeError ''get'')"

definition iterate :: "pyval \<Rightarrow> exn + pyval list" where
  "iterate v = (case v of
      PList xs \<Rightarrow> Inr xs
    | PStr s \<Rightarrow> Inr (map (\<lambda>c. PStr [c]) s)
    | PDict d \<Rightarrow> Inr (map (\<lambda>(k, _). PStr k) d)
    | _ \<Rightarrow> raise TypeError ''not iterable'')"

text \<open>\<open>d.update(e)\<close> and \<open>d.pop(key, None)\<close>.\<close>

definition dict_update :: "pydict \<Rightarrow> pydict \<Rightarrow> pydict" where
  "dict_update d e = fold (\<lambda>(k, v) d. dict_set d k v) e d"

definition dict_pop :: "pydict \<Rightarrow> string \<Rightarrow> pydict" where
  "dict_pop d key = filter (\<lambda>(k, _). k \<noteq> key) d"

lemma dict_update_simps [simp]:
  "dict_update d [] = d"
  "dict_update d ((k, v) # e) = dict_update (dict_set d k v) e"
  by (simp_all add: dict_update_def)

lemma dict_get_set [simp]: "dict_get (dict_set d k v) k' = (if k' = k then v else dict_get d k')"
  by (simp add: dict_get_def)

lemma dict_get_update: "k \<notin> fst ` set e \<Longrightarrow> dict_get (dict_update d e) k = dict_get d k"
  by (induction e arbitrary: d) auto

lemma map_of_update_other: "k \<notin> fst ` set e \<Longrightarrow> map_of (dict_update d e) k = map_of d k"
  by (induction e arbitrary: d) auto

lemma map_of_update_given: "map_of e k = Some v \<Longrightarrow> distinct (map fst e) \<Longrightarrow> map_of (dict_update d e) k = Some v"
proof (induction e arbitrary: d)
  case (Cons p e)
  obtain k' w where p: "p = (k', w)" by (cases p)
  show ?case
  proof (cases "k' = k")
    case True
    with Cons.prems p have "k \<notin> fst ` set e" "w = v" by auto
    with p True show ?thesis by (simp add: map_of_update_other)
  qed (use Cons p in simp)
qed simp

lemma set_keys_update: "fst ` set (dict_update d e) = fst ` set d \<union> fst ` set e"
proof (induction e arbitrary: d)
  case (Cons p e)
  then show ?case by (cases p) (simp del: set_keys_dict_set add: set_keys_dict_set [unfolded image_def] image_def, blast)
qed simp

lemma map_of_pop: "map_of (dict_pop d key) k = (if k = key then None else map_of d k)"
  by (induction d) (auto simp: dict_pop_def)

lemma dict_get_pop: "dict_get (dict_pop d key) k = (if k = key then PNone else dict_get d k)"
  by (simp add: dict_get_def map_of_pop)

section \<open>Case\<close>

text \<open>\<open>str.lower\<close>, \<open>str.upper\<close> (of ASCII letters) and \<open>str.casefold\<close> on this range of characters.\<close>

definition lower_char :: "char \<Rightarrow> char" where
  "lower_char c = (let n = ord c in
     if 65 \<le> n \<and> n \<le> 90 \<or> 192 \<le> n \<and> n \<le> 222 \<and> n \<noteq> 215 then char_of (n + 32) else c)"

definition upper_char :: "char \<Rightarrow> char" where
  "upper_char c = (let n = ord c in if 97 \<le> n \<and> n \<le> 122 then char_of (n - 32) else c)"

definition lower_text :: "string \<Rightarrow> string" where
  "lower_text s = map lower_char s"

definition upper_text :: "string \<Rightarrow> string" where
  "upper_text s = map upper_char s"

definition casefold :: "string \<Rightarrow> string" where
  "casefold s = concat (map (\<lambda>c. if ord c = 223 then ''ss'' else [lower_char c]) s)"

section \<open>Text of values\<close>

definition text_quote :: "string \<Rightarrow> char" where
  "text_quote s = (if CHR 0x27 \<in> set s \<and> CHR 0x22 \<notin> set s then CHR 0x22 else CHR 0x27)"

definition repr_char :: "char \<Rightarrow> char \<Rightarrow> string" where
  "repr_char q c = (let n = ord c in
     if c = q \<or> n = 92 then [CHR 0x5C, c]
     else if n = 10 then [CHR 0x5C, CHR ''n''] else if n = 13 then [CHR 0x5C, CHR ''r'']
     else if n = 9 then [CHR 0x5C, CHR ''t'']
     else if n < 32 \<or> 127 \<le> n \<and> n \<le> 160 \<or> n = 173
     then [CHR 0x5C, CHR ''x'', hex_digit (n div 16), hex_digit (n mod 16)] else [c])"

definition repr_text :: "string \<Rightarrow> string" where
  "repr_text s = (let q = text_quote s in q # concat (map (repr_char q) s) @ [q])"

fun repr :: "pyval \<Rightarrow> string" where
  "repr PNone = ''None''"
| "repr (PBool b) = (if b then ''True'' else ''False'')"
| "repr (PInt i) = int_text i"
| "repr (PFloat f) = f"
| "repr (PStr s) = repr_text s"
| "repr (PList xs) = ''['' @ join '', '' (map repr xs) @ '']''"
| "repr (PDict d) = [CHR 0x7B] @ join '', '' (map (\<lambda>(k, v). repr_text k @ '': '' @ repr v) d) @ [CHR 0x7D]"

definition py_str :: "pyval \<Rightarrow> string" where
  "py_str v = (case v of PStr s \<Rightarrow> s | _ \<Rightarrow> repr v)"

section \<open>Integers as text\<close>

text \<open>\<open>hex(n)\<close> of a natural number.\<close>

fun hex_text :: "nat \<Rightarrow> string" where
  "hex_text n = (if n < 16 then [hex_digit n] else hex_text (n div 16) @ [hex_digit (n mod 16)])"

declare hex_text.simps [simp del]

definition py_hex :: "nat \<Rightarrow> string" where
  "py_hex n = ''0x'' @ hex_text n"

text \<open>\<open>int(text, 0)\<close>: digits of the base with single underscores between them.\<close>

definition base_digit :: "char \<Rightarrow> nat" where
  "base_digit c = (let n = ord (lower_char c) in
     if 48 \<le> n \<and> n \<le> 57 then n - 48 else if 97 \<le> n \<and> n \<le> 122 then n - 87 else 99)"

definition base_value :: "nat \<Rightarrow> string \<Rightarrow> nat" where
  "base_value b s = foldl (\<lambda>n c. b * n + base_digit c) 0 s"

definition base_text :: "nat \<Rightarrow> string \<Rightarrow> nat option" where
  "base_text b s = (let parts = split_on (CHR ''_'') s in
     if list_all (\<lambda>p. p \<noteq> [] \<and> list_all (\<lambda>c. base_digit c < b) p) parts
     then Some (base_value b (concat parts)) else None)"

definition drop_underscore :: "string \<Rightarrow> string" where
  "drop_underscore s = (case s of c # t \<Rightarrow> if c = CHR ''_'' then t else s | [] \<Rightarrow> [])"

definition unsigned_literal :: "string \<Rightarrow> nat option" where
  "unsigned_literal s = (let p = lower_text (take 2 s); t = drop_underscore (drop 2 s) in
     if p = ''0x'' then base_text 16 t else if p = ''0o'' then base_text 8 t else if p = ''0b'' then base_text 2 t
     else case s of [] \<Rightarrow> None
       | c # _ \<Rightarrow> (case base_text 10 s of None \<Rightarrow> None
           | Some n \<Rightarrow> if c = CHR ''0'' \<and> n \<noteq> 0 then None else Some n))"

definition int_literal :: "string \<Rightarrow> int option" where
  "int_literal s = (let t = text_strip s in
     case t of [] \<Rightarrow> None
       | c # u \<Rightarrow> if c = CHR ''-'' then map_option (\<lambda>n. - int n) (unsigned_literal u)
           else if c = CHR ''+'' then map_option int (unsigned_literal u)
           else map_option int (unsigned_literal t))"

lemma base_digit_hex [simp]: "n < 16 \<Longrightarrow> base_digit (hex_digit n) = n"
  by (auto simp: base_digit_def hex_digit_def lower_char_def Let_def ord_def)

lemma hex_digit_plain: "n < 16 \<Longrightarrow> hex_digit n \<noteq> CHR ''_'' \<and> hex_digit n \<notin> set text_space"
proof -
  assume "n < 16"
  then have "n \<in> {..<16}" by simp
  moreover have "\<forall>n\<in>set [0..<16]. hex_digit n \<noteq> CHR ''_'' \<and> hex_digit n \<notin> set text_space" by code_simp
  ultimately show ?thesis by (auto simp: lessThan_atLeast0)
qed

lemma hex_text_digits: "c \<in> set (hex_text n) \<Longrightarrow> \<exists>m<16. c = hex_digit m"
proof (induction n rule: hex_text.induct)
  case (1 n)
  from 1(2) consider "n < 16" "c = hex_digit n" | "\<not> n < 16" "c \<in> set (hex_text (n div 16))"
    | "\<not> n < 16" "c = hex_digit (n mod 16)"
    by (subst (asm) hex_text.simps) (auto split: if_splits)
  then show ?case
  proof cases
    case 3
    then show ?thesis by (intro exI [of _ "n mod 16"]) simp
  qed (use 1 in auto)
qed

lemma hex_text_value: "base_value 16 (hex_text n) = n"
proof (induction n rule: hex_text.induct)
  case (1 n)
  then show ?case by (subst hex_text.simps) (auto simp: base_value_def)
qed

lemma hex_text_nonempty [simp]: "hex_text n \<noteq> []"
  by (subst hex_text.simps) simp

lemma split_on_none: "c \<notin> set s \<Longrightarrow> split_on c s = [s]"
  by (induction c s rule: split_on.induct) auto

lemma text_strip_plain: "set s \<inter> set text_space = {} \<Longrightarrow> text_strip s = s"
proof -
  assume plain: "set s \<inter> set text_space = {}"
  have "dropWhile (\<lambda>x. x \<in> set text_space) t = t" if "set t \<inter> set text_space = {}" for t
    using that by (cases t) auto
  from this [of s] this [of "rev s"] plain show ?thesis
    by (simp add: text_strip_def strip_with_def rstrip_with_def)
qed

text \<open>What \<open>hex\<close> prints, \<open>int(_, 0)\<close> reads.\<close>

lemma int_literal_hex [simp]: "int_literal (py_hex n) = Some (int n)"
proof -
  have digits: "CHR ''_'' \<notin> set (hex_text n)" "set (hex_text n) \<inter> set text_space = {}"
    using hex_text_digits hex_digit_plain by fastforce+
  have small: "base_digit c < 16" if "c \<in> set (hex_text n)" for c
    using hex_text_digits [OF that] by auto
  have blank: "CHR ''0'' \<notin> set text_space" "CHR ''x'' \<notin> set text_space" by code_simp+
  have strip: "text_strip (py_hex n) = py_hex n"
    using digits(2) blank by (intro text_strip_plain) (auto simp: py_hex_def)
  have under: "drop_underscore (hex_text n) = hex_text n"
    using digits(1) by (cases "hex_text n") (auto simp: drop_underscore_def)
  have "base_text 16 (hex_text n) = Some n"
    using small by (simp add: base_text_def split_on_none [OF digits(1)] hex_text_value list_all_iff)
  moreover have "lower_text ''0x'' = ''0x''" by code_simp
  ultimately show ?thesis
    using strip under by (simp add: int_literal_def unsigned_literal_def py_hex_def Let_def)
qed

section \<open>Cutting text\<close>

text \<open>\<open>s.partition(c)\<close> and \<open>s.rpartition(c)\<close> with the middle part as a Boolean.\<close>

definition partition_at :: "char \<Rightarrow> string \<Rightarrow> string \<times> bool \<times> string" where
  "partition_at c s = (if c \<in> set s then (takeWhile (\<lambda>x. x \<noteq> c) s, True, tl (dropWhile (\<lambda>x. x \<noteq> c) s)) else (s, False, []))"

definition rpartition_at :: "char \<Rightarrow> string \<Rightarrow> string \<times> bool \<times> string" where
  "rpartition_at c s = (if c \<in> set s
     then (case partition_at c (rev s) of (a, _, b) \<Rightarrow> (rev b, True, rev a)) else ([], False, s))"

definition last_part :: "char \<Rightarrow> string \<Rightarrow> string" where
  "last_part c s = snd (snd (rpartition_at c s))"

lemma last_part_plain: "c \<notin> set (last_part c s)"
  by (auto simp: last_part_def rpartition_at_def partition_at_def dest: set_takeWhileD)

text \<open>\<open>s.replace(old, new)\<close> for a non-empty \<open>old\<close>, and for single characters.\<close>

fun replace_go :: "nat \<Rightarrow> string \<Rightarrow> string \<Rightarrow> string \<Rightarrow> string" where
  "replace_go 0 old new s = s"
| "replace_go (Suc n) old new [] = []"
| "replace_go (Suc n) old new (c # s) =
     (if prefix old (c # s) then new @ replace_go n old new (drop (length old) (c # s)) else c # replace_go n old new s)"

definition replace_text :: "string \<Rightarrow> string \<Rightarrow> string \<Rightarrow> string" where
  "replace_text old new s = replace_go (length s) old new s"

definition remove_char :: "char \<Rightarrow> string \<Rightarrow> string" where
  "remove_char c s = filter (\<lambda>x. x \<noteq> c) s"

text \<open>\<open>s.removesuffix(t)\<close> and \<open>s.removeprefix(t)\<close>.\<close>

definition remove_suffix :: "string \<Rightarrow> string \<Rightarrow> string" where
  "remove_suffix t s = (if ends_with t s then take (length s - length t) s else s)"

definition remove_prefix :: "string \<Rightarrow> string \<Rightarrow> string" where
  "remove_prefix t s = (if prefix t s then drop (length t) s else s)"

end
