(* ===== verification/Py_Url.thy ===== *)
theory Py_Url
  imports Py_Objects
begin

text \<open>
  \<open>urllib.parse.urlsplit\<close> and the attributes of its result, as far as the tools use them. An address in
  brackets is checked by the parameter \<open>ipv6\<close>, the parser of \<open>ipaddress\<close>. None of the characters below 256
  is turned into a separator by the normalisation the library guards against.
\<close>

record url_parts =
  u_scheme :: string
  u_netloc :: string
  u_path :: string
  u_query :: string
  u_fragment :: string

definition scheme_char :: "char \<Rightarrow> bool" where
  "scheme_char c \<longleftrightarrow> is_alnum c \<or> c \<in> set ''+-.''"

definition url_scheme :: "string \<Rightarrow> string \<times> string" where
  "url_scheme url = (case partition_at (CHR '':'') url of
     (s, found, rest) \<Rightarrow>
       if found \<and> s \<noteq> [] \<and> is_alpha (hd s) \<and> list_all scheme_char s then (lower_text s, rest) else ([], url))"

text \<open>The check of a host between brackets.\<close>

definition hex_letter :: "char \<Rightarrow> bool" where
  "hex_letter c \<longleftrightarrow> is_digit c \<or> 97 \<le> ord c \<and> ord c \<le> 102 \<or> 65 \<le> ord c \<and> ord c \<le> 70"

definition future_address :: "string \<Rightarrow> bool" where
  "future_address h \<longleftrightarrow> fullmatch (RSeq (rlit ''v'')
     (RSeq (rplus (RClass False [(97, 102), (65, 70), (48, 57)])) (RSeq (rlit ''.'') (rplus (RClass True [(10, 10)]))))) h"

definition bracketed_ok :: "(string \<Rightarrow> bool) \<Rightarrow> string \<Rightarrow> bool" where
  "bracketed_ok ipv6 netloc =
     (let hp = last_part (CHR ''@'') netloc; (before, open_br, bracketed) = partition_at (CHR ''['') hp;
          (host, _, port) = (if open_br then partition_at (CHR '']'') bracketed else partition_at (CHR '':'') hp) in
      (open_br \<longrightarrow> before = [] \<and> (port = [] \<or> hd port = CHR '':''))
      \<and> (if prefix ''v'' host then future_address host else ipv6 host))"

definition url_split :: "(string \<Rightarrow> bool) \<Rightarrow> string \<Rightarrow> exn + url_parts" where
  "url_split ipv6 text =
     (let url = filter (\<lambda>c. ord c \<notin> {9, 10, 13}) (dropWhile (\<lambda>c. ord c \<le> 32) text);
          (scheme, rest) = url_scheme url;
          (netloc, rest) = (if prefix ''//'' rest
             then (takeWhile (\<lambda>c. c \<notin> set ''/?#'') (drop 2 rest), dropWhile (\<lambda>c. c \<notin> set ''/?#'') (drop 2 rest))
             else ([], rest));
          opened = CHR ''['' \<in> set netloc; closed = CHR '']'' \<in> set netloc in
      if opened \<noteq> closed then raise ValueError ''Invalid IPv6 URL''
      else if opened \<and> \<not> bracketed_ok ipv6 netloc then raise ValueError ''Invalid IPv6 URL''
      else (case partition_at (CHR ''#'') rest of (rest, _, fragment) \<Rightarrow>
            case partition_at (CHR ''?'') rest of (path, _, query) \<Rightarrow>
              Inr \<lparr>u_scheme = scheme, u_netloc = netloc, u_path = path, u_query = query, u_fragment = fragment\<rparr>))"

definition url_hostinfo :: "url_parts \<Rightarrow> string \<times> string" where
  "url_hostinfo u =
     (let info = last_part (CHR ''@'') (u_netloc u); (_, open_br, bracketed) = partition_at (CHR ''['') info in
      if open_br then (case partition_at (CHR '']'') bracketed of (host, _, rest) \<Rightarrow>
          (host, snd (snd (partition_at (CHR '':'') rest))))
      else (case partition_at (CHR '':'') info of (host, _, port) \<Rightarrow> (host, port)))"

text \<open>\<open>hostname\<close> (None when empty), \<open>port\<close> (raises when it is no port), \<open>username\<close> and \<open>password\<close>.\<close>

definition url_hostname :: "url_parts \<Rightarrow> string option" where
  "url_hostname u = (let host = fst (url_hostinfo u) in
     if host = [] then None
     else case partition_at (CHR ''%'') host of (h, p, zone) \<Rightarrow> Some (lower_text h @ (if p then ''%'' else []) @ zone))"

definition url_port :: "url_parts \<Rightarrow> exn + nat option" where
  "url_port u = (let port = snd (url_hostinfo u) in
     if port = [] then Inr None
     else if \<not> list_all is_digit port then raise ValueError ''Port could not be cast to integer value''
     else if 65535 < dec_value port then raise ValueError ''Port out of range 0-65535''
     else Inr (Some (dec_value port)))"

definition url_userinfo :: "url_parts \<Rightarrow> string option \<times> string option" where
  "url_userinfo u = (case rpartition_at (CHR ''@'') (u_netloc u) of
     (info, found, _) \<Rightarrow> if \<not> found then (None, None)
       else (case partition_at (CHR '':'') info of (name, colon, pass) \<Rightarrow> (Some name, if colon then Some pass else None)))"

text \<open>\<open>parsed.path + (f"?{parsed.query}" if parsed.query else "")\<close>.\<close>

definition path_query :: "url_parts \<Rightarrow> string" where
  "path_query u = u_path u @ (if u_query u \<noteq> [] then ''?'' @ u_query u else [])"

text \<open>Only a bracketed authority can be refused.\<close>

lemma url_split_raises: "raises_only {ValueError} (url_split ipv6 text)"
  by (simp add: url_split_def Let_def split: prod.splits)

lemma url_port_raises: "raises_only {ValueError} (url_port u)"
  by (simp add: url_port_def Let_def)

lemma url_port_bound: "url_port u = Inr (Some p) \<Longrightarrow> p \<le> 65535"
  by (auto simp: url_port_def Let_def split: if_split_asm)

end
