(* ===== verification/Sentry_Projects.thy ===== *)
theory Sentry_Projects
  imports Py_Effects Py_Url
begin

text \<open>
  \<open>tool/configure_sentry_projects.py\<close>: the guarded client of the Sentry interface, the settings it audits and
  changes and the probe it sends. The network, the clock and the generator of identifiers are operations on
  a world of any type; every request is logged before it is opened, and the report a project's pass builds
  up is part of the state, so that it survives an exception. \<open>json\<close> is given by the parameters \<open>dumps\<close> and
  \<open>loads\<close>, \<open>urljoin\<close> by \<open>join_url\<close>.
\<close>

section \<open>Constants and errors\<close>

definition ORGANIZATION :: string where
  "ORGANIZATION = ''ka-chiu-lee''"

definition PROJECTS :: "string list" where
  "PROJECTS = [''omofly'', ''daishu'']"

definition API_HOSTS :: "string list" where
  "API_HOSTS = [''sentry.io'', ''us.sentry.io'', ''de.sentry.io'']"

definition API_ROOT :: string where
  "API_ROOT = ''https://sentry.io''"

definition PROBE_ENVIRONMENT :: string where
  "PROBE_ENVIRONMENT = ''sentry-deployment-check''"

definition FIXED_SETTINGS :: "(string \<times> pyval) list" where
  "FIXED_SETTINGS = [(''dataScrubber'', PBool False), (''dataScrubberDefaults'', PBool False),
     (''scrubIPAddresses'', PBool False), (''storeCrashReports'', PInt (-1))]"

definition OPTION_KEYS :: "(string \<times> string) list" where
  "OPTION_KEYS = [(''dataScrubber'', ''sentry:scrub_data''), (''dataScrubberDefaults'', ''sentry:scrub_defaults''),
     (''scrubIPAddresses'', ''sentry:scrub_ip_address''), (''storeCrashReports'', ''sentry:store_crash_reports''),
     (''sensitiveFields'', ''sentry:sensitive_fields''), (''safeFields'', ''sentry:safe_fields''),
     (''relayPiiConfig'', ''sentry:relay_pii_config'')]"

definition MAX_RESPONSE_BYTES :: nat where
  "MAX_RESPONSE_BYTES = 4 * 1024 * 1024"

abbreviation safe_error :: "string \<Rightarrow> exn + 'a" where
  "safe_error code \<equiv> raise (SafeError None None) code"

abbreviation throw_safe :: "string \<Rightarrow> ('s, 'a) cmd" where
  "throw_safe code \<equiv> throw (SafeError None None) code"

text \<open>Python's \<open>except SafeError\<close>.\<close>

fun is_safe_class :: "exn_class \<Rightarrow> bool" where
  "is_safe_class (SafeError st sc) = True"
| "is_safe_class c = False"

section \<open>Addresses\<close>

definition project_path :: "string \<Rightarrow> exn + string" where
  "project_path project =
     (if project \<notin> set PROJECTS then safe_error ''project_not_allowed''
      else Inr (''/api/0/projects/'' @ ORGANIZATION @ ''/'' @ project @ ''/''))"

definition allowed_url :: "url_parts \<Rightarrow> exn + bool" where
  "allowed_url u =
     (if u_scheme u \<noteq> ''https'' \<or> (case url_hostname u of None \<Rightarrow> True | Some h \<Rightarrow> h \<notin> set API_HOSTS) then Inr False
      else rbind (url_port u) (\<lambda>port.
        Inr ((port = None \<or> port = Some 443) \<and> CHR ''@'' \<notin> set (u_netloc u) \<and> u_fragment u = [])))"

definition valid_api_url :: "(string \<Rightarrow> bool) \<Rightarrow> string \<Rightarrow> string option \<Rightarrow> bool" where
  "valid_api_url ipv6 url expected =
     (case url_split ipv6 url of
        Inl _ \<Rightarrow> False
      | Inr u \<Rightarrow> (case allowed_url u of
            Inl _ \<Rightarrow> False
          | Inr allowed \<Rightarrow> allowed \<and> (case expected of None \<Rightarrow> True | Some p \<Rightarrow> path_query u = p)))"

text \<open>\<open>o[0-9]+\.ingest(?:\.(?:us|de))?\.sentry\.io\<close> and the other patterns of a public DSN.\<close>

definition re_ingest_host :: regex where
  "re_ingest_host = rseqs [rlit ''o'', rplus rdigit, rlit ''.ingest'',
     ropt (RSeq (rlit ''.'') (RAlt (rlit ''us'') (rlit ''de''))), rlit ''.sentry.io'']"

definition re_public_key :: regex where
  "re_public_key = rtimes 32 (RClass False [(48, 57), (97, 102), (65, 70)])"

text \<open>What \<open>urlsplit\<close> is given: false values of other types count as empty text, unhashable ones raise.\<close>

definition dsn_text :: "pyval \<Rightarrow> exn + string" where
  "dsn_text v = (case v of
      PStr s \<Rightarrow> Inr s
    | PList xs \<Rightarrow> raise TypeError ''unhashable''
    | PDict d \<Rightarrow> raise TypeError ''unhashable''
    | _ \<Rightarrow> if truthy v then raise AttributeError ''decode'' else Inr [])"

definition valid_dsn :: "url_parts \<Rightarrow> string \<Rightarrow> exn + bool" where
  "valid_dsn u project_id =
     (if u_scheme u \<noteq> ''https'' then Inr False
      else rbind (url_port u) (\<lambda>port. case url_userinfo u of (user, password) \<Rightarrow>
        Inr ((port = None \<or> port = Some 443)
          \<and> fullmatch re_ingest_host (case url_hostname u of None \<Rightarrow> [] | Some h \<Rightarrow> h)
          \<and> fullmatch re_public_key (case user of None \<Rightarrow> [] | Some k \<Rightarrow> k)
          \<and> (password = None \<or> password = Some []) \<and> u_query u = [] \<and> u_fragment u = []
          \<and> fullmatch (rplus rdigit) project_id \<and> u_path u = ''/'' @ project_id)))"

text \<open>The text of the DSN and its parts when it is accepted.\<close>

definition dsn_parts :: "(string \<Rightarrow> bool) \<Rightarrow> pyval \<Rightarrow> string \<Rightarrow> exn + url_parts option" where
  "dsn_parts ipv6 dsn project_id =
     rbind (dsn_text dsn) (\<lambda>text. rbind (url_split ipv6 text) (\<lambda>u.
       rbind (valid_dsn u project_id) (\<lambda>ok. Inr (if ok then Some u else None))))"

definition parse_public_dsn :: "(string \<Rightarrow> bool) \<Rightarrow> pyval \<Rightarrow> string \<Rightarrow> exn + (string \<times> string)" where
  "parse_public_dsn ipv6 dsn project_id =
     (case dsn_parts ipv6 dsn project_id of
        Inr (Some u) \<Rightarrow>
          Inr (''https://'' @ (case url_hostname u of None \<Rightarrow> ''None'' | Some h \<Rightarrow> h) @ ''/api/'' @ project_id @ ''/envelope/'',
               case fst (url_userinfo u) of None \<Rightarrow> [] | Some k \<Rightarrow> k)
      | Inr None \<Rightarrow> safe_error ''untrusted_public_dsn''
      | Inl e \<Rightarrow> if exn_class_of e \<in> {ValueError, TypeError} then safe_error ''untrusted_public_dsn'' else Inl e)"

section \<open>The client\<close>

record http_request =
  r_url :: string
  r_method :: string
  r_body :: "string option"
  r_headers :: "(string \<times> string) list"

text \<open>
  What opening a request brings: an answer with the address it came from, an error status with the
  \<open>Location\<close> it names, one of the failures of the network the client knows, or another exception.
\<close>

datatype response =
    Answer string string
  | HttpStatus int "string option"
  | Unreachable
  | Broken exn

record 'w session =
  requests :: "http_request list"
  report :: pydict
  net :: 'w

record 'w sentry_ops =
  open_url :: "http_request \<Rightarrow> 'w \<Rightarrow> response \<times> 'w"
  new_uuid :: "'w \<Rightarrow> string \<times> 'w"
  now_text :: "'w \<Rightarrow> string \<times> 'w"
  pause :: "int \<Rightarrow> 'w \<Rightarrow> 'w"
  dumps :: "pyval \<Rightarrow> string"
  loads :: "string \<Rightarrow> pyval option"
  join_url :: "string \<Rightarrow> string \<Rightarrow> exn + string"
  ipv6_ok :: "string \<Rightarrow> bool"

definition client_token :: "string \<Rightarrow> exn + string" where
  "client_token token =
     (if token = [] \<or> char_of (13 :: nat) \<in> set token \<or> char_of (10 :: nat) \<in> set token
      then safe_error ''missing_or_invalid_auth_token'' else Inr token)"

definition open_request :: "'w sentry_ops \<Rightarrow> http_request \<Rightarrow> ('w session, response) cmd" where
  "open_request ops req s =
     (case open_url ops req (net s) of (r, w) \<Rightarrow> (Inr r, s\<lparr>requests := requests s @ [req], net := w\<rparr>))"

definition redirect_codes :: "int list" where
  "redirect_codes = [301, 302, 303, 307, 308]"

text \<open>One pass of the loop of \<open>_request\<close>: the content, or the address to go on with.\<close>

definition request_step ::
    "'w sentry_ops \<Rightarrow> http_request \<Rightarrow> bool \<Rightarrow> string option \<Rightarrow> string \<Rightarrow> nat \<Rightarrow> response \<Rightarrow> exn + (string + string)" where
  "request_step ops req api scope original attempt r =
     (case r of
        Answer origin content \<Rightarrow>
          if origin \<noteq> r_url req then safe_error ''unexpected_automatic_redirect''
          else if MAX_RESPONSE_BYTES < length content then safe_error ''response_too_large''
          else Inr (Inl content)
      | HttpStatus code location \<Rightarrow>
          if code \<in> set redirect_codes
          then rbind (join_url ops (r_url req) (case location of None \<Rightarrow> [] | Some l \<Rightarrow> l)) (\<lambda>destination.
            if api \<and> attempt < 2 \<and> valid_api_url (ipv6_ok ops) destination (Some original)
            then Inr (Inr destination) else raise (SafeError (Some code) None) ''redirect_rejected'')
          else raise (SafeError (Some code) scope) ''http_error''
      | Unreachable \<Rightarrow> safe_error ''network_error''
      | Broken e \<Rightarrow> Inl e)"

fun request_loop ::
    "'w sentry_ops \<Rightarrow> http_request \<Rightarrow> bool \<Rightarrow> string option \<Rightarrow> string \<Rightarrow> nat list \<Rightarrow> ('w session, string) cmd" where
  "request_loop ops req api scope original [] = throw_safe ''redirect_limit''"
| "request_loop ops req api scope original (attempt # rest) =
     seq (open_request ops req) (\<lambda>r.
     seq (lift_result (request_step ops req api scope original attempt r)) (\<lambda>next.
       case next of
         Inl content \<Rightarrow> ret content
       | Inr destination \<Rightarrow> request_loop ops (req\<lparr>r_url := destination\<rparr>) api scope original rest))"

definition raw_request :: "'w sentry_ops \<Rightarrow> http_request \<Rightarrow> bool \<Rightarrow> string option \<Rightarrow> ('w session, string) cmd" where
  "raw_request ops req api scope =
     seq (lift_result (url_split (ipv6_ok ops) (r_url req))) (\<lambda>u.
       request_loop ops req api scope (path_query u) [0, 1, 2])"

definition api_path_ok :: "string \<Rightarrow> bool" where
  "api_path_ok path \<longleftrightarrow> list_ex (\<lambda>project. fullmatch
     (RSeq (rlit (''/api/0/projects/'' @ ORGANIZATION @ ''/'' @ project @ ''/''))
       (ropt (RAlt (rlit ''keys/?status=active'')
         (rseqs [rlit ''events/'', rtimes 32 (RClass False [(48, 57), (97, 102)]), rlit ''/json/''])))) path) PROJECTS"

definition api_write_paths :: "string list" where
  "api_write_paths = map (\<lambda>project. ''/api/0/projects/'' @ ORGANIZATION @ ''/'' @ project @ ''/'') PROJECTS"

definition bearer_headers :: "string \<Rightarrow> (string \<times> string) list" where
  "bearer_headers token = [(''Authorization'', ''Bearer '' @ token),
     (''Content-Type'', ''application/json''), (''Accept'', ''application/json'')]"

definition api :: "'w sentry_ops \<Rightarrow> string \<Rightarrow> string \<Rightarrow> string \<Rightarrow> pyval option \<Rightarrow> string \<Rightarrow> ('w session, pyval) cmd" where
  "api ops token path http_method payload scope =
     (if \<not> api_path_ok path then throw_safe ''api_path_not_allowed''
      else if http_method \<noteq> ''GET'' \<and> http_method \<noteq> ''PUT'' then throw_safe ''api_method_not_allowed''
      else if http_method = ''PUT'' \<and> path \<notin> set api_write_paths then throw_safe ''api_write_path_not_allowed''
      else if \<not> valid_api_url (ipv6_ok ops) (API_ROOT @ path) None then throw_safe ''api_url_not_allowed''
      else seq (raw_request ops \<lparr>r_url = API_ROOT @ path, r_method = http_method,
            r_body = map_option (dumps ops) payload, r_headers = bearer_headers token\<rparr> True (Some scope)) (\<lambda>content.
        case loads ops content of None \<Rightarrow> throw_safe ''invalid_json_response'' | Some v \<Rightarrow> ret v))"

definition probe_headers :: "string \<Rightarrow> (string \<times> string) list" where
  "probe_headers key = [(''Content-Type'', ''application/x-sentry-envelope''),
     (''X-Sentry-Auth'', ''Sentry sentry_version=7, sentry_key='' @ key @ '', sentry_client=xflclash-deployment-check/1.0'')]"

text \<open>\<open>/api/([0-9]+)/envelope/\<close>: the project the endpoint names.\<close>

definition envelope_project :: "string \<Rightarrow> string option" where
  "envelope_project path =
     (let digits = takeWhile is_digit (drop 5 path) in
      if prefix ''/api/'' path \<and> digits \<noteq> [] \<and> drop (5 + length digits) path = ''/envelope/'' then Some digits else None)"

definition send_probe :: "'w sentry_ops \<Rightarrow> string \<Rightarrow> string \<Rightarrow> string \<Rightarrow> ('w session, unit) cmd" where
  "send_probe ops endpoint key envelope =
     seq (lift_result (url_split (ipv6_ok ops) endpoint)) (\<lambda>u.
       case envelope_project (u_path u) of
         None \<Rightarrow> throw_safe ''untrusted_ingest_endpoint''
       | Some number \<Rightarrow>
           seq (lift_result (parse_public_dsn (ipv6_ok ops)
             (PStr (''https://'' @ key @ ''@'' @ u_netloc u @ ''/'' @ number)) number)) (\<lambda>(expected, _).
           seq (if endpoint \<noteq> expected then throw_safe ''untrusted_ingest_endpoint'' else ret ()) (\<lambda>_.
           seq (raw_request ops \<lparr>r_url = endpoint, r_method = ''POST'', r_body = Some envelope,
               r_headers = probe_headers key\<rparr> False None) (\<lambda>_. ret ()))))"

section \<open>Settings\<close>

definition setting_value :: "pydict \<Rightarrow> string \<Rightarrow> pyval" where
  "setting_value project field =
     (case map_of project field of
        Some v \<Rightarrow> v
      | None \<Rightarrow> (case dict_get_default project ''options'' (PDict []) of
            PDict options \<Rightarrow> dict_get options (the (map_of OPTION_KEYS field))
          | _ \<Rightarrow> PNone))"

definition advanced_rules_disabled :: "pydict \<Rightarrow> bool" where
  "advanced_rules_disabled project =
     (if \<not> has_key project ''relayPiiConfig''
         \<and> (case dict_get_default project ''options'' (PDict []) of
              PDict options \<Rightarrow> \<not> has_key options ''sentry:relay_pii_config'' | _ \<Rightarrow> True)
      then False
      else (case setting_value project ''relayPiiConfig'' of
          PNone \<Rightarrow> True | PStr s \<Rightarrow> text_strip s = [] | _ \<Rightarrow> False))"

text \<open>Same type and equal: for the fixed settings, Booleans and an integer, the same value.\<close>

definition setting_matches :: "pydict \<Rightarrow> string \<Rightarrow> pyval \<Rightarrow> bool" where
  "setting_matches project field v \<longleftrightarrow> setting_value project field = v"

definition desired_settings :: "pydict \<Rightarrow> pydict" where
  "desired_settings project =
     filter (\<lambda>(field, v). \<not> setting_matches project field v) FIXED_SETTINGS
     @ (if advanced_rules_disabled project then [] else [(''relayPiiConfig'', PStr [])])"

definition safe_settings_report :: "pydict \<Rightarrow> pydict" where
  "safe_settings_report project =
     (let matched = map (\<lambda>(field, v). setting_matches project field v) FIXED_SETTINGS;
          advanced = advanced_rules_disabled project in
      [(''raw_logging_ready'', PBool (list_all id matched \<and> advanced)),
       (''data_scrubber_disabled'', PBool (matched ! 0)),
       (''default_scrubber_disabled'', PBool (matched ! 1)),
       (''ip_scrubbing_disabled'', PBool (matched ! 2)),
       (''raw_crash_storage_unlimited'', PBool (matched ! 3)),
       (''advanced_project_rules_disabled'', PBool advanced)])"

section \<open>The probe\<close>

text \<open>\<open>str(uuid.UUID(hex))\<close> of 32 hexadecimal digits.\<close>

definition dashed :: "string \<Rightarrow> string" where
  "dashed h = take 8 h @ ''-'' @ slice h 8 12 @ ''-'' @ slice h 12 16 @ ''-'' @ slice h 16 20 @ ''-'' @ drop 20 h"

definition probe_markers :: "string \<Rightarrow> string list" where
  "probe_markers event_id = [''deployment-only-token-'' @ event_id, ''deployment-'' @ event_id @ [CHR 0x40] @ ''example.invalid'',
     dashed event_id, ''192.0.2.1'']"

definition probe_event :: "string \<Rightarrow> string \<Rightarrow> string \<Rightarrow> pyval" where
  "probe_event event_id debug now = PDict
     [(''event_id'', PStr event_id), (''timestamp'', PStr now), (''platform'', PStr ''native''), (''level'', PStr ''info''),
      (''environment'', PStr PROBE_ENVIRONMENT),
      (''message'', PStr ''Sentry raw-log deployment verification (synthetic data only)''),
      (''extra'', PDict [(''token'', PStr (probe_markers event_id ! 0)), (''email'', PStr (probe_markers event_id ! 1)),
         (''uuid'', PStr (probe_markers event_id ! 2))]),
      (''user'', PDict [(''ip_address'', PStr (probe_markers event_id ! 3))]),
      (''debug_meta'', PDict [(''images'', PList [PDict
         [(''type'', PStr ''pe''), (''debug_id'', PStr debug), (''code_id'', PStr ''5f3759df1000''),
          (''code_file'', PStr ''deployment-check.dll''), (''debug_file'', PStr ''deployment-check.pdb''),
          (''image_addr'', PStr ''0x10000000''), (''image_size'', PInt 4096)]])])]"

definition make_probe :: "'w sentry_ops \<Rightarrow> ('w session, string \<times> string \<times> string) cmd" where
  "make_probe ops s =
     (let (event_id, w1) = new_uuid ops (net s); (other, w2) = new_uuid ops w1; (now, w3) = now_text ops w2;
          debug = dashed other @ ''-1''; nl = [char_of (10 :: nat)] in
      (Inr (event_id, debug, join nl
         [dumps ops (PDict [(''event_id'', PStr event_id), (''sent_at'', PStr now)]),
          dumps ops (PDict [(''type'', PStr ''event''), (''content_type'', PStr ''application/json'')]),
          dumps ops (probe_event event_id debug now), []]), s\<lparr>net := w3\<rparr>))"

definition image_has_id :: "string \<Rightarrow> pyval \<Rightarrow> exn + bool" where
  "image_has_id debug img = (case img of
      PDict d \<Rightarrow> (case dict_get_default d ''debug_id'' (PStr []) of
          PStr s \<Rightarrow> Inr (casefold s = casefold debug) | _ \<Rightarrow> raise AttributeError ''casefold'')
    | _ \<Rightarrow> Inr False)"

definition check_probe :: "pyval \<Rightarrow> string \<Rightarrow> string \<Rightarrow> exn + pydict" where
  "check_probe event event_id debug = (case event of
      PDict e \<Rightarrow>
        if dict_get e ''event_id'' \<noteq> PStr event_id \<or> dict_get e ''environment'' \<noteq> PStr PROBE_ENVIRONMENT
        then safe_error ''unexpected_probe_event''
        else (let extra = items_of (dict_get e ''extra''); user = items_of (dict_get e ''user''); m = probe_markers event_id;
                  kept = [dict_get extra ''token'' = PStr (m ! 0), dict_get extra ''email'' = PStr (m ! 1),
                    dict_get extra ''uuid'' = PStr (m ! 2), dict_get user ''ip_address'' = PStr (m ! 3)] in
          rbind (get_attr (dict_get_default e ''debug_meta'' (PDict [])) ''images'' (PList [])) (\<lambda>images.
          rbind (iterate images) (\<lambda>elems.
          rbind (anyE (image_has_id debug) elems) (\<lambda>found.
            Inr [(''probe_received'', PBool True), (''probe_marker_count'', PInt 4),
                 (''probe_preserved_marker_count'', PInt (int (length (filter id kept)))),
                 (''probe_token_preserved'', PBool (kept ! 0)), (''probe_email_preserved'', PBool (kept ! 1)),
                 (''probe_uuid_preserved'', PBool (kept ! 2)), (''probe_ip_preserved'', PBool (kept ! 3)),
                 (''debug_identifier_preserved'', PBool found),
                 (''probe_verified'', PBool (list_all id kept \<and> found))]))))
    | _ \<Rightarrow> safe_error ''unexpected_probe_event'')"

section \<open>A project's pass\<close>

text \<open>The client object a pass is given: \<open>client.api\<close> and \<open>client.send_probe\<close>.\<close>

record 'w client =
  call_api :: "string \<Rightarrow> string \<Rightarrow> pyval option \<Rightarrow> string \<Rightarrow> ('w session, pyval) cmd"
  post_probe :: "string \<Rightarrow> string \<Rightarrow> string \<Rightarrow> ('w session, unit) cmd"

definition sentry_client :: "'w sentry_ops \<Rightarrow> string \<Rightarrow> 'w client" where
  "sentry_client ops token = \<lparr>call_api = api ops token, post_probe = send_probe ops\<rparr>"

definition extend_report :: "pydict \<Rightarrow> ('w session, unit) cmd" where
  "extend_report e = updating (\<lambda>s. s\<lparr>report := dict_update (report s) e\<rparr>)"

definition pausing :: "'w sentry_ops \<Rightarrow> int \<Rightarrow> ('w session, unit) cmd" where
  "pausing ops n = updating (\<lambda>s. s\<lparr>net := pause ops n (net s)\<rparr>)"

text \<open>One look at the event: None when it is not there yet.\<close>

definition poll_probe :: "'w client \<Rightarrow> string \<Rightarrow> string \<Rightarrow> string \<Rightarrow> ('w session, pydict option) cmd" where
  "poll_probe c path event_id debug =
     catch_when (seq (call_api c (path @ ''events/'' @ event_id @ ''/json/'') ''GET'' None ''event:read (and project access)'')
         (\<lambda>event. seq (lift_result (check_probe event event_id debug)) (\<lambda>r. ret (Some r))))
       is_safe_class
       (\<lambda>e. if fault_status (exn_class_of e) \<noteq> Some 404 then lift_result (Inl e) else ret None)"

definition polled :: "'w sentry_ops \<Rightarrow> 'w client \<Rightarrow> nat \<Rightarrow> string \<Rightarrow> string \<Rightarrow> string \<Rightarrow> nat \<Rightarrow> ('w session, pydict option) cmd" where
  "polled ops c attempts path event_id debug attempt =
     seq (poll_probe c path event_id debug) (\<lambda>r. case r of
       Some v \<Rightarrow> ret (Some v)
     | None \<Rightarrow> seq (if attempt + 1 < attempts then pausing ops 5 else ret ()) (\<lambda>_. ret None))"

definition active_keys :: "pyval \<Rightarrow> exn + pyval list" where
  "active_keys keys = (case keys of
      PList ks \<Rightarrow> Inr (filter (\<lambda>k. is_dict k \<and> dict_get (items_of k) ''isActive'' = PBool True) ks)
    | _ \<Rightarrow> safe_error ''invalid_client_keys_response'')"

definition verify_probe :: "'w sentry_ops \<Rightarrow> 'w client \<Rightarrow> string \<Rightarrow> pydict \<Rightarrow> nat \<Rightarrow> ('w session, pydict) cmd" where
  "verify_probe ops c project settings attempts =
     seq (lift_result (project_path project)) (\<lambda>path.
     seq (call_api c (path @ ''keys/?status=active'') ''GET'' None ''project:read'') (\<lambda>keys.
     seq (lift_result (active_keys keys)) (\<lambda>candidates.
     if candidates = [] then throw_safe ''no_active_client_key''
     else seq (lift_result (get_attr (dict_get_default (items_of (hd candidates)) ''dsn'' (PDict [])) ''public'' (PStr []))) (\<lambda>dsn.
     seq (lift_result (parse_public_dsn (ipv6_ok ops) dsn (py_str (dict_get_default settings ''id'' (PStr []))))) (\<lambda>(endpoint, key).
     seq (make_probe ops) (\<lambda>(event_id, debug, envelope).
     seq (extend_report [(''probe_event_id'', PStr event_id), (''probe_debug_id'', PStr debug), (''probe_sent'', PBool False)]) (\<lambda>_.
     seq (post_probe c endpoint key envelope) (\<lambda>_.
     seq (extend_report [(''probe_sent'', PBool True)]) (\<lambda>_.
     seq (try_each (polled ops c attempts path event_id debug) [0..<attempts]) (\<lambda>r.
       case r of Some v \<Rightarrow> ret v | None \<Rightarrow> throw_safe ''probe_not_received_before_timeout''))))))))))"

definition project_settings :: "'w client \<Rightarrow> string \<Rightarrow> string \<Rightarrow> ('w session, pydict) cmd" where
  "project_settings c path project =
     seq (call_api c path ''GET'' None ''project:read'') (\<lambda>v. case v of
       PDict d \<Rightarrow> if dict_get d ''slug'' = PStr project then ret d else throw_safe ''unexpected_project_response''
     | _ \<Rightarrow> throw_safe ''unexpected_project_response'')"

text \<open>The change of the settings when the mode asks for it and they are not ready.\<close>

definition apply_settings :: "'w client \<Rightarrow> string \<Rightarrow> string \<Rightarrow> string \<Rightarrow> pydict \<Rightarrow> ('w session, pydict) cmd" where
  "apply_settings c path project mode settings =
     (if (mode = ''apply'' \<or> mode = ''apply-and-verify'')
         \<and> dict_get (safe_settings_report settings) ''raw_logging_ready'' \<noteq> PBool True
      then seq (call_api c path ''PUT'' (Some (PDict (desired_settings settings))) ''project:write or project:admin'') (\<lambda>_.
        seq (extend_report [(''settings_changed'', PBool True)]) (\<lambda>_. project_settings c path project))
      else ret settings)"

definition project_body :: "'w sentry_ops \<Rightarrow> 'w client \<Rightarrow> string \<Rightarrow> string \<Rightarrow> ('w session, unit) cmd" where
  "project_body ops c project mode =
     seq (lift_result (project_path project)) (\<lambda>path.
     seq (project_settings c path project) (\<lambda>settings.
     seq (extend_report [(''settings_changed'', PBool False)]) (\<lambda>_.
     seq (apply_settings c path project mode settings) (\<lambda>settings.
     seq (extend_report (safe_settings_report settings)) (\<lambda>_.
     seq (if mode = ''verify'' \<or> mode = ''apply-and-verify''
          then seq (reading report) (\<lambda>r.
            if dict_get r ''raw_logging_ready'' \<noteq> PBool True then throw_safe ''raw_logging_settings_not_ready''
            else seq (verify_probe ops c project settings 12) extend_report)
          else ret ()) (\<lambda>_.
     seq (reading report) (\<lambda>r.
       extend_report [(''ok'', PBool (dict_get r ''raw_logging_ready'' = PBool True
         \<and> dict_get_default r ''probe_verified'' (PBool True) = PBool True))])))))))"

text \<open>What a failure leaves in the report: fixed codes, a status and a scope.\<close>

definition failure_fields :: "exn \<Rightarrow> pydict" where
  "failure_fields e = (case exn_class_of e of
      SafeError st sc \<Rightarrow> [(''error'', PStr (exn_message e))]
        @ (case st of None \<Rightarrow> [] | Some n \<Rightarrow> [(''http_status'', PInt n)])
        @ (case sc of None \<Rightarrow> [] | Some t \<Rightarrow> if t = [] then [] else [(''required_scope'', PStr t)])
    | _ \<Rightarrow> [(''error'', PStr ''unexpected_error'')])"

definition process_project :: "'w sentry_ops \<Rightarrow> 'w client \<Rightarrow> string \<Rightarrow> string \<Rightarrow> ('w session, pydict) cmd" where
  "process_project ops c project mode =
     seq (updating (\<lambda>s. s\<lparr>report := [(''project'', PStr project), (''ok'', PBool False)]\<rparr>)) (\<lambda>_.
     seq (catch_when (project_body ops c project mode) (\<lambda>_. True) (\<lambda>e. extend_report (failure_fields e))) (\<lambda>_.
       reading report))"

text \<open>\<open>main\<close> up to the printing: the report of a run and its exit code.\<close>

definition sentry_main :: "'w sentry_ops \<Rightarrow> string \<Rightarrow> string \<Rightarrow> ('w session, pydict) cmd" where
  "sentry_main ops token mode =
     catch_when (seq (lift_result (client_token token)) (\<lambda>t.
         seq (loop_over (\<lambda>rs p. seq (process_project ops (sentry_client ops t) p mode) (\<lambda>r. ret (rs @ [r]))) [] PROJECTS) (\<lambda>rs.
           ret [(''mode'', PStr mode), (''ok'', PBool (list_all (\<lambda>r. dict_get r ''ok'' = PBool True) rs)),
                (''projects'', PList (map PDict rs))])))
       is_safe_class
       (\<lambda>e. ret [(''mode'', PStr mode), (''ok'', PBool False), (''error'', PStr (exn_message e))])"

definition exit_code :: "pydict \<Rightarrow> bool \<Rightarrow> int" where
  "exit_code r written = (if \<not> written then 1 else if dict_get r ''ok'' = PBool True then 0 else 1)"

section \<open>The addresses the client asks for\<close>

definition plain_path :: "string \<Rightarrow> bool" where
  "plain_path p \<longleftrightarrow> list_all (\<lambda>c. 32 < ord c \<and> c \<noteq> CHR ''#'') p"

lemma ord_code: "ord (CHR ''h'') = 104" "ord (CHR ''/'') = 47"
  by (simp_all add: ord_def)

lemma api_root_scheme: "url_scheme (API_ROOT @ p) = (''https'', ''//sentry.io'' @ p)"
proof -
  have "list_all scheme_char ''https''" "is_alpha (CHR ''h'')" "lower_text ''https'' = ''https''" by code_simp+
  then show ?thesis by (simp add: url_scheme_def API_ROOT_def partition_at_def)
qed

lemma partition_at_join:
  assumes "partition_at c s = (a, found, b)"
  shows "s = (if found then a @ c # b else a)" "found \<or> b = []" "set a \<subseteq> set s"
  using assms by (auto simp: partition_at_def hd_dropWhile [symmetric] split: if_splits dest: set_takeWhileD)
    (metis (mono_tags, lifting) dropWhile_eq_Nil_conv hd_dropWhile hd_Cons_tl takeWhile_dropWhile_id)

lemma url_split_api:
  assumes "plain_path p" "prefix ''/'' p" "CHR ''?'' \<in> set p \<Longrightarrow> last p \<noteq> CHR ''?''"
  shows "\<exists>u. url_split ipv6 (API_ROOT @ p) = Inr u \<and> path_query u = p \<and> u_scheme u = ''https'' \<and> u_netloc u = ''sentry.io''"
proof -
  have plain: "list_all (\<lambda>c. 32 < ord c) (API_ROOT @ p)"
  proof -
    have "list_all (\<lambda>c. 32 < ord c) API_ROOT" by code_simp
    then show ?thesis using assms(1) by (simp add: plain_path_def list_all_iff ball_Un)
  qed
  then have clean: "filter (\<lambda>c. ord c \<notin> {9, 10, 13}) (dropWhile (\<lambda>c. ord c \<le> 32) (API_ROOT @ p)) = API_ROOT @ p"
  proof -
    have "dropWhile (\<lambda>c. ord c \<le> 32) (API_ROOT @ p) = API_ROOT @ p"
      using plain by (cases "API_ROOT @ p") auto
    moreover have "filter (\<lambda>c. ord c \<notin> {9, 10, 13}) (API_ROOT @ p) = API_ROOT @ p"
      using plain unfolding filter_id_conv list_all_iff by fastforce
    ultimately show ?thesis by simp
  qed
  obtain t where p: "p = CHR ''/'' # t" using assms(2) by (auto simp: prefix_def)
  have net: "takeWhile (\<lambda>c. c \<notin> set ''/?#'') (''sentry.io'' @ p) = ''sentry.io''"
    "dropWhile (\<lambda>c. c \<notin> set ''/?#'') (''sentry.io'' @ p) = p"
    by (simp_all add: p)
  have hash: "partition_at (CHR ''#'') p = (p, False, [])"
    using assms(1) by (auto simp: partition_at_def plain_path_def list_all_iff)
  obtain a found b where q: "partition_at (CHR ''?'') p = (a, found, b)" by (cases "partition_at (CHR ''?'') p") auto
  have "a @ (if b \<noteq> [] then ''?'' @ b else []) = p"
    using partition_at_join(1,2) [OF q] assms(3) by (cases found) auto
  moreover have "url_split ipv6 (API_ROOT @ p)
      = Inr \<lparr>u_scheme = ''https'', u_netloc = ''sentry.io'', u_path = a, u_query = b, u_fragment = []\<rparr>"
    unfolding url_split_def Let_def clean api_root_scheme using net q hash by simp
  ultimately show ?thesis by (cases "b = []") (simp_all add: path_query_def)
qed

lemma api_path_cases:
  assumes "api_path_ok path"
  obtains project rest where "project \<in> set PROJECTS"
    "path = ''/api/0/projects/'' @ ORGANIZATION @ ''/'' @ project @ ''/'' @ rest"
    "rest = [] \<or> rest = ''keys/?status=active''
     \<or> (\<exists>h. rest = ''events/'' @ h @ ''/json/'' \<and> list_all (in_class False [(48, 57), (97, 102)]) h)"
proof -
  from assms obtain project a b where pr: "project \<in> set PROJECTS"
    and ab: "path = a @ b" "matches (rlit (''/api/0/projects/'' @ ORGANIZATION @ ''/'' @ project @ ''/'')) a"
    "matches (ropt (RAlt (rlit ''keys/?status=active'')
         (rseqs [rlit ''events/'', rtimes 32 (RClass False [(48, 57), (97, 102)]), rlit ''/json/'']))) b"
    unfolding api_path_ok_def list_ex_iff fullmatch_iff matches_Seq by blast
  have "b = [] \<or> b = ''keys/?status=active''
     \<or> (\<exists>h. b = ''events/'' @ h @ ''/json/'' \<and> list_all (in_class False [(48, 57), (97, 102)]) h)"
    using ab(3) by (auto simp: ropt_def rseqs_def matches_Seq matches_times_class simp del: rtimes.simps rlit.simps)
  moreover have "path = ''/api/0/projects/'' @ ORGANIZATION @ ''/'' @ project @ ''/'' @ b"
    using ab(1,2) by (simp only: matches_lit append_assoc)
  ultimately show ?thesis using that pr by blast
qed

lemma api_path_plain:
  assumes "api_path_ok path"
  shows "plain_path path" "prefix ''/'' path" "CHR ''?'' \<in> set path \<Longrightarrow> last path \<noteq> CHR ''?''"
proof -
  obtain project rest where pr: "project \<in> set PROJECTS"
    and path: "path = ''/api/0/projects/'' @ ORGANIZATION @ ''/'' @ project @ ''/'' @ rest"
    and rest: "rest = [] \<or> rest = ''keys/?status=active''
     \<or> (\<exists>h. rest = ''events/'' @ h @ ''/json/'' \<and> list_all (in_class False [(48, 57), (97, 102)]) h)"
    using api_path_cases [OF assms] by blast
  have fixed: "plain_path ''/api/0/projects/''" "plain_path ORGANIZATION" "\<forall>q\<in>set PROJECTS. plain_path q"
    "plain_path ''/''" "plain_path ''keys/?status=active''" "plain_path ''events/''" "plain_path ''/json/''" "plain_path []"
    by code_simp+
  have hex: "plain_path h" if "list_all (in_class False [(48, 57), (97, 102)]) h" for h
    using that by (auto simp: plain_path_def list_all_iff in_class_def ord_def)
  have app: "plain_path (a @ b) \<longleftrightarrow> plain_path a \<and> plain_path b" for a b
    by (simp add: plain_path_def)
  have "plain_path rest"
    using rest
  proof (elim disjE exE conjE)
    fix h assume "rest = ''events/'' @ h @ ''/json/''" and "list_all (in_class False [(48, 57), (97, 102)]) h"
    then show ?thesis by (simp only: app fixed hex simp_thms)
  qed (simp_all only: fixed)
  then show "plain_path path" using pr fixed by (simp only: path app simp_thms)
  show "prefix ''/'' path" by (simp add: path)
  show "last path \<noteq> CHR ''?''" using rest by (auto simp: path)
qed

section \<open>What may be sent\<close>

text \<open>The requests a run in a mode may send: the token goes with those of the first kind only.\<close>

definition api_request_ok :: "'w sentry_ops \<Rightarrow> string \<Rightarrow> string \<Rightarrow> http_request \<Rightarrow> bool" where
  "api_request_ok ops token mode req \<longleftrightarrow>
     r_headers req = bearer_headers token
     \<and> (\<exists>u. url_split (ipv6_ok ops) (r_url req) = Inr u \<and> u_scheme u = ''https'' \<and> url_hostname u \<in> Some ` set API_HOSTS
         \<and> CHR 0x40 \<notin> set (u_netloc u) \<and> api_path_ok (path_query u)
         \<and> (r_method req = ''GET'' \<and> r_body req = None
            \<or> r_method req = ''PUT'' \<and> mode \<in> {''apply'', ''apply-and-verify''} \<and> path_query u \<in> set api_write_paths
              \<and> (\<exists>d. r_body req = Some (dumps ops (PDict d)) \<and> set d \<subseteq> insert (''relayPiiConfig'', PStr []) (set FIXED_SETTINGS))))"

definition probe_request_ok :: "string \<Rightarrow> http_request \<Rightarrow> bool" where
  "probe_request_ok mode req \<longleftrightarrow>
     mode \<in> {''verify'', ''apply-and-verify''} \<and> r_method req = ''POST''
     \<and> (\<exists>key host number. r_headers req = probe_headers key \<and> fullmatch re_public_key key
         \<and> fullmatch re_ingest_host host \<and> r_url req = ''https://'' @ host @ ''/api/'' @ number @ ''/envelope/'')"

definition request_ok :: "'w sentry_ops \<Rightarrow> string \<Rightarrow> string \<Rightarrow> http_request \<Rightarrow> bool" where
  "request_ok ops token mode req \<longleftrightarrow> api_request_ok ops token mode req \<or> probe_request_ok mode req"

abbreviation all_ok :: "(http_request \<Rightarrow> bool) \<Rightarrow> 'w session \<Rightarrow> bool" where
  "all_ok Good s \<equiv> list_all Good (requests s)"

text \<open>The loop sends its request, and after a redirect the same one to another allowed address.\<close>

lemma keeps_open: "Good req \<Longrightarrow> keeps (all_ok Good) (open_request ops req)"
  by (simp add: keeps_def open_request_def split: prod.split)

lemma request_step_next:
  assumes "request_step ops req guarded scope original attempt r = Inr (Inr destination)"
  shows "guarded \<and> valid_api_url (ipv6_ok ops) destination (Some original)"
  using assms by (auto simp: request_step_def split: response.splits if_splits)

lemma keeps_request_loop:
  assumes "Good req" "guarded \<Longrightarrow> (\<And>d. valid_api_url (ipv6_ok ops) d (Some original) \<Longrightarrow> Good (req\<lparr>r_url := d\<rparr>))"
  shows "keeps (all_ok Good) (request_loop ops req guarded scope original attempts)"
  using assms
proof (induction ops req guarded scope original attempts rule: request_loop.induct)
  case (2 ops req guarded scope original attempt rest)
  have next_step: "keeps (all_ok Good) (seq (lift_result (request_step ops req guarded scope original attempt r))
      (\<lambda>next. case next of Inl content \<Rightarrow> ret content
        | Inr d \<Rightarrow> request_loop ops (req\<lparr>r_url := d\<rparr>) guarded scope original rest))" for r
  proof (cases "request_step ops req guarded scope original attempt r")
    case (Inr n)
    show ?thesis
    proof (cases n)
      case (Inr d)
      with \<open>request_step _ _ _ _ _ _ _ = Inr n\<close> request_step_next
      have "guarded" "valid_api_url (ipv6_ok ops) d (Some original)" by blast+
      with 2 have "keeps (all_ok Good) (request_loop ops (req\<lparr>r_url := d\<rparr>) guarded scope original rest)" by auto
      with \<open>request_step _ _ _ _ _ _ _ = Inr n\<close> Inr show ?thesis
        by (simp add: keeps_def seq_def lift_result_def)
    qed (use \<open>request_step _ _ _ _ _ _ _ = Inr n\<close> in \<open>simp add: keeps_def seq_def lift_result_def ret_def\<close>)
  qed (simp add: keeps_def seq_def lift_result_def)
  show ?case unfolding request_loop.simps
    by (intro keeps_seq keeps_open next_step) (use 2 in simp)
qed (auto intro: keeps_intros)

lemma keeps_raw_request:
  assumes "\<And>u. url_split (ipv6_ok ops) (r_url req) = Inr u \<Longrightarrow> Good req"
    and "\<And>u d. guarded \<Longrightarrow> url_split (ipv6_ok ops) (r_url req) = Inr u \<Longrightarrow> valid_api_url (ipv6_ok ops) d (Some (path_query u)) \<Longrightarrow> Good (req\<lparr>r_url := d\<rparr>)"
  shows "keeps (all_ok Good) (raw_request ops req guarded scope)"
proof (cases "url_split (ipv6_ok ops) (r_url req)")
  case (Inr u)
  then show ?thesis
    using keeps_request_loop [of Good req guarded ops "path_query u" scope] assms
    by (simp add: keeps_def raw_request_def seq_def lift_result_def del: request_loop.simps)
qed (simp add: keeps_def raw_request_def seq_def lift_result_def)

lemma valid_api_url_facts:
  assumes "valid_api_url ipv6 d (Some p)"
  shows "\<exists>u. url_split ipv6 d = Inr u \<and> u_scheme u = ''https'' \<and> url_hostname u \<in> Some ` set API_HOSTS
    \<and> CHR 0x40 \<notin> set (u_netloc u) \<and> path_query u = p"
  using assms by (auto simp: valid_api_url_def allowed_url_def split: sum.splits if_splits option.splits)

lemma api_root_host:
  "u_netloc u = ''sentry.io'' \<Longrightarrow> url_hostname u \<in> Some ` set API_HOSTS \<and> CHR 0x40 \<notin> set (u_netloc u)"
proof -
  have "url_hostname \<lparr>u_scheme = [], u_netloc = ''sentry.io'', u_path = [], u_query = [], u_fragment = []\<rparr> = Some ''sentry.io''"
    by code_simp
  then show "u_netloc u = ''sentry.io'' \<Longrightarrow> url_hostname u \<in> Some ` set API_HOSTS \<and> CHR 0x40 \<notin> set (u_netloc u)"
    by (simp add: url_hostname_def url_hostinfo_def API_HOSTS_def)
qed

text \<open>The two calls of the client.\<close>

lemma keeps_api:
  assumes "http_method = ''GET'' \<and> payload = None \<or> http_method = ''PUT'' \<and> mode \<in> {''apply'', ''apply-and-verify''}
      \<and> (\<exists>d. payload = Some (PDict d) \<and> set d \<subseteq> insert (''relayPiiConfig'', PStr []) (set FIXED_SETTINGS))"
  shows "keeps (all_ok (request_ok ops token mode)) (api ops token path http_method payload scope)"
proof (cases "api_path_ok path \<and> (http_method = ''PUT'' \<longrightarrow> path \<in> set api_write_paths)")
  case True
  let ?req = "\<lparr>r_url = API_ROOT @ path, r_method = http_method, r_body = map_option (dumps ops) payload, r_headers = bearer_headers token\<rparr>"
  have path: "api_path_ok path" using True by simp
  obtain u where u: "url_split (ipv6_ok ops) (API_ROOT @ path) = Inr u" "path_query u = path" "u_scheme u = ''https''"
    "u_netloc u = ''sentry.io''"
    using url_split_api [OF api_path_plain [OF path], of "ipv6_ok ops"] by blast
  note host = api_root_host [OF u(4)]
  have first: "request_ok ops token mode ?req"
    using u host True assms by (auto simp: request_ok_def api_request_ok_def)
  have again: "request_ok ops token mode (?req\<lparr>r_url := d\<rparr>)"
    if "valid_api_url (ipv6_ok ops) d (Some (path_query u))" for d
    using valid_api_url_facts [OF that] u(2) True assms by (auto simp: request_ok_def api_request_ok_def)
  have "keeps (all_ok (request_ok ops token mode)) (raw_request ops ?req True (Some scope))"
    using first again u(1) by (intro keeps_raw_request) auto
  then show ?thesis unfolding api_def by (intro keeps_intros) auto
qed (auto simp: api_def intro!: keeps_intros)

lemma parse_public_dsn_facts:
  assumes "parse_public_dsn ip dsn number = Inr (endpoint, key)"
  shows "fullmatch re_public_key key \<and> (\<exists>host. fullmatch re_ingest_host host
    \<and> endpoint = ''https://'' @ host @ ''/api/'' @ number @ ''/envelope/'')"
proof -
  from assms obtain u where u: "dsn_parts ip dsn number = Inr (Some u)"
    and e: "endpoint = ''https://'' @ (case url_hostname u of None \<Rightarrow> ''None'' | Some h \<Rightarrow> h) @ ''/api/'' @ number @ ''/envelope/''"
    and k: "key = (case fst (url_userinfo u) of None \<Rightarrow> [] | Some k \<Rightarrow> k)"
    by (auto simp: parse_public_dsn_def split: sum.splits option.splits if_splits)
  obtain user pass where user: "url_userinfo u = (user, pass)" by fastforce
  from u have "valid_dsn u number = Inr True" by (auto simp: dsn_parts_def split: if_splits)
  with user have host: "fullmatch re_ingest_host (case url_hostname u of None \<Rightarrow> [] | Some h \<Rightarrow> h)"
    and key: "fullmatch re_public_key (case fst (url_userinfo u) of None \<Rightarrow> [] | Some k \<Rightarrow> k)"
    by (auto simp: valid_dsn_def split: if_splits)
  have "\<not> fullmatch re_ingest_host []" by code_simp
  with host obtain h where "url_hostname u = Some h" by (cases "url_hostname u") auto
  with host e key k show ?thesis by auto
qed

lemma keeps_send_probe:
  assumes mode: "mode \<in> {''verify'', ''apply-and-verify''}" and key: "fullmatch re_public_key key"
    and endpoint: "fullmatch re_ingest_host host" "endpoint = ''https://'' @ host @ ''/api/'' @ number @ ''/envelope/''"
  shows "keeps (all_ok (request_ok ops token mode)) (send_probe ops endpoint key envelope)"
proof -
  have "request_ok ops token mode \<lparr>r_url = endpoint, r_method = ''POST'', r_body = Some envelope, r_headers = probe_headers key\<rparr>"
    using assms unfolding request_ok_def probe_request_ok_def by auto
  then show ?thesis
    unfolding send_probe_def by (intro keeps_intros keeps_raw_request) simp_all
qed

section \<open>The contract of a client\<close>

text \<open>
  A pass over a project is given a client. What the pass relies on: reads are always good, writes are in the
  modes that apply settings and carry settings of the fixed list, a probe is posted in the verifying modes with
  a key and an endpoint that were checked.
\<close>

locale safe_client =
  fixes ops :: "'w sentry_ops" and c :: "'w client" and mode :: string and Good :: "http_request \<Rightarrow> bool"
  assumes read_good: "keeps (all_ok Good) (call_api c path ''GET'' None scope)"
    and write_good: "mode \<in> {''apply'', ''apply-and-verify''} \<Longrightarrow> set d \<subseteq> insert (''relayPiiConfig'', PStr []) (set FIXED_SETTINGS)
      \<Longrightarrow> keeps (all_ok Good) (call_api c path ''PUT'' (Some (PDict d)) scope)"
    and post_good: "mode \<in> {''verify'', ''apply-and-verify''} \<Longrightarrow> parse_public_dsn (ipv6_ok ops) dsn number = Inr (endpoint, key)
      \<Longrightarrow> keeps (all_ok Good) (post_probe c endpoint key envelope)"
begin

lemma keeps_extend: "keeps (all_ok Good) (extend_report e)"
  by (simp add: extend_report_def keeps_def updating_def)

lemma keeps_pausing: "keeps (all_ok Good) (pausing ops n)"
  by (simp add: pausing_def keeps_def updating_def)

lemma keeps_make_probe: "keeps (all_ok Good) (make_probe ops)"
  by (simp add: make_probe_def keeps_def Let_def split: prod.split)

lemma keeps_polled: "keeps (all_ok Good) (polled ops c attempts path event_id debug attempt)"
  unfolding polled_def poll_probe_def by (intro keeps_intros read_good keeps_pausing)

lemma keeps_posting:
  assumes "mode \<in> {''verify'', ''apply-and-verify''}"
  shows "keeps (all_ok Good) (seq (lift_result (parse_public_dsn (ipv6_ok ops) dsn number)) (\<lambda>(endpoint, key).
     seq (make_probe ops) (\<lambda>(event_id, debug, envelope).
     seq (extend_report (r event_id debug)) (\<lambda>_.
     seq (post_probe c endpoint key envelope) (\<lambda>_.
     seq (extend_report q) (\<lambda>_.
     seq (try_each (polled ops c attempts path event_id debug) [0..<attempts]) (\<lambda>r.
       case r of Some v \<Rightarrow> ret v | None \<Rightarrow> throw_safe code)))))))"
proof (cases "parse_public_dsn (ipv6_ok ops) dsn number")
  case (Inr p)
  obtain endpoint key where p: "p = (endpoint, key)" by (cases p)
  have post: "keeps (all_ok Good) (post_probe c endpoint key envelope)" for envelope
    using post_good [OF assms] Inr p by blast
  have "keeps (all_ok Good) (seq (make_probe ops) (\<lambda>(event_id, debug, envelope).
     seq (extend_report (r event_id debug)) (\<lambda>_.
     seq (post_probe c endpoint key envelope) (\<lambda>_.
     seq (extend_report q) (\<lambda>_.
     seq (try_each (polled ops c attempts path event_id debug) [0..<attempts]) (\<lambda>r.
       case r of Some v \<Rightarrow> ret v | None \<Rightarrow> throw_safe code))))))"
    by (intro keeps_intros keeps_make_probe keeps_extend post keeps_polled)
  with Inr p show ?thesis by (simp add: keeps_def seq_def [of "lift_result _"] lift_result_def)
qed (simp add: keeps_def seq_def [of "lift_result _"] lift_result_def)

lemma keeps_verify_probe:
  assumes "mode \<in> {''verify'', ''apply-and-verify''}"
  shows "keeps (all_ok Good) (verify_probe ops c project settings attempts)"
  unfolding verify_probe_def by (intro keeps_seq keeps_lift keeps_if keeps_throw read_good keeps_posting [OF assms])

lemma keeps_project_settings: "keeps (all_ok Good) (project_settings c path project)"
  unfolding project_settings_def
proof (intro keeps_seq read_good)
  show "keeps (all_ok Good) (case v of PDict d \<Rightarrow> if dict_get d ''slug'' = PStr project then ret d else throw_safe k
     | _ \<Rightarrow> throw_safe k)" for v k
    by (cases v) (auto intro: keeps_intros)
qed

lemma desired_settings_known: "set (desired_settings d) \<subseteq> insert (''relayPiiConfig'', PStr []) (set FIXED_SETTINGS)"
  by (auto simp: desired_settings_def)

lemma keeps_process_project: "keeps (all_ok Good) (process_project ops c project mode)"
proof -
  have "keeps (all_ok Good) (apply_settings c path project mode settings)" for path settings
    unfolding apply_settings_def
    by (intro keeps_intros keeps_extend keeps_project_settings write_good desired_settings_known) auto
  moreover have "keeps (all_ok Good) (verify_probe ops c project settings 12)"
    if "mode = ''verify'' \<or> mode = ''apply-and-verify''" for settings
    using that by (intro keeps_verify_probe) auto
  ultimately show ?thesis
    unfolding process_project_def project_body_def
    by (intro keeps_intros keeps_extend keeps_project_settings) simp_all
qed

end

interpretation sc: safe_client ops "sentry_client ops token" mode "request_ok ops token mode"
  for ops :: "'w sentry_ops" and token mode
proof (unfold_locales, goal_cases)
  case (1 path scope)
  then show ?case by (simp add: sentry_client_def keeps_api)
next
  case (2 d path scope)
  then show ?case by (auto simp: sentry_client_def intro!: keeps_api)
next
  case (3 dsn number endpoint key envelope)
  then show ?case
    using parse_public_dsn_facts [of "ipv6_ok ops" dsn number endpoint key]
    by (auto simp: sentry_client_def intro!: keeps_send_probe)
qed

section \<open>What a good report stands for\<close>

lemma keeps_report_open: "keeps (\<lambda>s. P (report s)) (open_request ops req)"
  by (simp add: keeps_def open_request_def split: prod.split)

lemma keeps_report_loop: "keeps (\<lambda>s. P (report s)) (request_loop ops req guarded scope original attempts)"
  by (induction ops req guarded scope original attempts rule: request_loop.induct)
     (auto intro!: keeps_intros keeps_report_open)

lemma keeps_report_raw: "keeps (\<lambda>s. P (report s)) (raw_request ops req guarded scope)"
  unfolding raw_request_def by (intro keeps_intros keeps_report_loop)

lemma keeps_report_api: "keeps (\<lambda>s. P (report s)) (api ops token path http_method payload scope)"
  unfolding api_def by (intro keeps_intros keeps_report_raw)

lemma keeps_report_probe: "keeps (\<lambda>s. P (report s)) (send_probe ops endpoint key envelope)"
  unfolding send_probe_def by (intro keeps_intros keeps_report_raw)

lemma keeps_report_client:
  "keeps (\<lambda>s. P (report s)) (call_api (sentry_client ops token) path http_method payload scope)"
  "keeps (\<lambda>s. P (report s)) (post_probe (sentry_client ops token) endpoint key envelope)"
  by (simp_all add: sentry_client_def keeps_report_api keeps_report_probe)

lemma keeps_report_make: "keeps (\<lambda>s. P (report s)) (make_probe ops)"
  by (simp add: make_probe_def keeps_def Let_def split: prod.split)

lemma keeps_report_pausing: "keeps (\<lambda>s. P (report s)) (pausing ops n)"
  by (simp add: pausing_def keeps_def updating_def)

lemma keeps_report_polled: "keeps (\<lambda>s. P (report s)) (polled ops (sentry_client ops token) attempts path event_id debug attempt)"
  unfolding polled_def poll_probe_def by (intro keeps_intros keeps_report_client keeps_report_pausing)

lemma keeps_report_settings: "keeps (\<lambda>s. P (report s)) (project_settings (sentry_client ops token) path project)"
  unfolding project_settings_def
proof (intro keeps_seq keeps_report_client)
  show "keeps (\<lambda>s. P (report s)) (case v of PDict d \<Rightarrow> if dict_get d ''slug'' = PStr project then ret d else throw_safe k
     | _ \<Rightarrow> throw_safe k)" for v k
    by (cases v) (auto intro: keeps_intros)
qed

text \<open>A pass that is not finished has not set \<open>ok\<close>.\<close>

abbreviation unfinished :: "'w session \<Rightarrow> bool" where
  "unfinished s \<equiv> dict_get (report s) ''ok'' = PBool False"

lemma keeps_unfinished_extend: "''ok'' \<notin> fst ` set e \<Longrightarrow> keeps unfinished (extend_report e)"
  by (simp add: keeps_def extend_report_def updating_def dict_get_update)

lemma check_probe_keys:
  "check_probe event event_id debug = Inr r \<Longrightarrow> ''ok'' \<notin> fst ` set r \<and> ''probe_sent'' \<notin> fst ` set r \<and> has_key r ''probe_verified''"
  by (auto simp: check_probe_def Let_def split: pyval.splits if_splits)

lemma polled_keys:
  "triple (\<lambda>s. True) (polled ops c attempts path event_id debug attempt)
     (\<lambda>r s. case r of None \<Rightarrow> True | Some v \<Rightarrow> ''ok'' \<notin> fst ` set v \<and> ''probe_sent'' \<notin> fst ` set v \<and> has_key v ''probe_verified'')
     (\<lambda>e s. True)"
  unfolding triple_def polled_def poll_probe_def seq_def catch_when_def lift_result_def ret_def
  by (auto split: prod.splits sum.splits option.splits if_splits dest: check_probe_keys)

lemma verified_keys:
  assumes "try_each (polled ops c attempts path event_id debug) xs s = (Inr (Some v), t)"
  shows "''ok'' \<notin> fst ` set v \<and> ''probe_sent'' \<notin> fst ` set v \<and> has_key v ''probe_verified''"
  using assms
proof (induction xs arbitrary: s)
  case (Cons x xs)
  from Cons.prems obtain r u where r: "polled ops c attempts path event_id debug x s = (Inr r, u)"
    and rest: "(case r of Some y \<Rightarrow> ret (Some y) | None \<Rightarrow> try_each (polled ops c attempts path event_id debug) xs) u = (Inr (Some v), t)"
    by (auto elim: seq_cases)
  show ?case
  proof (cases r)
    case None
    with rest Cons.IH show ?thesis by simp
  next
    case (Some y)
    with rest triple_Inr [OF polled_keys _ r] show ?thesis by (simp add: ret_def)
  qed
qed (simp add: ret_def)

lemma verify_probe_result:
  assumes "verify_probe ops (sentry_client ops token) project settings attempts s = (Inr v, t)"
  shows "''ok'' \<notin> fst ` set v \<and> ''probe_sent'' \<notin> fst ` set v \<and> has_key v ''probe_verified''
     \<and> dict_get (report t) ''probe_sent'' = PBool True"
proof -
  let ?c = "sentry_client ops token"
  from assms obtain path event_id debug u1 u2 u3 r where
    "extend_report [(''probe_sent'', PBool True)] u1 = (Inr (), u2)"
    and loop: "try_each (polled ops ?c attempts path event_id debug) [0..<attempts] u2 = (Inr r, u3)"
    and last: "(case r of Some v \<Rightarrow> ret v | None \<Rightarrow> throw_safe ''probe_not_received_before_timeout'') u3 = (Inr v, t)"
    unfolding verify_probe_def
    by (auto elim!: seq_cases split: if_splits prod.splits simp: lift_result_def throw_def)
  then have "dict_get (report u2) ''probe_sent'' = PBool True"
    by (auto simp: extend_report_def updating_def)
  moreover have "keeps (\<lambda>s. dict_get (report s) ''probe_sent'' = PBool True) (try_each (polled ops ?c attempts path event_id debug) [0..<attempts])"
    by (intro keeps_try_each keeps_report_polled)
  ultimately have sent: "dict_get (report u3) ''probe_sent'' = PBool True" using loop by (auto dest: keepsD)
  from last obtain y where "r = Some y" "v = y" "t = u3" by (cases r) (auto simp: ret_def throw_def)
  with verified_keys [OF loop [unfolded \<open>r = Some y\<close>]] sent show ?thesis by simp
qed

lemma keeps_unfinished_verify: "keeps unfinished (verify_probe ops (sentry_client ops token) project settings attempts)"
  unfolding verify_probe_def
  by (intro keeps_intros keeps_report_client keeps_report_make keeps_unfinished_extend keeps_report_polled) simp_all

lemma keeps_unfinished_apply: "keeps unfinished (apply_settings (sentry_client ops token) path project mode settings)"
  unfolding apply_settings_def
  by (intro keeps_intros keeps_report_client keeps_report_settings keeps_unfinished_extend) simp_all

text \<open>What the verification leaves in the report of a verifying mode.\<close>

definition verified_report :: "string \<Rightarrow> pydict \<Rightarrow> bool" where
  "verified_report mode r \<longleftrightarrow> (mode \<in> {''verify'', ''apply-and-verify''} \<longrightarrow>
     has_key r ''probe_verified'' \<and> dict_get r ''probe_sent'' = PBool True)"

definition verify_stage :: "'w sentry_ops \<Rightarrow> 'w client \<Rightarrow> string \<Rightarrow> string \<Rightarrow> pydict \<Rightarrow> ('w session, unit) cmd" where
  "verify_stage ops c project mode settings =
     (if mode = ''verify'' \<or> mode = ''apply-and-verify''
      then seq (reading report) (\<lambda>r.
        if dict_get r ''raw_logging_ready'' \<noteq> PBool True then throw_safe ''raw_logging_settings_not_ready''
        else seq (verify_probe ops c project settings 12) extend_report)
      else ret ())"

lemma verify_stage_triple:
  "triple unfinished (verify_stage ops (sentry_client ops token) project mode settings)
     (\<lambda>_ s. unfinished s \<and> verified_report mode (report s)) (\<lambda>_. unfinished)"
proof (cases "mode = ''verify'' \<or> mode = ''apply-and-verify''")
  case True
  let ?v = "verify_probe ops (sentry_client ops token) project settings 12"
  have verified: "triple unfinished ?v
      (\<lambda>v s. unfinished s \<and> ''ok'' \<notin> fst ` set v \<and> ''probe_sent'' \<notin> fst ` set v \<and> has_key v ''probe_verified''
        \<and> dict_get (report s) ''probe_sent'' = PBool True) (\<lambda>_. unfinished)"
    unfolding triple_def
  proof (intro allI impI)
    fix s :: "'a session" assume s: "unfinished s"
    obtain r t where m: "?v s = (r, t)" by fastforce
    have t: "unfinished t" by (rule keepsD [OF keeps_unfinished_verify s m])
    show "case ?v s of (Inl e, t) \<Rightarrow> unfinished t
      | (Inr v, s) \<Rightarrow> unfinished s \<and> ''ok'' \<notin> fst ` set v \<and> ''probe_sent'' \<notin> fst ` set v \<and> has_key v ''probe_verified''
        \<and> dict_get (report s) ''probe_sent'' = PBool True"
    proof (cases r)
      case (Inr v)
      with m t verify_probe_result [OF m [unfolded Inr]] show ?thesis by simp
    qed (use m t in simp)
  qed
  have extend: "triple (\<lambda>s. unfinished s \<and> ''ok'' \<notin> fst ` set v \<and> ''probe_sent'' \<notin> fst ` set v \<and> has_key v ''probe_verified''
        \<and> dict_get (report s) ''probe_sent'' = PBool True) (extend_report v)
      (\<lambda>_ s. unfinished s \<and> verified_report mode (report s)) (\<lambda>_. unfinished)" for v
    unfolding extend_report_def
    by (rule triple_updating) (simp add: dict_get_update verified_report_def has_key_def set_keys_update)
  show ?thesis
    unfolding verify_stage_def using True
    by (simp, intro triple_seq [OF triple_keeps [OF keeps_reading]] triple_if triple_throw triple_seq [OF verified] extend)
qed (simp add: verify_stage_def verified_report_def triple_def ret_def)

lemma project_body_triple:
  "triple unfinished (project_body ops (sentry_client ops token) project mode)
     (\<lambda>_ s. dict_get (report s) ''ok'' = PBool True \<longrightarrow>
        dict_get (report s) ''raw_logging_ready'' = PBool True
        \<and> (mode \<in> {''verify'', ''apply-and-verify''} \<longrightarrow>
            dict_get (report s) ''probe_verified'' = PBool True \<and> dict_get (report s) ''probe_sent'' = PBool True))
     (\<lambda>_. unfinished)"
proof -
  let ?c = "sentry_client ops token"
  have finish: "triple (\<lambda>s. unfinished s \<and> verified_report mode (report s))
     (seq (reading report) (\<lambda>r. extend_report [(''ok'', PBool (dict_get r ''raw_logging_ready'' = PBool True
         \<and> dict_get_default r ''probe_verified'' (PBool True) = PBool True))]))
     (\<lambda>_ s. dict_get (report s) ''ok'' = PBool True \<longrightarrow>
        dict_get (report s) ''raw_logging_ready'' = PBool True
        \<and> (mode \<in> {''verify'', ''apply-and-verify''} \<longrightarrow>
            dict_get (report s) ''probe_verified'' = PBool True \<and> dict_get (report s) ''probe_sent'' = PBool True))
     (\<lambda>_. unfinished)"
    by (auto simp: triple_def seq_def reading_def extend_report_def updating_def verified_report_def has_key_map_of
        dict_get_default_def dict_get_def split: option.splits)
  have safe: "''ok'' \<notin> fst ` set (safe_settings_report d)" for d by (simp add: safe_settings_report_def Let_def)
  show ?thesis
    unfolding project_body_def verify_stage_def [symmetric]
    by (intro triple_seq [OF triple_keeps [OF keeps_lift]] triple_seq [OF triple_keeps [OF keeps_report_settings]]
        triple_seq [OF triple_keeps [OF keeps_unfinished_extend]] triple_seq [OF triple_keeps [OF keeps_unfinished_apply]]
        triple_seq [OF verify_stage_triple] finish safe) simp
qed

section \<open>A run on a sample network\<close>

definition sample_answer :: "http_request \<Rightarrow> nat \<Rightarrow> response \<times> nat" where
  "sample_answer req n = (if contains ''daishu'' (r_url req) then (HttpStatus 403 None, n + 1) else (Answer (r_url req) (r_url req), n + 1))"

definition sample_ops :: "nat sentry_ops" where
  "sample_ops = \<lparr>open_url = sample_answer, new_uuid = (\<lambda>n. ([], n)), now_text = (\<lambda>n. ([], n)), pause = (\<lambda>_ n. n),
     dumps = repr, loads = (\<lambda>_. Some (PDict (dict_update [(''slug'', PStr ''omofly''), (''relayPiiConfig'', PNone)] FIXED_SETTINGS))),
     join_url = (\<lambda>_ l. Inr l), ipv6_ok = (\<lambda>_. False)\<rparr>"

definition sample_start :: "nat session" where
  "sample_start = \<lparr>requests = [], report = [], net = 0\<rparr>"

lemma sample_run:
  "case sentry_main sample_ops ''t'' ''audit'' sample_start of
     (Inl e, s) \<Rightarrow> False
   | (Inr r, s) \<Rightarrow> dict_get r ''ok'' = PBool False \<and> map r_url (requests s)
       = [''https://sentry.io/api/0/projects/ka-chiu-lee/omofly/'', ''https://sentry.io/api/0/projects/ka-chiu-lee/daishu/'']"
  by code_simp

lemma sample_run_cases:
  obtains r s where "sentry_main sample_ops ''t'' ''audit'' sample_start = (Inr r, s)"
    and "map r_url (requests s) = [''https://sentry.io/api/0/projects/ka-chiu-lee/omofly/'', ''https://sentry.io/api/0/projects/ka-chiu-lee/daishu/'']"
  using sample_run by (auto split: prod.splits sum.splits)

definition sample_project :: "(exn + pydict) \<times> nat session" where
  "sample_project = process_project sample_ops (sentry_client sample_ops ''t'') ''omofly'' ''apply'' sample_start"

lemma sample_project_ok: "case sample_project of (Inl e, s) \<Rightarrow> False | (Inr r, s) \<Rightarrow> dict_get r ''ok'' = PBool True"
  by code_simp

section \<open>Properties\<close>

lemma sentry_main_keeps: "keeps (all_ok (request_ok ops token mode)) (sentry_main ops token mode)"
proof (cases "client_token token")
  case (Inr t)
  then have "t = token" by (auto simp: client_token_def split: if_splits)
  moreover have "keeps (all_ok (request_ok ops token mode))
      (seq (loop_over (\<lambda>rs p. seq (process_project ops (sentry_client ops token) p mode) (\<lambda>r. ret (rs @ [r]))) [] PROJECTS) (\<lambda>rs.
           ret [(''mode'', PStr mode), (''ok'', PBool (list_all (\<lambda>r. dict_get r ''ok'' = PBool True) rs)),
                (''projects'', PList (map PDict rs))]))"
    by (intro keeps_intros sc.keeps_process_project)
  ultimately show ?thesis
    unfolding sentry_main_def Inr
    by (intro keeps_catch_when keeps_ret) (simp add: keeps_def seq_def [of "lift_result _"] lift_result_def)
qed (simp add: keeps_def sentry_main_def catch_when_def seq_def lift_result_def ret_def)

text \<open>C1: The management token stays with the interface: every request of a run is either one that carries the
  token to a Sentry interface host over https, with a path of the fixed list, reading or, in the modes that
  apply settings only, writing settings of the fixed list to a project, or the probe of a verifying mode, which
  carries no token and goes to an ingest host with a checked key. An audit only reads.\<close>

theorem sentry_requests_confined:
  assumes run: "sentry_main ops token mode s = (r, t)" and start: "requests s = []" and req: "req \<in> set (requests t)"
  shows "(api_request_ok ops token mode req \<or> probe_request_ok mode req) \<and> (mode = ''audit'' \<longrightarrow> r_method req = ''GET'')"
proof -
  have "all_ok (request_ok ops token mode) t"
    by (rule keepsD [OF sentry_main_keeps _ run]) (simp add: start)
  with req have "request_ok ops token mode req" by (simp add: list_all_iff)
  moreover have "r_method req = ''GET''" if "mode = ''audit''" "request_ok ops token mode req"
    using that by (auto simp: request_ok_def api_request_ok_def probe_request_ok_def)
  ultimately show ?thesis by (auto simp: request_ok_def)
qed

theorem sentry_requests_confined_witness:
  "\<exists>r t req. sentry_main sample_ops ''t'' ''audit'' sample_start = (r, t) \<and> req \<in> set (requests t) \<and> r_method req = ''GET''"
proof -
  obtain r s where run: "sentry_main sample_ops ''t'' ''audit'' sample_start = (Inr r, s)"
    and urls: "map r_url (requests s) = [''https://sentry.io/api/0/projects/ka-chiu-lee/omofly/'', ''https://sentry.io/api/0/projects/ka-chiu-lee/daishu/'']"
    by (rule sample_run_cases)
  from urls obtain req reqs where "requests s = req # reqs" by (cases "requests s") auto
  then have "req \<in> set (requests s)" by simp
  with sentry_requests_confined [OF run _ this] run show ?thesis by (auto simp: sample_start_def)
qed



text \<open>The change is enough and no more: a project whose settings are updated with the desired settings is
  ready, and nothing is desired exactly when it is ready.\<close>

theorem desired_settings_repair:
  "dict_get (safe_settings_report (dict_update project (desired_settings project))) ''raw_logging_ready'' = PBool True
   \<and> (desired_settings project = [] \<longleftrightarrow> dict_get (safe_settings_report project) ''raw_logging_ready'' = PBool True)"
proof -
  have ready: "dict_get (safe_settings_report d) ''raw_logging_ready''
      = PBool (list_all (\<lambda>(f, v). setting_value d f = v) FIXED_SETTINGS \<and> advanced_rules_disabled d)" for d
    by (simp add: safe_settings_report_def Let_def dict_get_def list_all_iff setting_matches_def split_beta)
  have keep: "setting_value (dict_update d e) f = setting_value d f" if "f \<notin> fst ` set e" "''options'' \<notin> fst ` set e" for d e f
    using that by (cases "map_of d f") (simp_all add: setting_value_def dict_get_default_def map_of_update_other)
  have given: "setting_value (dict_update d e) f = v" if "map_of e f = Some v" "distinct (map fst e)" for d e f v
    using map_of_update_given [OF that] by (simp add: setting_value_def)
  let ?e = "desired_settings project"
  have dist: "distinct (map fst ?e)" "''options'' \<notin> fst ` set ?e"
    by (auto simp: desired_settings_def FIXED_SETTINGS_def)
  have "setting_value (dict_update project ?e) f = v" if "(f, v) \<in> set FIXED_SETTINGS" for f v
  proof (cases "setting_value project f = v")
    case True
    then have "f \<notin> fst ` set ?e" using that by (auto simp: desired_settings_def FIXED_SETTINGS_def setting_matches_def)
    with keep dist(2) True show ?thesis by simp
  next
    case False
    then have "map_of ?e f = Some v" using that dist(1)
      by (intro map_of_is_SomeI) (auto simp: desired_settings_def setting_matches_def)
    with given dist show ?thesis by blast
  qed
  moreover have "advanced_rules_disabled (dict_update project ?e)"
  proof (cases "advanced_rules_disabled project")
    case True
    then have "''relayPiiConfig'' \<notin> fst ` set ?e" by (auto simp: desired_settings_def FIXED_SETTINGS_def)
    then have "advanced_rules_disabled (dict_update project ?e) = advanced_rules_disabled project"
      using keep dist(2)
      by (simp only: advanced_rules_disabled_def has_key_map_of dict_get_default_def map_of_update_other simp_thms)
    with True show ?thesis by simp
  next
    case False
    then have e: "map_of ?e ''relayPiiConfig'' = Some (PStr [])" using dist(1)
      by (intro map_of_is_SomeI) (auto simp: desired_settings_def)
    then have "has_key (dict_update project ?e) ''relayPiiConfig''"
      by (simp add: has_key_map_of map_of_update_given dist(1))
    with given [OF e dist(1)] show ?thesis by (simp add: advanced_rules_disabled_def text_strip_plain)
  qed
  ultimately show ?thesis
    by (auto simp: ready desired_settings_def list_all_iff filter_empty_conv setting_matches_def)
qed

end
