(* ===== verification/Symbolication_Probe.thy ===== *)
theory Symbolication_Probe
  imports Sentry_Projects
begin

text \<open>
  \<open>tool/sentry_desktop_symbolication_probe.py\<close>: a controlled address event is prepared from an audited
  upload, sent without the names it is expected to be resolved to, and verified by reading the same event
  back. Reports, events and evidence are JSON values; the files and the path operations are the record
  \<open>path_ops\<close>, the network that of the Sentry client.
\<close>

section \<open>Constants\<close>

definition PROBE_NAME :: string where
  "PROBE_NAME = ''sentry-desktop-symbolication-check''"

definition PROBE_KIND :: string where
  "PROBE_KIND = ''controlled-native-address-not-crash''"

definition FLAVOR_PROJECTS :: "(string \<times> string) list" where
  "FLAVOR_PROJECTS = [(''brand_a'', ''omofly''), (''brand_b'', ''daishu'')]"

definition FORMATS :: "(string \<times> string) list" where
  "FORMATS = [(''linux'', ''elf''), (''macos'', ''dsym''), (''windows'', ''pdb'')]"

definition IMAGE_TYPES :: "(string \<times> string) list" where
  "IMAGE_TYPES = [(''elf'', ''elf''), (''dsym'', ''macho''), (''pdb'', ''pe'')]"

definition ARCHITECTURES :: "(string \<times> string) list" where
  "ARCHITECTURES = [(''x64'', ''x86_64''), (''amd64'', ''x86_64''), (''x86_64'', ''x86_64''), (''arm64'', ''arm64''),
     (''aarch64'', ''arm64''), (''x86'', ''x86''), (''i386'', ''x86'')]"

definition MAX_INPUT_BYTES :: nat where
  "MAX_INPUT_BYTES = 4 * 1024 * 1024"

definition MAX_ADDRESS :: int where
  "MAX_ADDRESS = 2 ^ 64 - 1"

definition IMAGE_ADDRESS :: int where
  "IMAGE_ADDRESS = 0x100000000"

section \<open>Checked values\<close>

definition read_json :: "(bytes \<Rightarrow> pyval option) \<Rightarrow> bytes option \<Rightarrow> exn + pydict" where
  "read_json parse content = (case content of
      None \<Rightarrow> safe_error ''input_json_unavailable_or_invalid''
    | Some data \<Rightarrow> if MAX_INPUT_BYTES < length data then safe_error ''input_too_large''
        else (case parse data of
            None \<Rightarrow> safe_error ''input_json_unavailable_or_invalid''
          | Some (PDict d) \<Rightarrow> Inr d
          | Some _ \<Rightarrow> safe_error ''input_must_be_json_object''))"

definition label_char :: "char \<Rightarrow> bool" where
  "label_char c \<longleftrightarrow> is_alnum c \<or> c \<in> set ''_.+-''"

definition label :: "pyval \<Rightarrow> string \<Rightarrow> exn + string" where
  "label v field = (case v of
      PStr s \<Rightarrow> if 1 \<le> length s \<and> length s \<le> 120 \<and> list_all label_char s \<and> s \<noteq> ''.'' \<and> s \<noteq> ''..''
        then Inr s else safe_error (''invalid_'' @ field)
    | _ \<Rightarrow> safe_error (''invalid_'' @ field))"

definition re_hex :: regex where
  "re_hex = RClass False [(97, 102), (65, 70), (48, 57)]"

definition re_debug_id :: regex where
  "re_debug_id = rseqs [rtimes 8 re_hex, rtimes 3 (RSeq (rlit ''-'') (rtimes 4 re_hex)), rlit ''-'', rtimes 12 re_hex,
     ropt (RSeq (rlit ''-'') (RSeq re_hex (rupto 7 re_hex)))]"

definition debug_id :: "pyval \<Rightarrow> exn + string" where
  "debug_id v = (case v of
      PStr s \<Rightarrow> if \<not> fullmatch re_debug_id s \<or> list_all (\<lambda>c. c = CHR ''0'') (remove_char (CHR ''-'') (take 36 s))
        then safe_error ''invalid_debug_identifier'' else Inr (remove_suffix ''-0'' (lower_text s))
    | _ \<Rightarrow> safe_error ''invalid_debug_identifier'')"

definition address :: "pyval \<Rightarrow> exn + int" where
  "address v = (case (case v of PStr s \<Rightarrow> int_literal s | PInt i \<Rightarrow> Some i | _ \<Rightarrow> None) of
      None \<Rightarrow> safe_error ''invalid_address''
    | Some n \<Rightarrow> if 0 \<le> n \<and> n \<le> MAX_ADDRESS then Inr n else safe_error ''invalid_address'')"

definition architecture :: "pyval \<Rightarrow> exn + string" where
  "architecture v = (case v of
      PStr s \<Rightarrow> (case map_of ARCHITECTURES s of None \<Rightarrow> safe_error ''unsupported_architecture'' | Some a \<Rightarrow> Inr a)
    | _ \<Rightarrow> safe_error ''unsupported_architecture'')"

definition safe_basename :: "pyval \<Rightarrow> exn + string" where
  "safe_basename v = (case v of
      PStr s \<Rightarrow> if \<not> (1 \<le> length s \<and> length s \<le> 255) \<or> s = ''.'' \<or> s = ''..''
          \<or> CHR ''/'' \<in> set s \<or> CHR 0x5C \<in> set s \<or> CHR '':'' \<in> set s \<or> list_ex (\<lambda>c. ord c < 32) s
        then safe_error ''invalid_artifact_basename'' else Inr s
    | _ \<Rightarrow> safe_error ''invalid_artifact_basename'')"

definition expected_function :: "pyval \<Rightarrow> exn + string" where
  "expected_function v = (case v of
      PStr s \<Rightarrow> if \<not> (1 \<le> length s \<and> length s \<le> 256) \<or> text_strip s = [] \<or> list_ex (\<lambda>c. ord c < 32) s
          \<or> CHR ''/'' \<in> set s \<or> CHR 0x5C \<in> set s
        then safe_error ''invalid_expected_function'' else Inr s
    | _ \<Rightarrow> safe_error ''invalid_expected_function'')"

definition expected_location :: "pyval \<Rightarrow> pyval \<Rightarrow> pyval \<Rightarrow> exn + pydict" where
  "expected_location function source_file line =
     rbind (expected_function function) (\<lambda>f.
     rbind (label source_file ''expected_file_basename'') (\<lambda>b. case line of
       PInt n \<Rightarrow> if 0 \<le> n \<and> n \<le> 10000000
         then Inr [(''function_contains'', PStr f), (''file_basename'', PStr b), (''line'', PInt n)]
         else safe_error ''invalid_expected_line''
     | _ \<Rightarrow> safe_error ''invalid_expected_line''))"

section \<open>Artifacts\<close>

record path_ops =
  content_at :: "string \<Rightarrow> bytes option"
  is_absolute :: "string \<Rightarrow> bool"
  resolve_root :: "string \<Rightarrow> string"
  resolve_in :: "string \<Rightarrow> string \<Rightarrow> string"
  is_inside :: "string \<Rightarrow> string \<Rightarrow> bool"
  is_file_at :: "string \<Rightarrow> bool"
  base_of :: "string \<Rightarrow> string"
  sha256_of :: "bytes \<Rightarrow> string"
  parse_json :: "bytes \<Rightarrow> pyval option"
  aware_time :: "string \<Rightarrow> bool"

definition read_object :: "path_ops \<Rightarrow> string \<Rightarrow> exn + pydict" where
  "read_object p path = read_json (parse_json p) (content_at p path)"

definition fingerprint :: "path_ops \<Rightarrow> string \<Rightarrow> exn + pydict" where
  "fingerprint p path = (case content_at p path of
      None \<Rightarrow> safe_error ''artifact_unavailable''
    | Some data \<Rightarrow> Inr [(''name'', PStr (base_of p path)), (''bytes'', PInt (int (length data))), (''sha256'', PStr (sha256_of p data))])"

definition checked_fingerprint :: "path_ops \<Rightarrow> string \<Rightarrow> pyval \<Rightarrow> exn + pydict" where
  "checked_fingerprint p path expected =
     rbind (fingerprint p path) (\<lambda>actual.
       if \<not> is_dict expected \<or> \<not> py_eq (PDict actual) expected then safe_error ''artifact_does_not_match_uploaded_evidence''
       else rbind (safe_basename (dict_get actual ''name'')) (\<lambda>_. Inr actual))"

text \<open>The arguments of \<open>emit\<close>; those a selection replaces hold values of any kind afterwards.\<close>

record probe_args =
  a_selection :: "string option"
  a_evidence :: string
  a_build_root :: string
  a_binary :: "string option"
  a_symbols :: "string option"
  a_target :: pyval
  a_architecture :: pyval
  a_relative_address :: pyval
  a_image_size :: pyval
  a_image_vmaddr :: pyval
  a_expected_function :: pyval
  a_expected_file :: pyval
  a_expected_line :: pyval

definition selected_path :: "path_ops \<Rightarrow> string \<Rightarrow> pydict \<Rightarrow> pydict \<Rightarrow> string \<Rightarrow> exn + string" where
  "selected_path p root selected module key =
     (case dict_get_default selected (key @ ''_path'') (dict_get module (key @ ''_path'')) of
        PStr v \<Rightarrow>
          if v = [] \<or> is_absolute p v then safe_error ''selection_relative_artifact_path_required''
          else (let path = resolve_in p root v in
            if \<not> is_inside p root path \<or> \<not> is_file_at p path
            then safe_error ''selection_artifact_outside_build_root_or_missing'' else Inr path)
      | _ \<Rightarrow> safe_error ''selection_relative_artifact_path_required'')"

definition selection_bad :: "pydict \<Rightarrow> exn + bool" where
  "selection_bad selected =
     (if \<not> py_eq_int (dict_get selected ''schema_version'') 1 then Inr True
      else rbind (member_of (dict_get selected ''platform'') (map fst FORMATS)) (\<lambda>known.
        Inr (\<not> known \<or> \<not> is_dict (dict_get selected ''module'') \<or> \<not> is_dict (dict_get selected ''frame'')
          \<or> \<not> is_dict (dict_get selected ''expected'')
          \<or> dict_get (items_of (dict_get selected ''frame'')) ''addr_mode'' \<noteq> PStr ''rel:0'')))"

definition selection_arguments :: "path_ops \<Rightarrow> probe_args \<Rightarrow> exn + (probe_args \<times> pydict option)" where
  "selection_arguments p a = (case a_selection a of
      None \<Rightarrow>
        if a_binary a = None \<or> a_symbols a = None \<or> PNone \<in> set [a_target a, a_architecture a, a_relative_address a,
             a_image_size a, a_expected_function a, a_expected_file a, a_expected_line a]
        then safe_error ''selection_or_explicit_module_arguments_required'' else Inr (a, None)
    | Some path \<Rightarrow>
        rbind (read_object p path) (\<lambda>selected.
        rbind (selection_bad selected) (\<lambda>bad.
        if bad then safe_error ''invalid_symbolication_selection''
        else (let module = items_of (dict_get selected ''module''); frame = items_of (dict_get selected ''frame'');
                  expected = items_of (dict_get selected ''expected''); root = resolve_root p (a_build_root a) in
          rbind (selected_path p root selected module ''binary'') (\<lambda>b.
          rbind (selected_path p root selected module ''symbols'') (\<lambda>s.
            Inr (a\<lparr>a_target := dict_get module ''target'', a_architecture := dict_get module ''architecture'',
                a_relative_address := dict_get frame ''instruction_addr'', a_image_size := dict_get module ''image_size'',
                a_image_vmaddr := dict_get_default module ''image_vmaddr'' (PStr ''0x0''),
                a_expected_function := dict_get expected ''function'', a_expected_file := dict_get expected ''filename'',
                a_expected_line := dict_get expected ''lineno'', a_binary := Some b, a_symbols := Some s\<rparr>,
              Some selected)))))))"

section \<open>The report\<close>

definition evidence_bad :: "pydict \<Rightarrow> exn + bool" where
  "evidence_bad e =
     (if \<not> py_eq_int (dict_get e ''schema_version'') 1 \<or> dict_get e ''status'' \<noteq> PStr ''uploaded_and_processed'' then Inr True
      else rbind (member_of (dict_get e ''platform'') (map fst FORMATS)) (\<lambda>platform.
        if \<not> platform then Inr True
        else rbind (member_of (dict_get e ''flavor'') (map fst FLAVOR_PROJECTS)) (\<lambda>flavor. Inr (\<not> flavor))))"

definition item_architectures :: "pydict \<Rightarrow> exn + string list" where
  "item_architectures item =
     (case (if has_key item ''architecture'' then PList [dict_get item ''architecture'']
            else dict_get_default item ''architectures'' (PList [])) of
        PList vs \<Rightarrow> traverse architecture vs
      | _ \<Rightarrow> safe_error ''invalid_native_architecture_inventory'')"

definition add_candidate :: "pyval \<Rightarrow> string \<Rightarrow> pydict list \<Rightarrow> pyval \<Rightarrow> exn + pydict list" where
  "add_candidate target arch found v = (case v of
      PDict item \<Rightarrow>
        if \<not> py_eq (dict_get item ''target'') target then Inr found
        else rbind (item_architectures item) (\<lambda>arches. Inr (if arch \<in> set arches then found @ [item] else found))
    | _ \<Rightarrow> Inr found)"

definition unique_item :: "pydict \<Rightarrow> pyval \<Rightarrow> string \<Rightarrow> exn + pydict" where
  "unique_item evidence target arch = (case dict_get evidence ''native'' of
      PList native \<Rightarrow> rbind (foldE (add_candidate target arch) [] native) (\<lambda>found. case found of
          [item] \<Rightarrow> Inr item | _ \<Rightarrow> safe_error ''native_target_architecture_not_unique'')
    | _ \<Rightarrow> safe_error ''native_symbol_inventory_missing'')"

definition module_addresses :: "probe_args \<Rightarrow> exn + (int \<times> int \<times> int)" where
  "module_addresses a =
     rbind (address (a_relative_address a)) (\<lambda>offset. rbind (address (a_image_size a)) (\<lambda>extent.
     rbind (address (a_image_vmaddr a)) (\<lambda>vmaddr.
       if \<not> (0 < offset \<and> offset < extent) \<or> MAX_ADDRESS < IMAGE_ADDRESS + extent
       then safe_error ''address_outside_module'' else Inr (offset, extent, vmaddr))))"

definition selection_agrees :: "pydict option \<Rightarrow> pydict \<Rightarrow> pydict \<Rightarrow> exn + unit" where
  "selection_agrees selected evidence img = (case selected of
      None \<Rightarrow> Inr ()
    | Some sel \<Rightarrow> (let module = items_of (dict_get sel ''module'') in
        if dict_get sel ''platform'' \<noteq> dict_get evidence ''platform'' then safe_error ''selection_does_not_match_uploaded_module''
        else rbind (debug_id (dict_get module ''debug_id'')) (\<lambda>d.
          if PStr d \<noteq> dict_get img ''debug_id'' \<or> dict_get module ''code_file'' \<noteq> dict_get img ''code_file''
             \<or> dict_get module ''debug_file'' \<noteq> dict_get img ''debug_file''
          then safe_error ''selection_does_not_match_uploaded_module'' else Inr ())))"

definition re_code_id :: regex where
  "re_code_id = RSeq (rtimes 8 re_hex) (rupto 120 re_hex)"

definition image_code_id :: "string \<Rightarrow> pydict \<Rightarrow> string \<Rightarrow> exn + pydict" where
  "image_code_id image_type item debug =
     (if image_type = ''elf'' then
        (case dict_get item ''build_id'' of
           PStr b \<Rightarrow> if fullmatch re_code_id b then Inr [(''code_id'', PStr (lower_text b))] else safe_error ''elf_build_identifier_missing''
         | _ \<Rightarrow> safe_error ''elf_build_identifier_missing'')
      else if image_type = ''macho'' then Inr [(''code_id'', PStr (remove_char (CHR ''-'') debug))]
      else Inr [])"

definition hex_int :: "int \<Rightarrow> string" where
  "hex_int n = py_hex (nat n)"

definition image_entry :: "string \<Rightarrow> string \<Rightarrow> pydict \<Rightarrow> pydict \<Rightarrow> string \<Rightarrow> int \<Rightarrow> int \<Rightarrow> pydict" where
  "image_entry image_type debug binary symbols arch extent vmaddr =
     [(''type'', PStr image_type), (''debug_id'', PStr debug), (''code_file'', dict_get binary ''name''),
      (''debug_file'', dict_get symbols ''name''), (''arch'', PStr arch), (''image_addr'', PStr (hex_int IMAGE_ADDRESS)),
      (''image_size'', PInt extent), (''image_vmaddr'', PStr (hex_int vmaddr))]"

definition build_metadata :: "pydict \<Rightarrow> exn + pydict" where
  "build_metadata evidence =
     foldE (\<lambda>r field. if has_key evidence field
         then rbind (label (dict_get evidence field) field) (\<lambda>v. Inr (r @ [(field, PStr v)])) else Inr r)
       [] [''product_version'', ''build_number'', ''source_revision'']"

text \<open>\<open>isinstance(v, list) and len(v) == 1\<close>, with the element.\<close>

definition single_element :: "pyval \<Rightarrow> pyval option" where
  "single_element v = (case v of PList [x] \<Rightarrow> Some x | _ \<Rightarrow> None)"

text \<open>The image of the report, from the evidence and the artifacts.\<close>

definition probe_image ::
    "path_ops \<Rightarrow> probe_args \<Rightarrow> pydict option \<Rightarrow> pydict \<Rightarrow> exn + (pydict \<times> pydict \<times> pydict \<times> int)" where
  "probe_image p a selected evidence =
     (let platform = (case dict_get evidence ''platform'' of PStr s \<Rightarrow> s | _ \<Rightarrow> []) in
      rbind (architecture (a_architecture a)) (\<lambda>arch.
      rbind (unique_item evidence (a_target a) arch) (\<lambda>item.
      if map_option PStr (map_of FORMATS platform) \<noteq> Some (dict_get item ''format'') then safe_error ''unexpected_desktop_symbol_format''
      else (case single_element (dict_get item ''debug_ids'') of
        Some ident \<Rightarrow>
          rbind (checked_fingerprint p (the (a_binary a)) (dict_get item ''binary'')) (\<lambda>binary.
          rbind (checked_fingerprint p (the (a_symbols a)) (dict_get item ''symbols'')) (\<lambda>symbols.
          rbind (module_addresses a) (\<lambda>(offset, extent, vmaddr).
          rbind (debug_id ident) (\<lambda>debug.
            (let image_type = the (map_of IMAGE_TYPES (the (map_of FORMATS platform)));
                 img = image_entry image_type debug binary symbols arch extent vmaddr in
             rbind (selection_agrees selected evidence img) (\<lambda>_.
             rbind (image_code_id image_type item debug) (\<lambda>code. Inr (img @ code, binary, symbols, offset))))))))
      | None \<Rightarrow> safe_error ''exactly_one_native_debug_identifier_required''))))"

definition report_fields ::
    "string \<Rightarrow> bool \<Rightarrow> pyval \<Rightarrow> pyval \<Rightarrow> string \<Rightarrow> string \<Rightarrow> string \<Rightarrow> pyval \<Rightarrow> pydict \<Rightarrow> pydict \<Rightarrow> pydict \<Rightarrow> int \<Rightarrow> pydict \<Rightarrow> pydict" where
  "report_fields status sent flavor platform event_id now target proof_sha binary symbols img offset expected =
     [(''schema_version'', PInt 1), (''kind'', PStr PROBE_KIND), (''native_crash_test'', PBool False),
      (''device_capture_verified'', PBool False), (''status'', PStr status), (''sent'', PBool sent),
      (''organization'', PStr ORGANIZATION),
      (''project'', PStr (case flavor of PStr f \<Rightarrow> the (map_of FLAVOR_PROJECTS f) | _ \<Rightarrow> [])),
      (''flavor'', flavor), (''platform'', platform), (''environment'', PStr PROBE_NAME), (''event_id'', PStr event_id),
      (''created_at'', PStr now), (''target'', PStr target), (''symbol_evidence_sha256'', proof_sha),
      (''binary'', PDict binary), (''symbols'', PDict symbols), (''image'', PDict img),
      (''relative_address'', PStr (hex_int offset)), (''instruction_address'', PStr (hex_int (IMAGE_ADDRESS + offset))),
      (''expected'', PDict expected)]"

definition make_report :: "path_ops \<Rightarrow> string \<Rightarrow> string \<Rightarrow> probe_args \<Rightarrow> exn + pydict" where
  "make_report p event_id now args =
     rbind (selection_arguments p args) (\<lambda>(a, selected).
     rbind (read_object p (a_evidence a)) (\<lambda>evidence.
     rbind (evidence_bad evidence) (\<lambda>bad.
     if bad then safe_error ''successful_desktop_symbol_upload_evidence_required''
     else rbind (probe_image p a selected evidence) (\<lambda>(img, binary, symbols, offset).
       rbind (label (a_target a) ''target'') (\<lambda>target.
       rbind (fingerprint p (a_evidence a)) (\<lambda>proof_file.
       rbind (expected_location (a_expected_function a) (a_expected_file a) (a_expected_line a)) (\<lambda>expected.
       rbind (build_metadata evidence) (\<lambda>metadata.
         Inr (report_fields ''prepared'' False (dict_get evidence ''flavor'') (dict_get evidence ''platform'') event_id now target
           (dict_get proof_file ''sha256'') binary symbols img offset expected @ metadata)))))))))"

section \<open>The event\<close>

definition sub :: "pydict \<Rightarrow> string \<Rightarrow> pydict" where
  "sub d key = items_of (dict_get d key)"

definition make_event :: "pydict \<Rightarrow> pydict" where
  "make_event r =
     [(''event_id'', dict_get r ''event_id''), (''timestamp'', dict_get r ''created_at''), (''platform'', PStr ''native''),
      (''level'', PStr ''error''), (''environment'', PStr PROBE_NAME),
      (''message'', PStr ''Controlled desktop native address symbolication check (not a crash)''),
      (''tags'', PDict [(''xflclash.probe_kind'', PStr PROBE_KIND), (''xflclash.probe_id'', dict_get r ''event_id''),
         (''xflclash.probe_platform'', dict_get r ''platform'')]),
      (''fingerprint'', PList [PStr PROBE_KIND, dict_get r ''platform'', dict_get (sub r ''image'') ''debug_id'']),
      (''debug_meta'', PDict [(''images'', PList [PDict (sub r ''image'')])]),
      (''exception'', PDict [(''values'', PList [PDict [(''type'', PStr ''ControlledNativeAddressProbe''),
         (''value'', PStr ''Synthetic address event; native capture and stack walking are not tested''),
         (''mechanism'', PDict [(''type'', PStr ''generic''), (''handled'', PBool True), (''synthetic'', PBool True)]),
         (''stacktrace'', PDict [(''frames'', PList [PDict [(''platform'', PStr ''native''), (''in_app'', PBool True),
            (''instruction_addr'', dict_get r ''instruction_address''), (''image_addr'', dict_get (sub r ''image'') ''image_addr''),
            (''package'', dict_get (sub r ''image'') ''code_file''), (''trust'', PStr ''context'')]])])]])])]"

definition event_headers :: "string \<Rightarrow> (string \<times> string) list" where
  "event_headers key = [(''Content-Type'', ''application/x-sentry-envelope''),
     (''X-Sentry-Auth'', ''Sentry sentry_version=7, sentry_key='' @ key @ '', sentry_client=xflclash-native-address-probe/1.0'')]"

definition event_envelope :: "(pyval \<Rightarrow> string) \<Rightarrow> pydict \<Rightarrow> string" where
  "event_envelope dump r = join [char_of (10 :: nat)]
     [dump (PDict [(''event_id'', dict_get r ''event_id''), (''sent_at'', dict_get r ''created_at'')]),
      dump (PDict [(''type'', PStr ''event''), (''content_type'', PStr ''application/json'')]),
      dump (PDict (make_event r)), []]"

definition ingest_result :: "string \<Rightarrow> response \<Rightarrow> exn + unit" where
  "ingest_result endpoint r = (case r of
      Answer origin content \<Rightarrow> if origin \<noteq> endpoint then safe_error ''unexpected_ingest_redirect'' else Inr ()
    | HttpStatus code location \<Rightarrow> raise (SafeError (Some code) None) ''ingest_http_error''
    | Unreachable \<Rightarrow> safe_error ''ingest_network_error''
    | Broken e \<Rightarrow> Inl e)"

definition send_event :: "'w sentry_ops \<Rightarrow> path_ops \<Rightarrow> string \<Rightarrow> pydict \<Rightarrow> ('w session, unit) cmd" where
  "send_event ops p defines_path r =
     seq (lift_result (read_object p defines_path)) (\<lambda>d.
     if \<not> py_eq (dict_get d ''XB_FLAVOR_ID'') (dict_get r ''flavor'')
        \<or> lower_text (py_str (dict_get_default d ''XB_DEBUG'' (PStr []))) \<noteq> ''false''
     then throw_safe ''matching_production_defines_required''
     else (case dict_get d ''XB_SENTRY_DSN'' of
       PStr dsn \<Rightarrow>
         seq (lift_result (parse_public_dsn (ipv6_ok ops) (PStr dsn) (last_part (CHR ''/'') dsn))) (\<lambda>(endpoint, key).
         seq (open_request ops \<lparr>r_url = endpoint, r_method = ''POST'', r_body = Some (event_envelope (dumps ops) r),
             r_headers = event_headers key\<rparr>) (\<lambda>answer.
           lift_result (ingest_result endpoint answer)))
     | _ \<Rightarrow> throw_safe ''production_dsn_missing''))"

section \<open>Validation of a report\<close>

definition report_required :: "string list" where
  "report_required = [''schema_version'', ''kind'', ''native_crash_test'', ''device_capture_verified'', ''status'', ''sent'',
     ''organization'', ''project'', ''flavor'', ''platform'', ''environment'', ''event_id'', ''created_at'',
     ''target'', ''symbol_evidence_sha256'', ''binary'', ''symbols'', ''image'', ''relative_address'',
     ''instruction_address'', ''expected'']"

definition report_optional :: "string list" where
  "report_optional = [''product_version'', ''build_number'', ''source_revision'', ''verification'', ''verified_at'', ''error'']"

definition image_required :: "string list" where
  "image_required = [''type'', ''debug_id'', ''code_file'', ''debug_file'', ''arch'', ''image_addr'', ''image_size'', ''image_vmaddr'']"

definition keys_within :: "string list \<Rightarrow> string list \<Rightarrow> pydict \<Rightarrow> bool" where
  "keys_within required optional d \<longleftrightarrow>
     list_all (has_key d) required \<and> list_all (\<lambda>(k, _). k \<in> set required \<or> k \<in> set optional) d"

definition check :: "bool \<Rightarrow> string \<Rightarrow> exn + unit" where
  "check ok code = (if ok then Inr () else safe_error code)"

lemma check_ok [simp]: "check ok code = Inr u \<longleftrightarrow> ok"
  by (simp add: check_def)

definition lower_hex_class :: regex where
  "lower_hex_class = RClass False [(48, 57), (97, 102)]"

definition validate_identity :: "pydict \<Rightarrow> exn + unit" where
  "validate_identity r =
     rbind (check (py_eq_int (dict_get r ''schema_version'') 1 \<and> dict_get r ''kind'' = PStr PROBE_KIND
         \<and> dict_get r ''native_crash_test'' = PBool False \<and> dict_get r ''device_capture_verified'' = PBool False
         \<and> dict_get r ''organization'' = PStr ORGANIZATION) ''invalid_probe_report'') (\<lambda>_.
     rbind (member_of (dict_get r ''flavor'') (map fst FLAVOR_PROJECTS)) (\<lambda>flavor.
     rbind (check (flavor \<and> (case dict_get r ''flavor'' of
           PStr f \<Rightarrow> dict_get r ''project'' = PStr (the (map_of FLAVOR_PROJECTS f)) | _ \<Rightarrow> False)
         \<and> dict_get r ''environment'' = PStr PROBE_NAME) ''invalid_probe_report'') (\<lambda>_.
     rbind (member_of (dict_get r ''platform'') (map fst FORMATS)) (\<lambda>platform.
     check (platform \<and> fullmatch (rtimes 32 lower_hex_class) (py_str (dict_get_default r ''event_id'' (PStr [])))
         \<and> dict_get r ''status'' \<in> set [PStr ''sent'', PStr ''emit_failed'', PStr ''verification_failed'', PStr ''verified'']
         \<and> dict_get r ''sent'' \<in> {PBool True, PBool False}) ''invalid_probe_report''))))"

definition time_ok :: "(string \<Rightarrow> bool) \<Rightarrow> pydict \<Rightarrow> string \<Rightarrow> bool" where
  "time_ok aware r field \<longleftrightarrow>
     (case map_of r field of None \<Rightarrow> True | Some (PStr t) \<Rightarrow> aware t | Some _ \<Rightarrow> False)"

definition artifact_ok :: "pydict \<Rightarrow> string \<Rightarrow> exn + unit" where
  "artifact_ok r field = (case dict_get r field of
      PDict v \<Rightarrow>
        if list_all (has_key v) [''name'', ''bytes'', ''sha256''] \<and> list_all (\<lambda>(k, _). k \<in> set [''name'', ''bytes'', ''sha256'']) v
           \<and> (case dict_get v ''bytes'' of PInt n \<Rightarrow> 0 < n | _ \<Rightarrow> False)
           \<and> fullmatch (rtimes 64 lower_hex_class) (py_str (dict_get v ''sha256''))
        then rbind (safe_basename (dict_get v ''name'')) (\<lambda>_. Inr ()) else safe_error ''invalid_artifact_fingerprint''
    | _ \<Rightarrow> safe_error ''invalid_artifact_fingerprint'')"

definition re_version :: regex where
  "re_version = rseqs [rplus rdigit, rlit ''.'', rplus rdigit, rlit ''.'', rplus rdigit,
     ropt (RSeq (RClass False [(46, 46), (43, 43), (45, 45)])
       (rplus (RClass False [(65, 90), (97, 122), (48, 57), (46, 46), (45, 45)])))]"

definition metadata_patterns :: "(string \<times> regex) list" where
  "metadata_patterns = [(''product_version'', re_version), (''build_number'', rplus rdigit),
     (''source_revision'', RSeq (rtimes 7 re_hex) (rupto 57 re_hex))]"

definition metadata_ok :: "pydict \<Rightarrow> string \<times> regex \<Rightarrow> bool" where
  "metadata_ok r p = (case map_of r (fst p) of
      None \<Rightarrow> True | Some (PStr s) \<Rightarrow> fullmatch (snd p) s | Some _ \<Rightarrow> False)"

definition image_shape :: "pydict \<Rightarrow> exn + unit" where
  "image_shape img =
     rbind (check (keys_within image_required [''code_id''] img) ''unexpected_debug_image_fields'') (\<lambda>_.
     check (case map_of img ''code_id'' of
         None \<Rightarrow> True | Some (PStr c) \<Rightarrow> fullmatch re_code_id c | Some _ \<Rightarrow> False) ''invalid_image_code_identifier'')"

definition addresses_ok :: "pydict \<Rightarrow> pydict \<Rightarrow> exn + unit" where
  "addresses_ok r img =
     rbind (address (dict_get img ''image_vmaddr'')) (\<lambda>_.
     rbind (address (dict_get r ''relative_address'')) (\<lambda>offset.
     if \<not> 0 < offset then safe_error ''address_outside_module''
     else rbind (address (dict_get img ''image_size'')) (\<lambda>extent.
     rbind (check (offset < extent) ''address_outside_module'') (\<lambda>_.
     rbind (address (dict_get r ''instruction_address'')) (\<lambda>instruction.
     rbind (address (dict_get img ''image_addr'')) (\<lambda>base.
       check (instruction = base + offset) ''inconsistent_report_addresses''))))))"

definition verification_ok :: "pyval \<Rightarrow> bool" where
  "verification_ok v = (case v of
      PDict d \<Rightarrow>
        (let bools = [''probe_received'', ''debug_image_matches_uploaded_module'', ''server_symbolication_verified'']; all_keys = ''resolved_expected_frame_count'' # bools in
         list_all (has_key d) all_keys \<and> list_all (\<lambda>(k, _). k \<in> set all_keys) d
         \<and> list_all (\<lambda>k. dict_get d k \<in> {PBool True, PBool False}) bools
         \<and> (case dict_get d ''resolved_expected_frame_count'' of PInt n \<Rightarrow> 0 \<le> n \<and> n \<le> 100000 | _ \<Rightarrow> False))
    | _ \<Rightarrow> False)"

definition error_ok :: "pyval \<Rightarrow> bool" where
  "error_ok v = (case v of
      PDict d \<Rightarrow> has_key d ''code'' \<and> list_all (\<lambda>(k, _). k \<in> set [''code'', ''http_status'']) d
        \<and> (case dict_get d ''code'' of
             PStr c \<Rightarrow> 1 \<le> length c \<and> length c \<le> 100 \<and> list_all (\<lambda>c. 97 \<le> ord c \<and> ord c \<le> 122 \<or> c = CHR ''_'') c | _ \<Rightarrow> False)
        \<and> (case map_of d ''http_status'' of None \<Rightarrow> True | Some (PInt n) \<Rightarrow> 100 \<le> n \<and> n \<le> 599 | Some _ \<Rightarrow> False)
    | _ \<Rightarrow> False)"

definition validate_image :: "pydict \<Rightarrow> exn + unit" where
  "validate_image r =
     (let expected = sub r ''expected''; img = sub r ''image'' in
      rbind (check (is_dict (dict_get r ''expected'') \<and> is_dict (dict_get r ''image'')) ''invalid_probe_report'') (\<lambda>_.
      rbind (check (keys_within [''function_contains'', ''file_basename'', ''line''] [] expected) ''unexpected_expected_location_fields'') (\<lambda>_.
      rbind (image_shape img) (\<lambda>_.
      rbind (expected_location (dict_get expected ''function_contains'') (dict_get expected ''file_basename'') (dict_get expected ''line'')) (\<lambda>_.
      rbind (debug_id (dict_get img ''debug_id'')) (\<lambda>_.
      rbind (architecture (dict_get img ''arch'')) (\<lambda>_.
      rbind (check (dict_get img ''type'' = PStr (the (map_of IMAGE_TYPES (the (map_of FORMATS
          (case dict_get r ''platform'' of PStr s \<Rightarrow> s | _ \<Rightarrow> [])))))) ''unexpected_report_image_format'') (\<lambda>_.
      rbind (safe_basename (dict_get img ''code_file'')) (\<lambda>_.
      rbind (safe_basename (dict_get img ''debug_file'')) (\<lambda>_.
      rbind (check (dict_get img ''code_file'' = dict_get (sub r ''binary'') ''name''
          \<and> dict_get img ''debug_file'' = dict_get (sub r ''symbols'') ''name'') ''inconsistent_report_artifact_names'') (\<lambda>_.
        addresses_ok r img)))))))))))"

definition validate_report :: "(string \<Rightarrow> bool) \<Rightarrow> pydict \<Rightarrow> exn + unit" where
  "validate_report aware r =
     rbind (check (keys_within report_required report_optional r) ''unexpected_probe_report_fields'') (\<lambda>_.
     rbind (validate_identity r) (\<lambda>_.
     rbind (check (time_ok aware r ''created_at'' \<and> time_ok aware r ''verified_at'') ''invalid_probe_timestamp'') (\<lambda>_.
     rbind (label (dict_get r ''target'') ''target'') (\<lambda>_.
     rbind (check (fullmatch (rtimes 64 lower_hex_class) (py_str (dict_get_default r ''symbol_evidence_sha256'' (PStr []))))
         ''invalid_symbol_evidence_fingerprint'') (\<lambda>_.
     rbind (artifact_ok r ''binary'') (\<lambda>_.
     rbind (artifact_ok r ''symbols'') (\<lambda>_.
     rbind (check (list_all (metadata_ok r) metadata_patterns) ''invalid_safe_build_metadata'') (\<lambda>_.
     rbind (validate_image r) (\<lambda>_.
     rbind (check (has_key r ''verification'' \<longrightarrow> verification_ok (dict_get r ''verification'')) ''invalid_safe_verification_summary'') (\<lambda>_.
     check (has_key r ''error'' \<longrightarrow> error_ok (dict_get r ''error'')) ''invalid_safe_error_summary''))))))))))"

definition pick :: "pydict \<Rightarrow> string list \<Rightarrow> pydict" where
  "pick d keys = map (\<lambda>k. (k, dict_get d k)) keys"

definition safe_fields :: "string list" where
  "safe_fields = [''schema_version'', ''kind'', ''native_crash_test'', ''device_capture_verified'', ''status'', ''sent'',
     ''organization'', ''project'', ''flavor'', ''platform'', ''environment'', ''event_id'', ''created_at'',
     ''target'', ''symbol_evidence_sha256'', ''relative_address'', ''instruction_address'']"

definition safe_report :: "(string \<Rightarrow> bool) \<Rightarrow> pydict \<Rightarrow> exn + pydict" where
  "safe_report aware r =
     rbind (validate_report aware r) (\<lambda>_.
     (let expected = sub r ''expected''; img = sub r ''image'' in
      rbind (expected_location (dict_get expected ''function_contains'') (dict_get expected ''file_basename'') (dict_get expected ''line'')) (\<lambda>e.
        Inr (pick r safe_fields
          @ pick r (filter (has_key r) [''product_version'', ''build_number'', ''source_revision''])
          @ [(''binary'', PDict (pick (sub r ''binary'') [''name'', ''bytes'', ''sha256''])),
             (''symbols'', PDict (pick (sub r ''symbols'') [''name'', ''bytes'', ''sha256''])),
             (''image'', PDict (pick img (image_required @ filter (has_key img) [''code_id'']))),
             (''expected'', PDict e)]))))"

section \<open>The event read back\<close>

definition value_basename :: "pyval \<Rightarrow> string" where
  "value_basename v = (case v of
      PStr s \<Rightarrow> last_part (CHR ''/'') (map (\<lambda>c. if c = CHR 0x5C then CHR ''/'' else c) s) | _ \<Rightarrow> [])"

definition re_swift_name :: regex where
  "re_swift_name = (let name = RSeq (RClass False [(65, 90), (97, 122), (95, 95)])
       (RStar (RClass False [(65, 90), (97, 122), (48, 57), (95, 95)])) in
     RSeq name (RSeq (rplus (RSeq (rlit ''.'') name)) (rlit ''()'')))"

definition function_matches :: "pyval \<Rightarrow> pydict \<Rightarrow> bool" where
  "function_matches function r = (case (function, dict_get (sub r ''expected'') ''function_contains'') of
      (PStr f, PStr expected) \<Rightarrow>
        contains expected f
        \<or> dict_get r ''platform'' = PStr ''macos''
          \<and> (case dict_get (sub r ''expected'') ''file_basename'' of PStr b \<Rightarrow> ends_with ''.swift'' b | _ \<Rightarrow> False)
          \<and> fullmatch re_swift_name expected \<and> f = take (length expected - 2) expected
    | _ \<Rightarrow> False)"

definition event_tags :: "pydict \<Rightarrow> pydict" where
  "event_tags event = (case dict_get_default event ''tags'' (PList []) of
      PDict d \<Rightarrow> d
    | PList xs \<Rightarrow> fold (\<lambda>x d. case x of PList [PStr k, PStr v] \<Rightarrow> dict_set d k (PStr v) | _ \<Rightarrow> d) xs []
    | _ \<Rightarrow> [])"

definition image_matches :: "pydict \<Rightarrow> pyval \<Rightarrow> exn + bool" where
  "image_matches wanted v = (case v of
      PDict item \<Rightarrow>
        rbind (debug_id (dict_get item ''debug_id'')) (\<lambda>d.
        if PStr d \<noteq> dict_get wanted ''debug_id'' \<or> dict_get item ''type'' \<noteq> dict_get wanted ''type'' then Inr False
        else rbind (architecture (dict_get item ''arch'')) (\<lambda>a.
          if PStr a \<noteq> dict_get wanted ''arch'' \<or> PStr (value_basename (dict_get item ''code_file'')) \<noteq> dict_get wanted ''code_file''
          then Inr False
          else rbind (address (dict_get item ''image_addr'')) (\<lambda>i. rbind (address (dict_get wanted ''image_addr'')) (\<lambda>w.
            Inr (i = w)))))
    | _ \<Rightarrow> Inr False)"

definition frame_matches :: "pydict \<Rightarrow> pyval \<Rightarrow> bool" where
  "frame_matches r v = (case v of
      PDict frame \<Rightarrow>
        (case (address (dict_get frame ''instruction_addr''), address (dict_get r ''instruction_address'')) of
           (Inr i, Inr w) \<Rightarrow>
             i = w \<and> function_matches (dict_get frame ''function'') r
             \<and> PStr (value_basename (if truthy (dict_get frame ''filename'') then dict_get frame ''filename''
                  else dict_get frame ''abs_path'')) = dict_get (sub r ''expected'') ''file_basename''
             \<and> (case dict_get frame ''lineno'' of PInt n \<Rightarrow> 0 < n
                  \<and> (dict_get (sub r ''expected'') ''line'' = PInt 0 \<or> dict_get (sub r ''expected'') ''line'' = PInt n) | _ \<Rightarrow> False)
         | _ \<Rightarrow> False)
    | _ \<Rightarrow> False)"

definition event_frames :: "pydict \<Rightarrow> pyval list" where
  "event_frames event = concat (map (\<lambda>x. elements_of (dict_get_default (items_of (dict_get (items_of x) ''stacktrace'')) ''frames'' (PList [])))
     (elements_of (dict_get_default (items_of (dict_get event ''exception'')) ''values'' (PList []))))"

definition event_images :: "pydict \<Rightarrow> pyval list" where
  "event_images event = elements_of (dict_get_default (items_of (dict_get event ''debug_meta'')) ''images'' (PList []))"

definition check_event :: "pyval \<Rightarrow> pydict \<Rightarrow> exn + pydict" where
  "check_event event r = (case event of
      PDict e \<Rightarrow>
        if dict_get e ''event_id'' \<noteq> dict_get r ''event_id'' \<or> dict_get e ''environment'' \<noteq> PStr PROBE_NAME
           \<or> dict_get e ''platform'' \<noteq> PStr ''native''
        then safe_error ''unexpected_probe_event''
        else if dict_get (event_tags e) ''xflclash.probe_kind'' \<noteq> PStr PROBE_KIND
           \<or> dict_get (event_tags e) ''xflclash.probe_id'' \<noteq> dict_get r ''event_id''
        then safe_error ''probe_identity_not_preserved''
        else (let matched = list_ex (\<lambda>v. image_matches (sub r ''image'') v = Inr True) (event_images e);
                  matches = length (filter (frame_matches r) (event_frames e)) in
          Inr [(''probe_received'', PBool True), (''debug_image_matches_uploaded_module'', PBool matched),
               (''resolved_expected_frame_count'', PInt (int matches)),
               (''server_symbolication_verified'', PBool (matched \<and> 0 < matches))])
    | _ \<Rightarrow> safe_error ''unexpected_probe_event'')"

section \<open>Polling\<close>

text \<open>The codes of \<open>http_error\<close> after which the event is asked for again.\<close>

definition retry_statuses :: "int list" where
  "retry_statuses = [404, 429, 502, 503, 504]"

definition store_report :: "(pydict \<Rightarrow> pydict) \<Rightarrow> ('w session, unit) cmd" where
  "store_report f = updating (\<lambda>s. s\<lparr>report := f (report s)\<rparr>)"

definition check_once :: "'w sentry_ops \<Rightarrow> 'w client \<Rightarrow> string \<Rightarrow> ('w session, unit option) cmd" where
  "check_once ops c path =
     seq (call_api c path ''GET'' None ''event:read'') (\<lambda>event.
     seq (reading report) (\<lambda>r.
     seq (lift_result (check_event event r)) (\<lambda>v.
     seq (store_report (\<lambda>r. dict_set r ''verification'' (PDict v))) (\<lambda>_.
     if dict_get v ''server_symbolication_verified'' = PBool True
     then seq (store_report (\<lambda>r. dict_pop (dict_set r ''status'' (PStr ''verified'')) ''error'')) (\<lambda>_ s.
       (case now_text ops (net s) of (t, w) \<Rightarrow> (Inr (Some ()), s\<lparr>report := dict_set (report s) ''verified_at'' (PStr t), net := w\<rparr>)))
     else ret None))))"

definition verify_attempt :: "'w sentry_ops \<Rightarrow> 'w client \<Rightarrow> string \<Rightarrow> nat \<Rightarrow> int \<Rightarrow> nat \<Rightarrow> ('w session, unit option) cmd" where
  "verify_attempt ops c path attempts interval attempt =
     seq (catch_when (check_once ops c path) is_safe_class
       (\<lambda>e. if exn_message e \<noteq> ''http_error'' \<or> fault_status (exn_class_of e) \<notin> Some ` set retry_statuses
            then lift_result (Inl e) else ret None)) (\<lambda>r.
     case r of Some u \<Rightarrow> ret (Some u)
     | None \<Rightarrow> seq (if attempt + 1 < attempts then pausing ops interval else ret ()) (\<lambda>_. ret None))"

definition event_path :: "pydict \<Rightarrow> exn + string" where
  "event_path r = (case dict_get r ''project'' of
      PStr project \<Rightarrow> rbind (project_path project) (\<lambda>path. case dict_get r ''event_id'' of
          PStr i \<Rightarrow> Inr (path @ ''events/'' @ i @ ''/json/'') | _ \<Rightarrow> raise TypeError ''can only concatenate str'')
    | _ \<Rightarrow> safe_error ''project_not_allowed'')"

definition verify :: "'w sentry_ops \<Rightarrow> (string \<Rightarrow> bool) \<Rightarrow> string \<Rightarrow> nat \<Rightarrow> int \<Rightarrow> ('w session, unit) cmd" where
  "verify ops aware token attempts interval =
     seq (reading report) (\<lambda>r.
     seq (lift_result (validate_report aware r)) (\<lambda>_.
     if text_strip token = [] then throw_safe ''maintenance_token_environment_required''
     else seq (lift_result (client_token token)) (\<lambda>t.
       seq (lift_result (event_path r)) (\<lambda>path.
       seq (try_each (verify_attempt ops (sentry_client ops t) path attempts interval) [0..<attempts]) (\<lambda>found.
         case found of Some u \<Rightarrow> ret u | None \<Rightarrow> throw_safe ''server_symbolication_not_verified_before_timeout'')))))"

section \<open>The command\<close>

text \<open>
  \<open>save\<close> replaces a report file and may fail; the empty report stands for one not made yet.
\<close>

record 'w report_files =
  exists_file :: "string \<Rightarrow> 'w \<Rightarrow> bool"
  save :: "string \<Rightarrow> pydict \<Rightarrow> 'w \<Rightarrow> bool \<times> 'w"

datatype probe_mode =
    Emit probe_args string string bool
  | Verify string "string option" int int

definition write_report :: "'w report_files \<Rightarrow> string \<Rightarrow> pydict \<Rightarrow> ('w session, unit) cmd" where
  "write_report f path r s = (case save f path r (net s) of
      (ok, w) \<Rightarrow> (if ok then Inr () else raise OSError ''report_io_error'', s\<lparr>net := w\<rparr>))"

definition emit_report ::
    "'w sentry_ops \<Rightarrow> path_ops \<Rightarrow> 'w report_files \<Rightarrow> probe_args \<Rightarrow> string \<Rightarrow> string \<Rightarrow> bool \<Rightarrow> ('w session, unit) cmd" where
  "emit_report ops p f args path defines_path dry =
     seq (reading (\<lambda>s. exists_file f path (net s))) (\<lambda>present.
     if present then throw_safe ''report_exists_refusing_duplicate_emission''
     else seq (\<lambda>s. case new_uuid ops (net s) of (i, w) \<Rightarrow> (case now_text ops w of (t, w') \<Rightarrow> (Inr (i, t), s\<lparr>net := w'\<rparr>))) (\<lambda>(i, t).
       seq (lift_result (make_report p i t args)) (\<lambda>r.
       seq (store_report (\<lambda>_. r)) (\<lambda>_.
       seq (write_report f path r) (\<lambda>_.
       if dry then store_report (\<lambda>r. dict_set r ''status'' (PStr ''prepared_offline''))
       else seq (send_event ops p defines_path r) (\<lambda>_.
         store_report (\<lambda>r. dict_update r [(''status'', PStr ''sent''), (''sent'', PBool True)])))))))"

definition verify_file ::
    "'w sentry_ops \<Rightarrow> path_ops \<Rightarrow> string \<Rightarrow> string \<Rightarrow> int \<Rightarrow> int \<Rightarrow> ('w session, unit) cmd" where
  "verify_file ops p token path attempts interval =
     (if \<not> (1 \<le> attempts \<and> attempts \<le> 120) \<or> \<not> (1 \<le> interval \<and> interval \<le> 60) then throw_safe ''invalid_polling_limits''
      else seq (lift_result (rbind (read_object p path) (safe_report (aware_time p)))) (\<lambda>r.
        seq (store_report (\<lambda>_. r)) (\<lambda>_. verify ops (aware_time p) token (nat attempts) interval)))"

definition error_fields :: "exn \<Rightarrow> pydict" where
  "error_fields e = (''code'', PStr (exn_message e))
     # (case fault_status (exn_class_of e) of None \<Rightarrow> [] | Some n \<Rightarrow> [(''http_status'', PInt n)])"

definition probe_destination :: "probe_mode \<Rightarrow> string" where
  "probe_destination m = (case m of Emit args path d dry \<Rightarrow> path
     | Verify path output n i \<Rightarrow> (case output of Some q \<Rightarrow> q | None \<Rightarrow> path))"

definition report_failure :: "'w report_files \<Rightarrow> probe_mode \<Rightarrow> exn \<Rightarrow> ('w session, int) cmd" where
  "report_failure f m e =
     seq (reading report) (\<lambda>r.
     seq (if r \<noteq> []
          then (let failed = dict_update r [(''status'', PStr (case m of Emit a q d y \<Rightarrow> ''emit_failed'' | _ \<Rightarrow> ''verification_failed'')),
                  (''error'', PDict (error_fields e))] in
            seq (store_report (\<lambda>_. failed)) (\<lambda>_. write_report f (probe_destination m) failed))
          else (case m of
              Verify path (Some output) n i \<Rightarrow> write_report f (probe_destination m)
                [(''schema_version'', PInt 1), (''kind'', PStr PROBE_KIND), (''native_crash_test'', PBool False),
                 (''device_capture_verified'', PBool False), (''status'', PStr ''verification_failed''),
                 (''error'', PDict [(''code'', PStr (exn_message e))])]
            | _ \<Rightarrow> ret ())) (\<lambda>_. ret 1))"

definition probe_main ::
    "'w sentry_ops \<Rightarrow> path_ops \<Rightarrow> 'w report_files \<Rightarrow> string \<Rightarrow> probe_mode \<Rightarrow> ('w session, int) cmd" where
  "probe_main ops p f token m =
     catch_when (catch_when
       (seq (case m of
            Emit args path defines_path dry \<Rightarrow> emit_report ops p f args path defines_path dry
          | Verify path output n i \<Rightarrow> verify_file ops p token path n i) (\<lambda>_.
        seq (reading report) (\<lambda>r.
        seq (write_report f (probe_destination m) r) (\<lambda>_. ret 0))))
       (\<lambda>c. c = OSError) (\<lambda>_. ret 1))
       is_safe_class (report_failure f m)"

section \<open>What a verified report stands for\<close>

text \<open>An image of the event that is the module of the report, and a frame at the address that shows what was expected.\<close>

definition resolved_image :: "pydict \<Rightarrow> pydict \<Rightarrow> bool" where
  "resolved_image event r \<longleftrightarrow> (\<exists>item. PDict item \<in> set (event_images event)
     \<and> (\<exists>d a i. debug_id (dict_get item ''debug_id'') = Inr d \<and> PStr d = dict_get (sub r ''image'') ''debug_id''
         \<and> architecture (dict_get item ''arch'') = Inr a \<and> PStr a = dict_get (sub r ''image'') ''arch''
         \<and> address (dict_get item ''image_addr'') = Inr i \<and> address (dict_get (sub r ''image'') ''image_addr'') = Inr i))"

definition resolved_frame :: "pydict \<Rightarrow> pydict \<Rightarrow> bool" where
  "resolved_frame event r \<longleftrightarrow> (\<exists>frame. PDict frame \<in> set (event_frames event)
     \<and> (\<exists>i. address (dict_get frame ''instruction_addr'') = Inr i \<and> address (dict_get r ''instruction_address'') = Inr i)
     \<and> (\<exists>f e. dict_get frame ''function'' = PStr f \<and> dict_get (sub r ''expected'') ''function_contains'' = PStr e
          \<and> (sublist e f \<or> e = f @ ''()'' \<and> dict_get r ''platform'' = PStr ''macos''))
     \<and> (\<exists>n>0. dict_get frame ''lineno'' = PInt n \<and> dict_get (sub r ''expected'') ''line'' \<in> {PInt 0, PInt n}))"

lemma swift_name_end: "fullmatch re_swift_name e \<Longrightarrow> e = take (length e - 2) e @ ''()''"
  by (auto simp: re_swift_name_def Let_def fullmatch_iff matches_Seq simp del: rlit.simps)

lemma image_matches_sound:
  assumes "image_matches (sub r ''image'') v = Inr True" "v \<in> set (event_images event)"
  shows "resolved_image event r"
proof (cases v)
  case (PDict item)
  then show ?thesis using assms
    unfolding resolved_image_def by (intro exI [of _ item]) (auto simp: image_matches_def split: if_splits)
qed (use assms in \<open>simp_all add: image_matches_def\<close>)

lemma function_matches_sound:
  assumes "function_matches v r"
  shows "\<exists>f e. v = PStr f \<and> dict_get (sub r ''expected'') ''function_contains'' = PStr e
     \<and> (sublist e f \<or> e = f @ ''()'' \<and> dict_get r ''platform'' = PStr ''macos'')"
proof -
  from assms obtain f e where fe: "v = PStr f" "dict_get (sub r ''expected'') ''function_contains'' = PStr e"
    by (auto simp: function_matches_def split: pyval.splits)
  with assms have "contains e f \<or> dict_get r ''platform'' = PStr ''macos'' \<and> fullmatch re_swift_name e \<and> f = take (length e - 2) e"
    by (auto simp: function_matches_def)
  then have "sublist e f \<or> e = f @ ''()'' \<and> dict_get r ''platform'' = PStr ''macos''"
    using swift_name_end [of e] by (auto simp: contains_iff)
  with fe show ?thesis by blast
qed

lemma frame_matches_sound:
  assumes "frame_matches r v" "v \<in> set (event_frames event)"
  shows "resolved_frame event r"
proof -
  from assms(1) obtain frame i where f: "v = PDict frame" "address (dict_get frame ''instruction_addr'') = Inr i"
    "address (dict_get r ''instruction_address'') = Inr i" "function_matches (dict_get frame ''function'') r"
    by (auto simp: frame_matches_def split: pyval.splits sum.splits)
  from assms(1) f obtain n where "0 < n" "dict_get frame ''lineno'' = PInt n" "dict_get (sub r ''expected'') ''line'' \<in> {PInt 0, PInt n}"
    by (auto simp: frame_matches_def split: pyval.splits)
  with f function_matches_sound [OF f(4)] assms(2) show ?thesis
    unfolding resolved_frame_def by (intro exI [of _ frame] conjI) auto
qed

lemma check_event_sound:
  assumes "check_event event r = Inr v" "dict_get v ''server_symbolication_verified'' = PBool True"
  shows "\<exists>e. event = PDict e \<and> dict_get e ''event_id'' = dict_get r ''event_id'' \<and> resolved_image e r \<and> resolved_frame e r"
proof -
  from assms obtain e where e: "event = PDict e" "dict_get e ''event_id'' = dict_get r ''event_id''"
    and m: "list_ex (\<lambda>v. image_matches (sub r ''image'') v = Inr True) (event_images e)"
    and f: "0 < length (filter (frame_matches r) (event_frames e))"
    by (cases event) (auto simp: check_event_def Let_def dict_get_def split: if_splits)
  from m image_matches_sound have "resolved_image e r" by (auto simp: list_ex_iff)
  moreover from f obtain v where "v \<in> set (event_frames e)" "frame_matches r v" by (auto simp: filter_empty_conv)
  then have "resolved_frame e r" using frame_matches_sound by blast
  ultimately show ?thesis using e by blast
qed

text \<open>What the polling changes in the report: three keys, none of those the event is compared with.\<close>

definition same_probe :: "pydict \<Rightarrow> pydict \<Rightarrow> bool" where
  "same_probe r r' \<longleftrightarrow> (\<forall>k. k \<notin> {''verification'', ''status'', ''error'', ''verified_at''} \<longrightarrow> map_of r' k = map_of r k)"

lemma same_probe_get: "same_probe r r' \<Longrightarrow> k \<notin> {''verification'', ''status'', ''error'', ''verified_at''} \<Longrightarrow> dict_get r' k = dict_get r k"
  by (simp add: same_probe_def dict_get_def)

lemma same_probe_resolved:
  assumes "same_probe r r'"
  shows "resolved_image e r' = resolved_image e r" "resolved_frame e r' = resolved_frame e r"
  using same_probe_get [OF assms] by (simp_all add: resolved_image_def resolved_frame_def sub_def)

lemma keeps_same_once:
  "keeps (\<lambda>s. same_probe r (report s)) (check_once ops (sentry_client ops token) path)"
proof -
  have store: "keeps (\<lambda>s. same_probe r (report s)) (store_report f)" if "\<And>d. same_probe r d \<Longrightarrow> same_probe r (f d)" for f
    using that by (simp add: keeps_def store_report_def updating_def)
  have last: "keeps (\<lambda>s. same_probe r (report s)) (\<lambda>s. case now_text ops (net s) of (t, w) \<Rightarrow>
      (Inr (Some ()), s\<lparr>report := dict_set (report s) ''verified_at'' (PStr t), net := w\<rparr>))"
    by (auto simp: keeps_def same_probe_def split: prod.split)
  show ?thesis unfolding check_once_def
    by (intro keeps_intros keeps_report_client store last) (simp_all add: same_probe_def map_of_pop)
qed

lemma keeps_same_attempt:
  "keeps (\<lambda>s. same_probe r (report s)) (verify_attempt ops (sentry_client ops token) path attempts interval k)"
  unfolding verify_attempt_def by (intro keeps_intros keeps_same_once keeps_report_pausing)

lemma check_once_found:
  assumes "check_once ops c path s = (Inr (Some u), t)"
  shows "dict_get (report t) ''status'' = PStr ''verified'' \<and> (\<exists>s1 event e.
    call_api c path ''GET'' None ''event:read'' s = (Inr event, s1) \<and> event = PDict e
    \<and> dict_get e ''event_id'' = dict_get (report s1) ''event_id'' \<and> resolved_image e (report s1) \<and> resolved_frame e (report s1))"
proof -
  from assms obtain event s1 v where call: "call_api c path ''GET'' None ''event:read'' s = (Inr event, s1)"
    and v: "check_event event (report s1) = Inr v" "dict_get v ''server_symbolication_verified'' = PBool True"
    and status: "dict_get (report t) ''status'' = PStr ''verified''"
    unfolding check_once_def
    by (auto elim!: seq_cases split: if_splits prod.splits
        simp: lift_result_def reading_def ret_def store_report_def updating_def dict_get_pop)
  with check_event_sound [OF v] show ?thesis by blast
qed

lemma verify_attempt_found:
  assumes "verify_attempt ops c path attempts interval k s = (Inr (Some u), t)"
  shows "check_once ops c path s = (Inr (Some u), t)"
  using assms unfolding verify_attempt_def
  by (auto elim!: seq_cases simp: catch_when_def ret_def lift_result_def split: prod.splits sum.splits if_splits option.splits)

lemma verify_attempts_found:
  assumes "try_each (verify_attempt ops (sentry_client ops token) path attempts interval) xs s = (Inr (Some u), t)"
    and "same_probe r (report s)"
  shows "\<exists>s'. same_probe r (report s') \<and> check_once ops (sentry_client ops token) path s' = (Inr (Some u), t)"
  using assms
proof (induction xs arbitrary: s)
  case (Cons k xs)
  let ?m = "verify_attempt ops (sentry_client ops token) path attempts interval"
  from Cons.prems(1) obtain x w where x: "?m k s = (Inr x, w)"
    and rest: "(case x of Some y \<Rightarrow> ret (Some y) | None \<Rightarrow> try_each ?m xs) w = (Inr (Some u), t)"
    by (auto elim: seq_cases)
  show ?case
  proof (cases x)
    case None
    have "same_probe r (report w)" by (rule keepsD [OF keeps_same_attempt Cons.prems(2) x])
    with rest None Cons.IH show ?thesis by simp
  next
    case (Some y)
    with rest x have "?m k s = (Inr (Some u), t)" by (simp add: ret_def)
    with verify_attempt_found Cons.prems(2) show ?thesis by blast
  qed
qed (simp add: ret_def)

section \<open>How much is asked\<close>

definition asks :: "nat \<Rightarrow> ('w session, 'a) cmd \<Rightarrow> bool" where
  "asks n m \<longleftrightarrow> (\<forall>s. length (requests (snd (m s))) \<le> length (requests s) + n)"

named_theorems asks_intros

lemma asks_none [asks_intros]: "asks 0 (ret x)" "asks 0 (throw k c)" "asks 0 (lift_result r)" "asks 0 (reading f)"
  by (simp_all add: asks_def ret_def throw_def lift_result_def reading_def)

lemma asks_seq: "asks a m \<Longrightarrow> (\<And>x. asks b (f x)) \<Longrightarrow> asks (a + b) (seq m f)"
  unfolding asks_def seq_def
proof
  fix s
  assume m: "\<forall>s. length (requests (snd (m s))) \<le> length (requests s) + a"
    and f: "\<And>x. \<forall>s. length (requests (snd (f x s))) \<le> length (requests s) + b"
  obtain r t where r: "m s = (r, t)" by fastforce
  have "length (requests t) \<le> length (requests s) + a" using m [rule_format, of s] r by simp
  moreover have "length (requests (snd (f x t))) \<le> length (requests t) + b" for x using f by blast
  ultimately show "length (requests (snd (case m s of (Inl e, t) \<Rightarrow> (Inl e, t) | (Inr x, t) \<Rightarrow> f x t))) \<le> length (requests s) + (a + b)"
    using r by (cases r) (simp_all, metis add.assoc add_le_mono1 le_trans)
qed

lemma asks_mono: "asks a m \<Longrightarrow> a \<le> b \<Longrightarrow> asks b m"
  by (force simp: asks_def intro: order_trans)

lemma asks_if: "asks n a \<Longrightarrow> asks n b \<Longrightarrow> asks n (if c then a else b)"
  by simp

lemma asks_catch: "asks a m \<Longrightarrow> (\<And>e. asks 0 (h e)) \<Longrightarrow> asks a (catch_when m P h)"
  unfolding asks_def catch_when_def
proof
  fix s
  assume m: "\<forall>s. length (requests (snd (m s))) \<le> length (requests s) + a"
    and h: "\<And>e. \<forall>s. length (requests (snd (h e s))) \<le> length (requests s) + 0"
  obtain r t where r: "m s = (r, t)" by fastforce
  have "length (requests t) \<le> length (requests s) + a" using m [rule_format, of s] r by simp
  moreover have "length (requests (snd (h e t))) \<le> length (requests t)" for e using h [of e] by simp
  ultimately show "length (requests (snd (case m s of (Inl e, t) \<Rightarrow> if P (exn_class_of e) then h e t else (Inl e, t)
      | (Inr x, t) \<Rightarrow> (Inr x, t)))) \<le> length (requests s) + a"
    using r by (cases r) (auto intro: order_trans)
qed

lemma asks_open: "asks 1 (open_request ops req)"
  by (simp add: asks_def open_request_def split: prod.split)

lemma asks_loop: "asks (length xs) (request_loop ops req guarded scope original xs)"
proof (induction ops req guarded scope original xs rule: request_loop.induct)
  case (1 ops req guarded scope original)
  then show ?case by (simp add: asks_intros)
next
  case (2 ops req guarded scope original attempt rest)
  have next_one: "asks (length rest) (case n of Inl content \<Rightarrow> ret content
      | Inr d \<Rightarrow> request_loop ops (req\<lparr>r_url := d\<rparr>) guarded scope original rest)" for n
  proof (cases n)
    case (Inl content)
    then show ?thesis using asks_mono [OF asks_none(1)] by auto
  qed (use 2 in simp)
  have "asks (1 + (0 + length rest)) (request_loop ops req guarded scope original (attempt # rest))"
    unfolding request_loop.simps by (intro asks_seq asks_open asks_none next_one)
  then show ?case by simp
qed

lemma asks_api: "asks 3 (api (ops :: 'w sentry_ops) token path http_method payload scope)"
proof -
  have none: "asks 3 (throw k c :: ('w session, pyval) cmd)" for k c using asks_mono [OF asks_none(2)] by auto
  have load: "asks 0 (case loads ops content of None \<Rightarrow> throw k c | Some v \<Rightarrow> ret v)" for content k c
    by (cases "loads ops content") (simp_all add: asks_intros)
  have "asks (0 + length [0, 1, 2 :: nat]) (raw_request ops req guarded scope)" for req guarded scope
    unfolding raw_request_def by (intro asks_seq asks_none asks_loop)
  then have raw: "asks 3 (raw_request ops req guarded scope)" for req guarded scope by (simp add: numeral_3_eq_3)
  have "asks (3 + 0) (seq (raw_request ops req guarded scope) (\<lambda>content. case loads ops content of None \<Rightarrow> throw k c | Some v \<Rightarrow> ret v))"
    for req guarded scope k c by (intro asks_seq raw load)
  then show ?thesis unfolding api_def using none by (auto intro!: asks_if)
qed

lemma asks_attempt: "asks 3 (verify_attempt ops (sentry_client ops token) path attempts interval k)"
proof -
  have store: "asks 0 (store_report f)" for f by (simp add: asks_def store_report_def updating_def)
  have last: "asks 0 (\<lambda>s. case now_text ops (net s) of (t, w) \<Rightarrow>
      (Inr (Some ()), s\<lparr>report := dict_set (report s) ''verified_at'' (PStr t), net := w\<rparr>))"
    by (auto simp: asks_def split: prod.split)
  have finish: "asks (0 + 0) (seq (store_report f) (\<lambda>_ s. case now_text ops (net s) of (t, w) \<Rightarrow>
      (Inr (Some ()), s\<lparr>report := dict_set (report s) ''verified_at'' (PStr t), net := w\<rparr>)))" for f
    by (rule asks_seq [OF store last])
  have choice: "asks 0 (if b then seq (store_report f) (\<lambda>_ s. case now_text ops (net s) of (t, w) \<Rightarrow>
      (Inr (Some ()), s\<lparr>report := dict_set (report s) ''verified_at'' (PStr t), net := w\<rparr>)) else ret None)" for b f
    using finish by (simp add: asks_none)
  have "asks (3 + (0 + (0 + (0 + 0)))) (check_once ops (sentry_client ops token) path)"
    unfolding check_once_def sentry_client_def client.simps
    by (intro asks_seq asks_api asks_none(3,4) store choice)
  then have once: "asks 3 (check_once ops (sentry_client ops token) path)" by simp
  have wait: "asks 0 (seq (pausing ops interval) (\<lambda>_. ret None))" "asks 0 (seq (ret ()) (\<lambda>_. ret None))"
    by (simp_all add: asks_def seq_def pausing_def updating_def ret_def)
  have "asks (3 + 0) (verify_attempt ops (sentry_client ops token) path attempts interval k)"
    unfolding verify_attempt_def
    by (intro asks_seq asks_catch once) (auto simp: asks_none wait split: option.split)
  then show ?thesis by simp
qed

lemma asks_try_each:
  assumes "\<And>x. asks n (f x)"
  shows "asks (length xs * n) (try_each f xs)"
proof (induction xs)
  case (Cons x xs)
  have "asks (length xs * n) (case r of Some y \<Rightarrow> ret (Some y) | None \<Rightarrow> try_each f xs)" for r
    using Cons asks_mono [OF asks_none(1)] by (cases r) auto
  with assms have "asks (n + length xs * n) (seq (f x) (\<lambda>r. case r of Some y \<Rightarrow> ret (Some y) | None \<Rightarrow> try_each f xs))"
    by (intro asks_seq)
  then show ?case by (simp add: add.commute)
qed (simp add: asks_none)

section \<open>A sample probe\<close>

definition sample_image :: pydict where
  "sample_image = [(''type'', PStr ''elf''), (''debug_id'', PStr ''12345678-1234-1234-1234-123456789abc''),
     (''code_file'', PStr ''FlClash''), (''debug_file'', PStr ''FlClash.debug''), (''arch'', PStr ''x86_64''),
     (''image_addr'', PStr ''0x100000000''), (''image_size'', PInt 65536), (''image_vmaddr'', PStr ''0x0''),
     (''code_id'', PStr ''123456789a'')]"

definition sample_artifact :: "string \<Rightarrow> pyval" where
  "sample_artifact name = PDict [(''name'', PStr name), (''bytes'', PInt 5), (''sha256'', PStr (replicate 64 (CHR ''0'')))]"

definition sample_report :: pydict where
  "sample_report = [(''schema_version'', PInt 1), (''kind'', PStr PROBE_KIND), (''native_crash_test'', PBool False),
     (''device_capture_verified'', PBool False), (''status'', PStr ''sent''), (''sent'', PBool True),
     (''organization'', PStr ORGANIZATION), (''project'', PStr ''omofly''), (''flavor'', PStr ''brand_a''),
     (''platform'', PStr ''linux''), (''environment'', PStr PROBE_NAME), (''event_id'', PStr (replicate 32 (CHR ''a''))),
     (''created_at'', PStr ''now''), (''target'', PStr ''FlClash''), (''symbol_evidence_sha256'', PStr (replicate 64 (CHR ''1''))),
     (''binary'', sample_artifact ''FlClash''), (''symbols'', sample_artifact ''FlClash.debug''), (''image'', PDict sample_image),
     (''relative_address'', PStr ''0x1234''), (''instruction_address'', PStr ''0x100001234''),
     (''expected'', PDict [(''function_contains'', PStr ''activate''), (''file_basename'', PStr ''app.cc''), (''line'', PInt 12)]),
     (''error'', PDict [(''code'', PStr ''ingest_network_error'')])]"

definition sample_event :: pyval where
  "sample_event = PDict [(''event_id'', PStr (replicate 32 (CHR ''a''))), (''environment'', PStr PROBE_NAME), (''platform'', PStr ''native''),
     (''tags'', PList [PList [PStr ''xflclash.probe_kind'', PStr PROBE_KIND], PList [PStr ''xflclash.probe_id'', PStr (replicate 32 (CHR ''a''))]]),
     (''debug_meta'', PDict [(''images'', PList [PDict sample_image])]),
     (''exception'', PDict [(''values'', PList [PDict [(''stacktrace'', PDict [(''frames'', PList [PDict
        [(''instruction_addr'', PInt 4294971956), (''function'', PStr ''my_application_activate''),
         (''abs_path'', PStr ''/build/app.cc''), (''lineno'', PInt 12)]])])]])])]"

definition sample_net :: "nat sentry_ops" where
  "sample_net = sample_ops\<lparr>open_url := (\<lambda>req n. if n = 0 then (HttpStatus 404 None, 1) else (Answer (r_url req) [], n)),
     loads := (\<lambda>_. Some sample_event)\<rparr>"

definition sample_verify :: "(exn + unit) \<times> nat session" where
  "sample_verify = verify sample_net (\<lambda>_. True) ''t'' 5 10 \<lparr>requests = [], report = sample_report, net = 0\<rparr>"

lemma sample_valid: "validate_report (\<lambda>_. True) sample_report = Inr ()"
  by code_simp

lemma sample_verified: "fst sample_verify = Inr ()"
  by code_simp

section \<open>Properties\<close>

text \<open>C16: Verified means resolved: when the verification returns, the report says so, and the interface returned
  an event with the identifier of the report in which some image is the module that was uploaded and some frame
  at the probe's address carries the expected function and line.\<close>

theorem verified_event_resolved:
  assumes "verify ops aware token attempts interval s = (Inr (), t)"
  shows "dict_get (report t) ''status'' = PStr ''verified''
    \<and> (\<exists>path s1 s2 e. event_path (report s) = Inr path
        \<and> call_api (sentry_client ops token) path ''GET'' None ''event:read'' s1 = (Inr (PDict e), s2)
        \<and> dict_get e ''event_id'' = dict_get (report s) ''event_id''
        \<and> resolved_image e (report s) \<and> resolved_frame e (report s))"
proof -
  let ?c = "sentry_client ops token"
  from assms obtain path u where path: "event_path (report s) = Inr path"
    and loop: "try_each (verify_attempt ops ?c path attempts interval) [0..<attempts] s = (Inr (Some u), t)"
    unfolding verify_def
    by (auto elim!: seq_cases split: if_splits option.splits
        simp: lift_result_def reading_def throw_def ret_def client_token_def)
  have "same_probe (report s) (report s)" by (simp add: same_probe_def)
  with verify_attempts_found [OF loop] obtain s1 where s1: "same_probe (report s) (report s1)"
    and once: "check_once ops ?c path s1 = (Inr (Some u), t)" by blast
  from check_once_found [OF once] obtain s2 e where status: "dict_get (report t) ''status'' = PStr ''verified''"
    and call: "call_api ?c path ''GET'' None ''event:read'' s1 = (Inr (PDict e), s2)"
    and e: "dict_get e ''event_id'' = dict_get (report s2) ''event_id''" "resolved_image e (report s2)" "resolved_frame e (report s2)"
    by blast
  have same: "same_probe (report s) (report s2)" by (rule keepsD [OF keeps_report_client(1) [where P = "same_probe (report s)"] s1 call])
  have "dict_get (report s2) ''event_id'' = dict_get (report s) ''event_id''" by (rule same_probe_get [OF same]) simp
  with e same_probe_resolved [OF same] status call path show ?thesis by auto
qed

theorem verified_event_resolved_witness:
  "\<exists>e t. sample_verify = (Inr (), t) \<and> resolved_frame e sample_report"
proof -
  obtain t where run: "sample_verify = (Inr (), t)" using sample_verified by (metis prod.collapse)
  from verified_event_resolved [OF run [unfolded sample_verify_def]] run show ?thesis by auto
qed

text \<open>The polling is bounded: a verification with a limit of attempts sends at most three requests for each of
  them, however it ends.\<close>

theorem verify_requests_bounded:
  assumes "verify ops aware token attempts interval s = (r, t)"
  shows "length (requests t) \<le> length (requests s) + 3 * attempts"
proof -
  let ?v = "\<lambda>tk path. seq (try_each (verify_attempt ops (sentry_client ops tk) path attempts interval) [0..<attempts]) (\<lambda>found.
         case found of Some u \<Rightarrow> ret u | None \<Rightarrow> throw_safe ''server_symbolication_not_verified_before_timeout'')"
  have final_step: "asks 0 (case found of Some u \<Rightarrow> ret u | None \<Rightarrow> throw_safe code)" for found code
    by (cases found) (simp_all add: asks_none)
  have "asks (length [0..<attempts] * 3) (try_each (verify_attempt ops (sentry_client ops tk) path attempts interval) [0..<attempts])" for tk path
    by (rule asks_try_each [OF asks_attempt])
  then have poll: "asks (3 * attempts + 0) (?v tk path)" for tk path
    by (intro asks_seq final_step) (simp add: mult.commute)
  have rest: "asks (0 + (0 + (3 * attempts + 0))) (seq (lift_result (client_token token)) (\<lambda>tk. seq (lift_result (event_path q)) (?v tk)))" for q
    by (intro asks_seq asks_none poll)
  have "asks (0 + (0 + (3 * attempts))) (verify ops aware token attempts interval)"
    unfolding verify_def
    by (intro asks_seq asks_none asks_if asks_mono [OF asks_none(2)]) (use rest in simp_all)
  then have "length (requests (snd (verify ops aware token attempts interval s))) \<le> length (requests s) + 3 * attempts"
    by (simp add: asks_def)
  then show ?thesis using assms by simp
qed

theorem verify_requests_bounded_witness:
  "length (requests (snd sample_verify)) \<le> 15"
  using verify_requests_bounded [of sample_net "\<lambda>_. True" "''t''" 5 10 "\<lparr>requests = [], report = sample_report, net = 0\<rparr>"]
  by (cases sample_verify) (simp add: sample_verify_def)

section \<open>The copy that is saved\<close>

lemma map_of_pick [simp]: "map_of (pick d ks) k = (if k \<in> set ks then Some (dict_get d k) else None)"
  by (induction ks) (simp_all add: pick_def)

lemma dict_get_pick [simp]: "dict_get (pick d ks) k = (if k \<in> set ks then dict_get d k else PNone)"
  by (simp add: dict_get_def [of "pick d ks"])

lemma fst_pick [simp]: "map fst (pick d ks) = ks"
  by (simp add: pick_def comp_def)

lemma has_key_pick [simp]: "has_key (pick d ks) k \<longleftrightarrow> k \<in> set ks"
  by (simp add: has_key_map_of)

lemma has_key_append [simp]: "has_key (d @ e) k \<longleftrightarrow> has_key d k \<or> has_key e k"
  by (auto simp: has_key_def)

lemma pick_pick: "set ks \<subseteq> set js \<Longrightarrow> pick (pick d js) ks = pick d ks"
  by (auto simp: pick_def [of _ ks])

definition metadata_fields :: "string list" where
  "metadata_fields = [''product_version'', ''build_number'', ''source_revision'']"

definition copy_parts :: "pydict \<Rightarrow> pydict \<Rightarrow> pydict" where
  "copy_parts r e =
     [(''binary'', PDict (pick (sub r ''binary'') [''name'', ''bytes'', ''sha256''])),
      (''symbols'', PDict (pick (sub r ''symbols'') [''name'', ''bytes'', ''sha256''])),
      (''image'', PDict (pick (sub r ''image'') (image_required @ filter (has_key (sub r ''image'')) [''code_id'']))),
      (''expected'', PDict e)]"

definition safe_copy :: "pydict \<Rightarrow> pydict \<Rightarrow> pydict" where
  "safe_copy r e = pick r safe_fields @ pick r (filter (has_key r) metadata_fields) @ copy_parts r e"

lemma safe_report_eq:
  "safe_report aware r = rbind (validate_report aware r) (\<lambda>_. rbind (expected_location
     (dict_get (sub r ''expected'') ''function_contains'') (dict_get (sub r ''expected'') ''file_basename'')
     (dict_get (sub r ''expected'') ''line'')) (\<lambda>e. Inr (safe_copy r e)))"
  by (simp add: safe_report_def safe_copy_def copy_parts_def Let_def metadata_fields_def)

lemma expected_function_text: "expected_function v = Inr s \<Longrightarrow> v = PStr s"
  by (cases v) (auto simp: expected_function_def split: if_splits)

lemma label_text: "label v field = Inr s \<Longrightarrow> v = PStr s"
  by (cases v) (auto simp: label_def split: if_splits)

lemma expected_location_stable:
  assumes "expected_location f b l = Inr e"
  shows "dict_get e ''function_contains'' = f \<and> dict_get e ''file_basename'' = b \<and> dict_get e ''line'' = l
    \<and> map fst e = [''function_contains'', ''file_basename'', ''line'']"
  using assms by (cases l) (auto simp: expected_location_def dict_get_def dest!: expected_function_text label_text split: if_splits)

text \<open>The keys of the copy.\<close>

definition part_keys :: "string list" where
  "part_keys = [''binary'', ''symbols'', ''image'', ''expected'']"

lemma fst_copy_parts: "map fst (copy_parts r e) = part_keys"
  by (simp add: copy_parts_def part_keys_def)

lemma key_facts:
  "list_all (\<lambda>k. k \<notin> set safe_fields \<and> k \<notin> set part_keys) metadata_fields"
  "list_all (\<lambda>k. k \<notin> set safe_fields \<and> k \<notin> set metadata_fields) part_keys"
  "list_all (\<lambda>k. k \<notin> set safe_fields \<and> k \<notin> set metadata_fields \<and> k \<notin> set part_keys) [''verification'', ''verified_at'', ''error'']"
  "list_all (\<lambda>k. k \<in> set safe_fields \<or> k \<in> set part_keys) report_required"
  "list_all (\<lambda>k. k \<in> set report_required) (safe_fields @ part_keys)"
  "list_all (\<lambda>k. k \<in> set report_optional) metadata_fields"
  by code_simp+

lemma copy_lookup:
  "map_of (safe_copy r e) k = (if k \<in> set safe_fields then Some (dict_get r k)
     else if k \<in> set metadata_fields \<and> has_key r k then Some (dict_get r k) else map_of (copy_parts r e) k)"
  by (simp add: safe_copy_def map_add_def)

lemma part_lookup: "map_of (copy_parts r e) k = None \<longleftrightarrow> k \<notin> set part_keys"
  unfolding map_of_eq_None_iff set_map [symmetric] fst_copy_parts ..

lemma copy_fields: "k \<in> set safe_fields \<Longrightarrow> map_of (safe_copy r e) k = Some (dict_get r k)"
  by (simp add: copy_lookup)

lemma copy_get: "k \<in> set safe_fields \<Longrightarrow> dict_get (safe_copy r e) k = dict_get r k"
  using copy_fields [of k r e] by (simp add: dict_get_def [of "safe_copy r e"])

lemma copy_metadata:
  assumes "k \<in> set metadata_fields"
  shows "map_of (safe_copy r e) k = map_of r k"
proof -
  have "k \<notin> set safe_fields" "map_of (copy_parts r e) k = None"
    using assms key_facts(1) by (simp_all add: list_all_iff part_lookup)
  then show ?thesis using assms by (cases "map_of r k") (simp_all add: copy_lookup has_key_map_of dict_get_def)
qed

lemma copy_part:
  assumes "k \<in> set part_keys"
  shows "map_of (safe_copy r e) k = map_of (copy_parts r e) k"
  using assms key_facts(2) by (simp add: copy_lookup list_all_iff)

lemma copy_part_values:
  "dict_get (safe_copy r e) ''binary'' = PDict (pick (sub r ''binary'') [''name'', ''bytes'', ''sha256''])"
  "dict_get (safe_copy r e) ''symbols'' = PDict (pick (sub r ''symbols'') [''name'', ''bytes'', ''sha256''])"
  "dict_get (safe_copy r e) ''image'' = PDict (pick (sub r ''image'') (image_required @ filter (has_key (sub r ''image'')) [''code_id'']))"
  "dict_get (safe_copy r e) ''expected'' = PDict e"
  using copy_part [of "''binary''"] copy_part [of "''symbols''"] copy_part [of "''image''"] copy_part [of "''expected''"]
  by (simp_all add: dict_get_def [of "safe_copy r e"] part_keys_def copy_parts_def)

lemma copy_none: "k \<in> set [''verification'', ''verified_at'', ''error''] \<Longrightarrow> map_of (safe_copy r e) k = None"
  using key_facts(3) unfolding list_all_iff by (simp only: copy_lookup part_lookup if_False simp_thms)

lemma has_key_copy: "has_key (safe_copy r e) k \<longleftrightarrow> k \<in> set safe_fields \<or> k \<in> set metadata_fields \<and> has_key r k \<or> k \<in> set part_keys"
  using part_lookup [of r e k] by (auto simp: has_key_map_of [of "safe_copy r e"] copy_lookup)

lemma copy_keys: "keys_within report_required report_optional (safe_copy r e)"
proof -
  have "list_all (has_key (safe_copy r e)) report_required"
    using key_facts(4) by (auto simp: list_all_iff has_key_copy)
  moreover have "k \<in> set report_required \<or> k \<in> set report_optional" if "(k, v) \<in> set (safe_copy r e)" for k v
  proof -
    have "has_key (safe_copy r e) k" using that by (force simp: has_key_def)
    then show ?thesis using key_facts(5,6) by (auto simp: list_all_iff has_key_copy)
  qed
  ultimately show ?thesis by (auto simp: keys_within_def list_all_iff)
qed

lemma copy_identity:
  assumes "keys_within report_required report_optional r" "validate_identity r = Inr ()"
  shows "validate_identity (safe_copy r e) = Inr ()"
proof -
  let ?keys = "[''schema_version'', ''kind'', ''native_crash_test'', ''device_capture_verified'', ''organization'',
      ''flavor'', ''project'', ''environment'', ''platform'', ''status'', ''sent'', ''event_id'']"
  have mem: "list_all (\<lambda>k. k \<in> set safe_fields) ?keys" "''event_id'' \<in> set report_required" by code_simp+
  have "dict_get_default d ''event_id'' v = dict_get d ''event_id''" if "has_key d ''event_id''" for d v
    using that by (auto simp: dict_get_default_def dict_get_def has_key_map_of)
  moreover have "has_key r ''event_id''" "has_key (safe_copy r e) ''event_id''"
    using assms(1) copy_keys [of r e] mem(2) by (auto simp: keys_within_def list_all_iff)
  moreover have "list_all (\<lambda>k. dict_get (safe_copy r e) k = dict_get r k) ?keys"
    using mem(1) copy_get unfolding list_all_iff by blast
  ultimately show ?thesis using assms(2) by (simp add: validate_identity_def cong: pyval.case_cong)
qed

lemma copy_artifact:
  assumes "artifact_ok r field = Inr ()" "dict_get (safe_copy r e) field = PDict (pick (sub r field) [''name'', ''bytes'', ''sha256''])"
  shows "artifact_ok (safe_copy r e) field = Inr ()"
proof -
  from assms(1) obtain v where v: "dict_get r field = PDict v" by (auto simp: artifact_ok_def split: pyval.splits)
  then have "sub r field = v" by (simp add: sub_def items_of_def)
  then show ?thesis using assms v
    by (simp add: artifact_ok_def pick_def dict_get_def [of "_ # _"] split: if_splits)
qed

lemma keys_exact: "set (map fst d) = set ks \<Longrightarrow> keys_within ks [] d"
  by (force simp: keys_within_def has_key_def list_all_iff)

lemma in_pick: "(k, v) \<in> set (pick d ks) \<Longrightarrow> k \<in> set ks"
  by (auto simp: pick_def)

lemma pick_optional:
  assumes "c \<notin> set ks"
  shows "pick (pick d (ks @ filter (has_key d) [c])) (ks @ filter (has_key (pick d (ks @ filter (has_key d) [c]))) [c])
    = pick d (ks @ filter (has_key d) [c])"
proof -
  have "filter (has_key (pick d (ks @ filter (has_key d) [c]))) [c] = filter (has_key d) [c]" using assms by simp
  then show ?thesis by (simp add: pick_pick del: filter.simps)
qed

lemma copy_image:
  assumes "validate_image r = Inr ()" "expected_location (dict_get (sub r ''expected'') ''function_contains'')
     (dict_get (sub r ''expected'') ''file_basename'') (dict_get (sub r ''expected'') ''line'') = Inr e"
  shows "validate_image (safe_copy r e) = Inr ()"
proof -
  let ?q = "safe_copy r e"
  have parts: "sub ?q ''image'' = pick (sub r ''image'') (image_required @ filter (has_key (sub r ''image'')) [''code_id''])"
    "sub ?q ''expected'' = e" "is_dict (dict_get ?q ''expected'')" "is_dict (dict_get ?q ''image'')"
    "dict_get (sub ?q ''binary'') ''name'' = dict_get (sub r ''binary'') ''name''"
    "dict_get (sub ?q ''symbols'') ''name'' = dict_get (sub r ''symbols'') ''name''"
    by (simp_all add: sub_def items_of_def copy_part_values)
  have get: "list_all (\<lambda>k. dict_get (sub ?q ''image'') k = dict_get (sub r ''image'') k) image_required"
    by (simp add: parts(1) list_all_iff)
  have "''code_id'' \<notin> set image_required" by code_simp
  then have code: "map_of (sub ?q ''image'') ''code_id'' = map_of (sub r ''image'') ''code_id''"
    by (cases "map_of (sub r ''image'') ''code_id''") (simp_all add: parts(1) has_key_map_of dict_get_def)
  have keys: "keys_within image_required [''code_id''] (sub ?q ''image'')"
    unfolding keys_within_def list_all_iff parts(1) by (auto dest!: in_pick split: if_splits)
  have "list_all (\<lambda>k. k \<in> set safe_fields) [''relative_address'', ''instruction_address'', ''platform'']" by code_simp
  then have top: "list_all (\<lambda>k. dict_get ?q k = dict_get r k) [''relative_address'', ''instruction_address'', ''platform'']"
    using copy_get unfolding list_all_iff by blast
  have addr: "addresses_ok ?q (sub ?q ''image'') = addresses_ok r (sub r ''image'')"
    using top get by (simp add: addresses_ok_def image_required_def cong: if_cong)
  note stable = expected_location_stable [OF assms(2)]
  have e: "keys_within [''function_contains'', ''file_basename'', ''line''] [] e"
    by (rule keys_exact) (use stable in simp)
  show ?thesis
    using assms e keys stable get parts(3-6) top
    by (simp add: validate_image_def Let_def parts(2) image_shape_def code addr image_required_def) (elim conjE, simp)
qed

lemma copy_valid:
  assumes "validate_report aware r = Inr ()" "expected_location (dict_get (sub r ''expected'') ''function_contains'')
     (dict_get (sub r ''expected'') ''file_basename'') (dict_get (sub r ''expected'') ''line'') = Inr e"
  shows "validate_report aware (safe_copy r e) = Inr ()"
proof -
  let ?q = "safe_copy r e"
  from assms(1) have v: "keys_within report_required report_optional r" "validate_identity r = Inr ()"
    "time_ok aware r ''created_at''" "\<exists>t. label (dict_get r ''target'') ''target'' = Inr t"
    "fullmatch (rtimes 64 lower_hex_class) (py_str (dict_get_default r ''symbol_evidence_sha256'' (PStr [])))"
    "artifact_ok r ''binary'' = Inr ()" "artifact_ok r ''symbols'' = Inr ()"
    "list_all (metadata_ok r) metadata_patterns" "validate_image r = Inr ()"
    by (auto simp: validate_report_def)
  have mem: "list_all (\<lambda>k. k \<in> set safe_fields \<and> k \<in> set report_required) [''created_at'', ''target'', ''symbol_evidence_sha256'']"
    by code_simp
  have same: "map_of ?q k = map_of r k" if "k \<in> set [''created_at'', ''target'', ''symbol_evidence_sha256'']" for k
  proof -
    have "has_key r k" using v(1) mem that by (auto simp: keys_within_def list_all_iff)
    moreover have "k \<in> set safe_fields" using mem that unfolding list_all_iff by blast
    ultimately show ?thesis by (cases "map_of r k") (simp_all add: copy_fields dict_get_def has_key_map_of)
  qed
  have none: "map_of ?q ''verified_at'' = None" "\<not> has_key ?q ''verification''" "\<not> has_key ?q ''error''"
    using copy_none [of _ r e] by (simp_all add: has_key_map_of)
  have "set (map fst metadata_patterns) = set metadata_fields" by (simp add: metadata_patterns_def metadata_fields_def)
  then have meta: "list_all (metadata_ok ?q) metadata_patterns"
    using v(8) copy_metadata [of _ r e] by (force simp: list_all_iff metadata_ok_def)
  have "time_ok aware ?q ''created_at''" "time_ok aware ?q ''verified_at''"
    using v(3) same [of "''created_at''"] none(1) by (simp_all add: time_ok_def)
  moreover have "\<exists>t. label (dict_get ?q ''target'') ''target'' = Inr t" using v(4) same [of "''target''"] by (simp add: dict_get_def)
  moreover have "dict_get_default ?q ''symbol_evidence_sha256'' w = dict_get_default r ''symbol_evidence_sha256'' w" for w
    using same [of "''symbol_evidence_sha256''"] by (simp add: dict_get_default_def)
  ultimately show ?thesis
    using v copy_keys copy_identity [OF v(1,2)] copy_artifact [OF v(6) copy_part_values(1)]
      copy_artifact [OF v(7) copy_part_values(2)] meta copy_image [OF v(9) assms(2)] none
    by (simp add: validate_report_def)
qed

lemma copy_stable:
  assumes "expected_location (dict_get (sub r ''expected'') ''function_contains'')
     (dict_get (sub r ''expected'') ''file_basename'') (dict_get (sub r ''expected'') ''line'') = Inr e"
  shows "safe_copy (safe_copy r e) e = safe_copy r e"
proof -
  let ?q = "safe_copy r e"
  have "pick ?q safe_fields = pick r safe_fields" by (simp add: pick_def copy_get)
  moreover have "filter (has_key ?q) metadata_fields = filter (has_key r) metadata_fields"
    using key_facts(1) by (auto simp: has_key_copy list_all_iff intro!: filter_cong)
  moreover have "pick ?q (filter (has_key r) metadata_fields) = pick r (filter (has_key r) metadata_fields)"
    by (auto simp: pick_def dict_get_def copy_metadata)
  moreover have "copy_parts ?q e = copy_parts r e"
  proof -
    have "''code_id'' \<notin> set image_required" by code_simp
    then have "pick (sub ?q ''image'') (image_required @ filter (has_key (sub ?q ''image'')) [''code_id''])
        = pick (sub r ''image'') (image_required @ filter (has_key (sub r ''image'')) [''code_id''])"
      using pick_optional by (simp add: sub_def items_of_def copy_part_values del: filter.simps)
    then show ?thesis by (simp add: copy_parts_def sub_def items_of_def copy_part_values pick_pick)
  qed
  ultimately show ?thesis by (simp only: safe_copy_def)
qed

text \<open>The saved copy is clean and stable: it holds known keys only, neither a verification nor an error of the
  input, it is a valid report, and copying it again changes nothing.\<close>

theorem safe_report_stable:
  assumes "safe_report aware r = Inr r'"
  shows "safe_report aware r' = Inr r' \<and> validate_report aware r' = Inr ()
    \<and> set (map fst r') \<subseteq> set report_required \<union> {''product_version'', ''build_number'', ''source_revision''}"
proof -
  from assms obtain e where v: "validate_report aware r = Inr ()"
    and e: "expected_location (dict_get (sub r ''expected'') ''function_contains'')
     (dict_get (sub r ''expected'') ''file_basename'') (dict_get (sub r ''expected'') ''line'') = Inr e"
    and r': "r' = safe_copy r e" by (auto simp: safe_report_eq)
  have valid: "validate_report aware r' = Inr ()" unfolding r' by (rule copy_valid [OF v e])
  have "sub r' ''expected'' = e" by (simp add: r' sub_def items_of_def copy_part_values)
  then have "safe_report aware r' = Inr r'"
    using valid expected_location_stable [OF e] e copy_stable [OF e] by (simp add: safe_report_eq r')
  moreover have "k \<in> set report_required \<union> set metadata_fields" if "k \<in> set (map fst r')" for k
  proof -
    have "has_key r' k" using that by (simp add: has_key_def)
    then show ?thesis using key_facts(5) by (auto simp: r' has_key_copy list_all_iff)
  qed
  ultimately show ?thesis using valid by (auto simp: metadata_fields_def)
qed

lemma sample_safe: "case safe_report (\<lambda>_. True) sample_report of Inl e \<Rightarrow> False | Inr r \<Rightarrow> \<not> has_key r ''error''"
  by code_simp

theorem safe_report_stable_witness:
  "\<exists>r. safe_report (\<lambda>_. True) sample_report = Inr r \<and> safe_report (\<lambda>_. True) r = Inr r"
proof -
  obtain r where "safe_report (\<lambda>_. True) sample_report = Inr r" using sample_safe by (auto split: sum.splits)
  with safe_report_stable [OF this] show ?thesis by blast
qed

section \<open>Identifiers\<close>

text \<open>Lower case keeps a match of a pattern all of whose classes it keeps.\<close>

primrec lower_closed :: "regex \<Rightarrow> bool" where
  "lower_closed RNone = True"
| "lower_closed REps = True"
| "lower_closed (RClass neg rs) = (\<forall>c. in_class neg rs c \<longrightarrow> in_class neg rs (lower_char c))"
| "lower_closed (RSeq r q) = (lower_closed r \<and> lower_closed q)"
| "lower_closed (RAlt r q) = (lower_closed r \<and> lower_closed q)"
| "lower_closed (RStar r) = lower_closed r"

lemma ord_bound: "ord c < 256"
  by (simp add: ord_def)

lemma char_of_ord [simp]: "char_of (ord c) = c"
  by (simp add: ord_def)

lemma matches_lower: "matches r s \<Longrightarrow> lower_closed r \<Longrightarrow> matches r (lower_text s)"
proof (induction rule: matches.induct)
  case (m_class neg rs c)
  then show ?case by (simp add: lower_text_def)
next
  case (m_more r s s')
  then have "matches (RStar r) (lower_text s @ lower_text s')" by (intro matches.m_more) simp_all
  then show ?case by (simp add: lower_text_def)
qed (auto simp: lower_text_def)

abbreviation hex_char :: "char \<Rightarrow> bool" where
  "hex_char \<equiv> in_class False [(97, 102), (65, 70), (48, 57)]"

lemma matches_hex_times: "matches (rtimes n re_hex) s \<longleftrightarrow> length s = n \<and> list_all hex_char s"
  by (simp add: re_hex_def matches_times_class)

lemma matches_upto_class: "matches (rupto n (RClass neg rs)) s \<longleftrightarrow> length s \<le> n \<and> list_all (in_class neg rs) s"
proof (induction n arbitrary: s)
  case (Suc n)
  then show ?case by (cases s) (auto simp: ropt_def matches_class_seq)
qed auto

lemma matches_hex_upto: "matches (rupto n re_hex) s \<longleftrightarrow> length s \<le> n \<and> list_all hex_char s"
  by (simp add: re_hex_def matches_upto_class)

lemma code_id_iff: "fullmatch re_code_id s \<longleftrightarrow> 8 \<le> length s \<and> length s \<le> 128 \<and> list_all hex_char s"
proof -
  have "fullmatch re_code_id s \<longleftrightarrow> (\<exists>a b. s = a @ b \<and> length a = 8 \<and> list_all hex_char a \<and> length b \<le> 120 \<and> list_all hex_char b)"
    by (auto simp: re_code_id_def fullmatch_iff matches_Seq matches_hex_times matches_hex_upto simp del: rtimes.simps rupto.simps)
  also have "\<dots> \<longleftrightarrow> 8 \<le> length s \<and> length s \<le> 128 \<and> list_all hex_char s"
  proof
    assume s: "8 \<le> length s \<and> length s \<le> 128 \<and> list_all hex_char s"
    have halves: "list_all hex_char (take 8 s) \<and> list_all hex_char (drop 8 s)"
      using s by (metis append_take_drop_id list_all_append)
    show "\<exists>a b. s = a @ b \<and> length a = 8 \<and> list_all hex_char a \<and> length b \<le> 120 \<and> list_all hex_char b"
    proof (rule exI [where x = "take 8 s"], rule exI [where x = "drop 8 s"])
      show "s = take 8 s @ drop 8 s \<and> length (take 8 s) = 8 \<and> list_all hex_char (take 8 s)
          \<and> length (drop 8 s) \<le> 120 \<and> list_all hex_char (drop 8 s)"
        using s halves by auto
    qed
  qed auto
  finally show ?thesis .
qed

text \<open>The parts of an identifier: 36 characters and at most an age.\<close>

definition id_core :: "string \<Rightarrow> bool" where
  "id_core a \<longleftrightarrow> (\<exists>h g k. a = h @ g @ ''-'' @ k \<and> length h = 8 \<and> list_all hex_char h
     \<and> matches (rtimes 3 (RSeq (rlit ''-'') (rtimes 4 re_hex))) g \<and> length k = 12 \<and> list_all hex_char k)"

lemma matches_five:
  "matches (RSeq p (RSeq q (RSeq r (RSeq t (RSeq (ropt o') REps))))) s
   \<longleftrightarrow> (\<exists>a b c d e. s = a @ b @ c @ d @ e \<and> matches p a \<and> matches q b \<and> matches r c \<and> matches t d \<and> (e = [] \<or> matches o' e))"
proof -
  have e: "matches (RSeq (ropt o') REps) e \<longleftrightarrow> e = [] \<or> matches o' e" for e
    by (auto simp: matches_Seq ropt_def)
  show ?thesis
    unfolding matches_Seq [of p] matches_Seq [of q] matches_Seq [of r] matches_Seq [of t] e by blast
qed

lemma re_debug_id_five:
  "re_debug_id = RSeq (rtimes 8 re_hex) (RSeq (rtimes 3 (RSeq (rlit ''-'') (rtimes 4 re_hex))) (RSeq (rlit ''-'')
     (RSeq (rtimes 12 re_hex) (RSeq (ropt (RSeq (rlit ''-'') (RSeq re_hex (rupto 7 re_hex)))) REps))))"
  by (simp add: re_debug_id_def rseqs_def del: rtimes.simps rupto.simps rlit.simps)

lemma debug_id_parts:
  "fullmatch re_debug_id s \<longleftrightarrow> (\<exists>a b. s = a @ b \<and> id_core a
     \<and> (b = [] \<or> (\<exists>h. b = CHR ''-'' # h \<and> 1 \<le> length h \<and> length h \<le> 8 \<and> list_all hex_char h)))"
proof -
  have age: "matches (RSeq (rlit ''-'') (RSeq re_hex (rupto 7 re_hex))) b \<longleftrightarrow>
      (\<exists>h. b = CHR ''-'' # h \<and> 1 \<le> length h \<and> length h \<le> 8 \<and> list_all hex_char h)" for b
  proof -
    have "matches (RSeq re_hex (rupto 7 re_hex)) h \<longleftrightarrow> 1 \<le> length h \<and> length h \<le> 8 \<and> list_all hex_char h" for h
      by (cases h) (auto simp: re_hex_def matches_class_seq matches_upto_class simp del: rupto.simps)
    then show ?thesis by (auto simp: matches_Seq [of "rlit _"] simp del: rlit.simps)
  qed
  show ?thesis
  proof
    assume "fullmatch re_debug_id s"
    then obtain h g d k b where "s = h @ g @ d @ k @ b" "matches (rtimes 8 re_hex) h"
      "matches (rtimes 3 (RSeq (rlit ''-'') (rtimes 4 re_hex))) g" "matches (rlit ''-'') d" "matches (rtimes 12 re_hex) k"
      "b = [] \<or> matches (RSeq (rlit ''-'') (RSeq re_hex (rupto 7 re_hex))) b"
      unfolding fullmatch_iff re_debug_id_five matches_five by blast
    then have "s = h @ g @ ''-'' @ k @ b" "matches (rtimes 8 re_hex) h"
      "matches (rtimes 3 (RSeq (rlit ''-'') (rtimes 4 re_hex))) g" "matches (rtimes 12 re_hex) k"
      "b = [] \<or> matches (RSeq (rlit ''-'') (RSeq re_hex (rupto 7 re_hex))) b"
      by (simp_all only: matches_lit)
    then show "\<exists>a b. s = a @ b \<and> id_core a
       \<and> (b = [] \<or> (\<exists>h. b = CHR ''-'' # h \<and> 1 \<le> length h \<and> length h \<le> 8 \<and> list_all hex_char h))"
      unfolding id_core_def matches_hex_times age by (intro exI [of _ "h @ g @ ''-'' @ k"] exI [of _ b]) auto
  next
    assume "\<exists>a b. s = a @ b \<and> id_core a
       \<and> (b = [] \<or> (\<exists>h. b = CHR ''-'' # h \<and> 1 \<le> length h \<and> length h \<le> 8 \<and> list_all hex_char h))"
    then obtain h g k b where "s = h @ g @ ''-'' @ k @ b" "matches (rtimes 8 re_hex) h"
      "matches (rtimes 3 (RSeq (rlit ''-'') (rtimes 4 re_hex))) g" "matches (rtimes 12 re_hex) k"
      "b = [] \<or> matches (RSeq (rlit ''-'') (RSeq re_hex (rupto 7 re_hex))) b"
      unfolding id_core_def matches_hex_times age by (metis append.assoc)
    moreover have "matches (rlit ''-'') ''-''" by (simp only: matches_lit)
    ultimately show "fullmatch re_debug_id s"
      unfolding fullmatch_iff re_debug_id_five matches_five by blast
  qed
qed

lemma id_core_length:
  assumes "id_core a"
  shows "length a = 36" "last a \<noteq> CHR ''-''" "last (butlast a) \<noteq> CHR ''-''" "length (remove_char (CHR ''-'') a) = 32"
    "list_all hex_char (remove_char (CHR ''-'') a)"
proof -
  from assms obtain h g k where a: "a = h @ g @ ''-'' @ k" and h: "length h = 8" "list_all hex_char h"
    and g: "matches (rtimes 3 (RSeq (rlit ''-'') (rtimes 4 re_hex))) g" and k: "length k = 12" "list_all hex_char k"
    by (auto simp: id_core_def)
  from g obtain x y z where "g = (''-'' @ x) @ (''-'' @ y) @ (''-'' @ z)"
    and x: "length x = 4" "list_all hex_char x" and y: "length y = 4" "list_all hex_char y" and z: "length z = 4" "list_all hex_char z"
    unfolding numeral_3_eq_3 rtimes.simps matches_Seq matches_hex_times matches_lit by auto
  note a = a [unfolded this]
  have plain: "CHR ''-'' \<notin> set t" "remove_char (CHR ''-'') t = t" if "list_all hex_char t" for t
  proof -
    have "\<not> hex_char (CHR ''-'')" by code_simp
    then show "CHR ''-'' \<notin> set t" using that by (auto simp: list_all_iff)
    then show "remove_char (CHR ''-'') t = t" by (auto simp: remove_char_def filter_id_conv)
  qed
  have app: "remove_char c (s @ t) = remove_char c s @ remove_char c t" "remove_char c [c] = []" for c s t
    by (simp_all add: remove_char_def)
  show "length a = 36" using h x y z k by (simp add: a)
  have ends: "last k \<in> set k" "last (butlast k) \<in> set k" "k \<noteq> []" "butlast k \<noteq> []"
  proof -
    show k0: "k \<noteq> []" "butlast k \<noteq> []" using k(1) by (auto simp flip: length_0_conv)
    then show "last k \<in> set k" "last (butlast k) \<in> set k" by (simp_all add: in_set_butlastD [OF last_in_set])
  qed
  then have "last a = last k" "last (butlast a) = last (butlast k)" by (simp_all add: a butlast_append)
  moreover have "last k \<noteq> CHR ''-''" "last (butlast k) \<noteq> CHR ''-''" using ends(1,2) plain(1) [OF k(2)] by fastforce+
  ultimately show "last a \<noteq> CHR ''-''" "last (butlast a) \<noteq> CHR ''-''" by simp_all
  have "remove_char (CHR ''-'') a = h @ x @ y @ z @ k"
    unfolding a app plain(2) [OF h(2)] plain(2) [OF x(2)] plain(2) [OF y(2)] plain(2) [OF z(2)] plain(2) [OF k(2)] by simp
  then show "length (remove_char (CHR ''-'') a) = 32" "list_all hex_char (remove_char (CHR ''-'') a)"
    using h x y z k by simp_all
qed

lemma ends_with_dash0:
  assumes "ends_with ''-0'' s"
  shows "\<exists>t. s = t @ ''-0'' \<and> remove_suffix ''-0'' s = t"
proof -
  from assms obtain t where "s = t @ ''-0''" by (auto simp: ends_with_iff suffix_def)
  with assms show ?thesis by (auto simp: remove_suffix_def)
qed

lemma remove_age:
  assumes "fullmatch re_debug_id s"
  shows "fullmatch re_debug_id (remove_suffix ''-0'' s) \<and> take 36 (remove_suffix ''-0'' s) = take 36 s"
proof (cases "ends_with ''-0'' s")
  case True
  then obtain t where t: "s = t @ ''-0''" "remove_suffix ''-0'' s = t" using ends_with_dash0 by blast
  from assms obtain a b where ab: "s = a @ b" "id_core a"
    and b: "b = [] \<or> (\<exists>h. b = CHR ''-'' # h \<and> 1 \<le> length h \<and> length h \<le> 8 \<and> list_all hex_char h)"
    by (auto simp: debug_id_parts)
  have "b \<noteq> []"
  proof
    assume "b = []"
    then have "last (butlast a) = CHR ''-''" using t(1) ab(1) by (simp add: butlast_append)
    then show False using id_core_length(3) [OF ab(2)] by simp
  qed
  then obtain h where h: "b = CHR ''-'' # h" "1 \<le> length h" "list_all hex_char h" using b by auto
  have "length h = 1"
  proof (rule ccontr)
    assume "length h \<noteq> 1"
    then have two: "h \<noteq> []" "butlast h \<noteq> []" using h(2) by (auto simp flip: length_0_conv)
    then have "last (butlast s) = last (butlast h)" "last (butlast h) \<in> set h"
      using ab(1) h(1) in_set_butlastD last_in_set by (fastforce simp: butlast_append)+
    moreover have "last (butlast s) = CHR ''-''" by (simp add: t(1) butlast_append)
    moreover have "\<not> hex_char (CHR ''-'')" by code_simp
    ultimately show False using h(3) by (auto simp: list_all_iff)
  qed
  then have "t = a" using t(1) ab(1) h(1) by (cases h) auto
  then show ?thesis using t(2) ab id_core_length(1) [OF ab(2)] by (auto simp: debug_id_parts)
qed (simp add: remove_suffix_def assms)

lemma ord_lower: "ord (lower_char c) = (if 65 \<le> ord c \<and> ord c \<le> 90 \<or> 192 \<le> ord c \<and> ord c \<le> 222 \<and> ord c \<noteq> 215 then ord c + 32 else ord c)"
  by (auto simp: lower_char_def ord_def Let_def)

lemma ord_eq: "c = d \<longleftrightarrow> ord c = ord d"
  by (simp add: ord_def)

lemma lower_digit: "lower_char c = CHR ''0'' \<longleftrightarrow> c = CHR ''0''" "lower_char c = CHR ''-'' \<longleftrightarrow> c = CHR ''-''"
proof -
  have "ord (CHR ''0'') = 48" "ord (CHR ''-'') = 45" by (simp_all add: ord_def)
  then show "lower_char c = CHR ''0'' \<longleftrightarrow> c = CHR ''0''" "lower_char c = CHR ''-'' \<longleftrightarrow> c = CHR ''-''"
    by (auto simp: ord_eq ord_lower)
qed

lemma lower_closed_times: "lower_closed r \<Longrightarrow> lower_closed (rtimes n r)"
  by (induction n) simp_all

lemma lower_closed_upto: "lower_closed r \<Longrightarrow> lower_closed (rupto n r)"
  by (induction n) (simp_all add: ropt_def)

text \<open>An identifier that was read is read as itself, and gives a code identifier.\<close>

lemma debug_id_stable:
  assumes "debug_id v = Inr d"
  shows "debug_id (PStr d) = Inr (remove_suffix ''-0'' (lower_text d))" "fullmatch re_debug_id d"
    "fullmatch re_code_id (remove_char (CHR ''-'') d)"
proof -
  from assms obtain s where v: "v = PStr s" and s: "fullmatch re_debug_id s" and d: "d = remove_suffix ''-0'' (lower_text s)"
    and zero: "\<not> list_all (\<lambda>c. c = CHR ''0'') (remove_char (CHR ''-'') (take 36 s))"
    by (cases v) (auto simp: debug_id_def split: if_splits)
  have hex: "lower_closed re_hex" "lower_closed (rlit ''-'')"
    by (auto simp: re_hex_def rchar_def in_class_def lower_char_def ord_def Let_def)
  then have "lower_closed re_debug_id"
    by (simp add: re_debug_id_five ropt_def lower_closed_times lower_closed_upto del: rtimes.simps rupto.simps rlit.simps)
  then have low: "fullmatch re_debug_id (lower_text s)" using s matches_lower by (simp add: fullmatch_iff)
  then show match: "fullmatch re_debug_id d" using remove_age d by blast
  have "take 36 d = lower_text (take 36 s)" using remove_age [OF low] d by (simp add: lower_text_def take_map)
  moreover have "remove_char (CHR ''-'') (lower_text t) = lower_text (remove_char (CHR ''-'') t)" for t
    by (simp add: remove_char_def lower_text_def filter_map comp_def lower_digit)
  ultimately have "\<not> list_all (\<lambda>c. c = CHR ''0'') (remove_char (CHR ''-'') (take 36 d))"
    using zero by (simp add: lower_text_def list_all_iff lower_digit)
  with match show "debug_id (PStr d) = Inr (remove_suffix ''-0'' (lower_text d))" by (simp add: debug_id_def)
  from match obtain a b where ab: "d = a @ b" "id_core a"
    and b: "b = [] \<or> (\<exists>h. b = CHR ''-'' # h \<and> 1 \<le> length h \<and> length h \<le> 8 \<and> list_all hex_char h)"
    by (auto simp: debug_id_parts)
  have "length (remove_char (CHR ''-'') b) \<le> 8 \<and> list_all hex_char (remove_char (CHR ''-'') b)"
    using b by (auto simp: remove_char_def list_all_iff intro: order_trans [OF length_filter_le])
  then show "fullmatch re_code_id (remove_char (CHR ''-'') d)"
    using id_core_length(4,5) [OF ab(2)] by (simp add: code_id_iff ab(1) remove_char_def)
qed

section \<open>What is emitted can be verified\<close>

lemma checked_fingerprint_facts:
  assumes "checked_fingerprint p path v = Inr b"
  obtains name data where "content_at p path = Some data" "safe_basename (PStr name) = Inr name"
    "b = [(''name'', PStr name), (''bytes'', PInt (int (length data))), (''sha256'', PStr (sha256_of p data))]"
proof -
  from assms obtain data where "content_at p path = Some data"
    and b: "b = [(''name'', PStr (base_of p path)), (''bytes'', PInt (int (length data))), (''sha256'', PStr (sha256_of p data))]"
    by (auto simp: checked_fingerprint_def fingerprint_def split: option.splits if_splits)
  moreover have "safe_basename (PStr (base_of p path)) = Inr (base_of p path)"
    using assms b by (auto simp: checked_fingerprint_def fingerprint_def dict_get_def safe_basename_def split: option.splits if_splits)
  ultimately show ?thesis using that by blast
qed

lemma address_hex: "0 \<le> n \<Longrightarrow> n \<le> MAX_ADDRESS \<Longrightarrow> address (PStr (hex_int n)) = Inr n"
  by (simp add: address_def hex_int_def)

lemma address_facts: "address v = Inr n \<Longrightarrow> 0 \<le> n \<and> n \<le> MAX_ADDRESS"
  by (auto simp: address_def split: option.splits if_splits)

lemma architecture_stable:
  assumes "architecture v = Inr a"
  shows "architecture (PStr a) = Inr a"
proof -
  from assms have "a \<in> set (map snd ARCHITECTURES)"
    by (auto simp: architecture_def split: pyval.splits option.splits dest!: map_of_SomeD intro: rev_image_eqI)
  moreover have "list_all (\<lambda>a. architecture (PStr a) = Inr a) (map snd ARCHITECTURES)" by code_simp
  ultimately show ?thesis unfolding list_all_iff by blast
qed

lemma image_code_facts:
  assumes "image_code_id t item debug = Inr code" "fullmatch re_code_id (remove_char (CHR ''-'') debug)"
  shows "code = [] \<or> (\<exists>c. code = [(''code_id'', PStr c)] \<and> fullmatch re_code_id c)"
proof -
  have "fullmatch re_code_id (lower_text b)" if "fullmatch re_code_id b" for b
  proof -
    have "lower_closed re_hex" by (auto simp: re_hex_def in_class_def lower_char_def ord_def Let_def)
    then have "lower_closed re_code_id"
      by (simp add: re_code_id_def lower_closed_times lower_closed_upto del: rtimes.simps rupto.simps)
    with that show ?thesis by (simp add: fullmatch_iff matches_lower)
  qed
  with assms show ?thesis by (auto simp: image_code_id_def split: if_splits pyval.splits)
qed

text \<open>What an image made from the evidence satisfies.\<close>

definition image_made :: "string \<Rightarrow> pydict \<Rightarrow> pydict \<Rightarrow> int \<Rightarrow> pydict \<Rightarrow> bool" where
  "image_made platform binary symbols offset img \<longleftrightarrow> (\<exists>v w debug arch extent vmaddr code.
     img = image_entry (the (map_of IMAGE_TYPES (the (map_of FORMATS platform)))) debug binary symbols arch extent vmaddr @ code
     \<and> debug_id v = Inr debug \<and> architecture w = Inr arch \<and> 0 < offset \<and> offset < extent \<and> IMAGE_ADDRESS + extent \<le> MAX_ADDRESS
     \<and> 0 \<le> vmaddr \<and> vmaddr \<le> MAX_ADDRESS \<and> (code = [] \<or> (\<exists>c. code = [(''code_id'', PStr c)] \<and> fullmatch re_code_id c)))"

lemma probe_image_made:
  assumes "probe_image p a selected evidence = Inr (img, binary, symbols, offset)" "dict_get evidence ''platform'' = PStr platform"
  shows "image_made platform binary symbols offset img
    \<and> (\<exists>x y. checked_fingerprint p (the (a_binary a)) x = Inr binary \<and> checked_fingerprint p (the (a_symbols a)) y = Inr symbols)"
proof -
  let ?t = "the (map_of IMAGE_TYPES (the (map_of FORMATS platform)))"
  from assms obtain arch item ident debug extent vmaddr code where
    arch: "architecture (a_architecture a) = Inr arch"
    and fp: "checked_fingerprint p (the (a_binary a)) (dict_get item ''binary'') = Inr binary"
      "checked_fingerprint p (the (a_symbols a)) (dict_get item ''symbols'') = Inr symbols"
    and adr: "module_addresses a = Inr (offset, extent, vmaddr)" and debug: "debug_id ident = Inr debug"
    and code: "image_code_id ?t item debug = Inr code"
    and img: "img = image_entry ?t debug binary symbols arch extent vmaddr @ code"
    unfolding probe_image_def Let_def by (auto split: if_splits option.splits)
  have "0 < offset \<and> offset < extent \<and> IMAGE_ADDRESS + extent \<le> MAX_ADDRESS \<and> 0 \<le> vmaddr \<and> vmaddr \<le> MAX_ADDRESS"
    using adr by (auto simp: module_addresses_def not_less split: if_splits dest: address_facts)
  with arch debug img image_code_facts [OF code debug_id_stable(3) [OF debug]] fp show ?thesis
    unfolding image_made_def by blast
qed

lemma report_fields_keys: "map fst (report_fields status sent flavor platform i now target sha binary symbols img offset expected)
    = [''schema_version'', ''kind'', ''native_crash_test'', ''device_capture_verified'', ''status'', ''sent'', ''organization'',
       ''project'', ''flavor'', ''platform'', ''environment'', ''event_id'', ''created_at'', ''target'', ''symbol_evidence_sha256'',
       ''binary'', ''symbols'', ''image'', ''relative_address'', ''instruction_address'', ''expected'']"
  by (simp add: report_fields_def)

lemma report_fields_get:
  fixes m :: pydict
  defines "d \<equiv> \<lambda>status sent flavor platform i now target sha binary symbols img offset expected.
     report_fields status sent flavor platform i now target sha binary symbols img offset expected @ m"
  shows "list_all (\<lambda>(k, v). dict_get (d status sent flavor platform i now target sha binary symbols img offset expected) k = v)
     (report_fields status sent flavor platform i now target sha binary symbols img offset expected)"
  by (simp add: report_fields_def dict_get_def d_def)

lemma report_sent:
  "dict_update (report_fields st se flavor platform i now target sha binary symbols img offset expected @ m)
     [(''status'', PStr ''sent''), (''sent'', PBool True)]
   = report_fields ''sent'' True flavor platform i now target sha binary symbols img offset expected @ m"
  by (simp add: report_fields_def)

lemma metadata_keys:
  assumes "build_metadata evidence = Inr m"
  shows "set (map fst m) \<subseteq> set metadata_fields"
  unfolding build_metadata_def
proof (rule foldE_invariant [OF assms [unfolded build_metadata_def]])
  fix s x t
  assume "x \<in> set [''product_version'', ''build_number'', ''source_revision'']" "set (map fst s) \<subseteq> set metadata_fields"
    "(if has_key evidence x then rbind (label (dict_get evidence x) x) (\<lambda>v. Inr (s @ [(x, PStr v)])) else Inr s) = Inr t"
  then show "set (map fst t) \<subseteq> set metadata_fields"
    unfolding metadata_fields_def [symmetric] by (fastforce split: if_splits)
qed simp

lemma made_artifact:
  assumes "dict_get r field = PDict [(''name'', PStr n), (''bytes'', PInt k), (''sha256'', PStr h)]"
    "0 < k" "fullmatch (rtimes 64 lower_hex_class) h" "safe_basename (PStr n) = Inr n"
  shows "artifact_ok r field = Inr ()"
  using assms by (simp add: artifact_ok_def dict_get_def [of "_ # _"] py_str_def del: rtimes.simps)

lemma made_image:
  assumes made: "image_made platform binary symbols offset img" and known: "platform \<in> set (map fst FORMATS)"
    and r: "dict_get r ''image'' = PDict img" "dict_get r ''platform'' = PStr platform"
      "dict_get r ''binary'' = PDict binary" "dict_get r ''symbols'' = PDict symbols" "dict_get r ''expected'' = PDict e"
      "dict_get r ''relative_address'' = PStr (hex_int offset)" "dict_get r ''instruction_address'' = PStr (hex_int (IMAGE_ADDRESS + offset))"
    and names: "dict_get binary ''name'' = PStr bn" "dict_get symbols ''name'' = PStr sn"
      "safe_basename (PStr bn) = Inr bn" "safe_basename (PStr sn) = Inr sn"
    and e: "expected_location f b l = Inr e"
  shows "validate_image r = Inr ()"
proof -
  from made obtain v w debug arch extent vmaddr code where
    img: "img = image_entry (the (map_of IMAGE_TYPES (the (map_of FORMATS platform)))) debug binary symbols arch extent vmaddr @ code"
    and v: "debug_id v = Inr debug" and w: "architecture w = Inr arch"
    and n: "0 < offset" "offset < extent" "IMAGE_ADDRESS + extent \<le> MAX_ADDRESS" "0 \<le> vmaddr" "vmaddr \<le> MAX_ADDRESS"
    and code: "code = [] \<or> (\<exists>c. code = [(''code_id'', PStr c)] \<and> fullmatch re_code_id c)"
    unfolding image_made_def by blast
  have fields: "dict_get img ''type'' = PStr (the (map_of IMAGE_TYPES (the (map_of FORMATS platform))))"
    "dict_get img ''debug_id'' = PStr debug" "dict_get img ''code_file'' = PStr bn" "dict_get img ''debug_file'' = PStr sn"
    "dict_get img ''arch'' = PStr arch" "dict_get img ''image_addr'' = PStr (hex_int IMAGE_ADDRESS)"
    "dict_get img ''image_size'' = PInt extent" "dict_get img ''image_vmaddr'' = PStr (hex_int vmaddr)"
    using names by (simp_all add: img image_entry_def dict_get_def [of "_ @ _"] dict_get_def [of "_ # _"])
  have shape: "image_shape img = Inr ()"
    using code by (auto simp: image_shape_def keys_within_def img image_entry_def image_required_def)
  have sub: "sub r ''image'' = img" "sub r ''binary'' = binary" "sub r ''symbols'' = symbols" "sub r ''expected'' = e"
    using r by (simp_all add: sub_def items_of_def)
  have base: "0 < IMAGE_ADDRESS" by (simp add: IMAGE_ADDRESS_def)
  have a: "address (PStr (hex_int IMAGE_ADDRESS)) = Inr IMAGE_ADDRESS" "address (PStr (hex_int vmaddr)) = Inr vmaddr"
    "address (PStr (hex_int offset)) = Inr offset" "address (PStr (hex_int (IMAGE_ADDRESS + offset))) = Inr (IMAGE_ADDRESS + offset)"
    "address (PInt extent) = Inr extent"
    using n base by (simp_all add: address_hex) (simp add: address_def)
  then have addr: "addresses_ok r img = Inr ()" using n by (simp add: addresses_ok_def fields r)
  note stable = expected_location_stable [OF e]
  have keys: "keys_within [''function_contains'', ''file_basename'', ''line''] [] e"
    by (rule keys_exact) (use stable in simp)
  have "expected_location (dict_get e ''function_contains'') (dict_get e ''file_basename'') (dict_get e ''line'') = Inr e"
    using stable e by simp
  then show ?thesis
    using keys shape addr r names debug_id_stable(1) [OF v] architecture_stable [OF w]
    by (simp add: validate_image_def Let_def sub fields)
qed

lemma member_of_text: "member_of v allowed = Inr True \<Longrightarrow> \<exists>s. v = PStr s \<and> s \<in> set allowed"
  by (cases v) (auto simp: member_of_def)

lemma evidence_good:
  assumes "evidence_bad e = Inr False"
  shows "\<exists>platform flavor. dict_get e ''platform'' = PStr platform \<and> platform \<in> set (map fst FORMATS)
     \<and> dict_get e ''flavor'' = PStr flavor \<and> flavor \<in> set (map fst FLAVOR_PROJECTS)"
  using assms by (auto simp: evidence_bad_def split: if_splits dest!: member_of_text)

lemma make_report_shape:
  assumes "make_report p i now args = Inr r"
  obtains flavor platform target path data binary symbols img offset e m bp sp x y f b l where
    "r = report_fields ''prepared'' False (PStr flavor) (PStr platform) i now target (PStr (sha256_of p data)) binary symbols img offset e @ m"
    "flavor \<in> set (map fst FLAVOR_PROJECTS)" "platform \<in> set (map fst FORMATS)" "label (PStr target) ''target'' = Inr target"
    "content_at p path = Some data" "image_made platform binary symbols offset img"
    "checked_fingerprint p bp x = Inr binary" "checked_fingerprint p sp y = Inr symbols"
    "expected_location f b l = Inr e" "set (map fst m) \<subseteq> set metadata_fields"
proof -
  from assms obtain a selected evidence img binary symbols offset target proof_file e m where
    bad: "evidence_bad evidence = Inr False" and img: "probe_image p a selected evidence = Inr (img, binary, symbols, offset)"
    and target: "label (a_target a) ''target'' = Inr target" and fp: "fingerprint p (a_evidence a) = Inr proof_file"
    and e: "expected_location (a_expected_function a) (a_expected_file a) (a_expected_line a) = Inr e"
    and m: "build_metadata evidence = Inr m"
    and r: "r = report_fields ''prepared'' False (dict_get evidence ''flavor'') (dict_get evidence ''platform'') i now target
           (dict_get proof_file ''sha256'') binary symbols img offset e @ m"
    by (auto simp: make_report_def split: if_splits)
  from evidence_good [OF bad] obtain platform flavor where ev: "dict_get evidence ''platform'' = PStr platform"
    "platform \<in> set (map fst FORMATS)" "dict_get evidence ''flavor'' = PStr flavor" "flavor \<in> set (map fst FLAVOR_PROJECTS)" by blast
  from fp obtain data where data: "content_at p (a_evidence a) = Some data" "dict_get proof_file ''sha256'' = PStr (sha256_of p data)"
    by (auto simp: fingerprint_def dict_get_def split: option.splits)
  have "label (PStr target) ''target'' = Inr target" using target label_text [OF target] by simp
  with that ev data probe_image_made [OF img ev(1)] e metadata_keys [OF m] r show ?thesis by metis
qed

lemma identity_made:
  assumes get: "list_all (\<lambda>(k, v). dict_get d k = v)
      (report_fields ''sent'' True (PStr flavor) (PStr platform) i now target sha binary symbols img offset e)"
    and has: "has_key d ''event_id''"
    and known: "flavor \<in> set (map fst FLAVOR_PROJECTS)" "platform \<in> set (map fst FORMATS)" "fullmatch (rtimes 32 lower_hex_class) i"
  shows "validate_identity d = Inr ()"
proof -
  have "dict_get_default d ''event_id'' v = dict_get d ''event_id''" for v
    using has by (auto simp: dict_get_default_def dict_get_def has_key_map_of)
  then show ?thesis using get known
    by (simp add: report_fields_def validate_identity_def member_of_def py_eq_int_def py_str_def del: rtimes.simps set_map)
qed

text \<open>The keys of a report that is marked as sent.\<close>

lemma sent_keys:
  assumes d: "d = report_fields ''sent'' True flavor platform i now target sha binary symbols img offset e @ m"
    and m: "set (map fst m) \<subseteq> set metadata_fields"
  shows "keys_within report_required report_optional d"
    "\<not> has_key d ''verified_at''" "\<not> has_key d ''verification''" "\<not> has_key d ''error''"
    "has_key d ''event_id''" "has_key d ''created_at''" "has_key d ''symbol_evidence_sha256''"
proof -
  let ?F = "report_fields ''sent'' True flavor platform i now target sha binary symbols img offset e"
  have keys: "has_key d k \<longleftrightarrow> k \<in> set (map fst ?F) \<or> k \<in> set (map fst m)" for k
    by (simp add: d has_key_def image_Un)
  have ground: "list_all (\<lambda>k. k \<in> set (map fst ?F)) report_required"
    "list_all (\<lambda>k. k \<in> set report_required) (map fst ?F)" "list_all (\<lambda>k. k \<in> set report_optional) metadata_fields"
    "list_all (\<lambda>k. k \<notin> set (map fst ?F) \<and> k \<notin> set metadata_fields) [''verified_at'', ''verification'', ''error'']"
    unfolding report_fields_keys by code_simp+
  have "k \<in> set report_required \<or> k \<in> set report_optional" if "(k, v) \<in> set d" for k v
  proof -
    have "has_key d k" using that by (force simp: has_key_def)
    then show ?thesis using keys m ground(2,3) unfolding list_all_iff by blast
  qed
  moreover have "list_all (has_key d) report_required" using ground(1) keys unfolding list_all_iff by blast
  ultimately show "keys_within report_required report_optional d" by (auto simp: keys_within_def list_all_iff)
  show "\<not> has_key d ''verified_at''" "\<not> has_key d ''verification''" "\<not> has_key d ''error''"
    using ground(4) m unfolding keys list_all_iff by auto
  show "has_key d ''event_id''" "has_key d ''created_at''" "has_key d ''symbol_evidence_sha256''"
    unfolding keys report_fields_keys by simp_all
qed

lemma sent_metadata:
  assumes "k \<in> set metadata_fields"
  shows "map_of (report_fields st se flavor platform i now target sha binary symbols img offset e @ m) k = map_of m k"
proof -
  let ?F = "report_fields st se flavor platform i now target sha binary symbols img offset e"
  have "list_all (\<lambda>k. k \<notin> set (map fst ?F)) metadata_fields" unfolding report_fields_keys by code_simp
  then have "map_of ?F k = None" using assms unfolding map_of_eq_None_iff set_map [symmetric] list_all_iff by blast
  then show ?thesis by (simp add: map_add_def)
qed

text \<open>C40: What is emitted can be verified: a report made from files that are not empty and build metadata in the
  verified form, with a proper identifier and time, passes the validation once it is marked as sent.\<close>

theorem emitted_report_valid:
  assumes made: "make_report p i now args = Inr r"
    and env: "fullmatch (rtimes 32 lower_hex_class) i" "aware_time p now"
      "\<forall>data. fullmatch (rtimes 64 lower_hex_class) (sha256_of p data)" "\<forall>path. content_at p path \<noteq> Some []"
    and meta: "list_all (metadata_ok r) metadata_patterns"
  shows "validate_report (aware_time p) (dict_update r [(''status'', PStr ''sent''), (''sent'', PBool True)]) = Inr ()"
proof -
  from made obtain flavor platform target path data binary symbols img offset e m bp sp x y f b l where
    r: "r = report_fields ''prepared'' False (PStr flavor) (PStr platform) i now target (PStr (sha256_of p data)) binary symbols img offset e @ m"
    and known: "flavor \<in> set (map fst FLAVOR_PROJECTS)" "platform \<in> set (map fst FORMATS)"
    and target: "label (PStr target) ''target'' = Inr target" and img: "image_made platform binary symbols offset img"
    and fp: "checked_fingerprint p bp x = Inr binary" "checked_fingerprint p sp y = Inr symbols"
    and e: "expected_location f b l = Inr e" and m: "set (map fst m) \<subseteq> set metadata_fields"
    by (rule make_report_shape)
  let ?F = "report_fields ''sent'' True (PStr flavor) (PStr platform) i now target (PStr (sha256_of p data)) binary symbols img offset e"
  define d where "d = ?F @ m"
  have d: "dict_update r [(''status'', PStr ''sent''), (''sent'', PBool True)] = d" by (simp only: r report_sent d_def)
  have get: "list_all (\<lambda>(k, v). dict_get d k = v) ?F" unfolding d_def by (rule report_fields_get)
  note keys = sent_keys [OF d_def m]
  have opt: "list_all (metadata_ok d) metadata_patterns"
  proof -
    have "map_of d k = map_of r k" if "k \<in> set metadata_fields" for k
      unfolding d_def r sent_metadata [OF that] ..
    moreover have "set (map fst metadata_patterns) = set metadata_fields" by (simp add: metadata_patterns_def metadata_fields_def)
    ultimately show ?thesis using meta by (force simp: list_all_iff metadata_ok_def)
  qed
  obtain bn bd where bb: "safe_basename (PStr bn) = Inr bn" "content_at p bp = Some bd"
    "binary = [(''name'', PStr bn), (''bytes'', PInt (int (length bd))), (''sha256'', PStr (sha256_of p bd))]"
    using checked_fingerprint_facts [OF fp(1)] by blast
  obtain sn sd where ss: "safe_basename (PStr sn) = Inr sn" "content_at p sp = Some sd"
    "symbols = [(''name'', PStr sn), (''bytes'', PInt (int (length sd))), (''sha256'', PStr (sha256_of p sd))]"
    using checked_fingerprint_facts [OF fp(2)] by blast
  have sizes: "0 < int (length bd)" "0 < int (length sd)" using env(4) bb(2) ss(2) by auto
  have fields: "dict_get d ''binary'' = PDict binary" "dict_get d ''symbols'' = PDict symbols" "dict_get d ''image'' = PDict img"
    "dict_get d ''platform'' = PStr platform" "dict_get d ''expected'' = PDict e" "dict_get d ''relative_address'' = PStr (hex_int offset)"
    "dict_get d ''instruction_address'' = PStr (hex_int (IMAGE_ADDRESS + offset))" "dict_get d ''created_at'' = PStr now"
    "dict_get d ''target'' = PStr target" "dict_get d ''symbol_evidence_sha256'' = PStr (sha256_of p data)"
    using get by (simp_all add: report_fields_def)
  have names: "dict_get binary ''name'' = PStr bn" "dict_get symbols ''name'' = PStr sn"
    by (simp_all add: bb(3) ss(3) dict_get_def [of "_ # _"])
  note artifacts = made_artifact [OF fields(1) [unfolded bb(3)] sizes(1) env(3) [rule_format] bb(1)]
    made_artifact [OF fields(2) [unfolded ss(3)] sizes(2) env(3) [rule_format] ss(1)]
  have times: "time_ok (aware_time p) d ''created_at''" "time_ok (aware_time p) d ''verified_at''"
    using keys(2,6) fields(8) env(2) by (auto simp: time_ok_def has_key_map_of dict_get_def)
  have "dict_get_default d ''symbol_evidence_sha256'' v = PStr (sha256_of p data)" for v
    using keys(7) fields(10) by (auto simp: dict_get_default_def dict_get_def has_key_map_of)
  then show ?thesis
    unfolding d validate_report_def
    using keys identity_made [OF get keys(5) known env(1)] times target fields artifacts opt env(3)
      made_image [OF img known(2) fields(3,4,1,2,5,6,7) names bb(1) ss(1) e]
    by (simp add: py_str_def del: rtimes.simps)
qed

definition sample_paths :: path_ops where
  "sample_paths = \<lparr>content_at = (\<lambda>path. if path = ''e'' then Some [1] else Some [0, 0, 0, 0, 0]),
     is_absolute = (\<lambda>_. False), resolve_root = (\<lambda>r. r), resolve_in = (\<lambda>_ v. v), is_inside = (\<lambda>_ _. True), is_file_at = (\<lambda>_. True),
     base_of = (\<lambda>p. p), sha256_of = (\<lambda>_. replicate 64 (CHR ''0'')),
     parse_json = (\<lambda>_. Some (PDict [(''schema_version'', PInt 1), (''status'', PStr ''uploaded_and_processed''), (''platform'', PStr ''linux''),
       (''flavor'', PStr ''brand_a''), (''build_number'', PStr ''7''), (''native'', PList [PDict
        [(''target'', PStr ''FlClash''), (''architecture'', PStr ''x64''), (''format'', PStr ''elf''), (''build_id'', PStr ''123456789A''),
         (''debug_ids'', PList [PStr ''12345678-1234-1234-1234-123456789ABC-0'']),
         (''binary'', sample_artifact ''FlClash''), (''symbols'', sample_artifact ''FlClash.debug'')]])])),
     aware_time = (\<lambda>_. True)\<rparr>"

definition sample_args :: probe_args where
  "sample_args = \<lparr>a_selection = None, a_evidence = ''e'', a_build_root = ''build'', a_binary = Some ''FlClash'', a_symbols = Some ''FlClash.debug'',
     a_target = PStr ''FlClash'', a_architecture = PStr ''amd64'', a_relative_address = PStr ''0x1234'', a_image_size = PStr ''0x10000'',
     a_image_vmaddr = PStr ''0x0'', a_expected_function = PStr ''activate'', a_expected_file = PStr ''app.cc'', a_expected_line = PInt 12\<rparr>"

lemma sample_made:
  "case make_report sample_paths (replicate 32 (CHR ''a'')) ''now'' sample_args of
     Inl e \<Rightarrow> False | Inr r \<Rightarrow> list_all (metadata_ok r) metadata_patterns"
  by code_simp

theorem emitted_report_valid_witness:
  "\<exists>r. make_report sample_paths (replicate 32 (CHR ''a'')) ''now'' sample_args = Inr r
    \<and> validate_report (aware_time sample_paths) (dict_update r [(''status'', PStr ''sent''), (''sent'', PBool True)]) = Inr ()"
proof -
  obtain r where made: "make_report sample_paths (replicate 32 (CHR ''a'')) ''now'' sample_args = Inr r"
    and meta: "list_all (metadata_ok r) metadata_patterns"
    using sample_made by (auto split: sum.splits)
  have "fullmatch (rtimes 32 lower_hex_class) (replicate 32 (CHR ''a''))" "fullmatch (rtimes 64 lower_hex_class) (replicate 64 (CHR ''0''))"
    by code_simp+
  moreover have "aware_time sample_paths ''now''" "\<forall>path. content_at sample_paths path \<noteq> Some []"
    "\<forall>data. sha256_of sample_paths data = replicate 64 (CHR ''0'')"
    by (simp_all add: sample_paths_def del: replicate.simps)
  ultimately have "validate_report (aware_time sample_paths) (dict_update r [(''status'', PStr ''sent''), (''sent'', PBool True)]) = Inr ()"
    by (intro emitted_report_valid [OF made _ _ _ _ meta]) (simp_all only: simp_thms)
  with made show ?thesis by blast
qed

end
