(* ===== verification/Pub_Get_Retry.thy ===== *)
theory Pub_Get_Retry
  imports Process_Cleanup Py_Objects
begin

text \<open>
  \<open>tool/pub_get_retry.py\<close>: bounded retries of a dependency download. The output of the child is masked and
  searched for reviewed diagnostics, an attempt runs until the child ends, is cancelled, prints too much or
  takes too long, and \<open>execute\<close> repeats an attempt only after a network diagnostic or a timeout. The operating
  system is a record of operations on a world of any type; times are milliseconds. The polling and waiting
  loops carry fuel. The Windows job object is a parameter, its use is modelled.
\<close>

section \<open>Diagnostics\<close>

definition alt_of :: "string list \<Rightarrow> regex" where
  "alt_of ts = ralts (map rlit ts)"

definition dotted :: "string \<Rightarrow> string \<Rightarrow> regex" where
  "dotted a b = rseqs [rlit a, RStar rdot, rlit b]"

text \<open>\<open>\bcode\b.*rest\<close> on padded text.\<close>

definition status_line :: "string \<Rightarrow> string \<Rightarrow> regex" where
  "status_line code rest = rseqs [rnonword, rlit code, RClass True ((10, 10) # word_ranges), RStar rdot, rlit rest]"

definition PERMANENT :: "(string \<times> regex) list" where
  "PERMANENT =
     [(''go_integrity'', ralts [rlit ''checksum mismatch'', rlit ''SECURITY ERROR'', dotted ''verifying module'' ''sum mismatch'']),
      (''go_configuration'', alt_of [''unknown revision'', ''invalid version'', ''requires go >='', ''updates to go.mod needed'',
         ''module declares its path as'']),
      (''dependency_resolution'', ralts [alt_of [''version solving failed'', ''version solver failed'', ''could not resolve packages'',
         ''sdk version constraint''],
         rseqs [rlit ''requires '', ropt (rlit ''the ''), ropt (alt_of [''dart '', ''flutter '']), rlit ''sdk version''],
         rseqs [rlit ''doesn'', rdot, rlit ''t support null safety'']]),
      (''authentication'', ralts [alt_of [''authentication failed'', ''permission denied'', ''terminal prompts disabled'',
         ''could not read username'', ''repository not found'', ''http basic: access denied'', ''requested url returned error: 401'',
         ''requested url returned error: 403'', ''http code 407''], status_line ''401'' ''unauthorized'', status_line ''403'' ''forbidden'']),
      (''certificate'', ralts [alt_of [''certificate verify failed'', ''certificate verification failed'', ''certificate_verify_failed'',
         ''ssl certificate problem'', ''unable to get local issuer certificate'', ''certificate has expired''],
         rseqs [rlit ''self'', rdot, rlit ''signed certificate'']]),
      (''configuration'', ralts [rseqs [rlit ''could not find a file named '', ropt (RClass False [(39, 39), (34, 34)]), rlit ''pubspec'', rdot, rlit ''yaml''],
         rseqs [rlit ''error '', alt_of [''on'', ''in''], rlit '' line '', RStar rdot, rlit ''pubspec'', rdot, rlit ''yaml''],
         rseqs [rlit ''couldn'', rdot, rlit ''t find remote ref''],
         alt_of [''unknown revision'', ''reference is not a tree'', ''not a valid object name'', ''requested url returned error: 404''],
         dotted ''could not find package '' '' at'', dotted ''path dependency '' ''does not exist'', status_line ''404'' ''not found'']),
      (''local_storage'', ralts [alt_of [''no space left on device'', ''disk full'', ''access is denied''],
         rseqs [rlit ''read'', rdot, rlit ''only file system'']])]"

definition http_outages :: regex where
  "http_outages = alt_of [''429'', ''500'', ''502'', ''503'', ''504'']"

definition separators :: regex where
  "separators = rplus (RClass False [(32, 32), (58, 58), (47, 47), (61, 61)])"

definition NETWORK :: "(string \<times> regex) list" where
  "NETWORK =
     [(''go_http_unavailable'', rseqs [alt_of [''reading'', ''read''], rlit '' '', rplus (RClass True [(13, 13), (10, 10)]), rlit '': '',
         http_outages, rlit '' '', alt_of [''Too Many Requests'', ''Internal Server Error'', ''Bad Gateway'', ''Service Unavailable'',
         ''Gateway Timeout'']]),
      (''http2_stream'', rseqs [rlit ''stream error: stream ID '', rplus rdigit, rlit ''; '', alt_of [''INTERNAL_ERROR'', ''REFUSED_STREAM''],
         rlit ''; received from peer'']),
      (''dns'', ralts [alt_of [''could not resolve host'', ''failed host lookup'', ''temporary failure in name resolution''],
         rseqs [rnonword, rlit ''enotfound'', rnonword], rseqs [rnonword, rlit ''eai_again'', rnonword]]),
      (''connection'', ralts [RSeq (rlit ''connection '') (alt_of [''reset'', ''timed out'', ''aborted'', ''refused'']),
         alt_of [''operation timed out'', ''network is unreachable'', ''recv failure'', ''connection closed before full header'',
           ''remote end hung up unexpectedly'']]),
      (''git_transport'', ralts [rseqs [rlit ''rpc failed; curl '', alt_of [''5'', ''6'', ''7'', ''18'', ''28'', ''35'', ''52'', ''55'', ''56'', ''92''], rnonword],
         rlit ''unexpected disconnect while reading sideband packet'']),
      (''http_unavailable'', rseqs [ralts [rseqs [rlit ''http'', ropt (alt_of ['' error'', '' status'', '' status code'']), separators],
         RSeq (rlit ''status code'') separators, rlit ''requested url returned error: ''], http_outages, rnonword])]"

definition found_in :: "(string \<times> regex) list \<Rightarrow> string \<Rightarrow> string list" where
  "found_in patterns scan = map fst (filter (\<lambda>(k, r). search_padded (nocase r) scan) patterns)"

definition MAX_OUTPUT :: int where
  "MAX_OUTPUT = 4 * 1024 * 1024"

definition MAX_LINE :: nat where
  "MAX_LINE = 32 * 1024"

section \<open>Environment and output\<close>

definition secret_words :: "string list" where
  "secret_words = [''TOKEN'', ''PASSWORD'', ''SECRET'', ''DSN'', ''AES_KEY'']"

definition names_secret :: "string \<Rightarrow> bool" where
  "names_secret k \<longleftrightarrow> list_ex (\<lambda>w. contains w (upper_text k)) secret_words"

definition hidden_prefixes :: "string list" where
  "hidden_prefixes = [''SENTRY_'', ''GIT_TRACE'', ''GIT_CONFIG_'']"

definition env_set :: "string \<Rightarrow> string \<Rightarrow> (string \<times> string) list \<Rightarrow> (string \<times> string) list" where
  "env_set k v env = filter (\<lambda>(k', _). k' \<noteq> k) env @ [(k, v)]"

definition clean_environment :: "(string \<times> string) list \<Rightarrow> (string \<times> string) list" where
  "clean_environment environment =
     env_set ''SSH_ASKPASS'' [] (env_set ''GIT_ASKPASS'' [] (env_set ''GIT_TERMINAL_PROMPT'' ''0''
       (filter (\<lambda>(k, v). \<not> list_ex (\<lambda>p. prefix p (upper_text k)) hidden_prefixes \<and> \<not> names_secret k) environment)))"

record output_state =
  hidden :: "string list"
  tail :: string
  pending :: string
  long_line :: bool
  permanent_found :: "string list"
  network_found :: "string list"
  emitted :: "string list"

definition new_output :: "(string \<times> string) list \<Rightarrow> output_state" where
  "new_output environment =
     \<lparr>hidden = map snd (filter (\<lambda>(k, v). 4 \<le> length v \<and> names_secret k) environment), tail = [], pending = [],
      long_line = False, permanent_found = [], network_found = [], emitted = []\<rparr>"

text \<open>The substitutions of \<open>Output.line\<close> in their order.\<close>

definition re_scheme :: regex where
  "re_scheme = nocase (rseqs [rlit ''http'', ropt (rlit ''s''), rlit ''://''])"

definition quote_class :: "(nat \<times> nat) list" where
  "quote_class = [(34, 34), (39, 39)]"

definition mask_userinfo :: "string \<Rightarrow> string" where
  "mask_userinfo = re_sub (\<lambda>_. True) re_scheme
     (RSeq (rplus (RClass True ((47, 47) # space_ranges))) (rchar (CHR 0x40))) (''[credential]'' @ [CHR 0x40])"

definition mask_query :: "string \<Rightarrow> string" where
  "mask_query = re_sub (\<lambda>_. True) (RSeq re_scheme (rplus (RClass True ((63, 63) # space_ranges))))
     (RSeq (rlit ''?'') (rplus (RClass True space_ranges))) ''?[query]''"

definition mask_authorization :: "string \<Rightarrow> string" where
  "mask_authorization = re_sub (\<lambda>_. True)
     (nocase (rseqs [rlit ''authorization'', RStar rspace, RClass False [(58, 58), (61, 61)], RStar rspace,
        ropt (alt_of [''bearer'', ''basic'']), RStar rspace]))
     (rplus (RClass True ([(44, 44), (59, 59)] @ space_ranges))) ''[credential]''"

definition mask_assignment :: "string \<Rightarrow> string" where
  "mask_assignment = re_sub (\<lambda>_. True)
     (nocase (rseqs [alt_of [''token'', ''password'', ''secret'', ''dsn''], ropt (RClass False quote_class), RStar rspace,
        RClass False [(58, 58), (61, 61)], RStar rspace, ropt (RClass False quote_class)]))
     (rplus (RClass True ([(44, 44), (59, 59), (125, 125)] @ quote_class @ space_ranges))) ''[credential]''"

definition mask_tokens :: "string \<Rightarrow> string" where
  "mask_tokens = re_sub (\<lambda>prev. case prev of None \<Rightarrow> True | Some c \<Rightarrow> \<not> in_class False word_ranges c) REps
     (RSeq (ralts [rseqs [rlit ''gh'', RClass False [(112, 112), (111, 111), (117, 117), (115, 115), (114, 114)], rlit ''_''],
          alt_of [''github_pat_'', ''sntrys_'', ''sntryu_'']])
        (rplus (RClass False [(65, 90), (97, 122), (48, 57), (95, 95), (61, 61), (45, 45)]))) ''[credential]''"

definition mask_line :: "string list \<Rightarrow> string \<Rightarrow> string" where
  "mask_line secrets text =
     mask_tokens (mask_assignment (mask_authorization (mask_query (mask_userinfo
       (fold (\<lambda>v l. replace_text v ''[credential]'' l) secrets text)))))"

definition output_line :: "string \<Rightarrow> output_state \<Rightarrow> output_state" where
  "output_line text out = out\<lparr>emitted := emitted out @ [''[pub-get output] '' @ replace_text ''::'' '': :'' (mask_line (hidden out) text)]\<rparr>"

definition omit_line :: "output_state \<Rightarrow> output_state" where
  "omit_line out = out\<lparr>emitted := emitted out @ [''[pub-get output] [oversized line omitted]'']\<rparr>"

definition utf8_length :: "string \<Rightarrow> nat" where
  "utf8_length s = sum_list (map (\<lambda>c. if ord c < 128 then 1 else 2) s)"

definition feed_part :: "string \<Rightarrow> output_state \<Rightarrow> output_state" where
  "feed_part part out =
     (let out = out\<lparr>pending := pending out @ part\<rparr>;
          out = (if MAX_LINE < utf8_length (pending out) then out\<lparr>pending := [], long_line := True\<rparr> else out) in
      if part \<noteq> [] \<and> ord (last part) \<in> {10, 13}
      then (if long_line out then omit_line out else output_line (rstrip_with [char_of (10 :: nat), char_of (13 :: nat)] (pending out)) out)
        \<lparr>pending := [], long_line := False\<rparr>
      else out)"

definition join_found :: "string list \<Rightarrow> string list \<Rightarrow> string list" where
  "join_found old new = old @ filter (\<lambda>k. k \<notin> set old) new"

text \<open>\<open>Output.feed\<close> of text that is decoded already.\<close>

definition feed :: "string \<Rightarrow> bool \<Rightarrow> output_state \<Rightarrow> output_state" where
  "feed text final out =
     (let scan = tail out @ text;
          out = out\<lparr>permanent_found := join_found (permanent_found out) (found_in PERMANENT scan),
            network_found := join_found (network_found out) (found_in NETWORK scan),
            tail := drop (length scan - 2048) scan\<rparr>;
          out = fold feed_part (lines_keep text) out in
      if final \<and> (pending out \<noteq> [] \<or> long_line out)
      then (if long_line out then omit_line out else output_line (pending out) out)\<lparr>pending := []\<rparr>
      else out)"

section \<open>Stopping the child\<close>

text \<open>What stopping a job brought: the answer of \<open>stop\<close>, or \<open>OSError\<close>.\<close>

datatype job_stop = Answered bool | StopFailed

definition job_error :: "string \<Rightarrow> pyval" where
  "job_error stage = PDict [(''phase'', PStr stage), (''kind'', PStr ''os_error'')]"

definition stop_job :: "job_stop \<Rightarrow> bool \<Rightarrow> bool \<Rightarrow> bool \<times> pydict" where
  "stop_job answer waited gone =
     (let errors = (case answer of Answered b \<Rightarrow> [] | StopFailed \<Rightarrow> [job_error ''job'']) @ (if waited then [] else [job_error ''wait'']);
          ok = (case answer of Answered b \<Rightarrow> b | StopFailed \<Rightarrow> False) \<and> waited \<and> gone in
      (ok, [(''phase'', PStr ''job''), (''outcome'', PStr (if ok then ''complete'' else ''failed'')), (''errors'', PList errors),
            (''reaped'', PBool gone)]))"

text \<open>The answer of \<open>stop_tree\<close> and the diagnostic it adds, for a job or for a process group.\<close>

definition stop_tree :: "(job_stop \<times> bool \<times> bool) option \<Rightarrow> bool \<times> pydict \<Rightarrow> exn + (bool \<times> pydict)" where
  "stop_tree job group_cleanup =
     (let (ok, detail) = (case job of Some (answer, waited, gone) \<Rightarrow> stop_job answer waited gone | None \<Rightarrow> group_cleanup) in
      rbind (safe_cleanup (PDict detail)) (\<lambda>d. Inr (ok, d)))"

text \<open>The status file of the worker: None where it is no protocol message.\<close>

definition worker_result :: "bool \<Rightarrow> nat option \<Rightarrow> pyval option \<Rightarrow> pydict option" where
  "worker_result link file_size content =
     (if link \<or> file_size = None \<or> (\<exists>n. file_size = Some n \<and> 1024 < n) then None
      else case content of
        Some (PDict d) \<Rightarrow>
          if py_eq (PDict [(''state'', PStr ''launch_failed'')]) (PDict d) then Some d
          else if length d = 2 \<and> has_key d ''state'' \<and> has_key d ''exit_code'' \<and> dict_get d ''state'' = PStr ''exited''
             \<and> (case dict_get d ''exit_code'' of PInt n \<Rightarrow> - 2147483648 \<le> n \<and> n \<le> 4294967295 | _ \<Rightarrow> False)
          then Some d else None
      | _ \<Rightarrow> None)"

section \<open>An attempt\<close>

record attempt_item =
  i_reason :: string
  i_code :: "int option"
  i_cleaned :: bool
  i_elapsed :: int
  i_diagnostic :: pydict
  i_network :: "string list"
  i_permanent :: "string list"

record 'w attempt_ops =
  clock :: "'w \<Rightarrow> int"
  is_windows :: bool
  decode :: "bytes \<Rightarrow> bool \<Rightarrow> 'w \<Rightarrow> string \<times> 'w"
  open_files :: "'w \<Rightarrow> bool \<times> 'w"
  create_job :: "'w \<Rightarrow> bool \<times> 'w"
  launch :: "string list \<Rightarrow> (string \<times> string) list \<Rightarrow> 'w \<Rightarrow> bool \<times> 'w"
  release_worker :: "'w \<Rightarrow> bool \<times> 'w"
  read_output :: "int \<Rightarrow> 'w \<Rightarrow> bytes option \<times> 'w"
  output_size :: "'w \<Rightarrow> int option"
  output_position :: "'w \<Rightarrow> int"
  cancelled :: "'w \<Rightarrow> int"
  poll_child :: "'w \<Rightarrow> int option \<times> 'w"
  returncode :: "'w \<Rightarrow> int option"
  nap :: "int \<Rightarrow> 'w \<Rightarrow> 'w"
  stop_child :: "bool \<Rightarrow> 'w \<Rightarrow> (bool \<times> pydict) \<times> 'w"
  kill_child :: "'w \<Rightarrow> 'w"
  worker_status :: "'w \<Rightarrow> pydict option"
  close_job :: "'w \<Rightarrow> 'w"

record 'w attempt_state =
  out :: output_state
  reason :: string
  code :: "int option"
  cleaned :: bool
  cleanup_done :: bool
  diagnostic :: pydict
  has_process :: bool
  has_job :: bool
  heartbeat :: int
  os :: 'w

type_synonym ('w, 'a) acmd = "('w attempt_state, 'a) cmd"

text \<open>An operation that may fail with \<open>OSError\<close>.\<close>

definition try_os :: "('w \<Rightarrow> bool \<times> 'w) \<Rightarrow> ('w, unit) acmd" where
  "try_os f s = (case f (os s) of (ok, w) \<Rightarrow> (if ok then Inr () else raise OSError [], s\<lparr>os := w\<rparr>))"

definition feed_bytes :: "'w attempt_ops \<Rightarrow> bytes \<Rightarrow> bool \<Rightarrow> ('w, unit) acmd" where
  "feed_bytes ops chunk final s = (case decode ops chunk final (os s) of
      (s_text, w) \<Rightarrow> (Inr (), s\<lparr>out := feed s_text final (out s), os := w\<rparr>))"

definition read_chunk :: "'w attempt_ops \<Rightarrow> int \<Rightarrow> ('w, bytes) acmd" where
  "read_chunk ops n s = (case read_output ops n (os s) of
      (Some chunk, w) \<Rightarrow> (Inr chunk, s\<lparr>os := w\<rparr>) | (None, w) \<Rightarrow> (raise OSError [], s\<lparr>os := w\<rparr>))"

definition set_reason :: "string \<Rightarrow> int option \<Rightarrow> ('w, unit) acmd" where
  "set_reason r c = updating (\<lambda>s. s\<lparr>reason := r, code := c\<rparr>)"

definition start_child :: "'w attempt_ops \<Rightarrow> string list \<Rightarrow> (string \<times> string) list \<Rightarrow> ('w, unit) acmd" where
  "start_child ops command environment =
     seq (try_os (open_files ops)) (\<lambda>_.
     seq (if is_windows ops then seq (try_os (create_job ops)) (\<lambda>_. updating (\<lambda>s. s\<lparr>has_job := True\<rparr>)) else ret ()) (\<lambda>_.
     seq (try_os (launch ops command (clean_environment environment))) (\<lambda>_.
     seq (updating (\<lambda>s. s\<lparr>has_process := True\<rparr>)) (\<lambda>_.
       if is_windows ops then try_os (release_worker ops) else ret ()))))"

text \<open>One pass of the loop; the answer says whether the loop ends.\<close>

definition poll_once :: "'w attempt_ops \<Rightarrow> int \<Rightarrow> int \<Rightarrow> int \<Rightarrow> ('w, bool) acmd" where
  "poll_once ops started timeout output_limit =
     seq (read_chunk ops 65536) (\<lambda>chunk.
     seq (if chunk \<noteq> [] then feed_bytes ops chunk False else ret ()) (\<lambda>_.
     seq (reading os) (\<lambda>w.
     case output_size ops w of
       None \<Rightarrow> throw OSError []
     | Some n \<Rightarrow>
         if output_limit < n then seq (updating (\<lambda>s. s\<lparr>reason := ''output_limit''\<rparr>)) (\<lambda>_. ret True)
         else if cancelled ops w \<noteq> 0 then seq (updating (\<lambda>s. s\<lparr>reason := ''cancelled''\<rparr>)) (\<lambda>_. ret True)
         else if timeout \<le> clock ops w - started then seq (updating (\<lambda>s. s\<lparr>reason := ''attempt_timeout''\<rparr>)) (\<lambda>_. ret True)
         else seq (\<lambda>s. case poll_child ops (os s) of (c, w) \<Rightarrow> (Inr c, s\<lparr>code := c, os := w\<rparr>)) (\<lambda>c.
           if c \<noteq> None then ret True
           else seq (updating (\<lambda>s. if heartbeat s \<le> clock ops (os s)
               then s\<lparr>out := (out s)\<lparr>emitted := emitted (out s)
                   @ [''[pub-get] running; elapsed_seconds='' @ int_text ((clock ops (os s) - started) div 1000)]\<rparr>,
                 heartbeat := clock ops (os s) + 20000\<rparr>
               else s)) (\<lambda>_.
             seq (updating (\<lambda>s. s\<lparr>os := nap ops 20 (os s)\<rparr>)) (\<lambda>_. ret False))))))"

fun poll_loop :: "nat \<Rightarrow> 'w attempt_ops \<Rightarrow> int \<Rightarrow> int \<Rightarrow> int \<Rightarrow> 'w attempt_state \<Rightarrow> ((exn + unit) \<times> 'w attempt_state) option" where
  "poll_loop 0 ops started timeout output_limit s = None"
| "poll_loop (Suc n) ops started timeout output_limit s =
     (case poll_once ops started timeout output_limit s of
        (Inl e, t) \<Rightarrow> Some (Inl e, t)
      | (Inr finished, t) \<Rightarrow> if finished then Some (Inr (), t) else poll_loop n ops started timeout output_limit t)"

text \<open>The rest of the output, up to the limit; every pass reads at least one byte.\<close>

fun drain :: "nat \<Rightarrow> 'w attempt_ops \<Rightarrow> int \<Rightarrow> ('w, unit) acmd" where
  "drain 0 ops remaining = ret ()"
| "drain (Suc n) ops remaining =
     (if remaining \<le> 0 then ret ()
      else seq (read_chunk ops (min 65536 remaining)) (\<lambda>chunk.
        if chunk = [] then ret ()
        else seq (feed_bytes ops chunk False) (\<lambda>_. drain n ops (remaining - int (length chunk)))))"

definition stopping :: "'w attempt_ops \<Rightarrow> ('w, bool) acmd" where
  "stopping ops s = (case stop_child ops (has_job s) (os s) of
      ((ok, d), w) \<Rightarrow> (Inr ok, s\<lparr>diagnostic := dict_update (diagnostic s) d, os := w\<rparr>))"

definition stopped :: "'w attempt_ops \<Rightarrow> ('w, unit) acmd" where
  "stopped ops = seq (stopping ops) (\<lambda>ok. updating (\<lambda>s. s\<lparr>cleaned := ok, cleanup_done := True\<rparr>))"

definition worker_verdict :: "'w attempt_ops \<Rightarrow> ('w, unit) acmd" where
  "worker_verdict ops = updating (\<lambda>s.
     (case worker_status ops (os s) of
        Some d \<Rightarrow>
          if dict_get d ''state'' = PStr ''launch_failed'' then s\<lparr>reason := ''launch_or_io_error'', code := Some 127\<rparr>
          else (case dict_get d ''exit_code'' of PInt n \<Rightarrow> s\<lparr>code := Some n\<rparr> | _ \<Rightarrow> s)
      | None \<Rightarrow>
          if (case code s of None \<Rightarrow> True | Some c \<Rightarrow> 0 \<le> c \<and> c < 0x80000000)
          then s\<lparr>reason := ''worker_protocol_error'', code := Some 125\<rparr> else s))"

definition after_poll :: "'w attempt_ops \<Rightarrow> int \<Rightarrow> ('w, unit) acmd" where
  "after_poll ops output_limit =
     seq (stopped ops) (\<lambda>_.
     seq (updating (\<lambda>s. if code s = None then s\<lparr>code := returncode ops (os s)\<rparr> else s)) (\<lambda>_.
     seq (reading (\<lambda>s. output_limit - output_position ops (os s))) (\<lambda>remaining.
     seq (drain (nat remaining) ops remaining) (\<lambda>_.
     seq (feed_bytes ops [] True) (\<lambda>_.
     seq (reading (\<lambda>s. is_windows ops \<and> reason s = ''exit'')) (\<lambda>w.
       if w then worker_verdict ops else ret ()))))))"

definition attempt_failed :: "'w attempt_ops \<Rightarrow> ('w, unit) acmd" where
  "attempt_failed ops =
     seq (updating (\<lambda>s. s\<lparr>reason := ''launch_or_io_error''\<rparr>)) (\<lambda>_.
     seq (reading has_process) (\<lambda>p.
       if p then seq (updating (\<lambda>s. if has_job s then s\<lparr>os := kill_child ops (os s)\<rparr> else s)) (\<lambda>_. stopped ops) else ret ()))"

text \<open>The \<open>finally\<close> part.\<close>

definition attempt_finally :: "'w attempt_ops \<Rightarrow> ('w, unit) acmd" where
  "attempt_finally ops =
     seq (reading (\<lambda>s. has_process s \<and> \<not> cleanup_done s)) (\<lambda>p.
     seq (if p then seq (stopping ops) (\<lambda>_. ret ()) else ret ()) (\<lambda>_.
       updating (\<lambda>s. if has_job s then s\<lparr>os := close_job ops (os s)\<rparr> else s)))"

definition attempt_start :: "'w attempt_ops \<Rightarrow> (string \<times> string) list \<Rightarrow> 'w \<Rightarrow> 'w attempt_state" where
  "attempt_start ops environment w =
     \<lparr>out = new_output environment, reason = ''exit'', code = None, cleaned = True, cleanup_done = False, diagnostic = [],
      has_process = False, has_job = False, heartbeat = clock ops w + 20000, os = w\<rparr>"

definition sorted_permanent :: "string list" where
  "sorted_permanent = [''authentication'', ''certificate'', ''configuration'', ''dependency_resolution'', ''go_configuration'',
     ''go_integrity'', ''local_storage'']"

definition sorted_network :: "string list" where
  "sorted_network = [''connection'', ''dns'', ''git_transport'', ''go_http_unavailable'', ''http2_stream'', ''http_unavailable'']"

definition attempt_result :: "'w attempt_ops \<Rightarrow> int \<Rightarrow> 'w attempt_state \<Rightarrow> attempt_item" where
  "attempt_result ops started s =
     \<lparr>i_reason = reason s, i_code = code s, i_cleaned = cleaned s, i_elapsed = clock ops (os s) - started,
      i_diagnostic = diagnostic s,
      i_network = filter (\<lambda>k. k \<in> set (network_found (out s))) sorted_network,
      i_permanent = filter (\<lambda>k. k \<in> set (permanent_found (out s))) sorted_permanent\<rparr>"

definition attempt_body ::
    "nat \<Rightarrow> 'w attempt_ops \<Rightarrow> string list \<Rightarrow> (string \<times> string) list \<Rightarrow> int \<Rightarrow> int \<Rightarrow> int \<Rightarrow> 'w attempt_state \<Rightarrow> ((exn + unit) \<times> 'w attempt_state) option" where
  "attempt_body fuel ops command environment started timeout output_limit s =
     (case start_child ops command environment s of
        (Inl e, t) \<Rightarrow> Some (Inl e, t)
      | (Inr _, t) \<Rightarrow> (case poll_loop fuel ops started timeout output_limit t of
            None \<Rightarrow> None
          | Some (Inl e, u) \<Rightarrow> Some (Inl e, u)
          | Some (Inr _, u) \<Rightarrow> Some (after_poll ops output_limit u)))"

definition attempt ::
    "nat \<Rightarrow> 'w attempt_ops \<Rightarrow> string list \<Rightarrow> (string \<times> string) list \<Rightarrow> int \<Rightarrow> int \<Rightarrow> 'w \<Rightarrow> ((exn + attempt_item) \<times> string list \<times> 'w) option" where
  "attempt fuel ops command environment timeout output_limit w =
     (let started = clock ops w in
      case attempt_body fuel ops command environment started timeout output_limit (attempt_start ops environment w) of
        None \<Rightarrow> None
      | Some (r, s) \<Rightarrow>
          (case catching (\<lambda>s. (r, s)) {OSError, SubprocessError} (\<lambda>_. attempt_failed ops) s of
             (r, s) \<Rightarrow> (case attempt_finally ops s of
               (_, s) \<Rightarrow> Some (rbind r (\<lambda>_. Inr (attempt_result ops started s)), emitted (out s), os s))))"

section \<open>Retries\<close>

record 'w retry_ops =
  now :: "'w \<Rightarrow> int"
  cancel_signal :: "'w \<Rightarrow> int"
  run_attempt :: "int \<Rightarrow> 'w \<Rightarrow> attempt_item \<times> 'w"
  pause_for :: "int \<Rightarrow> 'w \<Rightarrow> 'w"

record limits =
  attempts :: nat
  attempt_timeout :: int
  total_timeout :: int
  delays :: "int list"

record verdict =
  outcome :: string
  exit_code :: int
  records :: "attempt_item list"

text \<open>How an attempt that was cleaned up is judged; None when it is not the last word.\<close>

definition crash_code :: "int \<Rightarrow> bool" where
  "crash_code c \<longleftrightarrow> c < 0 \<or> c \<in> {130, 143} \<or> 0x80000000 \<le> c"

definition judge :: "int \<Rightarrow> attempt_item \<Rightarrow> (string \<times> int) option" where
  "judge cancel item =
     (if \<not> i_cleaned item then Some (''cleanup_failed'', 125)
      else if cancel \<noteq> 0 \<or> i_reason item = ''cancelled'' then Some (''cancelled'', 128 + (if cancel \<noteq> 0 then cancel else 2))
      else if i_reason item = ''exit'' then
        (case i_code item of
           None \<Rightarrow> None
         | Some c \<Rightarrow> if crash_code c
             then Some (if c \<in> {-2, -15, 130, 143} then ''cancelled'' else ''process_crash'', if c < 0 then 128 - c else c)
             else if c = 0 then Some (''success'', 0) else None)
      else None)"

definition failure_code :: "attempt_item \<Rightarrow> int" where
  "failure_code item = (if i_reason item = ''attempt_timeout'' then 124
     else case i_code item of None \<Rightarrow> 1 | Some c \<Rightarrow> if c = 0 then 1 else c)"

definition retryable :: "attempt_item \<Rightarrow> bool" where
  "retryable item \<longleftrightarrow> i_reason item \<in> {''exit'', ''attempt_timeout''} \<and> i_permanent item = []
     \<and> (i_network item \<noteq> [] \<or> i_reason item = ''attempt_timeout'')"

text \<open>The wait between attempts, in steps of at most 50 milliseconds.\<close>

fun wait_until :: "nat \<Rightarrow> 'w retry_ops \<Rightarrow> int \<Rightarrow> 'w \<Rightarrow> 'w option" where
  "wait_until 0 ops until w = None"
| "wait_until (Suc n) ops until w =
     (if now ops w < until \<and> cancel_signal ops w = 0
      then wait_until n ops until (pause_for ops (min 50 (max 0 (until - now ops w))) w) else Some w)"

definition delay_at :: "limits \<Rightarrow> nat \<Rightarrow> int" where
  "delay_at l index = delays l ! min index (length (delays l) - 1)"

fun retry_loop :: "'w retry_ops \<Rightarrow> limits \<Rightarrow> int \<Rightarrow> nat list \<Rightarrow> verdict \<Rightarrow> 'w \<Rightarrow> (verdict \<times> 'w) option" where
  "retry_loop ops l start [] v w = Some (v, w)"
| "retry_loop ops l start (index # rest) v w =
     (let budget = total_timeout l - (now ops w - start) in
      if cancel_signal ops w \<noteq> 0 then Some (v\<lparr>outcome := ''cancelled'', exit_code := 128 + cancel_signal ops w\<rparr>, w)
      else if budget \<le> 0 then Some (v\<lparr>outcome := ''budget_exhausted'', exit_code := 124\<rparr>, w)
      else (case run_attempt ops (min (attempt_timeout l) budget) w of (item, w) \<Rightarrow>
        let v = v\<lparr>records := records v @ [item]\<rparr> in
        case judge (cancel_signal ops w) item of
          Some (what, c) \<Rightarrow> Some (v\<lparr>outcome := what, exit_code := c\<rparr>, w)
        | None \<Rightarrow>
            (let v = v\<lparr>exit_code := failure_code item\<rparr> in
             if \<not> retryable item \<or> index + 1 = attempts l then Some (v, w)
             else if total_timeout l \<le> now ops w - start + delay_at l index
             then Some (v\<lparr>outcome := ''budget_exhausted'', exit_code := 124\<rparr>, w)
             else (case wait_until (Suc (nat (delay_at l index))) ops (now ops w + delay_at l index) w of
                 None \<Rightarrow> None
               | Some w \<Rightarrow> retry_loop ops l start rest v w))))"

definition final_code :: "int \<Rightarrow> int" where
  "final_code c = (if c = 0 then 0 else max 1 (min 255 c))"

definition execute :: "'w retry_ops \<Rightarrow> limits \<Rightarrow> 'w \<Rightarrow> (verdict \<times> 'w) option" where
  "execute ops l w =
     map_option (\<lambda>(v, w). (v\<lparr>exit_code := final_code (exit_code v)\<rparr>, w))
       (retry_loop ops l (now ops w) [0..<attempts l] \<lparr>outcome = ''failed'', exit_code = 1, records = []\<rparr> w)"

section \<open>The command\<close>

text \<open>Characters the launcher of a Windows batch file must not have.\<close>

definition unsafe_launcher :: "string \<Rightarrow> bool" where
  "unsafe_launcher path \<longleftrightarrow> list_ex (\<lambda>c. ord c \<in> {38, 124, 60, 62, 94, 37, 33, 13, 10, 34}) path"

definition default_limits :: limits where
  "default_limits = \<lparr>attempts = 3, attempt_timeout = 300000, total_timeout = 720000, delays = [10000, 30000]\<rparr>"

text \<open>The command that is run, and the code without a run.\<close>

definition pub_command :: "string option \<Rightarrow> bool \<Rightarrow> bool \<Rightarrow> int + string list" where
  "pub_command executable windows enforce = (case executable of
      None \<Rightarrow> Inl 127
    | Some path \<Rightarrow> if path = [] then Inl 127 else if windows \<and> unsafe_launcher path then Inl 2
        else Inr ([path, ''pub'', ''get''] @ (if enforce then [''--enforce-lockfile''] else [])))"

text \<open>\<open>write_report\<close>: the folder, the check for a link, the temporary file and its move are each an operation that may fail.\<close>

definition pub_main ::
    "'w retry_ops \<Rightarrow> (verdict \<Rightarrow> 'w \<Rightarrow> bool \<times> 'w) \<Rightarrow> string option \<Rightarrow> bool \<Rightarrow> bool \<Rightarrow> 'w \<Rightarrow> (int \<times> 'w) option" where
  "pub_main ops report executable windows enforce w =
     (case pub_command executable windows enforce of
        Inl c \<Rightarrow> Some (c, w)
      | Inr command \<Rightarrow> (case execute ops default_limits w of
          None \<Rightarrow> None
        | Some (v, w) \<Rightarrow> (case report v w of (ok, w) \<Rightarrow> Some (if ok then exit_code v else 125, w))))"

section \<open>The loops end\<close>

text \<open>A clock that does not run backwards, and pauses that last as long as asked.\<close>

definition steady_clock :: "'w retry_ops \<Rightarrow> bool" where
  "steady_clock ops \<longleftrightarrow> (\<forall>n w. 0 \<le> n \<longrightarrow> now ops w + n \<le> now ops (pause_for ops n w))"

lemma wait_until_ends:
  assumes "steady_clock ops" "nat (until - now ops w) < n"
  shows "\<exists>w'. wait_until n ops until w = Some w'"
  using assms(2)
proof (induction n arbitrary: w)
  case (Suc n)
  show ?case
  proof (cases "now ops w < until \<and> cancel_signal ops w = 0")
    case True
    let ?p = "min 50 (max 0 (until - now ops w))"
    have "1 \<le> ?p" "now ops w + ?p \<le> now ops (pause_for ops ?p w)"
      using True assms(1) by (auto simp: steady_clock_def)
    then have "nat (until - now ops (pause_for ops ?p w)) < n" using Suc.prems by linarith
    with Suc.IH True show ?thesis by simp
  qed (simp only: wait_until.simps if_False, blast)
qed simp

lemma retry_loop_ends:
  assumes "steady_clock ops"
  shows "\<exists>v' w'. retry_loop ops l start idxs v w = Some (v', w')"
proof (induction idxs arbitrary: v w)
  case (Cons index rest)
  obtain item w1 where run: "run_attempt ops (min (attempt_timeout l) (total_timeout l - (now ops w - start))) w = (item, w1)"
    by fastforce
  obtain w2 where "wait_until (Suc (nat (delay_at l index))) ops (now ops w1 + delay_at l index) w1 = Some w2"
    using wait_until_ends [OF assms, of "now ops w1 + delay_at l index" w1] by fastforce
  then show ?case using Cons run by (simp add: Let_def del: wait_until.simps split: option.split)
qed simp

section \<open>What a run records\<close>

text \<open>The records a pass of the loop adds, and what its verdict means.\<close>

definition run_ok :: "verdict \<Rightarrow> attempt_item list \<Rightarrow> bool" where
  "run_ok v new \<longleftrightarrow>
     (exit_code v = 0 \<longleftrightarrow> outcome v = ''success'')
     \<and> (\<forall>r\<in>set (butlast new). i_cleaned r \<and> retryable r)
     \<and> (outcome v = ''success'' \<longrightarrow> new \<noteq> [] \<and> i_cleaned (last new) \<and> i_reason (last new) = ''exit'' \<and> i_code (last new) = Some 0)"

lemma judge_codes:
  assumes "judge c item = Some (what, k)" "0 \<le> c"
  shows "(k = 0 \<longleftrightarrow> what = ''success'')
    \<and> (what = ''success'' \<longrightarrow> i_cleaned item \<and> i_reason item = ''exit'' \<and> i_code item = Some 0)"
  using assms by (auto simp: judge_def crash_code_def split: if_splits option.splits)

lemma judge_none: "judge c item = None \<Longrightarrow> i_cleaned item"
  by (auto simp: judge_def split: if_splits)

lemma failure_code_nonzero: "failure_code item \<noteq> 0"
  by (auto simp: failure_code_def split: option.split)

lemma run_ok_Cons:
  assumes "run_ok v new" "i_cleaned item" "retryable item"
  shows "run_ok v (item # new)"
  using assms by (auto simp: run_ok_def)

lemma retry_loop_run:
  assumes "retry_loop ops l start idxs v w = Some (v', w')" "\<forall>w. 0 \<le> cancel_signal ops w"
    and "exit_code v \<noteq> 0" "outcome v = ''failed''"
  shows "\<exists>new. records v' = records v @ new \<and> length new \<le> length idxs \<and> run_ok v' new"
  using assms
proof (induction idxs arbitrary: v w)
  case (Cons index rest)
  let ?budget = "total_timeout l - (now ops w - start)"
  obtain item w1 where run: "run_attempt ops (min (attempt_timeout l) ?budget) w = (item, w1)" by fastforce
  let ?v = "v\<lparr>records := records v @ [item]\<rparr>"
  have c: "0 \<le> cancel_signal ops w" "0 \<le> cancel_signal ops w1" using Cons.prems(2) by auto
  show ?case
  proof (cases "cancel_signal ops w \<noteq> 0 \<or> ?budget \<le> 0")
    case True
    then have "records v' = records v @ [] \<and> run_ok v' []"
      using Cons.prems(1) c by (auto simp: run_ok_def Let_def split: if_splits)
    then show ?thesis by (intro exI [of _ "[]"]) simp
  next
    case go: False
    show ?thesis
    proof (cases "judge (cancel_signal ops w1) item")
      case (Some p)
      then obtain what k where p: "judge (cancel_signal ops w1) item = Some (what, k)" by (cases p) auto
      then have "records v' = records v @ [item] \<and> run_ok v' [item]"
        using Cons.prems(1) go run judge_codes [OF p c(2)] by (auto simp: run_ok_def Let_def)
      then show ?thesis by (intro exI [of _ "[item]"]) simp
    next
      case None
      let ?u = "?v\<lparr>exit_code := failure_code item\<rparr>"
      show ?thesis
      proof (cases "(\<not> retryable item \<or> index + 1 = attempts l) \<or> total_timeout l \<le> now ops w1 - start + delay_at l index")
        case True
        then have "records v' = records v @ [item] \<and> run_ok v' [item]"
          using Cons.prems go run None failure_code_nonzero [of item] by (auto simp: run_ok_def Let_def split: if_splits)
        then show ?thesis by (intro exI [of _ "[item]"]) simp
      next
        case False
        then obtain w2 where loop: "retry_loop ops l start rest ?u w2 = Some (v', w')"
          using Cons.prems(1) go run None by (auto simp: Let_def split: option.splits)
        have "\<exists>new. records v' = records ?u @ new \<and> length new \<le> length rest \<and> run_ok v' new"
          by (rule Cons.IH [OF loop]) (use Cons.prems failure_code_nonzero in simp_all)
        then obtain new where new: "records v' = records v @ item # new" "length new \<le> length rest" "run_ok v' new"
          by auto
        with False run_ok_Cons [OF new(3) judge_none [OF None]] show ?thesis
          by (intro exI [of _ "item # new"]) simp
      qed
    qed
  qed
qed (auto simp: run_ok_def)

section \<open>The attempt ends\<close>

definition steady_attempt :: "'w attempt_ops \<Rightarrow> bool" where
  "steady_attempt ops \<longleftrightarrow>
     (\<forall>w. clock ops w + 20 \<le> clock ops (nap ops 20 w))
     \<and> (\<forall>n w. clock ops w \<le> clock ops (snd (read_output ops n w)))
     \<and> (\<forall>c f w. clock ops w \<le> clock ops (snd (decode ops c f w)))
     \<and> (\<forall>w. clock ops w \<le> clock ops (snd (poll_child ops w)))
     \<and> (\<forall>w. clock ops w \<le> clock ops (snd (open_files ops w)))
     \<and> (\<forall>w. clock ops w \<le> clock ops (snd (create_job ops w)))
     \<and> (\<forall>c e w. clock ops w \<le> clock ops (snd (launch ops c e w)))
     \<and> (\<forall>w. clock ops w \<le> clock ops (snd (release_worker ops w)))"

lemma poll_once_advances:
  assumes "steady_attempt ops" "poll_once ops started timeout output_limit s = (Inr False, t)"
  shows "clock ops (os s) + 20 \<le> clock ops (os t) \<and> clock ops (os s) < started + timeout"
proof -
  from assms(2) obtain chunk s1 s2 s3 where read: "read_chunk ops 65536 s = (Inr chunk, s1)"
    and fed: "(if chunk \<noteq> [] then feed_bytes ops chunk False else ret ()) s1 = (Inr (), s2)"
    and poll: "s3 = s2\<lparr>code := fst (poll_child ops (os s2)), os := snd (poll_child ops (os s2))\<rparr>"
    and early: "clock ops (os s2) - started < timeout" and t: "os t = nap ops 20 (os s3)"
    unfolding poll_once_def
    by (auto elim!: seq_cases split: option.splits if_splits prod.splits simp: reading_def throw_def updating_def ret_def)
  have a: "clock ops (os s) \<le> clock ops (os s1)"
    using read assms(1) spec [of _ 65536] by (auto simp: read_chunk_def steady_attempt_def split: prod.splits option.splits) (metis snd_conv)+
  have b: "clock ops (os s1) \<le> clock ops (os s2)"
    using fed assms(1) by (auto simp: feed_bytes_def ret_def steady_attempt_def split: if_splits prod.splits) (metis snd_conv)+
  have "clock ops (os s2) \<le> clock ops (os s3)" "clock ops (os s3) + 20 \<le> clock ops (os t)"
    using assms(1) by (simp_all add: poll t steady_attempt_def)
  with a b early show ?thesis by linarith
qed

lemma poll_loop_ends:
  assumes "steady_attempt ops" "nat (started + timeout - clock ops (os s)) < n"
  shows "\<exists>r t. poll_loop n ops started timeout output_limit s = Some (r, t)"
  using assms(2)
proof (induction n arbitrary: s)
  case (Suc n)
  obtain r t where once: "poll_once ops started timeout output_limit s = (r, t)" by fastforce
  show ?case
  proof (cases "r = Inr False")
    case True
    with poll_once_advances [OF assms(1)] once have "nat (started + timeout - clock ops (os t)) < n"
      using Suc.prems by fastforce
    with Suc.IH once True show ?thesis by simp
  next
    case False
    then show ?thesis using once by (cases r) auto
  qed
qed simp

section \<open>A sample run\<close>

text \<open>A world of two numbers, the time and the attempts made: the first attempt meets a network failure, the second succeeds.\<close>

definition sample_item :: "int \<Rightarrow> string list \<Rightarrow> attempt_item" where
  "sample_item c net = \<lparr>i_reason = ''exit'', i_code = Some c, i_cleaned = True, i_elapsed = 1, i_diagnostic = [],
     i_network = net, i_permanent = []\<rparr>"

definition sample_retry :: "(int \<times> nat) retry_ops" where
  "sample_retry = \<lparr>now = fst, cancel_signal = (\<lambda>_. 0),
     run_attempt = (\<lambda>_ (t, n). (if n = 0 then sample_item 69 [''dns''] else sample_item 0 [], (t + 1, n + 1))),
     pause_for = (\<lambda>d (t, n). (t + d, n))\<rparr>"

definition sample_limits :: limits where
  "sample_limits = \<lparr>attempts = 3, attempt_timeout = 300, total_timeout = 720, delays = [10, 30]\<rparr>"

lemma sample_execute:
  "case execute sample_retry sample_limits (0, 0) of
     None \<Rightarrow> False | Some (v, w) \<Rightarrow> v = \<lparr>outcome = ''success'', exit_code = 0, records = [sample_item 69 [''dns''], sample_item 0 []]\<rparr>"
  by code_simp

definition sample_attempt_ops :: "int attempt_ops" where
  "sample_attempt_ops = \<lparr>clock = (\<lambda>t. t), is_windows = False, decode = (\<lambda>c f t. ([], t)), open_files = (\<lambda>t. (True, t)),
     create_job = (\<lambda>t. (True, t)), launch = (\<lambda>c e t. (True, t)), release_worker = (\<lambda>t. (True, t)),
     read_output = (\<lambda>n t. (Some [], t)), output_size = (\<lambda>_. Some 0), output_position = (\<lambda>_. 0), cancelled = (\<lambda>_. 0),
     poll_child = (\<lambda>t. (None, t)), returncode = (\<lambda>_. Some (-9)), nap = (\<lambda>n t. t + n), stop_child = (\<lambda>j t. ((True, []), t)),
     kill_child = (\<lambda>t. t), worker_status = (\<lambda>_. None), close_job = (\<lambda>t. t)\<rparr>"

section \<open>Properties\<close>

lemma try_os_clock:
  assumes "\<forall>w. clock ops w \<le> clock ops (snd (f w))"
  shows "keeps (\<lambda>s. t0 \<le> clock ops (os s)) (try_os f)"
  using assms by (auto simp: keeps_def try_os_def split: prod.splits) (metis order_trans snd_conv)

lemma start_child_clock:
  assumes "steady_attempt ops"
  shows "keeps (\<lambda>s. t0 \<le> clock ops (os s)) (start_child ops command environment)"
  using assms unfolding start_child_def steady_attempt_def
  by (intro keeps_intros try_os_clock) simp_all

lemma attempt_body_ends:
  assumes "steady_attempt ops" "nat timeout < fuel"
  shows "\<exists>r t. attempt_body fuel ops command environment (clock ops u) timeout limit (attempt_start ops environment u) = Some (r, t)"
proof -
  let ?s = "attempt_start ops environment u"
  obtain r t where start: "start_child ops command environment ?s = (r, t)" by fastforce
  have "clock ops u \<le> clock ops (os t)"
    by (rule keepsD [OF start_child_clock [OF assms(1)] _ start]) (simp add: attempt_start_def)
  then have "nat (clock ops u + timeout - clock ops (os t)) < fuel" using assms(2) by linarith
  from poll_loop_ends [OF assms(1) this] obtain r' t' where "poll_loop fuel ops (clock ops u) timeout limit t = Some (r', t')"
    by blast
  then show ?thesis using start
    by (cases r; cases r') (auto simp: attempt_body_def intro: exI [of _ "fst (after_poll ops limit t')"] split: prod.split)
qed





end
