(* ===== verification/Upload_Confirmation.thy ===== *)
theory Upload_Confirmation
  imports Py_Effects Py_Objects "HOL-Library.Char_ord" "HOL-Library.List_Lexorder" "HOL-Library.Product_Lexorder"
begin

text \<open>
  \<open>tool/sentry_upload_confirmation.py\<close>: the category of a failed upload, what a local inventory requires the
  server to hold, the request for one debug identifier and the rounds of requests that confirm an inventory.
  The network and the clock are operations on a world of any type, times are milliseconds. \<open>float\<close> and
  \<open>parsedate_to_datetime\<close> of a \<open>Retry-After\<close> header and \<open>json.loads\<close> are parameters. The requests of one round are
  made one after the other here, in the order their answers are looked at; the code overlaps up to four.
\<close>

section \<open>Errors\<close>

definition PROJECTS :: "string list" where
  "PROJECTS = [''omofly'', ''daishu'']"

definition FORMATS :: "string list" where
  "FORMATS = [''elf'', ''pdb'', ''dsym'', ''breakpad'', ''portablepdb'']"

definition FEATURES :: "string list" where
  "FEATURES = [''debug'', ''symtab'', ''unwind'', ''sources'']"

definition WAIT_MS :: int where
  "WAIT_MS = 600000"

definition REQUEST_MS :: int where
  "REQUEST_MS = 15000"

text \<open>\<open>UploadError(category, phase="confirmation")\<close> with and without its further arguments.\<close>

definition upload_error :: "string \<Rightarrow> int option \<Rightarrow> int \<Rightarrow> exn" where
  "upload_error category http_status wait = Exn (UploadError ''confirmation'' None http_status wait) category"

definition confirmation_error :: "string \<Rightarrow> exn" where
  "confirmation_error category = upload_error category None 0"

fun is_upload_class :: "exn_class \<Rightarrow> bool" where
  "is_upload_class (UploadError p e h r) = True"
| "is_upload_class c = False"

text \<open>\<open>error.diagnostic\<close> and \<open>error.retry_after\<close>.\<close>

definition optional_int :: "string \<Rightarrow> int option \<Rightarrow> pydict" where
  "optional_int key v = (case v of None \<Rightarrow> [] | Some n \<Rightarrow> [(key, PInt n)])"

definition upload_diagnostic :: "exn \<Rightarrow> pydict" where
  "upload_diagnostic e = (case exn_class_of e of
      UploadError stage exit_code http_status wait \<Rightarrow>
        [(''phase'', PStr stage), (''category'', PStr (exn_message e))]
        @ optional_int ''exit_code'' exit_code @ optional_int ''http_status'' http_status
    | _ \<Rightarrow> [])"

definition error_wait :: "exn \<Rightarrow> int" where
  "error_wait e = (case exn_class_of e of UploadError stage exit_code http_status wait \<Rightarrow> wait | _ \<Rightarrow> 0)"

section \<open>Why an upload failed\<close>

definition re_status_lead :: regex where
  "re_status_lead = RSeq
     (RAlt (RSeq (rlit ''http'') (ropt (RSeq (rplus rspace) (rlit ''status''))))
           (RSeq (rlit ''status'') (ropt (RSeq (rplus rspace) (rlit ''code'')))))
     (rplus (RClass False (space_ranges @ [(58, 58), (61, 61), (40, 40)])))"

definition re_status_code :: regex where
  "re_status_code = RSeq (RClass False [(49, 53)]) (rtimes 2 rdigit)"

definition at_word_end :: "string \<Rightarrow> bool" where
  "at_word_end s \<longleftrightarrow> (case s of [] \<Rightarrow> True | c # _ \<Rightarrow> \<not> in_class False word_ranges c)"

definition status_here :: "string \<Rightarrow> (string \<times> string) option" where
  "status_here s =
     (case concat (map (\<lambda>(m, t). filter (\<lambda>(d, u). at_word_end u) (runs re_status_code t)) (runs re_status_lead s)) of
        [] \<Rightarrow> None | x # _ \<Rightarrow> Some x)"

text \<open>\<open>re.findall\<close>: the argument \<open>inside\<close> says whether the character before is part of a word.\<close>

fun find_statuses :: "nat \<Rightarrow> bool \<Rightarrow> string \<Rightarrow> int list" where
  "find_statuses n inside s =
     (if n = 0 then [] else
      (case s of
         [] \<Rightarrow> []
       | c # s' \<Rightarrow>
           (case (if inside then None else status_here s) of
              Some (d, u) \<Rightarrow> int (dec_value d) # find_statuses (n - 1) True u
            | None \<Rightarrow> find_statuses (n - 1) (in_class False word_ranges c) s')))"

declare find_statuses.simps [simp del]

definition failure_status :: "int list \<Rightarrow> int option" where
  "failure_status statuses =
     (if 401 \<in> set statuses then Some 401 else if 403 \<in> set statuses then Some 403
      else if statuses = [] then None else Some (last statuses))"

definition mentions :: "string \<Rightarrow> string list \<Rightarrow> bool" where
  "mentions s phrases \<longleftrightarrow> list_ex (\<lambda>p. contains p s) phrases"

definition failure_category :: "int option \<Rightarrow> string \<Rightarrow> string" where
  "failure_category http_status s =
     (if http_status = Some 401 \<or> mentions s [''authentication failed'', ''invalid token''] then ''authentication_rejected''
      else if http_status = Some 403 \<or> mentions s [''permission denied'', ''forbidden''] then ''permission_rejected''
      else if http_status = Some 429 \<or> mentions s [''rate limit''] then ''rate_limited''
      else if (case http_status of Some n \<Rightarrow> 500 \<le> n | None \<Rightarrow> False) then ''server_error''
      else if (case http_status of Some n \<Rightarrow> 400 \<le> n | None \<Rightarrow> False) then ''request_rejected''
      else if mentions s [''some symbols could not be found'', ''invalid debug''] then ''invalid_or_missing_symbols''
      else if mentions s [''the file is still processing and not ready yet'', ''processing timed out'',
        ''did not finish processing'', ''processing timeout''] then ''processing_incomplete''
      else if mentions s [''some symbols did not process correctly''] then ''symbol_processing_failed''
      else if mentions s [''timed out'', ''timeout'', ''could not resolve'', ''failed to connect'', ''connection reset'', ''network'']
        then ''transport_error''
      else ''cli_failed_unknown'')"

definition byte_length :: "string \<Rightarrow> int" where
  "byte_length s = int (sum_list (map (\<lambda>c. if ord c < 128 then 1 else 2) s))"

definition last_chars :: "nat \<Rightarrow> string \<Rightarrow> string" where
  "last_chars n s = drop (length s - n) s"

text \<open>The error and the diagnostic that is attached to it.\<close>

definition cli_failure :: "int \<Rightarrow> string \<Rightarrow> string \<Rightarrow> exn \<times> pydict" where
  "cli_failure exit_code stdout stderr =
     (let s = lower_text (last_chars 65536 stdout @ [char_of (10 :: nat)] @ last_chars 65536 stderr);
          http_status = failure_status (find_statuses (length s) False s);
          e = Exn (UploadError ''upload'' (Some exit_code) http_status 0) (failure_category http_status s) in
      (e, upload_diagnostic e @ [(''stdout_bytes'', PInt (byte_length stdout)), (''stderr_bytes'', PInt (byte_length stderr))]))"

section \<open>What the server must hold\<close>

definition cpu_names :: "(string \<times> string) list" where
  "cpu_names = [(''x64'', ''x86_64''), (''amd64'', ''x86_64''), (''aarch64'', ''arm64''), (''arm64-v8a'', ''arm64''),
     (''armeabi-v7a'', ''arm''), (''armv7'', ''arm''), (''armv7l'', ''arm''), (''i386'', ''x86'')]"

definition cpu :: "pyval \<Rightarrow> string" where
  "cpu v = (let name = lower_text (py_str v) in case map_of cpu_names name of None \<Rightarrow> name | Some known \<Rightarrow> known)"

text \<open>A frozen set of features is the list of its members in the order of \<open>FEATURES\<close>.\<close>

record requirement =
  ident :: string
  symbol_type :: string
  arch :: string
  wanted :: "string list"

definition hex_class :: regex where
  "hex_class = RClass False [(97, 102), (65, 70), (48, 57)]"

definition re_debug_id :: regex where
  "re_debug_id = rseqs [rtimes 8 hex_class, rtimes 3 (RSeq (rlit ''-'') (rtimes 4 hex_class)), rlit ''-'', rtimes 12 hex_class,
     ropt (RSeq (rlit ''-'') (rplus hex_class))]"

definition re_arch :: regex where
  "re_arch = RSeq (RClass False [(97, 122), (65, 90), (48, 57), (95, 95), (43, 43), (45, 45)])
     (rupto 31 (RClass False [(97, 122), (65, 90), (48, 57), (95, 95), (43, 43), (45, 45)]))"

definition feature_names :: "string \<Rightarrow> string list" where
  "feature_names s = filter (\<lambda>x. x \<noteq> []) (map text_strip (split_on (CHR '','') s))"

definition arch_requirement :: "string \<Rightarrow> string \<Rightarrow> string list \<Rightarrow> requirement list \<Rightarrow> pyval \<Rightarrow> exn + requirement list" where
  "arch_requirement did fmt features expected v =
     (case text_of v of
        None \<Rightarrow> Inl (confirmation_error ''invalid_local_architecture'')
      | Some a \<Rightarrow> if \<not> fullmatch re_arch a then Inl (confirmation_error ''invalid_local_architecture'')
          else Inr (List.insert \<lparr>ident = lower_text did, symbol_type = (if fmt = ''dsym'' then ''macho'' else fmt),
            arch = cpu (PStr a), wanted = features\<rparr> expected))"

definition id_requirements ::
    "string \<Rightarrow> string list \<Rightarrow> pyval list \<Rightarrow> requirement list \<Rightarrow> pyval \<Rightarrow> exn + requirement list" where
  "id_requirements fmt features arches expected v =
     (case text_of v of
        None \<Rightarrow> Inl (confirmation_error ''invalid_local_debug_id'')
      | Some did \<Rightarrow> if \<not> fullmatch re_debug_id did then Inl (confirmation_error ''invalid_local_debug_id'')
          else foldE (arch_requirement did fmt features) expected arches)"

definition invalid_inventory :: exn where
  "invalid_inventory = confirmation_error ''invalid_local_inventory''"

definition list_of :: "pyval \<Rightarrow> pyval list option" where
  "list_of v = (case v of PList xs \<Rightarrow> Some xs | _ \<Rightarrow> None)"

text \<open>\<open>--no-sources\<close> keeps source bundles from the upload, so they are not required.\<close>

definition known_requirements ::
    "requirement list \<Rightarrow> pyval \<Rightarrow> string list \<Rightarrow> pyval list \<Rightarrow> pyval list \<Rightarrow> exn + requirement list" where
  "known_requirements expected fmt features ids arches =
     rbind (member_of fmt FORMATS) (\<lambda>known.
       if \<not> known \<or> arches = [] \<or> features = [] \<or> \<not> set features \<subseteq> set FEATURES then Inl invalid_inventory
       else let kept = filter (\<lambda>f. f \<in> set features) [''debug'', ''symtab'', ''unwind''] in
         if kept = [] then Inl (confirmation_error ''invalid_local_features'')
         else foldE (id_requirements (case text_of fmt of None \<Rightarrow> [] | Some f \<Rightarrow> f) kept arches) expected ids)"

definition item_requirements :: "requirement list \<Rightarrow> pyval \<Rightarrow> exn + requirement list" where
  "item_requirements expected item =
     rbind (get_attr item ''format'' PNone) (\<lambda>fmt.
     rbind (get_attr item ''features'' (PStr [])) (\<lambda>features.
     case text_of features of None \<Rightarrow> Inl invalid_inventory
     | Some listed \<Rightarrow>
         let arches = (let a = dict_get (items_of item) ''architectures'' in
               if truthy a then a else PList [dict_get (items_of item) ''architecture'']) in
         (case (list_of (dict_get (items_of item) ''debug_ids''), list_of arches) of
            (Some (i # ids), Some as) \<Rightarrow> known_requirements expected fmt (feature_names listed) (i # ids) as
          | _ \<Rightarrow> Inl invalid_inventory)))"

definition requirements :: "pyval list \<Rightarrow> exn + requirement list" where
  "requirements inventory =
     rbind (foldE item_requirements [] inventory) (\<lambda>expected.
       if expected = [] then Inl (confirmation_error ''empty_local_inventory'') else Inr expected)"

section \<open>The request for one identifier\<close>

record debug_request =
  d_url :: string
  d_headers :: "(string \<times> string) list"

text \<open>The value of a \<open>Retry-After\<close> header as a number, and what a date in it is from now.\<close>

datatype number = Milliseconds int | NotFinite

datatype opened =
    Answered "string option"
  | HttpStatus int "string option"
  | OpenFailed exn

record 'w web_ops =
  open_url :: "debug_request \<Rightarrow> int \<Rightarrow> 'w \<Rightarrow> opened \<times> 'w"
  read1 :: "nat \<Rightarrow> 'w \<Rightarrow> (exn + bytes) \<times> 'w"
  monotonic :: "'w \<Rightarrow> int \<times> 'w"
  json_loads :: "bytes \<Rightarrow> exn + pyval"
  float_of :: "string \<Rightarrow> number option"
  date_delay :: "string \<Rightarrow> 'w \<Rightarrow> (exn + int) \<times> 'w"

record 'w web =
  sent :: "debug_request list"
  wide :: 'w

definition retry_after :: "'w web_ops \<Rightarrow> string option \<Rightarrow> ('w web, int) cmd" where
  "retry_after ops v =
     (case v of
        None \<Rightarrow> ret 10000
      | Some [] \<Rightarrow> ret 10000
      | Some header \<Rightarrow>
          (case float_of ops header of
             Some (Milliseconds delay) \<Rightarrow> ret (max 1000 delay)
           | Some NotFinite \<Rightarrow> lift_result (Inl (confirmation_error ''invalid_retry_after''))
           | None \<Rightarrow> seq (catch_when
               (\<lambda>s. case date_delay ops header (wide s) of (r, w) \<Rightarrow> (r, s\<lparr>wide := w\<rparr>))
               (\<lambda>c. c = ValueError \<or> c = TypeError \<or> c = OverflowError)
               (\<lambda>_. lift_result (Inl (confirmation_error ''invalid_retry_after'')))) (\<lambda>delay. ret (max 1000 delay))))"

definition body_limit :: nat where
  "body_limit = 2000000"

text \<open>The loop that reads the answer; the argument is what has been read so far.\<close>

definition read_chunk :: "'w web_ops \<Rightarrow> nat \<Rightarrow> ('w web, bytes) cmd" where
  "read_chunk ops n s = (case read1 ops n (wide s) of (r, w) \<Rightarrow> (r, s\<lparr>wide := w\<rparr>))"

definition read_clock :: "'w web_ops \<Rightarrow> ('w web, int) cmd" where
  "read_clock ops s = (case monotonic ops (wide s) of (t, w) \<Rightarrow> (Inr t, s\<lparr>wide := w\<rparr>))"

function read_body :: "'w web_ops \<Rightarrow> int \<Rightarrow> bytes \<Rightarrow> ('w web, bytes) cmd" where
  "read_body ops deadline body =
     seq (read_chunk ops (min 65536 (body_limit + 1 - length body))) (\<lambda>chunk.
     seq (read_clock ops) (\<lambda>t.
       if deadline < t then throw OSError ''timed out''
       else if chunk = [] then ret body
       else if body_limit < length body + length chunk
       then lift_result (Inl (confirmation_error ''response_too_large''))
       else read_body ops deadline (body @ chunk)))"
  by pat_completeness auto
termination
  by (relation "measure (\<lambda>(ops, deadline, body). body_limit + 1 - length body)") (auto simp: neq_Nil_conv)

declare read_body.simps [simp del]

definition rows_of :: "pyval \<Rightarrow> exn + pyval list" where
  "rows_of data = (case list_of data of
      Some rows \<Rightarrow> if list_all is_dict rows then Inr rows else Inl (confirmation_error ''invalid_server_inventory'')
    | None \<Rightarrow> Inl (confirmation_error ''invalid_server_inventory''))"

definition more_pages :: "string option \<Rightarrow> bool" where
  "more_pages link \<longleftrightarrow> contains ''rel=\"next\"; results=\"true\"'' (case link of None \<Rightarrow> [] | Some l \<Rightarrow> l)"

definition status_category :: "int \<Rightarrow> string" where
  "status_category code =
     (if code = 401 then ''authentication_rejected'' else if code = 403 then ''permission_rejected''
      else if code = 429 then ''rate_limited'' else if 500 \<le> code then ''server_error'' else ''request_rejected'')"

definition re_request_id :: regex where
  "re_request_id = RSeq (rtimes 36 (RClass False [(97, 102), (48, 57), (45, 45)]))
     (rupto 34 (RClass False [(97, 102), (48, 57), (45, 45)]))"

definition debug_files_url :: "string \<Rightarrow> string \<Rightarrow> string" where
  "debug_files_url project did =
     ''https://us.sentry.io/api/0/projects/ka-chiu-lee/'' @ project @ ''/files/dsyms/?debug_id='' @ did"

definition confirmation_headers :: "string \<Rightarrow> (string \<times> string) list" where
  "confirmation_headers token = [(''Authorization'', ''Bearer '' @ token), (''Accept'', ''application/json''),
     (''User-Agent'', ''XFlclash-symbol-confirmation'')]"

definition send_request :: "'w web_ops \<Rightarrow> debug_request \<Rightarrow> int \<Rightarrow> ('w web, opened) cmd" where
  "send_request ops req timeout s =
     (case open_url ops req timeout (wide s) of (r, w) \<Rightarrow> (Inr r, s\<lparr>sent := sent s @ [req], wide := w\<rparr>))"

text \<open>The answer of the server read and checked, inside the \<open>try\<close>.\<close>

definition take_answer :: "'w web_ops \<Rightarrow> int \<Rightarrow> string option \<Rightarrow> ('w web, pyval list) cmd" where
  "take_answer ops timeout link =
     (if more_pages link then lift_result (Inl (confirmation_error ''inventory_pagination_unexpected''))
      else seq (read_clock ops) (\<lambda>t.
        seq (read_body ops (t + timeout) []) (\<lambda>raw.
        lift_result (rbind (json_loads ops raw) rows_of))))"

definition answer_failed :: "exn \<Rightarrow> ('w web, pyval list) cmd" where
  "answer_failed e = lift_result (Inl (if exn_class_of e = OSError \<or> exn_class_of e = HttpException
     then upload_error ''transport_error'' None 10000 else confirmation_error ''invalid_server_inventory''))"

definition status_failed :: "'w web_ops \<Rightarrow> int \<Rightarrow> string option \<Rightarrow> ('w web, pyval list) cmd" where
  "status_failed ops code header =
     seq (if code = 429 \<or> code = 503 then retry_after ops header else ret 10000) (\<lambda>delay.
       lift_result (Inl (upload_error (status_category code) (Some code) delay)))"

definition caught_class :: "exn_class \<Rightarrow> bool" where
  "caught_class c \<longleftrightarrow> c = OSError \<or> c = HttpException \<or> c = ValueError \<or> c = UnicodeError"

definition get_debug_files :: "'w web_ops \<Rightarrow> string \<Rightarrow> string \<Rightarrow> string \<Rightarrow> int \<Rightarrow> ('w web, pyval list) cmd" where
  "get_debug_files ops project did token timeout =
     (if project \<notin> set PROJECTS \<or> \<not> fullmatch re_request_id did
      then lift_result (Inl (confirmation_error ''invalid_request_identity''))
      else if token = [] \<or> char_of (10 :: nat) \<in> set token \<or> char_of (13 :: nat) \<in> set token
      then lift_result (Inl (confirmation_error ''invalid_credential''))
      else seq (send_request ops \<lparr>d_url = debug_files_url project did, d_headers = confirmation_headers token\<rparr> timeout) (\<lambda>r.
        case r of
          HttpStatus code header \<Rightarrow> status_failed ops code header
        | Answered link \<Rightarrow> catch_when (take_answer ops timeout link) caught_class answer_failed
        | OpenFailed e \<Rightarrow> catch_when (lift_result (Inl e)) caught_class answer_failed))"

section \<open>Confirmation\<close>

definition row_matches :: "requirement \<Rightarrow> pyval \<Rightarrow> bool" where
  "row_matches r row =
     (let d = items_of row in
      case (text_of (dict_get d ''debugId''), list_of (dict_get (items_of (dict_get d ''data'')) ''features'')) of
        (Some did, Some features) \<Rightarrow>
          lower_text did = ident r \<and> dict_get d ''symbolType'' = PStr (symbol_type r)
          \<and> cpu (dict_get d ''cpuName'') = arch r \<and> list_all (\<lambda>f. PStr f \<in> set features) (wanted r)
      | _ \<Rightarrow> False)"

record 'w confirmation =
  pending :: "requirement list"
  rounds :: nat
  failures :: nat
  confirmed :: int
  last_error :: "pydict option"
  status :: string
  final_error :: "pydict option"
  elapsed :: int
  missing :: "requirement list"
  answers :: "(string \<times> pyval list) list"
  around :: 'w

record 'w confirm_ops =
  now :: "'w \<Rightarrow> int \<times> 'w"
  pause :: "int \<Rightarrow> 'w \<Rightarrow> 'w"
  fetch :: "string \<Rightarrow> int \<Rightarrow> 'w \<Rightarrow> (exn + pyval list) \<times> 'w"
  emit :: "string \<Rightarrow> 'w \<Rightarrow> 'w"

definition read_now :: "'w confirm_ops \<Rightarrow> ('w confirmation, int) cmd" where
  "read_now ops s = (case now ops (around s) of (t, w) \<Rightarrow> (Inr t, s\<lparr>around := w\<rparr>))"

definition call_fetch :: "'w confirm_ops \<Rightarrow> string \<Rightarrow> int \<Rightarrow> ('w confirmation, pyval list) cmd" where
  "call_fetch ops did timeout s =
     (case fetch ops did timeout (around s) of
        (Inl e, w) \<Rightarrow> (Inl e, s\<lparr>around := w\<rparr>)
      | (Inr rows, w) \<Rightarrow> (Inr rows, s\<lparr>answers := answers s @ [(did, rows)], around := w\<rparr>))"

text \<open>The function \<open>query\<close>: an \<open>UploadError\<close> is a result, other exceptions leave it.\<close>

definition query :: "'w confirm_ops \<Rightarrow> int \<Rightarrow> string \<Rightarrow> ('w confirmation, exn + pyval list) cmd" where
  "query ops deadline did =
     seq (read_now ops) (\<lambda>t.
       if deadline - t \<le> 0 then ret (Inl (confirmation_error ''confirmation_deadline''))
       else catch_when (seq (call_fetch ops did (min REQUEST_MS (deadline - t))) (\<lambda>rows. ret (Inr rows)))
         is_upload_class (\<lambda>e. ret (Inl e)))"

definition passing_categories :: "string list" where
  "passing_categories = [''transport_error'', ''server_error'', ''rate_limited'', ''confirmation_deadline'']"

definition take_result ::
    "int \<Rightarrow> string \<times> (exn + pyval list) \<Rightarrow> ('w confirmation, int) cmd" where
  "take_result delay result =
     (case snd result of
        Inl e \<Rightarrow>
          seq (updating (\<lambda>s. s\<lparr>last_error := Some (upload_diagnostic e), failures := failures s + 1\<rparr>)) (\<lambda>_.
            if exn_message e \<notin> set passing_categories then lift_result (Inl e) else ret (max delay (error_wait e)))
      | Inr rows \<Rightarrow>
          seq (updating (\<lambda>s. s\<lparr>pending := filter (\<lambda>r. ident r \<noteq> fst result \<or> \<not> list_ex (row_matches r) rows) (pending s)\<rparr>))
            (\<lambda>_. ret delay))"

definition pending_ids :: "requirement list \<Rightarrow> string list" where
  "pending_ids rs = sort (remdups (map ident rs))"

datatype round_end = Finished | GaveUp | Again

definition query_all :: "'w confirm_ops \<Rightarrow> int \<Rightarrow> string list \<Rightarrow> ('w confirmation, (string \<times> (exn + pyval list)) list) cmd" where
  "query_all ops deadline ids =
     loop_over (\<lambda>acc did. seq (query ops deadline did) (\<lambda>r. ret (acc @ [(did, r)]))) [] ids"

definition progress_line :: "int \<Rightarrow> 'w confirmation \<Rightarrow> string" where
  "progress_line expected s = ''Sentry confirmation: '' @ int_text (confirmed s) @ ''/'' @ int_text expected @ '', round ''
     @ int_text (int (rounds s))"

definition end_round :: "'w confirm_ops \<Rightarrow> int \<Rightarrow> int \<Rightarrow> int \<Rightarrow> ('w confirmation, round_end) cmd" where
  "end_round ops expected deadline delay =
     seq (updating (\<lambda>s. s\<lparr>confirmed := expected - int (length (pending s))\<rparr>)) (\<lambda>_.
     seq (updating (\<lambda>s. s\<lparr>around := emit ops (progress_line expected s) (around s)\<rparr>)) (\<lambda>_.
     seq (reading pending) (\<lambda>p.
       if p = [] then seq (updating (\<lambda>s. s\<lparr>status := ''confirmed''\<rparr>)) (\<lambda>_. ret Finished)
       else seq (read_now ops) (\<lambda>t.
         if deadline - t \<le> 0 \<or> deadline - t \<le> delay then ret GaveUp
         else seq (updating (\<lambda>s. s\<lparr>around := pause ops delay (around s)\<rparr>)) (\<lambda>_. ret Again)))))"

definition confirm_round :: "'w confirm_ops \<Rightarrow> int \<Rightarrow> int \<Rightarrow> ('w confirmation, round_end) cmd" where
  "confirm_round ops expected deadline =
     seq (updating (\<lambda>s. s\<lparr>rounds := rounds s + 1\<rparr>)) (\<lambda>_.
     seq (reading (\<lambda>s. pending_ids (pending s))) (\<lambda>ids.
     seq (query_all ops deadline ids) (\<lambda>results.
     seq (loop_over take_result 10000 results) (end_round ops expected deadline))))"

text \<open>The \<open>while\<close> loop with the number of rounds that are left of 61.\<close>

definition unconfirmed :: "('w confirmation, unit) cmd" where
  "unconfirmed = lift_result (Inl (confirmation_error ''symbols_unconfirmed_before_deadline''))"

fun confirm_loop :: "'w confirm_ops \<Rightarrow> int \<Rightarrow> int \<Rightarrow> nat \<Rightarrow> ('w confirmation, unit) cmd" where
  "confirm_loop ops expected deadline n =
     seq (reading pending) (\<lambda>p.
       if p = [] then unconfirmed
       else seq (read_now ops) (\<lambda>t.
         if \<not> t < deadline then unconfirmed
         else case n of
             0 \<Rightarrow> unconfirmed
           | Suc m \<Rightarrow> seq (confirm_round ops expected deadline) (\<lambda>r.
               case r of Finished \<Rightarrow> ret () | GaveUp \<Rightarrow> unconfirmed | Again \<Rightarrow> confirm_loop ops expected deadline m)))"

declare confirm_loop.simps [simp del]

definition sorted_requirements :: "requirement list \<Rightarrow> requirement list" where
  "sorted_requirements rs = sort_key (\<lambda>r. (ident r, symbol_type r, arch r)) rs"

definition round_up :: "'w confirm_ops \<Rightarrow> int \<Rightarrow> int \<Rightarrow> 'w confirmation \<Rightarrow> 'w confirmation" where
  "round_up ops expected started s =
     (case now ops (around s) of (t, w) \<Rightarrow>
       s\<lparr>confirmed := expected - int (length (pending s)), elapsed := t - started,
         missing := sorted_requirements (pending s), around := w\<rparr>)"

definition start_confirmation :: "requirement list \<Rightarrow> 'w \<Rightarrow> 'w confirmation" where
  "start_confirmation rs w =
     \<lparr>pending = rs, rounds = 0, failures = 0, confirmed = 0, last_error = None, status = ''pending'', final_error = None,
      elapsed = 0, missing = [], answers = [], around = w\<rparr>"

definition max_rounds :: nat where
  "max_rounds = 61"

text \<open>The invalid inventory leaves no report; otherwise the report is written however the loop ends.\<close>

definition confirm_symbol_inventory ::
    "'w confirm_ops \<Rightarrow> pyval list \<Rightarrow> int \<Rightarrow> 'w \<Rightarrow> exn + (exn + unit) \<times> 'w confirmation" where
  "confirm_symbol_inventory ops inventory budget w =
     rbind (requirements inventory) (\<lambda>rs.
       let expected = int (length rs); (started, w1) = now ops w;
           s = start_confirmation rs w1;
           body = catch_when (confirm_loop ops expected (started + budget) max_rounds) is_upload_class
             (\<lambda>e. seq (updating (\<lambda>s. s\<lparr>status := ''failed'', final_error := Some (upload_diagnostic e)\<rparr>)) (\<lambda>_. lift_result (Inl e)));
           (r, t) = body s in
       Inr (r, round_up ops expected started t))"

section \<open>What a run of the confirmation keeps\<close>

text \<open>A requirement is answered by a row of an answer for its identifier.\<close>

definition answered :: "(string \<times> pyval list) list \<Rightarrow> requirement \<Rightarrow> bool" where
  "answered log r \<longleftrightarrow> list_ex (\<lambda>(i, rows). i = ident r \<and> list_ex (row_matches r) rows) log"

definition accounted :: "requirement list \<Rightarrow> requirement list \<Rightarrow> (string \<times> pyval list) list \<Rightarrow> bool" where
  "accounted rs open_rs log \<longleftrightarrow> set open_rs \<subseteq> set rs \<and> (\<forall>r\<in>set rs. r \<in> set open_rs \<or> answered log r)"

definition logged :: "(string \<times> (exn + pyval list)) list \<Rightarrow> (string \<times> pyval list) list \<Rightarrow> bool" where
  "logged results log \<longleftrightarrow> (\<forall>i rows. (i, Inr rows) \<in> set results \<longrightarrow> (i, rows) \<in> set log)"

lemma answered_longer: "answered log r \<Longrightarrow> answered (log @ later) r"
  by (auto simp: answered_def list_ex_iff)

lemma answeredI: "(ident r, rows) \<in> set log \<Longrightarrow> list_ex (row_matches r) rows \<Longrightarrow> answered log r"
  by (auto simp: answered_def list_ex_iff)

lemma accounted_longer: "accounted rs p log \<Longrightarrow> accounted rs p (log @ later)"
  by (auto simp: accounted_def intro: answered_longer)

lemma logged_simps [simp]:
  "logged [] log"
  "logged (results @ [(i, Inl e)]) log \<longleftrightarrow> logged results log"
  "logged results log \<Longrightarrow> logged (results @ [(i, Inr rows)]) (log @ [(i, rows)])"
  by (auto simp: logged_def)

lemma accounted_filter:
  assumes "accounted rs p log" and "(i, rows) \<in> set log"
  shows "accounted rs (filter (\<lambda>r. ident r \<noteq> i \<or> \<not> list_ex (row_matches r) rows) p) log"
  using assms answeredI by (fastforce simp: accounted_def)

definition round_inv :: "requirement list \<Rightarrow> nat \<Rightarrow> (string \<times> (exn + pyval list)) list \<Rightarrow> 'w confirmation \<Rightarrow> bool" where
  "round_inv rs k results s \<longleftrightarrow> accounted rs (pending s) (answers s) \<and> rounds s \<le> k \<and> logged results (answers s)"

lemma round_inv_read_now: "triple (round_inv rs k results) (read_now ops) (\<lambda>_. round_inv rs k results) E"
  by (simp add: triple_def read_now_def round_inv_def split: prod.split)

lemma round_inv_fetch:
  "triple (round_inv rs k results) (call_fetch ops i timeout)
     (\<lambda>rows. round_inv rs k (results @ [(i, Inr rows)])) (\<lambda>_. round_inv rs k results)"
  by (simp add: triple_def call_fetch_def round_inv_def accounted_longer split: prod.split sum.split)

lemma round_inv_catch:
  "triple P m Q F \<Longrightarrow> (\<And>e. triple (F e) (h e) Q E) \<Longrightarrow> (\<And>e s. F e s \<Longrightarrow> E e s) \<Longrightarrow> triple P (catch_when m A h) Q E"
  unfolding triple_def catch_when_def
proof (intro allI impI)
  fix s
  assume m: "\<forall>s. P s \<longrightarrow> (case m s of (Inl e, t) \<Rightarrow> F e t | (Inr x, t) \<Rightarrow> Q x t)" and s: "P s"
    and h: "\<And>e. \<forall>s. F e s \<longrightarrow> (case h e s of (Inl e, t) \<Rightarrow> E e t | (Inr x, t) \<Rightarrow> Q x t)"
    and out: "\<And>e s. F e s \<Longrightarrow> E e s"
  obtain r t where r: "m s = (r, t)" by fastforce
  show "case case m s of (Inl e, t) \<Rightarrow> if A (exn_class_of e) then h e t else (Inl e, t) | (Inr x, t) \<Rightarrow> (Inr x, t)
    of (Inl e, t) \<Rightarrow> E e t | (Inr x, t) \<Rightarrow> Q x t"
    using m [rule_format, OF s] h out r by (cases r) auto
qed

lemma round_inv_error [simp]: "round_inv rs k (results @ [(i, Inl e)]) s \<longleftrightarrow> round_inv rs k results s"
  by (simp add: round_inv_def)

lemma round_inv_query:
  "triple (round_inv rs k results) (query ops deadline i)
     (\<lambda>r. round_inv rs k (results @ [(i, r)])) (\<lambda>_. round_inv rs k results)"
  unfolding query_def
  by (rule triple_seq [OF round_inv_read_now], rule triple_if, rule triple_ret, simp,
      rule round_inv_catch, rule triple_seq [OF round_inv_fetch], rule triple_ret, assumption, rule triple_ret, simp)

lemma round_inv_drop: "round_inv rs k results s \<Longrightarrow> round_inv rs k [] s"
  by (simp add: round_inv_def)

lemma round_inv_query_all:
  "triple (round_inv rs k []) (query_all ops deadline ids) (round_inv rs k) (\<lambda>_. round_inv rs k [])"
proof -
  have "triple (round_inv rs k acc) (seq (query ops deadline i) (\<lambda>r. ret (acc @ [(i, r)])))
      (round_inv rs k) (\<lambda>_. round_inv rs k [])" for acc i
    by (rule triple_conseq [OF triple_seq [OF round_inv_query triple_ret]], assumption+, erule round_inv_drop)
  then show ?thesis unfolding query_all_def by (rule triple_loop_over)
qed

lemma round_inv_take_result:
  assumes "p \<in> set results"
  shows "triple (round_inv rs k results) (take_result delay p) (\<lambda>_. round_inv rs k results) (\<lambda>_. round_inv rs k results)"
proof (cases p)
  case (Pair i x)
  show ?thesis
  proof (cases x)
    case (Inl e)
    show ?thesis unfolding take_result_def Pair Inl snd_conv sum.case
      by (rule triple_seq [OF triple_updating [where Q = "\<lambda>_. round_inv rs k results"]], simp add: round_inv_def,
          rule triple_if, rule triple_lift, assumption, simp, rule triple_ret, assumption)
  next
    case (Inr rows)
    have "(i, rows) \<in> set (answers s)" if "round_inv rs k results s" for s :: "'a confirmation"
      using that assms Pair Inr by (auto simp: round_inv_def logged_def)
    then show ?thesis unfolding take_result_def Pair Inr snd_conv fst_conv sum.case
      by (intro triple_seq [OF triple_updating [where Q = "\<lambda>_. round_inv rs k results"]] triple_ret)
         (auto simp: round_inv_def intro: accounted_filter [simplified])
  qed
qed

lemma round_inv_update:
  "(\<And>s. pending (f s) = pending s) \<Longrightarrow> (\<And>s. answers (f s) = answers s) \<Longrightarrow> (\<And>s. rounds (f s) = rounds s)
   \<Longrightarrow> triple (round_inv rs k results) (updating f) (\<lambda>_. round_inv rs k results) E"
  by (rule triple_updating) (simp add: round_inv_def)

text \<open>How a round and the loop end.\<close>

definition all_found :: "requirement list \<Rightarrow> nat \<Rightarrow> 'w confirmation \<Rightarrow> bool" where
  "all_found rs k s \<longleftrightarrow> round_inv rs k [] s \<and> pending s = [] \<and> status s = ''confirmed''"

lemma end_round_spec:
  "triple (round_inv rs k []) (end_round ops expected deadline delay)
     (\<lambda>r s. if r = Finished then all_found rs k s else round_inv rs k [] s) (\<lambda>_. round_inv rs k [])"
proof -
  let ?I = "round_inv rs k []" and ?Q = "\<lambda>r s. if r = Finished then all_found rs k s else round_inv rs k [] s"
  have found: "triple (\<lambda>s. ?I s \<and> pending s = []) (seq (updating (\<lambda>s. s\<lparr>status := ''confirmed''\<rparr>)) (\<lambda>_. ret Finished)) ?Q (\<lambda>_. ?I)"
    by (rule triple_seq [OF triple_updating [where Q = "\<lambda>_. all_found rs k"] triple_ret])
       (auto simp: all_found_def round_inv_def)
  have wait: "triple ?I (seq (updating (\<lambda>s. s\<lparr>around := pause ops delay (around s)\<rparr>)) (\<lambda>_. ret Again)) ?Q (\<lambda>_. ?I)"
    by (rule triple_seq [OF round_inv_update triple_ret]) simp_all
  have go_on: "triple ?I (seq (read_now ops) (\<lambda>t. if deadline - t \<le> 0 \<or> deadline - t \<le> delay then ret GaveUp
         else seq (updating (\<lambda>s. s\<lparr>around := pause ops delay (around s)\<rparr>)) (\<lambda>_. ret Again))) ?Q (\<lambda>_. ?I)"
    by (rule triple_seq [OF round_inv_read_now], rule triple_if, rule triple_ret, simp, rule wait)
  show ?thesis unfolding end_round_def
    by (rule triple_seq [OF round_inv_update], simp, simp, simp,
        rule triple_seq [OF round_inv_update], simp, simp, simp,
        rule triple_seq [OF triple_reading [where Q = "\<lambda>p s. ?I s \<and> p = pending s"]], simp,
        rule triple_if, rule triple_conseq [OF found], simp, assumption+,
        rule triple_conseq [OF go_on], simp, assumption+)
qed

lemma confirm_round_spec:
  "triple (round_inv rs k []) (confirm_round ops expected deadline)
     (\<lambda>r s. if r = Finished then all_found rs (Suc k) s else round_inv rs (Suc k) [] s) (\<lambda>_. round_inv rs (Suc k) [])"
proof -
  let ?I = "\<lambda>results. round_inv rs (Suc k) results"
  have results: "triple (?I results) (loop_over take_result 10000 results) (\<lambda>_. ?I []) (\<lambda>_. ?I [])" for results
    by (rule triple_conseq [OF triple_loop_over [where I = "\<lambda>_. ?I results"]], rule round_inv_take_result)
       (auto elim: round_inv_drop)
  show ?thesis unfolding confirm_round_def
    by (rule triple_seq [OF triple_updating [where Q = "\<lambda>_. ?I []"]], simp add: round_inv_def,
        rule triple_seq [OF triple_reading [where Q = "\<lambda>_. ?I []"]], assumption,
        rule triple_seq [OF round_inv_query_all], rule triple_seq [OF results end_round_spec])
qed

lemma round_inv_mono: "round_inv rs k results s \<Longrightarrow> k \<le> k' \<Longrightarrow> round_inv rs k' results s"
  by (simp add: round_inv_def)

lemma confirm_loop_spec:
  "triple (round_inv rs k []) (confirm_loop ops expected deadline n) (\<lambda>_. all_found rs (k + n)) (\<lambda>_. round_inv rs (k + n) [])"
proof (induction n arbitrary: k)
  case 0
  show ?case unfolding confirm_loop.simps [of _ _ _ 0] unconfirmed_def nat.case
    by (rule triple_seq [OF triple_reading [where Q = "\<lambda>_. round_inv rs k []"]])
       (auto intro!: triple_if triple_lift triple_seq [OF round_inv_read_now])
next
  case (Suc n)
  have next_round: "triple (\<lambda>s. if r = Finished then all_found rs (Suc k) s else round_inv rs (Suc k) [] s)
      (case r of Finished \<Rightarrow> ret () | GaveUp \<Rightarrow> unconfirmed | Again \<Rightarrow> confirm_loop ops expected deadline n)
      (\<lambda>_. all_found rs (k + Suc n)) (\<lambda>_. round_inv rs (k + Suc n) [])" for r
  proof (cases r)
    case Finished
    then show ?thesis by (auto simp: all_found_def round_inv_def intro!: triple_ret)
  next
    case GaveUp
    then show ?thesis by (auto simp: unconfirmed_def round_inv_def intro!: triple_lift)
  qed (use Suc.IH [of "Suc k"] in simp)
  have round: "triple (round_inv rs k []) (confirm_round ops expected deadline)
     (\<lambda>r s. if r = Finished then all_found rs (Suc k) s else round_inv rs (Suc k) [] s) (\<lambda>_. round_inv rs (k + Suc n) [])"
    by (rule triple_conseq [OF confirm_round_spec [of rs k]]) (auto elim: round_inv_mono)
  have stop: "triple (round_inv rs k []) unconfirmed (\<lambda>_. all_found rs (k + Suc n)) (\<lambda>_. round_inv rs (k + Suc n) [])"
    unfolding unconfirmed_def by (rule triple_lift) (auto elim: round_inv_mono)
  show ?case unfolding confirm_loop.simps [of _ _ _ "Suc n"] nat.case
    by (rule triple_seq [OF triple_reading [where Q = "\<lambda>_. round_inv rs k []"]], assumption, rule triple_if, rule stop,
        rule triple_seq [OF round_inv_read_now], rule triple_if, rule stop, rule triple_seq [OF round next_round])
qed

lemma sorted_requirements_facts [simp]:
  "set (sorted_requirements rs) = set rs"
  "length (sorted_requirements rs) = length rs"
  by (simp_all add: sorted_requirements_def)

lemma round_up_fields [simp]:
  "rounds (round_up ops expected started s) = rounds s"
  "status (round_up ops expected started s) = status s"
  "final_error (round_up ops expected started s) = final_error s"
  "answers (round_up ops expected started s) = answers s"
  "missing (round_up ops expected started s) = sorted_requirements (pending s)"
  "confirmed (round_up ops expected started s) = expected - int (length (pending s))"
  by (simp_all add: round_up_def split: prod.split)

definition run_ended :: "requirement list \<Rightarrow> exn + unit \<Rightarrow> 'w confirmation \<Rightarrow> bool" where
  "run_ended rs r s \<longleftrightarrow> round_inv rs max_rounds [] s
     \<and> (r = Inr () \<longrightarrow> pending s = [] \<and> status s = ''confirmed'')
     \<and> (\<forall>e. r = Inl e \<and> is_upload_class (exn_class_of e) \<longrightarrow> status s = ''failed'' \<and> final_error s = Some (upload_diagnostic e))"

lemma confirm_body:
  assumes "round_inv rs 0 [] s"
    and "catch_when (confirm_loop ops expected deadline max_rounds) is_upload_class
           (\<lambda>e. seq (updating (\<lambda>s. s\<lparr>status := ''failed'', final_error := Some (upload_diagnostic e)\<rparr>)) (\<lambda>_. lift_result (Inl e))) s
         = (r, t)"
  shows "run_ended rs r t"
proof -
  obtain r' t' where loop: "confirm_loop ops expected deadline max_rounds s = (r', t')" by fastforce
  have spec: "triple (round_inv rs 0 []) (confirm_loop ops expected deadline max_rounds)
      (\<lambda>_. all_found rs max_rounds) (\<lambda>_. round_inv rs max_rounds [])"
    using confirm_loop_spec [of rs 0 ops expected deadline max_rounds] by simp
  show ?thesis
  proof (cases r')
    case (Inr u)
    have "all_found rs max_rounds t'"
      by (rule triple_Inr [OF spec assms(1)]) (use loop Inr in simp)
    with assms(2) loop Inr show ?thesis by (auto simp: catch_when_def run_ended_def all_found_def)
  next
    case (Inl e)
    have "round_inv rs max_rounds [] t'"
      by (rule triple_Inl [OF spec assms(1)]) (use loop Inl in simp)
    with assms(2) loop Inl show ?thesis
      by (auto simp: catch_when_def run_ended_def round_inv_def seq_def updating_def lift_result_def split: if_splits)
  qed
qed

lemma start_round_inv: "round_inv rs 0 [] (start_confirmation rs w)"
  by (simp add: round_inv_def start_confirmation_def accounted_def)

lemma confirm_ended:
  assumes "confirm_symbol_inventory ops inventory budget w = Inr (r, s)"
  shows "\<exists>rs started t. requirements inventory = Inr rs \<and> run_ended rs r t \<and> s = round_up ops (int (length rs)) started t"
proof -
  obtain rs where rs: "requirements inventory = Inr rs"
    using assms by (auto simp: confirm_symbol_inventory_def)
  obtain started w1 where w1: "now ops w = (started, w1)" by fastforce
  obtain r' t where body: "catch_when (confirm_loop ops (int (length rs)) (started + budget) max_rounds) is_upload_class
       (\<lambda>e. seq (updating (\<lambda>s. s\<lparr>status := ''failed'', final_error := Some (upload_diagnostic e)\<rparr>)) (\<lambda>_. lift_result (Inl e)))
       (start_confirmation rs w1) = (r', t)"
    by fastforce
  from assms rs w1 body have "r' = r" "s = round_up ops (int (length rs)) started t"
    by (auto simp: confirm_symbol_inventory_def Let_def)
  with confirm_body [OF start_round_inv body] rs show ?thesis by blast
qed

section \<open>What a requirement is\<close>

definition requirement_ok :: "requirement \<Rightarrow> bool" where
  "requirement_ok r \<longleftrightarrow> (\<exists>i. ident r = lower_text i \<and> fullmatch re_debug_id i)
     \<and> symbol_type r \<in> {''elf'', ''pdb'', ''macho'', ''breakpad'', ''portablepdb''}
     \<and> wanted r \<noteq> [] \<and> set (wanted r) \<subseteq> {''debug'', ''symtab'', ''unwind''}"

lemma arch_requirement_Inr:
  assumes "arch_requirement i fmt features expected v = Inr expected'"
  shows "\<exists>r. expected' = List.insert r expected \<and> ident r = lower_text i
    \<and> symbol_type r = (if fmt = ''dsym'' then ''macho'' else fmt) \<and> wanted r = features"
  using assms by (auto simp: arch_requirement_def split: option.splits if_splits)

lemma foldE_arch_grows:
  "foldE (arch_requirement i fmt features) expected arches = Inr expected' \<Longrightarrow> set expected \<subseteq> set expected'"
proof (induction arches arbitrary: expected)
  case (Cons a arches)
  then show ?case by (fastforce dest: arch_requirement_Inr)
qed simp

definition grown :: "requirement list \<Rightarrow> requirement list \<Rightarrow> bool" where
  "grown expected expected' \<longleftrightarrow> set expected \<subseteq> set expected' \<and> (distinct expected \<longrightarrow> distinct expected')
     \<and> (list_all requirement_ok expected \<longrightarrow> list_all requirement_ok expected')"

lemma grown_refl [simp]: "grown e e"
  by (simp add: grown_def)

lemma grown_trans: "grown d e \<Longrightarrow> grown e f \<Longrightarrow> grown d f"
  by (auto simp: grown_def)

lemma foldE_grown: "foldE f e xs = Inr e' \<Longrightarrow> (\<And>e x e'. f e x = Inr e' \<Longrightarrow> grown e e') \<Longrightarrow> grown e e'"
  by (erule foldE_invariant) (auto intro: grown_trans)

lemma id_requirements_grown:
  assumes "id_requirements fmt features arches expected v = Inr expected'" and "fmt \<in> set FORMATS"
    and "features \<noteq> []" "set features \<subseteq> {''debug'', ''symtab'', ''unwind''}"
  shows "grown expected expected'"
    and "arches \<noteq> [] \<Longrightarrow> v = PStr i \<Longrightarrow> \<exists>r\<in>set expected'. ident r = lower_text i"
proof -
  obtain k where k: "v = PStr k" "fullmatch re_debug_id k"
      and loop: "foldE (arch_requirement k fmt features) expected arches = Inr expected'"
    using assms(1) by (cases v) (auto simp: id_requirements_def split: if_splits)
  have "grown e e'" if "arch_requirement k fmt features e a = Inr e'" for e a e'
  proof -
    from arch_requirement_Inr [OF that] obtain r where r: "e' = List.insert r e" "ident r = lower_text k"
      "wanted r = features" "symbol_type r = (if fmt = ''dsym'' then ''macho'' else fmt)" by blast
    have "requirement_ok r"
      unfolding requirement_ok_def r(2-4) using assms(2-) k(2) by (auto simp: FORMATS_def)
    with r(1) show ?thesis by (auto simp: grown_def list_all_iff)
  qed
  with loop show "grown expected expected'" by (rule foldE_grown)
  show "\<exists>r\<in>set expected'. ident r = lower_text i" if "arches \<noteq> []" "v = PStr i"
  proof -
    from that(1) obtain a as where "arches = a # as" by (cases arches) auto
    with loop obtain e where e: "arch_requirement k fmt features expected a = Inr e"
      "foldE (arch_requirement k fmt features) e as = Inr expected'" by auto
    from arch_requirement_Inr [OF e(1)] foldE_arch_grows [OF e(2)] k(1) that(2) show ?thesis by auto
  qed
qed

lemma list_of_Some [simp]: "list_of v = Some xs \<longleftrightarrow> v = PList xs"
  by (cases v) (auto simp: list_of_def)

lemma known_requirements_Inr:
  assumes "known_requirements expected v features ids arches = Inr expected'"
  obtains fmt kept where "fmt \<in> set FORMATS" "arches \<noteq> []" "kept \<noteq> []"
      "set kept \<subseteq> {''debug'', ''symtab'', ''unwind''}"
      "foldE (id_requirements fmt kept arches) expected ids = Inr expected'"
proof -
  define kept where "kept = filter (\<lambda>f. f \<in> set features) [''debug'', ''symtab'', ''unwind'']"
  have "set kept \<subseteq> {''debug'', ''symtab'', ''unwind''}" by (auto simp: kept_def)
  moreover from assms obtain f where "v = PStr f" "f \<in> set FORMATS" "arches \<noteq> []" "kept \<noteq> []"
      "foldE (id_requirements f kept arches) expected ids = Inr expected'"
    unfolding known_requirements_def kept_def [symmetric] Let_def by (fastforce simp: member_of_True split: if_splits)
  ultimately show ?thesis using that by blast
qed

lemma item_requirements_known:
  assumes "item_requirements expected (PDict d) = Inr expected'"
  obtains v features k ks as where "dict_get d ''debug_ids'' = PList (k # ks)"
      "known_requirements expected v features (k # ks) as = Inr expected'"
proof -
  from assms show ?thesis
    unfolding item_requirements_def Let_def get_attr_def items_of_def pyval.case rbind_simps
    by (auto intro: that split: option.splits list.splits)
qed

lemma item_requirements_Inr:
  assumes "item_requirements expected (PDict d) = Inr expected'"
  obtains fmt features as k ks where "fmt \<in> set FORMATS" "as \<noteq> []" "features \<noteq> []"
      "set features \<subseteq> {''debug'', ''symtab'', ''unwind''}" "dict_get d ''debug_ids'' = PList (k # ks)"
      "foldE (id_requirements fmt features as) expected (k # ks) = Inr expected'"
  using item_requirements_known [OF assms] known_requirements_Inr by metis

lemma item_requirements_grown:
  assumes "item_requirements expected item = Inr expected'"
  shows "grown expected expected'"
    and "item = PDict d \<Longrightarrow> dict_get d ''debug_ids'' = PList ids \<Longrightarrow> PStr i \<in> set ids
      \<Longrightarrow> \<exists>r\<in>set expected'. ident r = lower_text i"
proof -
  obtain d' where d': "item = PDict d'"
    using assms by (cases item) (auto simp: item_requirements_def get_attr_def)
  obtain fmt features as k ks where f: "fmt \<in> set FORMATS" "as \<noteq> []" "features \<noteq> []"
      "set features \<subseteq> {''debug'', ''symtab'', ''unwind''}" "dict_get d' ''debug_ids'' = PList (k # ks)"
      "foldE (id_requirements fmt features as) expected (k # ks) = Inr expected'"
    using item_requirements_Inr assms unfolding d' by metis
  note grows = id_requirements_grown [OF _ f(1,3,4)]
  show "grown expected expected'"
    by (rule foldE_grown [OF f(6)]) (rule grows(1))
  show "\<exists>r\<in>set expected'. ident r = lower_text i"
    if "item = PDict d" "dict_get d ''debug_ids'' = PList ids" "PStr i \<in> set ids"
  proof -
    have "PStr i \<in> set (k # ks)" using that d' f(5) by simp
    then obtain us vs where vs: "k # ks = us @ PStr i # vs" by (meson split_list)
    from f(6) obtain e1 e2 where e: "id_requirements fmt features as e1 (PStr i) = Inr e2"
        "foldE (id_requirements fmt features as) e2 vs = Inr expected'"
      unfolding vs by (auto simp: foldE_append)
    have "grown e2 expected'" by (rule foldE_grown [OF e(2)]) (rule grows(1))
    with grows(2) [OF e(1) f(2) refl] show ?thesis by (auto simp: grown_def)
  qed
qed

lemma requirements_grown:
  assumes "requirements inventory = Inr rs"
  shows "grown [] rs" and "rs \<noteq> []"
    and "PDict d \<in> set inventory \<Longrightarrow> dict_get d ''debug_ids'' = PList ids \<Longrightarrow> PStr i \<in> set ids
      \<Longrightarrow> \<exists>r\<in>set rs. ident r = lower_text i"
proof -
  have loop: "foldE item_requirements [] inventory = Inr rs" and "rs \<noteq> []"
    using assms by (auto simp: requirements_def split: if_splits)
  from loop show "grown [] rs" by (rule foldE_grown) (rule item_requirements_grown(1))
  show "rs \<noteq> []" by fact
  show "\<exists>r\<in>set rs. ident r = lower_text i"
    if "PDict d \<in> set inventory" and ids: "dict_get d ''debug_ids'' = PList ids" "PStr i \<in> set ids"
  proof -
    from that(1) obtain us vs where vs: "inventory = us @ PDict d # vs" by (meson split_list)
    from loop obtain e1 e2 where e: "item_requirements e1 (PDict d) = Inr e2" "foldE item_requirements e2 vs = Inr rs"
      unfolding vs by (auto simp: foldE_append)
    have "grown e2 rs" by (rule foldE_grown [OF e(2)]) (rule item_requirements_grown(1))
    with item_requirements_grown(2) [OF e(1) refl ids] show ?thesis by (auto simp: grown_def)
  qed
qed

section \<open>Sample runs\<close>

definition sample_item :: pyval where
  "sample_item = PDict [(''format'', PStr ''dsym''), (''features'', PStr ''debug, symtab,sources''),
     (''architectures'', PList [PStr ''arm64-v8a'', PStr ''amd64'']),
     (''debug_ids'', PList [PStr ''5F3759DF-1234-5678-9abc-DEF012345678'', PStr ''5f3759df-1234-5678-9abc-def012345679''])]"

definition sample_row :: "string \<Rightarrow> string \<Rightarrow> pyval" where
  "sample_row i a = PDict [(''debugId'', PStr i), (''symbolType'', PStr ''macho''), (''cpuName'', PStr a),
     (''data'', PDict [(''features'', PList [PStr ''symtab'', PStr ''debug''])])]"

text \<open>The first answers time out; later ones hold one row for each architecture.\<close>

definition sample_confirm_ops :: "int confirm_ops" where
  "sample_confirm_ops = \<lparr>now = (\<lambda>t. (t, t + 1)), pause = (\<lambda>d t. t + d),
     fetch = (\<lambda>i timeout t. if t < 5000 then (Inl (upload_error ''transport_error'' None 10000), t + 100)
       else (Inr [sample_row i ''aarch64'', sample_row i ''x86_64''], t + 100)),
     emit = (\<lambda>l t. t)\<rparr>"

definition sample_confirmation :: "exn + (exn + unit) \<times> int confirmation" where
  "sample_confirmation = confirm_symbol_inventory sample_confirm_ops [sample_item] WAIT_MS 0"

lemma sample_confirmed:
  "case sample_confirmation of Inl e \<Rightarrow> False
    | Inr (r, s) \<Rightarrow> r = Inr () \<and> rounds s = 2 \<and> failures s = 2 \<and> confirmed s = 4 \<and> length (answers s) = 2"
  by code_simp

text \<open>C15: A confirmation that starts accounts for every requirement of the inventory when it ends, however it
  ends: after at most 61 rounds each is either listed as missing or answered by a matching row the server
  sent for its identifier. It returns normally only with nothing missing and the status confirmed; an upload
  error leaves the status failed with its diagnostic.\<close>

theorem confirmation_accounts:
  assumes "confirm_symbol_inventory ops inventory budget w = Inr (r, s)"
  shows "\<exists>rs. requirements inventory = Inr rs \<and> rounds s \<le> max_rounds \<and> set (missing s) \<subseteq> set rs
    \<and> confirmed s = int (length rs) - int (length (missing s))
    \<and> (\<forall>q\<in>set rs. q \<in> set (missing s) \<or> answered (answers s) q)
    \<and> (r = Inr () \<longrightarrow> missing s = [] \<and> status s = ''confirmed'')
    \<and> (\<forall>e. r = Inl e \<and> is_upload_class (exn_class_of e) \<longrightarrow> status s = ''failed'' \<and> final_error s = Some (upload_diagnostic e))"
proof -
  obtain rs started t where rs: "requirements inventory = Inr rs" "run_ended rs r t"
      and s: "s = round_up ops (int (length rs)) started t"
    using confirm_ended [OF assms] by blast
  show ?thesis
    by (rule exI [of _ rs])
       (use rs in \<open>auto simp: s run_ended_def round_inv_def accounted_def sorted_requirements_def\<close>)
qed

lemma confirmation_accounts_witness:
  "\<exists>s. sample_confirmation = Inr (Inr (), s) \<and> missing s = [] \<and> rounds s \<le> max_rounds"
proof -
  obtain s where s: "sample_confirmation = Inr (Inr (), s)"
    using sample_confirmed by (auto split: sum.splits)
  from confirmation_accounts [OF s [unfolded sample_confirmation_def]] s show ?thesis by auto
qed

text \<open>The requirements of an accepted inventory are not empty and not repeated. Each has the lower-case form
  of a well-formed debug identifier, a format the server knows and at least one feature other than sources;
  and no debug identifier listed by an item goes without one.\<close>

theorem requirements_sound:
  assumes "requirements inventory = Inr rs"
  shows "rs \<noteq> [] \<and> distinct rs \<and> list_all requirement_ok rs
    \<and> (\<forall>d ids i. PDict d \<in> set inventory \<and> dict_get d ''debug_ids'' = PList ids \<and> PStr i \<in> set ids
         \<longrightarrow> (\<exists>r\<in>set rs. ident r = lower_text i))"
  using requirements_grown [OF assms] by (auto simp: grown_def)

lemma requirements_sound_witness:
  "\<exists>rs. requirements [sample_item] = Inr rs \<and> length rs = 4 \<and> list_all requirement_ok rs"
proof -
  have "case requirements [sample_item] of Inl e \<Rightarrow> False | Inr rs \<Rightarrow> length rs = 4" by code_simp
  then obtain rs where "requirements [sample_item] = Inr rs" "length rs = 4" by (auto split: sum.splits)
  with requirements_sound show ?thesis by blast
qed

end
