(* ===== verification/Py_Paths.thy ===== *)
theory Py_Paths
  imports Py_Objects
begin

text \<open>
  Paths as \<open>pathlib\<close> sees them on a POSIX system and the file system as the tools that only read it use it.
  A path is the list of its components, absolute paths being told apart where the code does. The operating
  system is a record of functions that answer questions about absolute paths.
\<close>

section \<open>Paths\<close>

type_synonym path = "string list"

definition path_parts :: "string \<Rightarrow> path" where
  "path_parts s = filter (\<lambda>p. p \<noteq> [] \<and> p \<noteq> ''.'') (split_on (CHR ''/'') s)"

definition is_absolute :: "string \<Rightarrow> bool" where
  "is_absolute s \<longleftrightarrow> prefix ''/'' s"

text \<open>\<open>base / text\<close>: absolute text replaces the base.\<close>

definition path_join :: "path \<Rightarrow> string \<Rightarrow> path" where
  "path_join base s = (if is_absolute s then path_parts s else base @ path_parts s)"

definition path_name :: "path \<Rightarrow> string" where
  "path_name p = (if p = [] then [] else last p)"

text \<open>\<open>path.is_relative_to(base)\<close>, and \<open>path.relative_to(base).as_posix()\<close> below it.\<close>

definition is_relative_to :: "path \<Rightarrow> path \<Rightarrow> bool" where
  "is_relative_to p base \<longleftrightarrow> prefix base p"

definition posix_text :: "path \<Rightarrow> string" where
  "posix_text p = (if p = [] then ''.'' else join ''/'' p)"

definition relative_text :: "path \<Rightarrow> path \<Rightarrow> string" where
  "relative_text p base = posix_text (drop (length base) p)"

text \<open>\<open>path.suffix\<close>: from the last dot, unless it starts or ends the name.\<close>

definition name_suffix :: "string \<Rightarrow> string" where
  "name_suffix name =
     (case rpartition_at (CHR ''.'') name of (stem, dotted, ext) \<Rightarrow>
       if dotted \<and> stem \<noteq> [] \<and> ext \<noteq> [] then CHR ''.'' # ext else [])"

definition path_suffix :: "path \<Rightarrow> string" where
  "path_suffix p = name_suffix (path_name p)"

lemma is_relative_to_refl [simp]: "is_relative_to p p"
  by (simp add: is_relative_to_def)

lemma is_relative_to_trans: "is_relative_to p q \<Longrightarrow> is_relative_to q r \<Longrightarrow> is_relative_to p r"
  unfolding is_relative_to_def by (rule prefix_order.trans)

lemma is_relative_to_child [simp]: "is_relative_to (base @ ps) base"
  by (simp add: is_relative_to_def)

text \<open>\<open>os.path.abspath\<close> of an absolute path: dot segments are removed without looking at links.\<close>

fun dot_free :: "path \<Rightarrow> path \<Rightarrow> path" where
  "dot_free base [] = rev base"
| "dot_free base (p # ps) =
     (if p = [] \<or> p = ''.'' then dot_free base ps
      else if p = ''..'' then dot_free (drop 1 base) ps else dot_free (p # base) ps)"

definition abspath :: "path \<Rightarrow> path" where
  "abspath p = dot_free [] p"

lemma dot_free_plain: "''..'' \<notin> set base \<Longrightarrow> ''..'' \<notin> set (dot_free base ps)"
  by (induction base ps rule: dot_free.induct) (auto dest: in_set_dropD)

lemma abspath_plain: "''..'' \<notin> set (abspath p)"
  by (simp add: abspath_def dot_free_plain)

section \<open>The file system\<close>

text \<open>
  \<open>resolve\<close> follows links and may raise; the tests follow links and answer false where there is nothing;
  \<open>children\<close> lists the names in a directory; \<open>content\<close> is what reading the whole file gives.
\<close>

record file_system =
  resolve :: "path \<Rightarrow> exn + path"
  linked :: "path \<Rightarrow> bool"
  is_file :: "path \<Rightarrow> bool"
  is_dir :: "path \<Rightarrow> bool"
  children :: "path \<Rightarrow> exn + string list"
  content :: "path \<Rightarrow> exn + bytes"

text \<open>
  The entries below a directory as \<open>rglob\<close> finds them: linked directories are not entered, and a directory that
  cannot be listed is passed over. The fuel bounds the depth.
\<close>

fun walk_below :: "nat \<Rightarrow> file_system \<Rightarrow> path \<Rightarrow> exn + path list" where
  "walk_below 0 fs dir = raise OSError ''too deep''"
| "walk_below (Suc n) fs dir =
     (case children fs dir of
        Inl e \<Rightarrow> Inr []
      | Inr names \<Rightarrow> rbind (traverse (\<lambda>name.
          if is_dir fs (dir @ [name]) \<and> \<not> linked fs (dir @ [name])
          then rbind (walk_below n fs (dir @ [name])) (\<lambda>ps. Inr ((dir @ [name]) # ps))
          else Inr [dir @ [name]]) names) (\<lambda>pss. Inr (concat pss)))"

end
