(* ===== verification/Linux_Packages.thy ===== *)
theory Linux_Packages
  imports Release_Pipeline Py_Paths Py_Struct
begin

text \<open>
  \<open>tool/verify_linux_packages.py\<close>: the finished Linux packages are read without being installed and the ELF
  files in them are compared with those of the bundle. A generator of members is the list of what it yields
  with the exception that ends it, if any. The hash function, the UTF-8 decoder, the archive reader \<open>tarfile\<close>,
  the programs that are run and the names of exception classes are parameters.
\<close>

abbreviation package_error :: "string \<Rightarrow> exn + 'a" where
  "package_error code \<equiv> raise (PackageError None) code"

section \<open>Member names\<close>

definition backslash :: char where
  "backslash = char_of (92 :: nat)"

definition safe_name :: "string \<Rightarrow> exn + string" where
  "safe_name raw =
     (let name = Py_Objects.remove_prefix ''./'' raw in
      if is_absolute name \<or> ''..'' \<in> set (path_parts name) \<or> backslash \<in> set name \<or> char_of (0 :: nat) \<in> set name
      then package_error ''unsafe_package_path'' else Inr name)"

section \<open>The cpio archive\<close>

definition member_limit :: int where
  "member_limit = 512 * 1024 * 1024"

text \<open>\<open>exact(size)\<close>: what is read and what is left.\<close>

definition exact :: "int \<Rightarrow> bytes \<Rightarrow> exn + bytes \<times> bytes" where
  "exact n stream =
     (if n < 0 \<or> member_limit < n then package_error ''unsafe_cpio_size''
      else if int (length stream) < n then package_error ''truncated_cpio''
      else Inr (take (nat n) stream, drop (nat n) stream))"

text \<open>\<open>int(digits, 16)\<close> of bytes: blanks around, a sign, a prefix and single underscores are accepted.\<close>

definition unsigned_hex :: "string \<Rightarrow> nat option" where
  "unsigned_hex s = base_text 16 (if lower_text (take 2 s) = ''0x'' then drop_underscore (drop 2 s) else s)"

definition bytes_hex_int :: "bytes \<Rightarrow> int option" where
  "bytes_hex_int raw =
     (let s = bytes_text (strip_with bytes_space raw) in
      case s of [] \<Rightarrow> None
      | c # t \<Rightarrow> if c = CHR ''-'' then map_option (\<lambda>n. - int n) (unsigned_hex t)
          else if c = CHR ''+'' then map_option int (unsigned_hex t) else map_option int (unsigned_hex s))"

definition header_field :: "bytes \<Rightarrow> nat \<Rightarrow> exn + int" where
  "header_field header i = (case bytes_hex_int (slice header (6 + 8 * i) (14 + 8 * i)) of
      None \<Rightarrow> package_error ''invalid_cpio_header'' | Some n \<Rightarrow> Inr n)"

definition header_fields :: "bytes \<Rightarrow> exn + int list" where
  "header_fields header = traverse (header_field header) [0..<13]"

definition pad_of :: "int \<Rightarrow> int" where
  "pad_of n = (- n) mod 4"

text \<open>One record: its name, mode and content, or None for the trailer, and the rest of the stream.\<close>

type_synonym package_member = "string \<times> int \<times> bytes"

definition cpio_name :: "(bytes \<Rightarrow> string option) \<Rightarrow> bytes \<Rightarrow> exn + string" where
  "cpio_name utf8 raw =
     (if raw = [] \<or> last raw \<noteq> 0 then package_error ''invalid_cpio_name''
      else case utf8 (butlast raw) of None \<Rightarrow> raise UnicodeError ''utf-8'' | Some name \<Rightarrow> safe_name name)"

definition cpio_body :: "(bytes \<Rightarrow> string option) \<Rightarrow> int list \<Rightarrow> bytes \<Rightarrow> exn + package_member option \<times> bytes" where
  "cpio_body utf8 fs s1 =
     (let n = fs ! 6; namesize = fs ! 11 in
      if namesize < 1 \<or> 4096 < namesize then package_error ''unsafe_cpio_name''
      else rbind (exact namesize s1) (\<lambda>(raw, s2).
        rbind (cpio_name utf8 raw) (\<lambda>name.
        rbind (exact (pad_of (110 + namesize)) s2) (\<lambda>(_, s3).
        rbind (exact n s3) (\<lambda>(data, s4).
        rbind (exact (pad_of n) s4) (\<lambda>(_, s5).
          Inr (if name = ''TRAILER!!!'' then None else Some (name, fs ! 1, data), s5)))))))"

definition cpio_record :: "(bytes \<Rightarrow> string option) \<Rightarrow> bytes \<Rightarrow> exn + package_member option \<times> bytes" where
  "cpio_record utf8 stream =
     rbind (exact 110 stream) (\<lambda>(header, s1).
       if take 6 header \<noteq> ascii ''070701'' \<and> take 6 header \<noteq> ascii ''070702'' then package_error ''unsupported_cpio''
       else rbind (header_fields header) (\<lambda>fs. cpio_body utf8 fs s1))"

lemma exact_Inr:
  "exact n s = Inr (a, b) \<longleftrightarrow> 0 \<le> n \<and> n \<le> member_limit \<and> nat n \<le> length s \<and> a = take (nat n) s \<and> b = drop (nat n) s"
  by (auto simp: exact_def)

lemma cpio_body_Inr:
  "cpio_body utf8 fs s = Inr (m, rest) \<longleftrightarrow> 1 \<le> fs ! 11 \<and> fs ! 11 \<le> 4096 \<and> (\<exists>raw s2 name pad s3 data s4 pad'.
     exact (fs ! 11) s = Inr (raw, s2) \<and> cpio_name utf8 raw = Inr name \<and> exact (pad_of (110 + fs ! 11)) s2 = Inr (pad, s3)
     \<and> exact (fs ! 6) s3 = Inr (data, s4) \<and> exact (pad_of (fs ! 6)) s4 = Inr (pad', rest)
     \<and> m = (if name = ''TRAILER!!!'' then None else Some (name, fs ! 1, data)))"
  by (auto simp: cpio_body_def Let_def not_less split: prod.splits)

lemma exact_shorter: "exact n s = Inr (a, b) \<Longrightarrow> length b \<le> length s"
  by (simp add: exact_Inr)

lemma cpio_body_shorter: "cpio_body utf8 fs s = Inr (m, rest) \<Longrightarrow> length rest \<le> length s"
  unfolding cpio_body_Inr by (meson exact_shorter order_trans)

lemma cpio_record_Inr:
  "cpio_record utf8 stream = Inr (m, rest) \<longleftrightarrow> (\<exists>header s1 fs. exact 110 stream = Inr (header, s1)
     \<and> (take 6 header = ascii ''070701'' \<or> take 6 header = ascii ''070702'') \<and> header_fields header = Inr fs
     \<and> cpio_body utf8 fs s1 = Inr (m, rest))"
  by (auto simp: cpio_record_def split: prod.splits)

lemma cpio_record_shorter:
  assumes "cpio_record utf8 stream = Inr (m, rest)"
  shows "length rest < length stream"
proof -
  obtain header s1 fs where "exact 110 stream = Inr (header, s1)" "cpio_body utf8 fs s1 = Inr (m, rest)"
    using assms unfolding cpio_record_Inr by blast
  from this(1) cpio_body_shorter [OF this(2)] show ?thesis by (auto simp: exact_Inr)
qed

function cpio_members :: "(bytes \<Rightarrow> string option) \<Rightarrow> bytes \<Rightarrow> package_member list \<times> exn option" where
  "cpio_members utf8 stream =
     (case cpio_record utf8 stream of
        Inl e \<Rightarrow> ([], Some e)
      | Inr (None, rest) \<Rightarrow> ([], None)
      | Inr (Some m, rest) \<Rightarrow> (case cpio_members utf8 rest of (ms, e) \<Rightarrow> (m # ms, e)))"
  by pat_completeness auto
termination
  by (relation "measure (\<lambda>(utf8, stream). length stream)") (auto dest: cpio_record_shorter)

declare cpio_members.simps [simp del]

section \<open>The modules of the bundle\<close>

definition elf_magic :: bytes where
  "elf_magic = 0x7f # ascii ''ELF''"

definition runners :: "string list" where
  "runners = [''FlClash'', ''FlClashCore'', ''FlClashHelperService'']"

definition module_digest :: "(bytes \<Rightarrow> string) \<Rightarrow> string \<times> entry \<Rightarrow> (string \<times> string) list" where
  "module_digest sha256 e = (case snd e of
      File bs \<Rightarrow> if take 4 bs = elf_magic then [(fst e, sha256 bs)] else [] | _ \<Rightarrow> [])"

text \<open>The directory lists the paths below the bundle in their order.\<close>

definition expected_modules :: "(bytes \<Rightarrow> string) \<Rightarrow> directory \<Rightarrow> exn + (string \<times> string) list" where
  "expected_modules sha256 bundle =
     (let found = concat (map (module_digest sha256) bundle) in
      if set runners \<subseteq> fst ` set found then Inr found else package_error ''missing_bundle_runners'')"

section \<open>The members of a package\<close>

text \<open>
  The bits of a mode that tell the type of a file, two of its values and the bits for execution: 170000, 100000,
  120000 and 111 in octal. \<open>stat.S_IFMT\<close> raises on what is no \<open>mode_t\<close>.
\<close>

definition TYPE_BITS :: int where "TYPE_BITS = 61440"
definition S_IFREG :: int where "S_IFREG = 32768"
definition S_IFLNK :: int where "S_IFLNK = 40960"
definition EXEC_BITS :: int where "EXEC_BITS = 73"

definition file_type :: "int \<Rightarrow> exn + int" where
  "file_type mode = (if mode < 0 \<or> 2 ^ 32 \<le> mode then raise OverflowError ''mode out of range'' else Inr (and mode TYPE_BITS))"

definition is_regular :: "int \<Rightarrow> exn + bool" where
  "is_regular mode = rbind (file_type mode) (\<lambda>t. Inr (t = S_IFREG))"

definition is_symlink_mode :: "int \<Rightarrow> exn + bool" where
  "is_symlink_mode mode = rbind (file_type mode) (\<lambda>t. Inr (t = S_IFLNK))"

type_synonym scan = "string list \<times> bool"

definition launcher_step ::
    "(bytes \<Rightarrow> string option) \<Rightarrow> (string \<times> string) option \<Rightarrow> bool \<Rightarrow> string \<Rightarrow> int \<Rightarrow> bytes \<Rightarrow> exn + bool" where
  "launcher_step utf8 launcher met name mode data =
     (case launcher of
        Some (at, goal) \<Rightarrow>
          if name \<noteq> at then Inr met
          else if met then package_error ''invalid_packaged_launcher''
          else rbind (is_symlink_mode mode) (\<lambda>l.
            if \<not> l then package_error ''invalid_packaged_launcher''
            else case utf8 data of None \<Rightarrow> raise UnicodeError ''utf-8''
              | Some t \<Rightarrow> if t \<noteq> goal then package_error ''invalid_packaged_launcher'' else Inr True)
      | None \<Rightarrow> Inr met)"

definition module_step ::
    "(bytes \<Rightarrow> string) \<Rightarrow> (string \<times> string) list \<Rightarrow> string list \<Rightarrow> string \<Rightarrow> int \<Rightarrow> bytes \<Rightarrow> exn + string list" where
  "module_step sha256 expected seen relative mode data =
     rbind (is_regular mode) (\<lambda>regular.
       case map_of expected relative of
         None \<Rightarrow> if regular \<and> prefix elf_magic data then package_error ''unexpected_packaged_native_module'' else Inr seen
       | Some digest \<Rightarrow>
           if relative \<in> set seen \<or> \<not> regular then package_error ''duplicate_or_linked_native_module''
           else if sha256 data \<noteq> digest then package_error (''packaged_native_bytes_changed:'' @ relative)
           else if CHR ''/'' \<notin> set relative \<and> and mode EXEC_BITS = 0 then package_error ''packaged_runner_not_executable''
           else Inr (relative # seen))"

definition member_step ::
    "(bytes \<Rightarrow> string) \<Rightarrow> (bytes \<Rightarrow> string option) \<Rightarrow> string \<Rightarrow> (string \<times> string) list \<Rightarrow> (string \<times> string) option
     \<Rightarrow> scan \<Rightarrow> package_member \<Rightarrow> exn + scan" where
  "member_step sha256 utf8 base expected launcher st m =
     (case (st, m) of ((seen, met), (raw, mode, data)) \<Rightarrow>
       rbind (safe_name raw) (\<lambda>name.
       rbind (launcher_step utf8 launcher met name mode data) (\<lambda>met'.
         if \<not> prefix base name then Inr (seen, met')
         else rbind (module_step sha256 expected seen (drop (length base) name) mode data) (\<lambda>seen'. Inr (seen', met')))))"

definition verify_members ::
    "(bytes \<Rightarrow> string) \<Rightarrow> (bytes \<Rightarrow> string option) \<Rightarrow> package_member list \<times> exn option \<Rightarrow> string
     \<Rightarrow> (string \<times> string) list \<Rightarrow> (string \<times> string) option \<Rightarrow> exn + unit" where
  "verify_members sha256 utf8 members base expected launcher =
     rbind (foldE (member_step sha256 utf8 base expected launcher) ([], False) (fst members)) (\<lambda>(seen, met).
       case snd members of
         Some e \<Rightarrow> Inl e
       | None \<Rightarrow>
           if launcher \<noteq> None \<and> \<not> met then package_error ''missing_packaged_launcher''
           else if set seen \<noteq> fst ` set expected then package_error ''missing_packaged_native_module''
           else Inr ())"

section \<open>The AppImage\<close>

definition appimage_machines :: "(string \<times> nat) list" where
  "appimage_machines = [(''amd64'', 62), (''arm64'', 183)]"

definition uint_at :: "bytes \<Rightarrow> nat \<Rightarrow> field \<Rightarrow> exn + nat" where
  "uint_at data off f = rbind (unpack_from Little [f] data off) (\<lambda>fs. Inr (as_nat (hd fs)))"

definition appimage_payload_offset :: "bytes \<Rightarrow> string \<Rightarrow> exn + nat" where
  "appimage_payload_offset package architecture =
     (let header = take 64 package in
      if length header \<noteq> 64 \<or> take 7 header \<noteq> elf_magic @ [2, 1, 1] \<or> slice header 8 11 \<noteq> ascii ''AI'' @ [2]
      then package_error ''invalid_appimage_container''
      else rbind (uint_at header 18 fH) (\<lambda>machine.
        case map_of appimage_machines architecture of
          None \<Rightarrow> raise KeyError architecture
        | Some wanted \<Rightarrow>
            if machine \<noteq> wanted then package_error ''appimage_architecture_mismatch''
            else rbind (uint_at header 40 fQ) (\<lambda>section_offset.
              rbind (uint_at header 52 fH) (\<lambda>header_size.
              rbind (uint_at header 58 fH) (\<lambda>entry_size.
              rbind (uint_at header 60 fH) (\<lambda>count.
                let off = section_offset + entry_size * count in
                if header_size \<noteq> 64 \<or> section_offset < 64 \<or> entry_size \<noteq> 64 \<or> count = 0 \<or> length package < off + 96
                then package_error ''invalid_appimage_boundary''
                else if slice package off (off + 4) \<noteq> ascii ''hsqs'' then package_error ''invalid_appimage_squashfs''
                else Inr off))))))"

section \<open>Programs\<close>

text \<open>What a program printed and its exit code, or the exception that running it raised.\<close>

type_synonym runner = "string list \<Rightarrow> exn + int \<times> bytes"

definition run :: "runner \<Rightarrow> string list \<Rightarrow> exn + bytes" where
  "run proc command =
     rbind (proc command) (\<lambda>(code, stdout).
       if code \<noteq> 0 then raise (PackageError (Some code)) (''package_reader_failed:'' @ path_name (path_parts (hd command)))
       else Inr stdout)"

definition verify_appimage ::
    "(bytes \<Rightarrow> string) \<Rightarrow> runner \<Rightarrow> string \<Rightarrow> bytes \<Rightarrow> (string \<times> string) list \<Rightarrow> string \<Rightarrow> exn + nat" where
  "verify_appimage sha256 proc package raw expected architecture =
     rbind (appimage_payload_offset raw architecture) (\<lambda>off.
     rbind (foldE (\<lambda>_ (name, digest).
         rbind (run proc [''unsquashfs'', ''-offset'', dec off, ''-cat'', package, name]) (\<lambda>data.
           if sha256 data \<noteq> digest then package_error (''packaged_native_bytes_changed:'' @ name) else Inr ())) () expected) (\<lambda>_.
       Inr off))"

section \<open>The archive of a deb package\<close>

datatype tar_kind = TarFile nat bytes | TarLink | TarOther

text \<open>\<open>members()\<close>: a file that is too large ends it with an exception.\<close>

fun tar_members :: "(string \<times> int \<times> tar_kind) list \<Rightarrow> exn option \<Rightarrow> package_member list \<times> exn option" where
  "tar_members [] ending = ([], ending)"
| "tar_members ((name, mode, kind) # ms) ending =
     (case kind of
        TarFile n data \<Rightarrow>
          if 512 * 1024 * 1024 < n then ([], Some (Exn (PackageError None) ''unsafe_tar_size''))
          else (case tar_members ms ending of (xs, e) \<Rightarrow> ((name, or S_IFREG mode, data) # xs, e))
      | TarLink \<Rightarrow> (case tar_members ms ending of (xs, e) \<Rightarrow> ((name, or S_IFLNK mode, []) # xs, e))
      | TarOther \<Rightarrow> tar_members ms ending)"

section \<open>The audit\<close>

record package_env =
  hash_of :: "bytes \<Rightarrow> string"
  decoder :: "bytes \<Rightarrow> string option"
  programs :: runner
  untar :: "bytes \<Rightarrow> (string \<times> int \<times> tar_kind) list \<times> exn option"
  type_name :: "exn_class \<Rightarrow> string"
  bundle_of :: "string \<Rightarrow> directory"
  dist_of :: directory

record audit =
  passed :: bool
  stage :: string
  a_format :: "string option"
  a_packages :: pydict
  a_error :: "pydict option"
  saved :: "(bool \<times> string) list"
  faults :: "bool list"

type_synonym 'a audited = "(audit, 'a) cmd"

text \<open>\<open>write_json\<close> may fail; what was saved last is the last element.\<close>

definition save :: "unit audited" where
  "save s = (case faults s of
      True # fs \<Rightarrow> (raise OSError ''write'', s\<lparr>faults := fs\<rparr>)
    | _ \<Rightarrow> (Inr (), s\<lparr>faults := tl (faults s), saved := saved s @ [(passed s, stage s)]\<rparr>))"

definition decode_text :: "package_env \<Rightarrow> bytes \<Rightarrow> exn + string" where
  "decode_text env raw = (case decoder env raw of None \<Rightarrow> raise UnicodeError ''utf-8'' | Some t \<Rightarrow> Inr t)"

text \<open>\<open>re.escape\<close> makes the text a literal.\<close>

definition re_rpm_version :: "string \<Rightarrow> regex" where
  "re_rpm_version wanted = RSeq (rlit wanted)
     (ropt (RSeq (rlit ''.'') (rplus (RClass False [(65, 90), (97, 122), (48, 57), (46, 46), (95, 95)]))))"

definition package_version :: "string \<Rightarrow> string" where
  "package_version product =
     (let base = hd (split_on (CHR ''+'') product) in
      if CHR ''-'' \<in> set base then (case partition_at (CHR ''-'') base of (a, _, b) \<Rightarrow> a @ ''~'' @ b) else base)"

definition set_stage :: "string \<Rightarrow> unit audited" where
  "set_stage name = updating (\<lambda>s. s\<lparr>stage := name\<rparr>)"

definition share_dir :: "build_context \<Rightarrow> string" where
  "share_dir c = ''usr/share/'' @ c_package_app_name c @ ''/''"

definition app_launcher :: "build_context \<Rightarrow> string \<times> string" where
  "app_launcher c = (''usr/bin/'' @ c_package_app_name c, ''/usr/share/'' @ c_package_app_name c @ ''/FlClash'')"

definition verify_rpm :: "package_env \<Rightarrow> build_context \<Rightarrow> (string \<times> string) list \<Rightarrow> string \<Rightarrow> unit audited" where
  "verify_rpm env c expected package =
     seq (lift_result (rbind (run (programs env) [''rpm'', ''-qp'', ''--qf'', ''%{EPOCH}:%{VERSION}-%{RELEASE}'', package]) (decode_text env))) (\<lambda>meta.
       if \<not> fullmatch (re_rpm_version (''1:'' @ package_version (c_product_version c) @ ''-'' @ int_text (c_build_number c))) meta
       then throw (PackageError None) ''rpm_version_mismatch''
       else seq (set_stage ''payload'') (\<lambda>_.
         seq (lift_result (run (programs env) [''rpm2cpio'', package])) (\<lambda>payload.
         lift_result (verify_members (hash_of env) (decoder env) (cpio_members (decoder env) payload) (share_dir c) expected
           (Some (app_launcher c))))))"

definition verify_deb :: "package_env \<Rightarrow> build_context \<Rightarrow> (string \<times> string) list \<Rightarrow> string \<Rightarrow> unit audited" where
  "verify_deb env c expected package =
     seq (lift_result (rbind (run (programs env) [''dpkg-deb'', ''-f'', package, ''Version'']) (decode_text env))) (\<lambda>meta.
       if text_strip meta \<noteq> ''1:'' @ package_version (c_product_version c) @ ''+'' @ int_text (c_build_number c)
       then throw (PackageError None) ''deb_version_mismatch''
       else seq (set_stage ''payload'') (\<lambda>_.
         seq (lift_result (run (programs env) [''dpkg-deb'', ''--fsys-tarfile'', package])) (\<lambda>payload.
         case untar env payload of (members, ending) \<Rightarrow>
           lift_result (verify_members (hash_of env) (decoder env) (tar_members members ending) (share_dir c) expected None))))"

definition format_suffixes :: "(string \<times> string) list" where
  "format_suffixes = [(''deb'', ''.deb''), (''rpm'', ''.rpm''), (''appimage'', ''.AppImage'')]"

definition select_package :: "directory \<Rightarrow> string \<Rightarrow> exn + string \<times> entry" where
  "select_package dist kind =
     (case map_of format_suffixes kind of
        None \<Rightarrow> raise KeyError kind
      | Some suf \<Rightarrow> (case filter (\<lambda>(name, e). ends_with suf name) dist of
            [(name, e)] \<Rightarrow> if is_link e then package_error ''ambiguous_linux_package'' else Inr (name, e)
          | _ \<Rightarrow> package_error ''ambiguous_linux_package''))"

definition read_entry :: "entry \<Rightarrow> exn + bytes" where
  "read_entry e = (case content_of e of None \<Rightarrow> raise OSError ''read'' | Some bs \<Rightarrow> Inr bs)"

definition verify_kind :: "package_env \<Rightarrow> build_context \<Rightarrow> (string \<times> string) list \<Rightarrow> string \<Rightarrow> unit audited" where
  "verify_kind env c expected kind =
     seq (updating (\<lambda>s. s\<lparr>a_format := Some kind, stage := ''package_selection''\<rparr>)) (\<lambda>_.
     seq (lift_result (select_package (dist_of env) kind)) (\<lambda>(package, e).
     seq (set_stage ''metadata'') (\<lambda>_.
     seq (if kind = ''rpm'' then verify_rpm env c expected package
          else if kind = ''deb'' then verify_deb env c expected package
          else seq (set_stage ''appimage_readback'') (\<lambda>_.
            seq (lift_result (rbind (read_entry e) (\<lambda>raw. verify_appimage (hash_of env) (programs env) package raw expected (c_arch c))))
              (\<lambda>_. ret ()))) (\<lambda>_.
       updating (\<lambda>s. s\<lparr>a_packages := a_packages s @ [(kind, PInt (int (length expected)))]\<rparr>)))))"

definition verify_targets :: "package_env \<Rightarrow> build_context \<Rightarrow> unit audited" where
  "verify_targets env c =
     seq (lift_result (expected_modules (hash_of env) (bundle_of env (if c_arch c = ''amd64'' then ''x64'' else ''arm64'')))) (\<lambda>expected.
       loop_over (\<lambda>_ kind. verify_kind env c expected kind) () (c_targets c))"

section \<open>The report of a failure\<close>

definition known_codes :: "string list" where
  "known_codes = [''unsafe_package_path'', ''unsafe_cpio_size'', ''truncated_cpio'', ''unsupported_cpio'',
     ''invalid_cpio_header'', ''unsafe_cpio_name'', ''invalid_cpio_name'', ''package_reader_failed'',
     ''missing_bundle_runners'', ''invalid_packaged_launcher'', ''unexpected_packaged_native_module'',
     ''duplicate_or_linked_native_module'', ''packaged_native_bytes_changed'',
     ''packaged_runner_not_executable'', ''missing_packaged_launcher'', ''missing_packaged_native_module'',
     ''ambiguous_linux_package'', ''rpm_version_mismatch'', ''deb_version_mismatch'', ''unsafe_tar_size'',
     ''invalid_appimage_container'', ''appimage_architecture_mismatch'',
     ''invalid_appimage_boundary'', ''invalid_appimage_squashfs'']"

definition re_module_detail :: regex where
  "re_module_detail = RSeq (RClass False [(65, 90), (97, 122), (48, 57), (95, 95), (46, 46), (47, 47), (45, 45)])
     (rupto 199 (RClass False [(65, 90), (97, 122), (48, 57), (95, 95), (46, 46), (47, 47), (45, 45)]))"

fun is_package_class :: "exn_class \<Rightarrow> bool" where
  "is_package_class (PackageError x) = True"
| "is_package_class c = False"

definition reader_exit :: "exn_class \<Rightarrow> pydict" where
  "reader_exit c = (case c of PackageError (Some n) \<Rightarrow> [(''exit_code'', PInt n)] | _ \<Rightarrow> [])"

definition failure_report :: "(exn_class \<Rightarrow> string) \<Rightarrow> exn \<Rightarrow> pydict" where
  "failure_report names e =
     (let (code, _, detail) = (if is_package_class (exn_class_of e) then partition_at (CHR '':'') (exn_message e) else ([], False, [])) in
      [(''code'', PStr (if code \<in> set known_codes then code else ''package_verification_failed'')),
       (''exception_type'', PStr (names (exn_class_of e)))]
      @ (if code = ''package_reader_failed'' \<and> detail \<in> {''rpm'', ''rpm2cpio'', ''dpkg-deb'', ''unsquashfs''}
         then (''reader'', PStr detail) # reader_exit (exn_class_of e) else [])
      @ (if code = ''packaged_native_bytes_changed'' \<and> fullmatch re_module_detail detail
         then [(''module'', PStr detail)] else []))"

definition audit_failed :: "package_env \<Rightarrow> exn \<Rightarrow> pydict audited" where
  "audit_failed env e =
     seq (updating (\<lambda>s. s\<lparr>a_error := Some (failure_report (type_name env) e)\<rparr>)) (\<lambda>_.
     seq save (\<lambda>_.
       if is_package_class (exn_class_of e) then lift_result (Inl e)
       else throw (PackageError None) ''package_verification_failed''))"

definition start_audit :: "bool list \<Rightarrow> audit" where
  "start_audit fs = \<lparr>passed = False, stage = ''bundle'', a_format = None, a_packages = [], a_error = None, saved = [], faults = fs\<rparr>"

definition verify :: "package_env \<Rightarrow> build_context \<Rightarrow> pydict audited" where
  "verify env c =
     seq save (\<lambda>_.
     seq (catch_when (seq (verify_targets env c) (\<lambda>_. seq (reading a_packages) (\<lambda>r. ret (Some r)))) (\<lambda>_. True)
        (\<lambda>e. seq (audit_failed env e) (\<lambda>_. ret None))) (\<lambda>r.
       case r of None \<Rightarrow> ret [] | Some records \<Rightarrow>
         seq (updating (\<lambda>s. s\<lparr>passed := True, stage := ''complete''\<rparr>)) (\<lambda>_. seq save (\<lambda>_. ret records))))"

text \<open>\<open>main\<close> refuses the context of another platform.\<close>

definition main :: "package_env \<Rightarrow> build_context \<Rightarrow> pydict audited" where
  "main env c = (if c_platform c \<noteq> ''linux'' then throw (PackageError None) ''linux_context_required'' else verify env c)"

section \<open>What an accepted package holds\<close>

definition named :: "string \<Rightarrow> package_member \<Rightarrow> bool" where
  "named name m \<longleftrightarrow> safe_name (fst m) = Inr name"

definition faithful_member :: "(bytes \<Rightarrow> string) \<Rightarrow> (string \<times> string) list \<Rightarrow> string \<Rightarrow> package_member \<Rightarrow> bool" where
  "faithful_member sha256 expected relative m \<longleftrightarrow> is_regular (fst (snd m)) = Inr True
     \<and> map_of expected relative = Some (sha256 (snd (snd m)))
     \<and> (CHR ''/'' \<notin> set relative \<longrightarrow> and (fst (snd m)) EXEC_BITS \<noteq> 0)"

definition native_member :: "package_member \<Rightarrow> bool" where
  "native_member m \<longleftrightarrow> is_regular (fst (snd m)) = Inr True \<and> prefix elf_magic (snd (snd m))"

definition launcher_member :: "(bytes \<Rightarrow> string option) \<Rightarrow> string \<Rightarrow> package_member \<Rightarrow> bool" where
  "launcher_member utf8 goal m \<longleftrightarrow> is_symlink_mode (fst (snd m)) = Inr True \<and> utf8 (snd (snd m)) = Some goal"

text \<open>The one element of a list that satisfies a test, and what is known of it.\<close>

definition only_one :: "('a \<Rightarrow> bool) \<Rightarrow> ('a \<Rightarrow> bool) \<Rightarrow> 'a list \<Rightarrow> bool" where
  "only_one P Q xs \<longleftrightarrow> (\<exists>x. filter P xs = [x] \<and> Q x)"

definition met_once :: "bool \<Rightarrow> ('a \<Rightarrow> bool) \<Rightarrow> ('a \<Rightarrow> bool) \<Rightarrow> 'a list \<Rightarrow> bool" where
  "met_once met P Q xs \<longleftrightarrow> (if met then only_one P Q xs else filter P xs = [])"

lemma met_once_Nil [simp]: "met_once False P Q []"
  by (simp add: met_once_def)

lemma met_once_snoc:
  "\<not> P x \<Longrightarrow> met_once met P Q (xs @ [x]) \<longleftrightarrow> met_once met P Q xs"
  "P x \<Longrightarrow> Q x \<Longrightarrow> met_once False P Q xs \<Longrightarrow> met_once True P Q (xs @ [x])"
  by (auto simp: met_once_def only_one_def)

definition modules_ok ::
    "(bytes \<Rightarrow> string) \<Rightarrow> string \<Rightarrow> (string \<times> string) list \<Rightarrow> string list \<Rightarrow> package_member list \<Rightarrow> bool" where
  "modules_ok sha256 base expected seen ms \<longleftrightarrow> set seen \<subseteq> fst ` set expected
     \<and> (\<forall>r\<in>fst ` set expected. met_once (r \<in> set seen) (named (base @ r)) (faithful_member sha256 expected r) ms)"

definition strangers_ok :: "string \<Rightarrow> (string \<times> string) list \<Rightarrow> package_member list \<Rightarrow> bool" where
  "strangers_ok base expected ms \<longleftrightarrow>
     (\<forall>m\<in>set ms. \<forall>r. named (base @ r) m \<and> r \<notin> fst ` set expected \<longrightarrow> \<not> native_member m)"

definition launcher_ok ::
    "(bytes \<Rightarrow> string option) \<Rightarrow> (string \<times> string) option \<Rightarrow> bool \<Rightarrow> package_member list \<Rightarrow> bool" where
  "launcher_ok utf8 launcher met ms \<longleftrightarrow>
     (case launcher of None \<Rightarrow> True | Some (at, goal) \<Rightarrow> met_once met (named at) (launcher_member utf8 goal) ms)"

lemma launcher_step_ok:
  assumes "launcher_step utf8 launcher met name mode data = Inr met'" and "safe_name raw = Inr name"
    and "launcher_ok utf8 launcher met ms"
  shows "launcher_ok utf8 launcher met' (ms @ [(raw, mode, data)])"
proof (cases launcher)
  case (Some p)
  obtain at goal where p: "p = (at, goal)" by (cases p)
  show ?thesis
  proof (cases "name = at")
    case True
    then have "met' \<and> \<not> met \<and> launcher_member utf8 goal (raw, mode, data)"
      using assms(1) Some p by (auto simp: launcher_step_def launcher_member_def split: if_splits option.splits)
    moreover have "named at (raw, mode, data)" using True assms(2) by (simp add: named_def)
    ultimately show ?thesis using assms(3) Some p by (simp add: launcher_ok_def met_once_snoc)
  next
    case False
    then have "\<not> named at (raw, mode, data)" "met' = met"
      using assms(1,2) Some p by (auto simp: named_def launcher_step_def)
    then show ?thesis using assms(3) Some p by (simp add: launcher_ok_def met_once_snoc)
  qed
qed (simp add: launcher_ok_def)

lemma module_step_cases:
  assumes "module_step sha256 expected seen r mode data = Inr seen'"
  shows "r \<notin> fst ` set expected \<and> seen' = seen \<and> \<not> native_member (raw, mode, data)
    \<or> r \<in> fst ` set expected \<and> r \<notin> set seen \<and> seen' = r # seen \<and> faithful_member sha256 expected r (raw, mode, data)"
proof (cases "map_of expected r")
  case None
  with assms show ?thesis
    by (auto simp: module_step_def native_member_def map_of_eq_None_iff split: if_splits)
next
  case (Some digest)
  then have "r \<in> fst ` set expected" by (metis map_of_eq_None_iff option.distinct(1))
  with assms Some show ?thesis
    by (auto simp: module_step_def faithful_member_def split: if_splits)
qed

lemma modules_ok_other:
  "(\<And>r. r \<in> fst ` set expected \<Longrightarrow> \<not> named (base @ r) m) \<Longrightarrow> modules_ok sha256 base expected seen ms
   \<Longrightarrow> modules_ok sha256 base expected seen (ms @ [m])"
  by (simp add: modules_ok_def met_once_snoc)

lemma modules_ok_found:
  assumes "r \<in> fst ` set expected" "r \<notin> set seen" "named (base @ r) m" "faithful_member sha256 expected r m"
    and "modules_ok sha256 base expected seen ms"
  shows "modules_ok sha256 base expected (r # seen) (ms @ [m])"
proof -
  have other: "\<not> named (base @ q) m" if "q \<noteq> r" for q
    using that assms(3) by (auto simp: named_def)
  have "met_once (q \<in> set (r # seen)) (named (base @ q)) (faithful_member sha256 expected q) (ms @ [m])"
    if "q \<in> fst ` set expected" for q
    using assms that other [of q] by (cases "q = r") (auto simp: modules_ok_def met_once_snoc)
  then show ?thesis using assms(1,5) by (auto simp: modules_ok_def)
qed

lemma member_step_ok:
  assumes "member_step sha256 utf8 base expected launcher (seen, met) m = Inr (seen', met')"
    and inv: "modules_ok sha256 base expected seen ms" "strangers_ok base expected ms" "launcher_ok utf8 launcher met ms"
  shows "modules_ok sha256 base expected seen' (ms @ [m]) \<and> strangers_ok base expected (ms @ [m])
    \<and> launcher_ok utf8 launcher met' (ms @ [m])"
proof -
  obtain raw mode data where m: "m = (raw, mode, data)" by (cases m)
  from assms(1) m obtain name where name: "safe_name raw = Inr name"
      and l: "launcher_step utf8 launcher met name mode data = Inr met'"
      and rest: "(if \<not> prefix base name then seen' = seen
        else module_step sha256 expected seen (drop (length base) name) mode data = Inr seen')"
    by (auto simp: member_step_def split: if_splits)
  have who: "named other m \<longleftrightarrow> other = name" for other using name m by (auto simp: named_def)
  have launched: "launcher_ok utf8 launcher met' (ms @ [m])"
    using launcher_step_ok [OF l name inv(3)] m by simp
  show ?thesis
  proof (cases "prefix base name")
    case False
    then have "\<not> named (base @ r) m" for r by (auto simp: who)
    then show ?thesis using inv rest launched False by (auto simp: strangers_ok_def intro: modules_ok_other)
  next
    case True
    then obtain r where r: "name = base @ r" by (auto elim: prefixE)
    then have this_one: "named (base @ q) m \<longleftrightarrow> q = r" for q by (auto simp: who)
    from module_step_cases [of sha256 expected seen r mode data seen' raw] rest True r m
    have "modules_ok sha256 base expected seen' (ms @ [m]) \<and> (r \<in> fst ` set expected \<or> \<not> native_member m)"
      using inv(1) this_one modules_ok_found [of r expected seen base m sha256 ms]
        modules_ok_other [of expected base m sha256 seen ms] by auto
    then show ?thesis using inv(2) launched this_one by (auto simp: strangers_ok_def)
  qed
qed

lemma members_scanned:
  assumes "foldE (member_step sha256 utf8 base expected launcher) ([], False) ms = Inr (seen, met)"
  shows "modules_ok sha256 base expected seen ms \<and> strangers_ok base expected ms \<and> launcher_ok utf8 launcher met ms"
proof -
  let ?P = "\<lambda>ys (seen, met). modules_ok sha256 base expected seen ys \<and> strangers_ok base expected ys \<and> launcher_ok utf8 launcher met ys"
  have "?P ms (seen, met)"
  proof (rule foldE_indexed [where P = ?P, OF assms])
    show "?P [] ([], False)" by (simp add: modules_ok_def strangers_ok_def launcher_ok_def split: option.split)
    show "?P (ys @ [m]) t" if "?P ys st" "member_step sha256 utf8 base expected launcher st m = Inr t" for ys st m t
      using that by (cases st, cases t) (auto dest: member_step_ok)
  qed
  then show ?thesis by simp
qed

section \<open>Writing an archive\<close>

fun hex_fixed :: "nat \<Rightarrow> nat \<Rightarrow> string" where
  "hex_fixed 0 n = []"
| "hex_fixed (Suc w) n = hex_fixed w (n div 16) @ [hex_digit (n mod 16)]"

definition cpio_numbers :: "nat \<Rightarrow> nat \<Rightarrow> nat \<Rightarrow> nat list" where
  "cpio_numbers mode n namesize = [0, mode, 0, 0, 0, 0, n, 0, 0, 0, 0, namesize, 0]"

definition cpio_header :: "nat list \<Rightarrow> bytes" where
  "cpio_header ns = ascii ''070701'' @ concat (map (\<lambda>n. ascii (hex_fixed 8 n)) ns)"

definition zeros :: "int \<Rightarrow> bytes" where
  "zeros n = replicate (nat n) 0"

definition cpio_entry :: "bytes \<Rightarrow> nat \<Rightarrow> bytes \<Rightarrow> bytes" where
  "cpio_entry name mode data =
     (let k = length name + 1 in
      cpio_header (cpio_numbers mode (length data) k) @ (name @ [0]) @ zeros (pad_of (110 + int k))
      @ data @ zeros (pad_of (int (length data))))"

lemma length_hex_fixed [simp]: "length (hex_fixed w n) = w"
  by (induction w arbitrary: n) auto

lemma hex_fixed_digits: "c \<in> set (hex_fixed w n) \<Longrightarrow> \<exists>m<16. c = hex_digit m"
proof (induction w arbitrary: n)
  case (Suc w)
  have "n mod 16 < 16" by simp
  with Suc show ?case by fastforce
qed simp

lemma hex_fixed_value: "base_value 16 (hex_fixed w n) = n mod 16 ^ w"
proof (induction w arbitrary: n)
  case (Suc w)
  have "base_value 16 (hex_fixed (Suc w) n) = 16 * base_value 16 (hex_fixed w (n div 16)) + n mod 16"
    by (simp add: base_value_def)
  then show ?case using Suc.IH by (simp add: mod_mult2_eq)
qed (simp add: base_value_def)

lemma hex_digit_facts:
  "list_all (\<lambda>n. hex_digit n \<noteq> CHR ''-'' \<and> hex_digit n \<noteq> CHR ''+'' \<and> hex_digit n \<noteq> CHR ''_'' \<and> lower_char (hex_digit n) \<noteq> CHR ''x''
     \<and> (of_char (hex_digit n) :: byte) \<notin> set bytes_space) [0..<16]"
  by code_simp

lemma hex_digit_fact:
  assumes "c \<in> set (hex_fixed w n)"
  shows "c \<noteq> CHR ''-''" "c \<noteq> CHR ''+''" "c \<noteq> CHR ''_''" "lower_char c \<noteq> CHR ''x''" "(of_char c :: byte) \<notin> set bytes_space"
    "base_digit c < 16"
proof -
  obtain m where m: "m < 16" "c = hex_digit m" using hex_fixed_digits [OF assms] by blast
  then have "m \<in> set [0..<16]" by simp
  with hex_digit_facts have "hex_digit m \<noteq> CHR ''-'' \<and> hex_digit m \<noteq> CHR ''+'' \<and> hex_digit m \<noteq> CHR ''_''
      \<and> lower_char (hex_digit m) \<noteq> CHR ''x'' \<and> (of_char (hex_digit m) :: byte) \<notin> set bytes_space"
    unfolding list_all_iff by blast
  with m(2) show "c \<noteq> CHR ''-''" "c \<noteq> CHR ''+''" "c \<noteq> CHR ''_''" "lower_char c \<noteq> CHR ''x''"
      "(of_char c :: byte) \<notin> set bytes_space"
    by simp_all
  show "base_digit c < 16" using m by simp
qed

lemma bytes_text_ascii [simp]: "bytes_text (ascii s) = s"
proof -
  have "char_of (unat (of_char c :: byte)) = c" for c
  proof -
    have "unat (of_nat (of_char c) :: byte) = of_char c" by (simp add: unat_of_nat)
    then have "unat (of_char c :: byte) = of_char c" by (simp add: of_nat_of_char)
    then show ?thesis by simp
  qed
  then show ?thesis by (simp add: bytes_text_def ascii_def comp_def)
qed

lemma length_ascii [simp]: "length (ascii s) = length s"
  by (simp add: ascii_def)

lemma strip_with_plain: "set s \<inter> set cs = {} \<Longrightarrow> strip_with cs s = s"
proof -
  assume plain: "set s \<inter> set cs = {}"
  have "dropWhile (\<lambda>x. x \<in> set cs) t = t" if "set t \<inter> set cs = {}" for t
    using that by (cases t) auto
  from this [of s] this [of "rev s"] plain show ?thesis by (simp add: strip_with_def rstrip_with_def)
qed

lemma bytes_hex_int_fixed:
  assumes "n < 16 ^ 8"
  shows "bytes_hex_int (ascii (hex_fixed 8 n)) = Some (int n)"
proof -
  let ?s = "hex_fixed 8 n"
  have strip: "strip_with bytes_space (ascii ?s) = ascii ?s"
    using hex_digit_fact(5) by (intro strip_with_plain) (fastforce simp: ascii_def)
  obtain c d t where s: "?s = c # d # t"
    using length_hex_fixed [of 8 n] by (metis One_nat_def Suc_length_conv eval_nat_numeral(2) numeral_eq_Suc pred_numeral_simps(3) semiring_norm(26,27,28))
  have "lower_char d \<noteq> CHR ''x''" "c \<noteq> CHR ''-''" "c \<noteq> CHR ''+''"
    using hex_digit_fact [of _ 8 n] s by auto
  then have no_prefix: "lower_text (take 2 ?s) \<noteq> ''0x''" unfolding s by (simp add: lower_text_def)
  have digits: "\<forall>c\<in>set ?s. base_digit c < 16" using hex_digit_fact(6) by blast
  have some: "?s \<noteq> []" using s by simp
  have "CHR ''_'' \<notin> set ?s" using hex_digit_fact(3) by blast
  then have "base_text 16 ?s = Some (base_value 16 ?s)"
    using digits some by (simp add: base_text_def split_on_none list_all_iff)
  then have "unsigned_hex ?s = Some n"
    using no_prefix assms by (simp add: unsigned_hex_def hex_fixed_value)
  then show ?thesis using strip s \<open>c \<noteq> CHR ''-''\<close> \<open>c \<noteq> CHR ''+''\<close>
    by (simp add: bytes_hex_int_def Let_def)
qed

lemma take_concat_fixed:
  "(\<And>f. f \<in> set fs \<Longrightarrow> length f = k) \<Longrightarrow> i < length fs \<Longrightarrow> take k (drop (k * i) (concat fs)) = fs ! i"
proof (induction fs arbitrary: i)
  case (Cons f fs)
  then show ?case by (cases i) simp_all
qed simp

lemma traverse_map: "(\<And>x. x \<in> set xs \<Longrightarrow> f x = Inr (g x)) \<Longrightarrow> traverse f xs = Inr (map g xs)"
  by (induction xs) simp_all

lemma header_fields_written:
  assumes "length ns = 13" and "\<And>n. n \<in> set ns \<Longrightarrow> n < 16 ^ 8"
  shows "header_fields (cpio_header ns) = Inr (map int ns)"
proof -
  let ?fs = "map (\<lambda>n. ascii (hex_fixed 8 n)) ns"
  have "header_field (cpio_header ns) i = Inr (int (ns ! i))" if "i \<in> set [0..<13]" for i
  proof -
    have i: "i < length ns" using that assms(1) by simp
    have "slice (cpio_header ns) (6 + 8 * i) (14 + 8 * i) = take 8 (drop (8 * i) (concat ?fs))"
      by (simp add: slice_def cpio_header_def)
    also have "\<dots> = ascii (hex_fixed 8 (ns ! i))"
    proof -
      have "take 8 (drop (8 * i) (concat ?fs)) = ?fs ! i"
        by (rule take_concat_fixed) (use i in auto)
      with i show ?thesis by simp
    qed
    finally show ?thesis
      using bytes_hex_int_fixed assms(2) nth_mem [OF i] by (simp add: header_field_def)
  qed
  then have "header_fields (cpio_header ns) = Inr (map (\<lambda>i. int (ns ! i)) [0..<13])"
    unfolding header_fields_def by (rule traverse_map)
  also have "map (\<lambda>i. int (ns ! i)) [0..<13] = map int ns"
    using assms(1) by (intro nth_equalityI) simp_all
  finally show ?thesis .
qed

lemma length_cpio_header: "length (cpio_header ns) = 6 + 8 * length ns"
proof -
  have "length (concat (map (\<lambda>n. ascii (hex_fixed 8 n)) ns)) = 8 * length ns"
    by (induction ns) simp_all
  then show ?thesis by (simp add: cpio_header_def)
qed

lemma exact_append: "int (length a) = n \<Longrightarrow> n \<le> member_limit \<Longrightarrow> exact n (a @ b) = Inr (a, b)"
  by (auto simp: exact_Inr)

lemma exact_zeros: "exact (pad_of n) (zeros (pad_of n) @ b) = Inr (zeros (pad_of n), b)"
proof (rule exact_append)
  have "0 \<le> pad_of n" "pad_of n < 4" by (simp_all add: pad_of_def)
  then show "int (length (zeros (pad_of n))) = pad_of n" "pad_of n \<le> member_limit"
    by (simp_all add: zeros_def member_limit_def)
qed

text \<open>Names and contents an archive can hold; the name is read back as \<open>name\<close>.\<close>

definition storable :: "(bytes \<Rightarrow> string option) \<Rightarrow> string \<Rightarrow> bytes \<Rightarrow> nat \<Rightarrow> bytes \<Rightarrow> bool" where
  "storable utf8 name raw mode data \<longleftrightarrow> length raw < 4096 \<and> mode < 2 ^ 32 \<and> int (length data) \<le> member_limit
     \<and> (\<exists>t. utf8 raw = Some t \<and> safe_name t = Inr name)"

lemma cpio_record_written:
  assumes "storable utf8 name raw mode data"
  shows "cpio_record utf8 (cpio_entry raw mode data @ rest)
    = Inr (if name = ''TRAILER!!!'' then None else Some (name, int mode, data), rest)"
proof -
  let ?k = "length raw + 1" and ?n = "length data"
  let ?ns = "cpio_numbers mode ?n ?k"
  obtain t where t: "utf8 raw = Some t" "safe_name t = Inr name" using assms by (auto simp: storable_def)
  have bounds: "?k \<le> 4096" "mode < 16 ^ 8" "int ?n \<le> member_limit" "?n < 16 ^ 8"
    using assms by (auto simp: storable_def member_limit_def)
  have fs: "header_fields (cpio_header ?ns) = Inr (map int ?ns)"
    using bounds by (intro header_fields_written) (auto simp: cpio_numbers_def)
  have at: "map int ?ns ! 11 = int ?k" "map int ?ns ! 6 = int ?n" "map int ?ns ! 1 = int mode"
    by (simp_all add: cpio_numbers_def)
  let ?s3 = "data @ zeros (pad_of (int ?n)) @ rest"
  let ?s1 = "(raw @ [0]) @ zeros (pad_of (110 + int ?k)) @ ?s3"
  have head: "exact 110 (cpio_header ?ns @ ?s1) = Inr (cpio_header ?ns, ?s1)"
    by (rule exact_append) (simp_all add: length_cpio_header cpio_numbers_def member_limit_def)
  have magic: "take 6 (cpio_header ?ns) = ascii ''070701''" by (simp add: cpio_header_def)
  have namepart: "exact (int ?k) ?s1 = Inr (raw @ [0], zeros (pad_of (110 + int ?k)) @ ?s3)"
    by (rule exact_append) (use bounds(1) in \<open>simp_all add: member_limit_def\<close>)
  have datapart: "exact (int ?n) ?s3 = Inr (data, zeros (pad_of (int ?n)) @ rest)"
    by (rule exact_append) (use bounds(3) in simp_all)
  have name: "cpio_name utf8 (raw @ [0]) = Inr name" using t by (simp add: cpio_name_def)
  have body: "cpio_body utf8 (map int ?ns) ?s1 = Inr (if name = ''TRAILER!!!'' then None else Some (name, int mode, data), rest)"
    unfolding cpio_body_Inr at
    using bounds(1) namepart name exact_zeros [of "110 + int ?k" ?s3] datapart exact_zeros [of "int ?n" rest] by auto
  have "cpio_record utf8 (cpio_header ?ns @ ?s1) = Inr (if name = ''TRAILER!!!'' then None else Some (name, int mode, data), rest)"
    unfolding cpio_record_Inr using head magic fs body by blast
  then show ?thesis by (simp add: cpio_entry_def Let_def)
qed

definition cpio_archive :: "(bytes \<times> nat \<times> bytes) list \<Rightarrow> bytes" where
  "cpio_archive ms = concat (map (\<lambda>(raw, mode, data). cpio_entry raw mode data) ms) @ cpio_entry (ascii ''TRAILER!!!'') 0 []"

section \<open>Samples\<close>

definition sample_decoder :: "bytes \<Rightarrow> string option" where
  "sample_decoder raw = (if list_all (\<lambda>b. b < 128) raw then Some (bytes_text raw) else None)"

definition sample_digest :: "bytes \<Rightarrow> string" where
  "sample_digest bs = bytes_hex bs"

definition sample_archive :: "(bytes \<times> nat \<times> bytes) list" where
  "sample_archive =
     [(ascii ''./usr/bin/app'', 41471, ascii ''/usr/share/app/FlClash''), (ascii ''./usr/share/app/FlClash'', 33261, elf_magic @ [1]),
      (ascii ''./usr/share/app/lib/a.so'', 33188, elf_magic @ [2]), (ascii ''./usr/share/app/readme'', 33188, ascii ''text'')]"

definition sample_members :: "package_member list" where
  "sample_members =
     [(''usr/bin/app'', 41471, ascii ''/usr/share/app/FlClash''), (''./usr/share/app/FlClash'', 33261, elf_magic @ [1]),
      (''usr/share/app/lib/a.so'', 33188, elf_magic @ [2]), (''usr/share/app/readme'', 33188, ascii ''text'')]"

definition sample_expected :: "(string \<times> string) list" where
  "sample_expected = [(''FlClash'', sample_digest (elf_magic @ [1])), (''lib/a.so'', sample_digest (elf_magic @ [2]))]"

definition sample_launcher :: "string \<times> string" where
  "sample_launcher = (''usr/bin/app'', ''/usr/share/app/FlClash'')"

text \<open>C29: Reading a cpio archive gives back what was written into it: the members in their order with name, mode
  and content, whatever follows the trailer, and no exception.\<close>

theorem cpio_round_trip:
  assumes "list_all (\<lambda>(name, raw, mode, data). storable utf8 name raw mode data \<and> name \<noteq> ''TRAILER!!!'') ms"
    and "utf8 (ascii ''TRAILER!!!'') = Some ''TRAILER!!!''"
  shows "cpio_members utf8 (cpio_archive (map snd ms) @ rest)
    = (map (\<lambda>(name, raw, mode, data). (name, int mode, data)) ms, None)"
  using assms(1)
proof (induction ms)
  case Nil
  have "safe_name ''TRAILER!!!'' = Inr ''TRAILER!!!''" by code_simp
  then have "storable utf8 ''TRAILER!!!'' (ascii ''TRAILER!!!'') 0 []"
    using assms(2) by (simp add: storable_def member_limit_def)
  from cpio_record_written [OF this] show ?case
    by (simp add: cpio_archive_def cpio_members.simps [of utf8 "cpio_entry _ _ _ @ _"])
next
  case (Cons m ms)
  obtain name raw mode data where m: "m = (name, raw, mode, data)" by (cases m)
  have "storable utf8 name raw mode data" "name \<noteq> ''TRAILER!!!''" using Cons.prems m by simp_all
  then have "cpio_record utf8 (cpio_archive (map snd (m # ms)) @ rest)
      = Inr (Some (name, int mode, data), cpio_archive (map snd ms) @ rest)"
    using cpio_record_written [of utf8 name raw mode data] by (simp add: cpio_archive_def m)
  with Cons m show ?case by (subst cpio_members.simps) simp
qed

lemma cpio_round_trip_witness:
  "cpio_members sample_decoder (cpio_archive sample_archive @ [0])
    = ([(''usr/bin/app'', 41471, ascii ''/usr/share/app/FlClash''), (''usr/share/app/FlClash'', 33261, elf_magic @ [1]),
        (''usr/share/app/lib/a.so'', 33188, elf_magic @ [2]), (''usr/share/app/readme'', 33188, ascii ''text'')], None)"
proof -
  define names where "names = [''usr/bin/app'', ''usr/share/app/FlClash'', ''usr/share/app/lib/a.so'', ''usr/share/app/readme'']"
  have ok: "list_all (\<lambda>(name, raw, mode, data). length raw < 4096 \<and> mode < 2 ^ 32 \<and> int (length data) \<le> member_limit
      \<and> (case sample_decoder raw of None \<Rightarrow> False | Some t \<Rightarrow> safe_name t = Inr name) \<and> name \<noteq> ''TRAILER!!!'')
      (zip [''usr/bin/app'', ''usr/share/app/FlClash'', ''usr/share/app/lib/a.so'', ''usr/share/app/readme''] sample_archive)"
    by code_simp
  have "list_all (\<lambda>(name, raw, mode, data). storable sample_decoder name raw mode data \<and> name \<noteq> ''TRAILER!!!'') (zip names sample_archive)"
    using ok unfolding names_def by (rule list.pred_mono_strong) (auto simp: storable_def split: option.splits)
  moreover have "sample_decoder (ascii ''TRAILER!!!'') = Some ''TRAILER!!!''" by code_simp
  ultimately have "cpio_members sample_decoder (cpio_archive (map snd (zip names sample_archive)) @ [0])
      = (map (\<lambda>(name, raw, mode, data). (name, int mode, data)) (zip names sample_archive), None)"
    by (rule cpio_round_trip)
  then show ?thesis by (simp add: names_def sample_archive_def)
qed

text \<open>C2: A package that is accepted holds each module of the bundle exactly once, as a regular file with the
  same digest, executable when it lies at the top; it holds no other ELF file below its directory, its launcher,
  where one is demanded, is there exactly once and points to the application, and the archive was read to its
  end without an exception.\<close>

theorem accepted_package:
  assumes "verify_members sha256 utf8 (ms, ending) base expected launcher = Inr ()"
  shows "ending = None \<and> strangers_ok base expected ms
    \<and> (\<forall>r\<in>fst ` set expected. only_one (named (base @ r)) (faithful_member sha256 expected r) ms)
    \<and> (case launcher of None \<Rightarrow> True | Some (at, goal) \<Rightarrow> only_one (named at) (launcher_member utf8 goal) ms)"
proof -
  from assms obtain seen met where scan: "foldE (member_step sha256 utf8 base expected launcher) ([], False) ms = Inr (seen, met)"
      and final: "ending = None" "launcher \<noteq> None \<longrightarrow> met" "set seen = fst ` set expected"
    by (auto simp: verify_members_def split: option.splits if_splits)
  from members_scanned [OF scan] final show ?thesis
    by (auto simp: modules_ok_def launcher_ok_def met_once_def split: option.splits)
qed

lemma accepted_package_witness:
  "only_one (named ''usr/share/app/lib/a.so'') (faithful_member sample_digest sample_expected ''lib/a.so'') sample_members"
proof -
  have "verify_members sample_digest sample_decoder (sample_members, None) ''usr/share/app/'' sample_expected (Some sample_launcher) = Inr ()"
    by code_simp
  from accepted_package [OF this] have "only_one (named (''usr/share/app/'' @ ''lib/a.so''))
      (faithful_member sample_digest sample_expected ''lib/a.so'') sample_members"
    by (auto simp: sample_expected_def)
  then show ?thesis by simp
qed

end
