(* ===== verification/Linux_Inventory.thy ===== *)
theory Linux_Inventory
  imports Elf_Image Py_Paths
begin

text \<open>
  \<open>tool/sentry_linux_inventory.py\<close>: the ELF modules of an installed Linux bundle and the CMake sources they come
  from. The file system is the record of \<open>Py_Paths\<close>; the hash function, the UTF-8 decoder and the text of the
  manifest's lines are as in the other theories. A walk is the list of what it yields with the exception that
  ends it; the fuel bounds the depth of directories.
\<close>

abbreviation inventory_error :: "string \<Rightarrow> exn + 'a" where
  "inventory_error reason \<equiv> raise LinuxInventoryError reason"

definition ARCHITECTURES :: "(string \<times> string) list" where
  "ARCHITECTURES = [(''x64'', ''x86_64''), (''arm64'', ''aarch64'')]"

definition MAX_ELF :: nat where
  "MAX_ELF = 512 * 1024 * 1024"

record linux_env =
  fs :: file_system
  sha :: "bytes \<Rightarrow> string"
  utf8_text :: "bytes \<Rightarrow> string option"
  depth :: nat

text \<open>\<open>except classes as error: raise LinuxInventoryError(reason)\<close>.\<close>

definition or_else :: "exn + 'a \<Rightarrow> exn_class list \<Rightarrow> string \<Rightarrow> exn + 'a" where
  "or_else m classes reason =
     (case m of Inl e \<Rightarrow> if exn_class_of e \<in> set classes then inventory_error reason else Inl e | Inr x \<Rightarrow> Inr x)"

lemma or_else_Inr [simp]: "or_else m C reason = Inr x \<longleftrightarrow> m = Inr x"
  by (auto simp: or_else_def split: sum.split)

definition resolved :: "linux_env \<Rightarrow> path \<Rightarrow> string \<Rightarrow> exn + path" where
  "resolved env p reason = or_else (resolve (fs env) p) [OSError, RuntimeError, ValueError] reason"

definition elf_facts :: "linux_env \<Rightarrow> path \<Rightarrow> exn + elf_info" where
  "elf_facts env p =
     or_else (rbind (content (fs env) p) (\<lambda>bs.
       if MAX_ELF < length bs then inventory_error ''unsafe_native_input'' else inspect_elf (sha env) bs))
     [OSError, ElfError] ''invalid_native_elf''"

definition is_elf :: "linux_env \<Rightarrow> path \<Rightarrow> exn + bool" where
  "is_elf env p = or_else (rbind (content (fs env) p) (\<lambda>bs. Inr (take 4 bs = 0x7f # ascii ''ELF'')))
     [OSError] ''invalid_native_elf''"

section \<open>The walk\<close>

definition walk_failed :: exn where
  "walk_failed = Exn LinuxInventoryError ''native_inventory_unavailable''"

text \<open>The names of a directory come sorted; linked directories and the excluded one are left out.\<close>

definition sub_directories :: "linux_env \<Rightarrow> path option \<Rightarrow> path \<Rightarrow> string list \<Rightarrow> string list" where
  "sub_directories env excluded dir names =
     filter (\<lambda>name. is_dir (fs env) (dir @ [name]) \<and> \<not> linked (fs env) (dir @ [name]) \<and> excluded \<noteq> Some (dir @ [name])) names"

definition plain_files :: "linux_env \<Rightarrow> path \<Rightarrow> string list \<Rightarrow> path list" where
  "plain_files env dir names = map (\<lambda>name. dir @ [name]) (filter (\<lambda>name. \<not> is_dir (fs env) (dir @ [name])) names)"

text \<open>One walk after the other, the second only if the first did not raise.\<close>

definition then_walk :: "'a list \<times> exn option \<Rightarrow> 'a list \<times> exn option \<Rightarrow> 'a list \<times> exn option" where
  "then_walk a b = (case snd a of None \<Rightarrow> (fst a @ fst b, snd b) | Some e \<Rightarrow> a)"

fun local_files :: "nat \<Rightarrow> linux_env \<Rightarrow> path option \<Rightarrow> path \<Rightarrow> path list \<times> exn option" where
  "local_files 0 env excluded dir = ([], Some walk_failed)"
| "local_files (Suc n) env excluded dir =
     (case children (fs env) dir of
        Inl e \<Rightarrow> ([], Some walk_failed)
      | Inr names \<Rightarrow> then_walk (plain_files env dir names, None)
          (foldr (\<lambda>name rest. then_walk (local_files n env excluded (dir @ [name])) rest)
             (sub_directories env excluded dir names) ([], None)))"

definition over_walk :: "('s \<Rightarrow> path \<Rightarrow> exn + 's) \<Rightarrow> 's \<Rightarrow> path list \<times> exn option \<Rightarrow> exn + 's" where
  "over_walk f s walk = rbind (foldE f s (fst walk)) (\<lambda>t. case snd walk of None \<Rightarrow> Inr t | Some e \<Rightarrow> Inl e)"

section \<open>The CMake sources\<close>

type_synonym table = "(string \<times> path list) list"

text \<open>\<open>table.setdefault(name, [])\<close> and \<open>append\<close>.\<close>

fun add_entry :: "string \<Rightarrow> path \<Rightarrow> table \<Rightarrow> table" where
  "add_entry name p [] = [(name, [p])]"
| "add_entry name p ((name', ps) # t) = (if name' = name then (name', ps @ [p]) # t else (name', ps) # add_entry name p t)"

definition entries :: "table \<Rightarrow> string \<Rightarrow> path list" where
  "entries t name = (case map_of t name of None \<Rightarrow> [] | Some ps \<Rightarrow> ps)"

definition keys :: "table \<Rightarrow> string list" where
  "keys t = map fst t"

definition re_target_label :: regex where
  "re_target_label = rplus (RClass False [(65, 90), (97, 122), (48, 57), (95, 95), (46, 46), (43, 43), (45, 45)])"

definition source_row :: "linux_env \<Rightarrow> path \<Rightarrow> path \<Rightarrow> table \<Rightarrow> string \<Rightarrow> exn + table" where
  "source_row env native bundle sources row =
     (case split_on (char_of (9 :: nat)) row of
        [label, location] \<Rightarrow>
          if \<not> fullmatch re_target_label label \<or> location = [] \<or> \<not> is_absolute location
          then inventory_error ''invalid_cmake_source_manifest''
          else rbind (resolved env (path_parts location) ''unsafe_cmake_source_path'') (\<lambda>source.
            if \<not> is_relative_to source native \<or> is_relative_to source bundle
            then inventory_error ''unsafe_cmake_source_path''
            else Inr (if source \<in> set (entries sources (path_name source)) then sources
              else add_entry (path_name source) source sources))
      | _ \<Rightarrow> inventory_error ''invalid_cmake_source_manifest'')"

definition manifest_lines :: "linux_env \<Rightarrow> path \<Rightarrow> exn + string list" where
  "manifest_lines env manifest =
     or_else (rbind (content (fs env) manifest) (\<lambda>bs.
         case utf8_text env bs of None \<Rightarrow> raise UnicodeError ''utf-8'' | Some t \<Rightarrow> Inr (split_lines t)))
       [OSError, UnicodeError] ''invalid_cmake_source_manifest''"

section \<open>The modules of the bundle\<close>

text \<open>What identifies a module: architecture, build id, code sections and the set of unwind sections.\<close>

definition same_module :: "elf_info \<Rightarrow> elf_info \<Rightarrow> bool" where
  "same_module a b \<longleftrightarrow> elf_arch a = elf_arch b \<and> elf_build_id a = elf_build_id b
     \<and> set (elf_code_sections a) = set (elf_code_sections b) \<and> set (elf_unwind_sections a) = set (elf_unwind_sections b)"

record scan_state =
  modules :: table
  facts :: "(string \<times> elf_info) list"
  visited :: "path list"

definition module_file :: "linux_env \<Rightarrow> string \<Rightarrow> scan_state \<Rightarrow> path \<Rightarrow> exn + scan_state" where
  "module_file env machine s binary =
     rbind (elf_facts env binary) (\<lambda>info.
       let s' = s\<lparr>visited := binary # visited s\<rparr>; name = path_name binary in
       if \<not> elf_has_executable_text info then Inr s'
       else if elf_arch info \<noteq> machine then inventory_error ''missing_or_invalid_runtime_build_id''
       else if (case map_of (facts s) name of None \<Rightarrow> False
           | Some known \<Rightarrow> elf_build_id info = [] \<or> \<not> same_module info known)
         then inventory_error ''conflicting_bundle_native_modules''
       else Inr (s'\<lparr>facts := (name, info) # facts s, modules := add_entry name binary (modules s)\<rparr>))"

definition bundle_file :: "linux_env \<Rightarrow> string \<Rightarrow> path \<Rightarrow> scan_state \<Rightarrow> path \<Rightarrow> exn + scan_state" where
  "bundle_file env machine bundle s p =
     rbind (resolved env p ''unsafe_bundle_native_path'') (\<lambda>binary.
       if \<not> is_relative_to binary bundle then inventory_error ''unsafe_bundle_native_path''
       else if binary \<in> set (visited s) \<or> \<not> is_file (fs env) binary then Inr s
       else rbind (is_elf env binary) (\<lambda>elf. if \<not> elf then Inr s else module_file env machine s binary))"

text \<open>No link anywhere in the bundle may lead out of it.\<close>

definition check_link :: "linux_env \<Rightarrow> path \<Rightarrow> path \<Rightarrow> exn + unit" where
  "check_link env bundle p =
     (if \<not> linked (fs env) p then Inr ()
      else rbind (resolved env p ''unsafe_bundle_native_path'') (\<lambda>q.
        if is_relative_to q bundle then Inr () else inventory_error ''unsafe_bundle_native_path''))"

definition check_links :: "linux_env \<Rightarrow> path \<Rightarrow> exn + unit" where
  "check_links env bundle =
     (if \<not> is_dir (fs env) bundle then Inr ()
      else rbind (walk_below (depth env) (fs env) bundle) (\<lambda>ps. foldE (\<lambda>_ p. check_link env bundle p) () ps))"

text \<open>A file outside the bundle that is the source of an undeclared module.\<close>

definition undeclared_source ::
    "linux_env \<Rightarrow> string \<Rightarrow> path \<Rightarrow> path \<Rightarrow> (string \<times> elf_info) list \<Rightarrow> string list \<Rightarrow> path \<Rightarrow> exn + unit" where
  "undeclared_source env machine native bundle known undeclared p =
     (if path_name p \<notin> set undeclared then Inr ()
      else case resolve (fs env) p of
          Inl e \<Rightarrow> if exn_class_of e \<in> {OSError, RuntimeError, ValueError} then Inr () else Inl e
        | Inr source \<Rightarrow>
            if \<not> is_relative_to source native \<or> is_relative_to source bundle \<or> \<not> is_file (fs env) source then Inr ()
            else rbind (is_elf env source) (\<lambda>elf. if \<not> elf then Inr ()
              else rbind (elf_facts env source) (\<lambda>info.
                if elf_build_id info \<noteq> [] \<and> map_option elf_build_id (map_of known (path_name p)) = Some (elf_build_id info)
                  \<and> elf_arch info = machine \<and> elf_has_debug_info info \<and> elf_has_debug_line info
                then inventory_error ''local_plugin_source_manifest_missing'' else Inr ())))"

section \<open>The inventory\<close>

record linux_inventory =
  native_dir :: path
  bundle_dir :: path
  found_sources :: table
  found_modules :: table
  required_modules :: "string list"

definition owned_names :: "string list" where
  "owned_names = [''FlClashCore'', ''FlClashHelperService'']"

text \<open>The names a release must hold symbols for.\<close>

definition required_names :: "table \<Rightarrow> table \<Rightarrow> string list" where
  "required_names sources found =
     remdups ([''FlClash'', ''librust_api.so''] @ filter (\<lambda>n. n \<in> set (keys sources)) (keys found)
       @ filter (\<lambda>n. n \<in> set (keys found)) (owned_names @ [''crashpad_handler'']))"

definition check_required :: "table \<Rightarrow> table \<Rightarrow> exn + unit" where
  "check_required sources found =
     (if \<not> {''FlClash'', ''librust_api.so''} \<subseteq> set (keys found) then inventory_error ''required_bundle_native_module_missing''
      else if ''FlClash'' \<notin> set (keys sources) then inventory_error ''runner_source_manifest_missing''
      else if ''crashpad_handler'' \<in> set (keys found) \<and> ''crashpad_handler'' \<notin> set (keys sources)
      then inventory_error ''crashpad_source_manifest_missing'' else Inr ())"

definition undeclared_names :: "table \<Rightarrow> table \<Rightarrow> string list" where
  "undeclared_names sources found =
     filter (\<lambda>n. n \<notin> set (keys sources) \<and> n \<notin> set ([''librust_api.so'', ''libapp.so''] @ owned_names)) (keys found)"

definition capitalized :: "string \<Rightarrow> string" where
  "capitalized s = (case s of [] \<Rightarrow> [] | c # t \<Rightarrow> upper_text [c] @ lower_text t)"

definition read_sources :: "linux_env \<Rightarrow> string \<Rightarrow> path \<Rightarrow> path \<Rightarrow> exn + table" where
  "read_sources env configuration native bundle =
     (let manifest = native @ [''sentry-native-'' @ capitalized configuration @ ''.tsv''] in
      rbind (resolved env manifest ''unsafe_cmake_source_path'') (\<lambda>m.
        if \<not> is_relative_to m native then inventory_error ''unsafe_cmake_source_path''
        else if \<not> is_file (fs env) manifest then inventory_error ''cmake_source_manifest_missing''
        else rbind (manifest_lines env manifest) (\<lambda>rows. foldE (source_row env native bundle) [] rows)))"

definition scan_bundle :: "linux_env \<Rightarrow> string \<Rightarrow> path \<Rightarrow> exn + scan_state" where
  "scan_bundle env machine bundle =
     over_walk (bundle_file env machine bundle) \<lparr>modules = [], facts = [], visited = []\<rparr>
       (local_files (depth env) env None bundle)"

definition finish_inventory :: "linux_env \<Rightarrow> string \<Rightarrow> path \<Rightarrow> path \<Rightarrow> table \<Rightarrow> scan_state \<Rightarrow> exn + linux_inventory" where
  "finish_inventory env machine native bundle sources s =
     rbind (check_required sources (modules s)) (\<lambda>_.
     rbind (let undeclared = undeclared_names sources (modules s) in
         if undeclared = [] then Inr ()
         else over_walk (\<lambda>_. undeclared_source env machine native bundle (facts s) undeclared) ()
           (local_files (depth env) env (Some bundle) native)) (\<lambda>_.
       Inr \<lparr>native_dir = native, bundle_dir = bundle, found_sources = sources, found_modules = modules s,
         required_modules = required_names sources (modules s)\<rparr>))"

definition collect_linux_inventory :: "linux_env \<Rightarrow> path \<Rightarrow> string \<Rightarrow> string \<Rightarrow> exn + linux_inventory" where
  "collect_linux_inventory env build_root architecture configuration =
     (case map_of ARCHITECTURES architecture of
        None \<Rightarrow> inventory_error ''invalid_linux_native_configuration''
      | Some machine \<Rightarrow>
          if configuration \<notin> {''release'', ''profile''} then inventory_error ''invalid_linux_native_configuration''
          else rbind (resolved env build_root ''unsafe_native_input'') (\<lambda>root.
            let native = root @ [''linux'', architecture, configuration] in
            rbind (resolved env native ''unsafe_native_input'') (\<lambda>native'.
            rbind (resolved env (native @ [''bundle'']) ''unsafe_native_input'') (\<lambda>bundle.
              if \<not> is_relative_to native' root \<or> \<not> is_relative_to bundle native' then inventory_error ''unsafe_native_input''
              else rbind (read_sources env configuration native' bundle) (\<lambda>sources.
                rbind (check_links env bundle) (\<lambda>_.
                rbind (scan_bundle env machine bundle) (\<lambda>s.
                  finish_inventory env machine native' bundle sources s)))))))"

section \<open>What an inventory holds\<close>

text \<open>Every path of a table is kept under its own name and satisfies a test.\<close>

definition table_ok :: "(path \<Rightarrow> bool) \<Rightarrow> table \<Rightarrow> bool" where
  "table_ok P t \<longleftrightarrow> (\<forall>name ps p. (name, ps) \<in> set t \<and> p \<in> set ps \<longrightarrow> path_name p = name \<and> P p)"

lemma table_ok_Nil [simp]: "table_ok P []"
  by (simp add: table_ok_def)

lemma table_ok_Cons: "table_ok P ((name, ps) # t) \<longleftrightarrow> (\<forall>p\<in>set ps. path_name p = name \<and> P p) \<and> table_ok P t"
  by (auto simp: table_ok_def)

lemma table_ok_add: "table_ok P t \<Longrightarrow> P p \<Longrightarrow> table_ok P (add_entry (path_name p) p t)"
  by (induction "path_name p" p t rule: add_entry.induct) (auto simp: table_ok_Cons)

lemma keys_add_entry: "set (keys (add_entry name p t)) = insert name (set (keys t))"
  by (induction name p t rule: add_entry.induct) (auto simp: keys_def)

lemma over_walk_invariant:
  assumes "over_walk f s walk = Inr t" and "P s" and "\<And>s x t. P s \<Longrightarrow> f s x = Inr t \<Longrightarrow> P t"
  shows "P t"
proof -
  from assms(1) have "foldE f s (fst walk) = Inr t" by (auto simp: over_walk_def split: option.splits)
  then show ?thesis by (rule foldE_invariant) (use assms in blast)+
qed

definition source_ok :: "path \<Rightarrow> path \<Rightarrow> path \<Rightarrow> bool" where
  "source_ok native bundle p \<longleftrightarrow> is_relative_to p native \<and> \<not> is_relative_to p bundle"

lemma source_row_ok:
  "source_row env native bundle t row = Inr t' \<Longrightarrow> table_ok (source_ok native bundle) t
   \<Longrightarrow> table_ok (source_ok native bundle) t'"
  by (auto simp: source_row_def source_ok_def split: list.splits if_splits intro: table_ok_add)

lemma read_sources_ok:
  "read_sources env configuration native bundle = Inr t \<Longrightarrow> table_ok (source_ok native bundle) t"
  unfolding read_sources_def Let_def
  by (auto elim!: foldE_invariant [where P = "table_ok (source_ok native bundle)"] intro: source_row_ok split: if_splits)

text \<open>A module lies in the bundle, is an ELF file of the machine with executable text.\<close>

definition module_ok :: "linux_env \<Rightarrow> string \<Rightarrow> path \<Rightarrow> path \<Rightarrow> bool" where
  "module_ok env machine bundle p \<longleftrightarrow> is_relative_to p bundle \<and> is_file (fs env) p
     \<and> (\<exists>info. elf_facts env p = Inr info \<and> elf_has_executable_text info \<and> elf_arch info = machine)"

text \<open>Modules of one name are the same module: the state remembers the facts of the last.\<close>

definition twins_ok :: "linux_env \<Rightarrow> scan_state \<Rightarrow> bool" where
  "twins_ok env s \<longleftrightarrow> (\<forall>name ps p. (name, ps) \<in> set (modules s) \<and> p \<in> set ps \<longrightarrow>
     (\<exists>info known. elf_facts env p = Inr info \<and> map_of (facts s) name = Some known \<and> same_module info known))"

definition scan_ok :: "linux_env \<Rightarrow> string \<Rightarrow> path \<Rightarrow> scan_state \<Rightarrow> bool" where
  "scan_ok env machine bundle s \<longleftrightarrow> table_ok (module_ok env machine bundle) (modules s) \<and> twins_ok env s
     \<and> distinct (keys (modules s))"

lemma same_module_refl [simp]: "same_module a a"
  by (simp add: same_module_def)

lemma same_module_sym: "same_module a b \<Longrightarrow> same_module b a"
  by (simp add: same_module_def)

lemma same_module_trans: "same_module a b \<Longrightarrow> same_module b c \<Longrightarrow> same_module a c"
  by (simp add: same_module_def)

lemma add_entry_paths:
  "(name, ps) \<in> set (add_entry k p t) \<Longrightarrow> q \<in> set ps \<Longrightarrow> q = p \<and> name = k \<or> (\<exists>qs. (name, qs) \<in> set t \<and> q \<in> set qs)"
  by (induction k p t rule: add_entry.induct) (auto split: if_splits)

lemma distinct_add_entry: "distinct (keys t) \<Longrightarrow> distinct (keys (add_entry name p t))"
proof (induction name p t rule: add_entry.induct)
  case (2 name p name' ps t)
  then show ?case using keys_add_entry [of name p t] by (auto simp: keys_def)
qed (simp add: keys_def)

lemma module_file_ok:
  assumes "module_file env machine s binary = Inr t" and "scan_ok env machine bundle s"
    and "is_relative_to binary bundle" "is_file (fs env) binary"
  shows "scan_ok env machine bundle t"
proof -
  obtain info where info: "elf_facts env binary = Inr info" using assms(1) by (auto simp: module_file_def)
  let ?name = "path_name binary"
  show ?thesis
  proof (cases "elf_has_executable_text info")
    case False
    then have "modules t = modules s" "facts t = facts s" using assms(1) info by (auto simp: module_file_def Let_def)
    then show ?thesis using assms(2) by (simp add: scan_ok_def twins_ok_def)
  next
    case True
    then have machine: "elf_arch info = machine" and t: "modules t = add_entry ?name binary (modules s)"
        "facts t = (?name, info) # facts s"
      and twin: "\<And>known. map_of (facts s) ?name = Some known \<Longrightarrow> same_module info known"
      using assms(1) info by (auto simp: module_file_def Let_def split: if_splits option.splits)
    have "module_ok env machine bundle binary"
      using info machine True assms(3,4) by (auto simp: module_ok_def)
    then have table: "table_ok (module_ok env machine bundle) (modules t)"
      using assms(2) t(1) by (auto simp: scan_ok_def intro: table_ok_add)
    have "\<exists>i known. elf_facts env p = Inr i \<and> map_of (facts t) name = Some known \<and> same_module i known"
      if "(name, ps) \<in> set (modules t)" "p \<in> set ps" for name ps p
    proof (cases "p = binary \<and> name = ?name")
      case False
      with add_entry_paths [OF that [unfolded t(1)]] obtain qs where "(name, qs) \<in> set (modules s)" "p \<in> set qs" by blast
      then obtain i known where i: "elf_facts env p = Inr i" "map_of (facts s) name = Some known" "same_module i known"
        using assms(2) unfolding scan_ok_def twins_ok_def by blast
      show ?thesis
      proof (cases "name = ?name")
        case True
        with i twin have "same_module i info" using same_module_sym same_module_trans by blast
        with i(1) True t(2) show ?thesis by simp
      qed (use i t(2) in simp)
    qed (use info t(2) in simp)
    then have "twins_ok env t" unfolding twins_ok_def by blast
    with table show ?thesis using assms(2) t(1) distinct_add_entry by (simp add: scan_ok_def)
  qed
qed

lemma bundle_file_ok:
  assumes "bundle_file env machine bundle s p = Inr t" and "scan_ok env machine bundle s"
  shows "scan_ok env machine bundle t"
proof -
  obtain binary where binary: "resolved env p ''unsafe_bundle_native_path'' = Inr binary" "is_relative_to binary bundle"
    using assms(1) by (auto simp: bundle_file_def)
  with assms(1) have "t = s \<or> is_file (fs env) binary \<and> module_file env machine s binary = Inr t"
    by (auto simp: bundle_file_def split: if_splits)
  with assms(2) binary(2) module_file_ok show ?thesis by blast
qed

lemma scan_bundle_ok: "scan_bundle env machine bundle = Inr s \<Longrightarrow> scan_ok env machine bundle s"
  unfolding scan_bundle_def
  by (erule over_walk_invariant [where P = "scan_ok env machine bundle"], simp add: scan_ok_def twins_ok_def keys_def)
     (rule bundle_file_ok)

lemma scan_twins:
  assumes "scan_ok env machine bundle s" "(name, ps) \<in> set (modules s)" "p \<in> set ps" "q \<in> set ps"
  shows "\<exists>a b. elf_facts env p = Inr a \<and> elf_facts env q = Inr b \<and> same_module a b"
proof -
  have known: "\<exists>a known. elf_facts env r = Inr a \<and> map_of (facts s) name = Some known \<and> same_module a known"
    if "r \<in> set ps" for r
    using assms(1,2) that unfolding scan_ok_def twins_ok_def by blast
  from known [OF assms(3)] known [OF assms(4)]
  obtain a b k where "elf_facts env p = Inr a" "elf_facts env q = Inr b" "same_module a k" "same_module b k" by auto
  then show ?thesis using same_module_sym same_module_trans by blast
qed

text \<open>What \<open>collect_linux_inventory\<close> has found when it returns.\<close>

definition inventory_ok :: "linux_env \<Rightarrow> string \<Rightarrow> linux_inventory \<Rightarrow> bool" where
  "inventory_ok env machine i \<longleftrightarrow> is_relative_to (bundle_dir i) (native_dir i)
     \<and> table_ok (source_ok (native_dir i) (bundle_dir i)) (found_sources i)
     \<and> table_ok (module_ok env machine (bundle_dir i)) (found_modules i)
     \<and> (\<forall>name ps p q. (name, ps) \<in> set (found_modules i) \<and> p \<in> set ps \<and> q \<in> set ps
          \<longrightarrow> (\<exists>a b. elf_facts env p = Inr a \<and> elf_facts env q = Inr b \<and> same_module a b))"

definition required_ok :: "linux_inventory \<Rightarrow> bool" where
  "required_ok i \<longleftrightarrow> {''FlClash'', ''librust_api.so''} \<subseteq> set (required_modules i)
     \<and> set (required_modules i) \<subseteq> set (keys (found_modules i))
     \<and> (\<forall>n\<in>set (keys (found_modules i)) \<inter> set (keys (found_sources i)). n \<in> set (required_modules i))
     \<and> (\<forall>n\<in>set (required_modules i). n \<in> set (keys (found_sources i)) \<or> n \<in> {''librust_api.so'', ''FlClashCore'', ''FlClashHelperService''})"

lemma check_required_Inr:
  "check_required sources found = Inr u \<longleftrightarrow> {''FlClash'', ''librust_api.so''} \<subseteq> set (keys found)
     \<and> ''FlClash'' \<in> set (keys sources) \<and> (''crashpad_handler'' \<in> set (keys found) \<longrightarrow> ''crashpad_handler'' \<in> set (keys sources))"
  unfolding check_required_def by (simp only: if_split_eq1 sum.distinct) auto

lemma required_set_core:
  "set (remdups ([f, l] @ filter (\<lambda>n. n \<in> S) K @ filter (\<lambda>n. n \<in> set K) ([a, b] @ [c])))
     = {f, l} \<union> (set K \<inter> S) \<union> (set [a, b, c] \<inter> set K)"
  by auto

lemma required_names_set:
  "set (required_names sources found) = {''FlClash'', ''librust_api.so''} \<union> (set (keys found) \<inter> set (keys sources))
     \<union> (set [''FlClashCore'', ''FlClashHelperService'', ''crashpad_handler''] \<inter> set (keys found))"
  unfolding required_names_def owned_names_def by (rule required_set_core)

lemma required_core:
  assumes "{f, l} \<subseteq> K" "f \<in> S" "c \<in> K \<longrightarrow> c \<in> S" "R = {f, l} \<union> (K \<inter> S) \<union> (set [a, b, c] \<inter> K)"
  shows "{f, l} \<subseteq> R \<and> R \<subseteq> K \<and> (\<forall>n\<in>K \<inter> S. n \<in> R) \<and> (\<forall>n\<in>R. n \<in> S \<or> n \<in> {l, a, b})"
  using assms by auto

lemma finish_inventory_ok:
  assumes "finish_inventory env machine native bundle sources s = Inr i"
  shows "native_dir i = native" "bundle_dir i = bundle" "found_sources i = sources" "found_modules i = modules s"
    and "required_ok i"
proof -
  have req: "check_required sources (modules s) = Inr ()"
    and inventory: "i = \<lparr>native_dir = native, bundle_dir = bundle, found_sources = sources, found_modules = modules s,
         required_modules = required_names sources (modules s)\<rparr>"
    using assms by (auto simp: finish_inventory_def)
  then show "native_dir i = native" "bundle_dir i = bundle" "found_sources i = sources" "found_modules i = modules s"
    by simp_all
  from req have "{''FlClash'', ''librust_api.so''} \<subseteq> set (keys (modules s))" "''FlClash'' \<in> set (keys sources)"
      "''crashpad_handler'' \<in> set (keys (modules s)) \<longrightarrow> ''crashpad_handler'' \<in> set (keys sources)"
    unfolding check_required_Inr by blast+
  from required_core [OF this required_names_set] show "required_ok i"
    unfolding required_ok_def inventory linux_inventory.simps .
qed

lemma collect_inventory_ok:
  assumes "collect_linux_inventory env build_root architecture configuration = Inr i"
  shows "\<exists>machine. map_of ARCHITECTURES architecture = Some machine \<and> inventory_ok env machine i \<and> required_ok i"
proof -
  from assms obtain machine root native app sources s where
      machine: "map_of ARCHITECTURES architecture = Some machine"
    and inside: "is_relative_to app native"
    and sources: "read_sources env configuration native app = Inr sources"
    and scan: "scan_bundle env machine app = Inr s"
    and finish: "finish_inventory env machine native app sources s = Inr i"
    by (auto simp: collect_linux_inventory_def Let_def split: option.splits if_splits)
  note finished = finish_inventory_ok [OF finish]
  have "inventory_ok env machine i"
    using inside read_sources_ok [OF sources] scan_bundle_ok [OF scan] scan_twins [OF scan_bundle_ok [OF scan]]
    unfolding inventory_ok_def finished by (auto simp: scan_ok_def)
  with machine finished(5) show ?thesis by blast
qed

section \<open>A sample bundle\<close>

definition sample_native :: path where
  "sample_native = [''b'', ''linux'', ''x64'', ''release'']"

text \<open>The sample ELF file with the machine of x86-64.\<close>

definition sample_module :: bytes where
  "sample_module = sample_elf[18 := 62]"

definition sample_files :: "(path \<times> bytes) list" where
  "sample_files =
     [(sample_native @ [''sentry-native-Release.tsv''],
         ascii ''FlClash'' @ [9] @ ascii ''/b/linux/x64/release/runner/FlClash'' @ [10]),
      (sample_native @ [''bundle'', ''FlClash''], sample_module), (sample_native @ [''bundle'', ''lib'', ''librust_api.so''], sample_module)]"

definition sample_children :: "(path \<times> string list) list" where
  "sample_children = [(sample_native @ [''bundle''], [''FlClash'', ''lib'']), (sample_native @ [''bundle'', ''lib''], [''librust_api.so''])]"

definition sample_env :: linux_env where
  "sample_env = \<lparr>fs = \<lparr>resolve = Inr, linked = (\<lambda>p. False), is_file = (\<lambda>p. p \<in> fst ` set sample_files),
       is_dir = (\<lambda>p. p \<in> fst ` set sample_children),
       children = (\<lambda>p. case map_of sample_children p of None \<Rightarrow> raise OSError [] | Some ns \<Rightarrow> Inr ns),
       content = (\<lambda>p. case map_of sample_files p of None \<Rightarrow> raise OSError [] | Some bs \<Rightarrow> Inr bs)\<rparr>,
     sha = (\<lambda>bs. []), utf8_text = (\<lambda>bs. Some (bytes_text bs)), depth = 4\<rparr>"

text \<open>C22: A collected Linux inventory is sound: every module lies in the bundle and is a readable ELF file of the
  machine with executable text, all copies of one name are the same module, every source lies outside the bundle
  in the native build, and the required names are modules of the bundle that include the application and the
  Rust library; each has a declared source unless it is one of the three built elsewhere.\<close>

theorem linux_inventory_sound:
  assumes "collect_linux_inventory env build_root architecture configuration = Inr i"
  shows "\<exists>machine. map_of ARCHITECTURES architecture = Some machine \<and> inventory_ok env machine i \<and> required_ok i"
  using assms by (rule collect_inventory_ok)

lemma linux_inventory_sound_witness:
  "\<exists>i. collect_linux_inventory sample_env [''b''] ''x64'' ''release'' = Inr i \<and> required_ok i"
proof -
  have "case collect_linux_inventory sample_env [''b''] ''x64'' ''release'' of Inl e \<Rightarrow> False | Inr i \<Rightarrow> True" by code_simp
  then obtain i where i: "collect_linux_inventory sample_env [''b''] ''x64'' ''release'' = Inr i" by (auto split: sum.splits)
  with linux_inventory_sound [OF i] show ?thesis by blast
qed

end
