(* ===== verification/Link_Helper.thy ===== *)
theory Link_Helper
  imports Py_Effects Py_Paths "HOL-Library.Char_ord" "HOL-Library.List_Lexorder"
begin

text \<open>
  The proof that a package target only links a binary, from \<open>tool/sentry_macos_inventory.py\<close>: sources that hold
  nothing but comments, the description of such a target and its validation against the evaluated build.
  \<open>comments_only\<close> is the scanner of the code; \<open>comment_text\<close> says inductively which texts it stands for.
\<close>

section \<open>Comments\<close>

definition blanks :: bytes where
  "blanks = [32, 9, 13, 10, 11, 12]"

definition line_ends :: bytes where
  "line_ends = [13, 10, 11, 12]"

definition slash :: byte where "slash = 47"
definition star :: byte where "star = 42"

text \<open>The text after the end of a block comment of which \<open>depth\<close> levels are open; None if it does not end.\<close>

fun after_block :: "bool \<Rightarrow> nat \<Rightarrow> bytes \<Rightarrow> bytes option" where
  "after_block nested depth [] = (if depth = 0 then Some [] else None)"
| "after_block nested depth [b] = (if depth = 0 then Some [b] else None)"
| "after_block nested depth (b # c # rest) =
     (if depth = 0 then Some (b # c # rest)
      else if b = star \<and> c = slash then after_block nested (depth - 1) rest
      else if b = slash \<and> c = star \<and> nested then after_block nested (depth + 1) rest
      else after_block nested depth (c # rest))"

lemma after_block_shorter: "after_block nested depth raw = Some rest \<Longrightarrow> length rest \<le> length raw"
  by (induction nested depth raw rule: after_block.induct) (auto split: if_splits)

text \<open>The loop of \<open>comments_only_source\<close>, the cursor being the rest of the text.\<close>

function comments_only :: "bool \<Rightarrow> bytes \<Rightarrow> bool" where
  "comments_only nested [] = True"
| "comments_only nested (b # raw) =
     (if b \<in> set blanks then comments_only nested raw
      else case raw of
          [] \<Rightarrow> False
        | c # rest \<Rightarrow>
            if b = slash \<and> c = slash then comments_only nested (dropWhile (\<lambda>x. x \<notin> set line_ends) rest)
            else if b = slash \<and> c = star
            then (case after_block nested 1 rest of None \<Rightarrow> False | Some t \<Rightarrow> comments_only nested t)
            else False)"
  by pat_completeness auto
termination
proof (relation "measure (\<lambda>(nested, raw). length raw)")
  fix nested :: bool and b c :: byte and raw rest :: bytes assume "raw = c # rest"
  then show "((nested, dropWhile (\<lambda>x. x \<notin> set line_ends) rest), nested, b # raw) \<in> measure (\<lambda>(nested, raw). length raw)"
    by (simp add: length_dropWhile_le le_imp_less_Suc less_SucI)
qed (auto dest: after_block_shorter)

definition helper_languages :: "(string \<times> string) list" where
  "helper_languages = [(''.swift'', ''swift''), (''.c'', ''c''), (''.cc'', ''c++''), (''.cpp'', ''c++''), (''.cxx'', ''c++'')]"

definition MAX_LINK_HELPER_FILES :: nat where "MAX_LINK_HELPER_FILES = 64"
definition MAX_LINK_HELPER_FILE_BYTES :: nat where "MAX_LINK_HELPER_FILE_BYTES = 65536"
definition MAX_LINK_HELPER_BYTES :: nat where "MAX_LINK_HELPER_BYTES = 262144"

definition plain_byte :: "byte \<Rightarrow> bool" where
  "plain_byte b \<longleftrightarrow> b \<le> 126 \<and> (32 \<le> b \<or> b \<in> set [9, 13, 10, 11, 12])"

definition backslash :: byte where "backslash = 92"

definition comments_only_source :: "bytes \<Rightarrow> string \<Rightarrow> bool" where
  "comments_only_source raw language \<longleftrightarrow>
     language \<in> set [''swift'', ''c'', ''c++''] \<and> length raw \<le> MAX_LINK_HELPER_FILE_BYTES
     \<and> list_all plain_byte raw
     \<and> \<not> (language \<in> set [''c'', ''c++''] \<and> (backslash \<in> set raw \<or> contains (ascii ''??'') raw))
     \<and> comments_only (language = ''swift'') raw"

subsection \<open>The language of comments\<close>

text \<open>
  \<open>block_text nested depth s t\<close>: the text \<open>s\<close> closes \<open>depth\<close> open levels and leaves \<open>t\<close>. A closing mark counts
  wherever it stands; an opening mark counts only where block comments nest; any other character is passed
  over when no mark starts there.
\<close>

definition closes :: "bytes \<Rightarrow> bool" where
  "closes s \<longleftrightarrow> prefix [star, slash] s"

definition opens :: "bytes \<Rightarrow> bool" where
  "opens s \<longleftrightarrow> prefix [slash, star] s"

inductive block_text :: "bool \<Rightarrow> nat \<Rightarrow> bytes \<Rightarrow> bytes \<Rightarrow> bool" where
  closed: "block_text nested 0 s s"
| close: "block_text nested depth s t \<Longrightarrow> block_text nested (Suc depth) (star # slash # s) t"
| deeper: "block_text True (Suc (Suc depth)) s t \<Longrightarrow> block_text True (Suc depth) (slash # star # s) t"
| inside: "\<not> closes (b # s) \<Longrightarrow> \<not> (nested \<and> opens (b # s)) \<Longrightarrow> block_text nested (Suc depth) s t
    \<Longrightarrow> block_text nested (Suc depth) (b # s) t"

inductive comment_text :: "bool \<Rightarrow> bytes \<Rightarrow> bool" where
  no_text: "comment_text nested []"
| blank: "b \<in> set blanks \<Longrightarrow> comment_text nested s \<Longrightarrow> comment_text nested (b # s)"
| line: "set l \<inter> set line_ends = {} \<Longrightarrow> s = [] \<or> hd s \<in> set line_ends \<Longrightarrow> comment_text nested s
    \<Longrightarrow> comment_text nested ([slash, slash] @ l @ s)"
| block: "block_text nested 1 s t \<Longrightarrow> comment_text nested t \<Longrightarrow> comment_text nested ([slash, star] @ s)"

inductive_cases block_text_0E: "block_text nested 0 s t"
inductive_cases block_text_SucE: "block_text nested (Suc depth) s t"

lemma star_slash [simp]: "star \<noteq> slash" "slash \<noteq> star"
  by (simp_all add: star_def slash_def)

lemma marks_not_blank [simp]: "slash \<notin> set blanks" "star \<notin> set blanks"
  by (simp_all add: star_def slash_def blanks_def)

lemma after_block_0 [simp]: "after_block nested 0 s = Some s"
  by (induction nested "0 :: nat" s rule: after_block.induct) simp_all

lemma block_text_sound: "after_block nested depth s = Some t \<Longrightarrow> block_text nested depth s t"
proof (induction nested depth s rule: after_block.induct)
  case (3 nested depth b c rest)
  show ?case
  proof (cases depth)
    case (Suc d)
    consider "b = star" "c = slash" | "b = slash" "c = star" nested
      | "\<not> (b = star \<and> c = slash)" "\<not> (b = slash \<and> c = star \<and> nested)" by blast
    then show ?thesis
    proof cases
      case 3
      with "3.IH"(3) "3.prems" Suc have "block_text nested (Suc d) (c # rest) t" by auto
      with 3 Suc show ?thesis by (auto simp: closes_def opens_def intro: inside)
    qed (use "3.IH" "3.prems" Suc in \<open>auto intro: close deeper\<close>)
  qed (use "3.prems" in \<open>auto intro: closed\<close>)
qed (auto intro: closed split: if_splits)

lemma block_text_complete: "block_text nested depth s t \<Longrightarrow> after_block nested depth s = Some t"
proof (induction rule: block_text.induct)
  case (inside b s nested depth t)
  then obtain c rest where "s = c # rest" by (cases s) auto
  with inside show ?case by (auto simp: closes_def opens_def)
qed simp_all

lemma after_block_iff: "after_block nested depth s = Some t \<longleftrightarrow> block_text nested depth s t"
  using block_text_sound block_text_complete by blast

lemma dropWhile_line:
  assumes "set l \<inter> set line_ends = {}" and "s = [] \<or> hd s \<in> set line_ends"
  shows "dropWhile (\<lambda>x. x \<notin> set line_ends) (l @ s) = s"
  using assms by (induction l) (cases s; auto)+

lemma comments_only_complete: "comment_text nested s \<Longrightarrow> comments_only nested s"
  by (induction rule: comment_text.induct) (auto simp: dropWhile_line dest: block_text_complete)

lemma comments_only_sound: "comments_only nested s \<Longrightarrow> comment_text nested s"
proof (induction nested s rule: comments_only.induct)
  case (2 nested b raw)
  show ?case
  proof (cases "b \<in> set blanks")
    case False
    with "2.prems" obtain c rest where raw: "raw = c # rest" by (cases raw) auto
    consider "b = slash" "c = slash" "comments_only nested (dropWhile (\<lambda>x. x \<notin> set line_ends) rest)"
      | t where "b = slash" "c = star" "after_block nested 1 rest = Some t" "comments_only nested t"
      using "2.prems" False raw by (auto split: if_splits option.splits)
    then show ?thesis
    proof cases
      case 1
      let ?P = "\<lambda>x. x \<notin> set line_ends"
      have "set (takeWhile ?P rest) \<inter> set line_ends = {}" by (auto dest: set_takeWhileD)
      moreover have "dropWhile ?P rest = [] \<or> hd (dropWhile ?P rest) \<in> set line_ends"
        using hd_dropWhile [of ?P rest] by blast
      moreover have "comment_text nested (dropWhile ?P rest)" using "2.IH"(2) False raw 1 by auto
      ultimately have "comment_text nested ([slash, slash] @ takeWhile ?P rest @ dropWhile ?P rest)" by (rule line)
      with 1 raw show ?thesis by simp
    next
      case 2
      with "2.IH"(3) False raw have "comment_text nested t" by auto
      with 2 raw show ?thesis using comment_text.block [of nested rest t] by (simp add: after_block_iff)
    qed
  qed (use 2 in \<open>auto intro: blank\<close>)
qed (rule no_text)

lemma comments_only_iff: "comments_only nested s \<longleftrightarrow> comment_text nested s"
  using comments_only_sound comments_only_complete by blast

text \<open>C5: The scanner of the code accepts exactly the plain texts, within the size limit, that are a sequence of
  blanks and closed comments of the language: block comments nest in Swift and do not in C, where the first end
  mark closes, and a text in C has no backslash and no trigraph.\<close>

theorem comments_only_source_iff:
  "comments_only_source raw language \<longleftrightarrow>
     (language = ''swift'' \<or> (language = ''c'' \<or> language = ''c++'') \<and> backslash \<notin> set raw \<and> \<not> sublist (ascii ''??'') raw)
     \<and> length raw \<le> 65536 \<and> list_all plain_byte raw \<and> comment_text (language = ''swift'') raw"
  by (auto simp: comments_only_source_def comments_only_iff MAX_LINK_HELPER_FILE_BYTES_def contains_def find_from_None)

section \<open>Helper sources\<close>

abbreviation value_error :: "exn + 'a" where
  "value_error \<equiv> raise ValueError []"

definition require :: "bool \<Rightarrow> exn + unit" where
  "require ok = (if ok then Inr () else value_error)"

lemma require_Inr [simp]: "require ok = Inr u \<longleftrightarrow> ok"
  by (simp add: require_def)

definition re_label :: regex where
  "re_label = rplus (RClass False [(65, 90), (97, 122), (48, 57), (95, 95), (46, 46), (43, 43), (45, 45)])"

definition label :: "pyval \<Rightarrow> exn + string" where
  "label v = (case text_of v of
      Some s \<Rightarrow> if fullmatch re_label s then Inr s else raise InventoryError ''invalid_macos_dependency_label''
    | None \<Rightarrow> raise InventoryError ''invalid_macos_dependency_label'')"

definition re_helper_path :: regex where
  "re_helper_path = rplus (RClass False [(65, 90), (97, 122), (48, 57), (95, 95), (46, 46), (43, 43), (47, 47), (45, 45)])"

text \<open>\<open>_helper_relative\<close>: the components of a plain relative path.\<close>

definition helper_relative :: "pyval \<Rightarrow> exn + path" where
  "helper_relative v = (case text_of v of
      None \<Rightarrow> value_error
    | Some s \<Rightarrow> if s = [] \<or> \<not> fullmatch re_helper_path s \<or> is_absolute s
          \<or> list_ex (\<lambda>p. p \<in> set ['''', ''.'', ''..'']) (split_on (CHR ''/'') s)
        then value_error else Inr (path_parts s))"

record helper_env =
  files_of :: file_system
  digest :: "bytes \<Rightarrow> string"

record helper_file =
  f_path :: string
  f_language :: string
  f_bytes :: nat
  f_sha256 :: string

record helper_scan =
  found :: "helper_file list"
  open_dirs :: "path list"
  total_bytes :: nat
  seen_entries :: nat

definition MAX_ENTRIES :: nat where "MAX_ENTRIES = 256"

definition inside_package :: "helper_env \<Rightarrow> path \<Rightarrow> path \<Rightarrow> exn + bool" where
  "inside_package env package p =
     rbind (resolve (files_of env) p) (\<lambda>q. rbind (resolve (files_of env) package) (\<lambda>r. Inr (is_relative_to q r)))"

text \<open>A file of the target: only comments in a known language, within the limits.\<close>

definition helper_source :: "helper_env \<Rightarrow> path \<Rightarrow> path \<Rightarrow> helper_scan \<Rightarrow> exn + helper_scan" where
  "helper_source env package p s =
     (case map_of helper_languages (path_suffix p) of
        None \<Rightarrow> value_error
      | Some language \<Rightarrow>
          if \<not> is_file (files_of env) p then value_error
          else rbind (content (files_of env) p) (\<lambda>data.
            if MAX_LINK_HELPER_FILE_BYTES < length data then value_error
            else let t = total_bytes s + length data; name = relative_text p package in
              if MAX_LINK_HELPER_BYTES < t \<or> MAX_LINK_HELPER_FILES \<le> length (found s) \<or> \<not> comments_only_source data language
              then value_error
              else rbind (helper_relative (PStr name)) (\<lambda>_.
                Inr (s\<lparr>total_bytes := t, found := found s
                  @ [\<lparr>f_path = name, f_language = language, f_bytes = length data, f_sha256 = digest env data\<rparr>]\<rparr>))))"

definition helper_entry :: "helper_env \<Rightarrow> path \<Rightarrow> path \<Rightarrow> helper_scan \<Rightarrow> path \<Rightarrow> exn + helper_scan" where
  "helper_entry env package source_root s p =
     (let s = s\<lparr>seen_entries := seen_entries s + 1\<rparr> in
      if MAX_ENTRIES < seen_entries s \<or> linked (files_of env) p then value_error
      else rbind (inside_package env package p) (\<lambda>inside.
        if \<not> inside then value_error
        else if is_dir (files_of env) p
        then (if 16 < length p - length source_root then value_error else Inr (s\<lparr>open_dirs := p # open_dirs s\<rparr>))
        else helper_source env package p s))"

text \<open>One pass of the loop: the directory opened last and its entries in order.\<close>

definition helper_directory :: "helper_env \<Rightarrow> path \<Rightarrow> path \<Rightarrow> helper_scan \<Rightarrow> path \<Rightarrow> exn + helper_scan" where
  "helper_directory env package source_root s dir =
     rbind (children (files_of env) dir) (\<lambda>names.
       foldE (helper_entry env package source_root) s (map (\<lambda>name. dir @ [name]) (sort names)))"

text \<open>Every entry that opens a directory is counted, and at most 256 are: the loop ends.\<close>

definition scan_left :: "helper_scan \<Rightarrow> nat" where
  "scan_left s = length (open_dirs s) + (MAX_ENTRIES - seen_entries s)"

lemma helper_source_left: "helper_source env package p s = Inr t \<Longrightarrow> scan_left t = scan_left s"
  by (auto simp: helper_source_def Let_def scan_left_def split: option.splits if_splits)

lemma helper_entry_left:
  assumes "helper_entry env package source_root s p = Inr t"
  shows "scan_left t \<le> scan_left s"
proof -
  let ?s = "s\<lparr>seen_entries := seen_entries s + 1\<rparr>"
  from assms have "seen_entries s < MAX_ENTRIES" by (auto simp: helper_entry_def Let_def)
  then have "scan_left ?s + 1 = scan_left s" by (simp add: scan_left_def)
  moreover from assms have "t = ?s\<lparr>open_dirs := p # open_dirs ?s\<rparr> \<or> helper_source env package p ?s = Inr t"
    by (auto simp: helper_entry_def Let_def split: if_splits)
  moreover have "scan_left (?s\<lparr>open_dirs := p # open_dirs ?s\<rparr>) = scan_left ?s + 1" by (simp add: scan_left_def)
  ultimately show ?thesis using helper_source_left [of env package p ?s t] by auto
qed

lemma helper_directory_left:
  "helper_directory env package source_root s dir = Inr t \<Longrightarrow> scan_left t \<le> scan_left s"
  unfolding helper_directory_def
  by (auto elim!: foldE_invariant [where P = "\<lambda>u. scan_left u \<le> scan_left s"] dest: helper_entry_left)

function helper_walk :: "helper_env \<Rightarrow> path \<Rightarrow> path \<Rightarrow> helper_scan \<Rightarrow> exn + helper_scan" where
  "helper_walk env package source_root s =
     (case open_dirs s of
        [] \<Rightarrow> Inr s
      | dir # rest \<Rightarrow> (case helper_directory env package source_root (s\<lparr>open_dirs := rest\<rparr>) dir of
            Inl e \<Rightarrow> Inl e
          | Inr t \<Rightarrow> helper_walk env package source_root t))"
  by pat_completeness auto
termination
  by (relation "measure (\<lambda>(env, package, source_root, s). scan_left s)")
     (auto dest!: helper_directory_left simp: scan_left_def)

declare helper_walk.simps [simp del]

definition declared_paths :: "path \<Rightarrow> pyval \<Rightarrow> exn + string list" where
  "declared_paths target_path v =
     (case v of
        PList (x # xs) \<Rightarrow>
          if \<not> list_all is_str (x # xs) then value_error
          else traverse (\<lambda>w. rbind (helper_relative w) (\<lambda>q. Inr (posix_text (target_path @ q)))) (x # xs)
      | _ \<Rightarrow> value_error)"

definition helper_sources :: "helper_env \<Rightarrow> path \<Rightarrow> pyval \<Rightarrow> pyval \<Rightarrow> exn + helper_file list" where
  "helper_sources env package target_path declared =
     rbind (helper_relative target_path) (\<lambda>relative.
       let root = package @ relative in
       if \<not> is_dir (files_of env) root \<or> linked (files_of env) root then value_error
       else rbind (inside_package env package root) (\<lambda>inside.
         if \<not> inside then value_error
         else rbind (helper_walk env package root \<lparr>found = [], open_dirs = [root], total_bytes = 0, seen_entries = 0\<rparr>) (\<lambda>s.
           if found s = [] then value_error
           else rbind (if declared = PNone then Inr ()
             else rbind (declared_paths relative declared) (\<lambda>ps.
               require (distinct ps \<and> set ps = set (map f_path (found s))))) (\<lambda>_.
             Inr (sort_key f_path (found s))))))"

section \<open>The description of a helper target\<close>

text \<open>\<open>set(d) - allowed\<close> is empty, \<open>set(d) == keys\<close>.\<close>

definition only_keys :: "string list \<Rightarrow> pydict \<Rightarrow> bool" where
  "only_keys allowed d \<longleftrightarrow> list_all (\<lambda>(k, _). k \<in> set allowed) d"

definition exact_keys :: "string list \<Rightarrow> pydict \<Rightarrow> bool" where
  "exact_keys ks d \<longleftrightarrow> only_keys ks d \<and> list_all (has_key d) ks"

definition linked_kinds :: "string list" where
  "linked_kinds = [''linkedLibrary'', ''linkedFramework'']"

definition linker_setting :: "pyval \<Rightarrow> exn + pyval" where
  "linker_setting item =
     (case item of
        PDict d \<Rightarrow>
          (case dict_get d ''kind'' of
             PDict [(kind, PDict v)] \<Rightarrow>
               if \<not> only_keys [''tool'', ''kind'', ''condition''] d \<or> dict_get d ''tool'' \<noteq> PStr ''linker''
                 \<or> dict_get d ''condition'' \<noteq> PNone \<or> kind \<notin> set linked_kinds \<or> \<not> exact_keys [''_0''] v
               then value_error
               else rbind (label (dict_get v ''_0'')) (\<lambda>l. Inr (PDict [(''kind'', PStr kind), (''value'', PStr l)]))
           | _ \<Rightarrow> value_error)
      | _ \<Rightarrow> value_error)"

definition linker_settings :: "pyval \<Rightarrow> exn + pyval list" where
  "linker_settings settings =
     (case settings of
        PList items \<Rightarrow> if 16 < length items then value_error else traverse linker_setting items
      | _ \<Rightarrow> value_error)"

definition target_keys :: "string list" where
  "target_keys = [''name'', ''type'', ''path'', ''sources'', ''exclude'', ''resources'', ''dependencies'', ''settings'',
     ''publicHeadersPath'', ''pluginUsages'', ''packageAccess'']"

definition empty_lists :: "string list" where
  "empty_lists = [''exclude'', ''resources'', ''pluginUsages'']"

definition is_bool :: "pyval \<Rightarrow> bool" where
  "is_bool v \<longleftrightarrow> (case v of PBool b \<Rightarrow> True | _ \<Rightarrow> False)"

definition target_inputs :: "pydict \<Rightarrow> exn + pyval \<times> pyval \<times> pyval list" where
  "target_inputs target =
     (if \<not> only_keys target_keys target then value_error
      else rbind (dict_item target ''type'') (\<lambda>type.
        if type \<noteq> PStr ''regular'' \<or> dict_get_default target ''dependencies'' (PList []) \<noteq> PList []
          \<or> list_ex (\<lambda>k. dict_get_default target k (PList []) \<noteq> PList []) empty_lists
          \<or> dict_get target ''publicHeadersPath'' \<noteq> PNone
          \<or> has_key target ''packageAccess'' \<and> \<not> is_bool (dict_get target ''packageAccess'')
        then value_error
        else rbind (if dict_get target ''path'' = PNone
            then rbind (dict_item target ''name'') (\<lambda>name. rbind (label name) (\<lambda>l. Inr (PStr (''Sources/'' @ l))))
            else Inr (dict_get target ''path'')) (\<lambda>target_path.
          rbind (linker_settings (dict_get_default target ''settings'' (PList []))) (\<lambda>settings.
            Inr (target_path, dict_get target ''sources'', settings)))))"

definition MANIFEST_STDOUT_LIMIT :: nat where
  "MANIFEST_STDOUT_LIMIT = 2 * 1024 * 1024"

definition manifest_sha :: "helper_env \<Rightarrow> path \<Rightarrow> exn + string" where
  "manifest_sha env package =
     (let manifest = package @ [''Package.swift''] in
      if \<not> is_file (files_of env) manifest \<or> linked (files_of env) manifest then value_error
      else rbind (inside_package env package manifest) (\<lambda>inside.
        if \<not> inside then value_error
        else rbind (content (files_of env) manifest) (\<lambda>data.
          if MANIFEST_STDOUT_LIMIT < length data then value_error else Inr (digest env data))))"

end
