(* ===== verification/Macos_Inventory.thy ===== *)
theory Macos_Inventory
  imports Link_Helper Mach_O
begin

text \<open>
  Loading the dependency inventory of a macOS build, from \<open>tool/sentry_macos_inventory.py\<close>: the runtime images of
  the application, the validation of a link helper and of the inventory with its receipt, the diagnostic state it
  leaves, and the selection of the libraries of an XCFramework. JSON and property lists are read by parameters.
  The diagnostic is the state of the commands; which check failed is what it holds when an exception leaves.
\<close>

section \<open>Values\<close>

text \<open>\<open>v[key]\<close> for a text key.\<close>

definition subscript :: "pyval \<Rightarrow> string \<Rightarrow> exn + pyval" where
  "subscript v key = (case v of PDict d \<Rightarrow> dict_item d key | _ \<Rightarrow> raise TypeError ''subscript'')"

text \<open>What may be a member of a set.\<close>

primrec hashable :: "pyval \<Rightarrow> bool" where
  "hashable PNone = True"
| "hashable (PBool b) = True"
| "hashable (PInt i) = True"
| "hashable (PFloat f) = True"
| "hashable (PStr s) = True"
| "hashable (PList xs) = False"
| "hashable (PDict d) = False"

definition set_of :: "pyval list \<Rightarrow> exn + pyval list" where
  "set_of vs = (if list_all hashable vs then Inr vs else raise TypeError ''unhashable'')"

definition py_member :: "pyval \<Rightarrow> pyval list \<Rightarrow> bool" where
  "py_member v vs \<longleftrightarrow> list_ex (py_eq v) vs"

definition subset_of :: "pyval list \<Rightarrow> pyval list \<Rightarrow> bool" where
  "subset_of xs ys \<longleftrightarrow> list_all (\<lambda>x. py_member x ys) xs"

fun no_repeats :: "pyval list \<Rightarrow> bool" where
  "no_repeats [] = True"
| "no_repeats (v # vs) = (\<not> py_member v vs \<and> no_repeats vs)"

definition as_list :: "pyval \<Rightarrow> pyval list option" where
  "as_list v = (case v of PList xs \<Rightarrow> Some xs | _ \<Rightarrow> None)"

lemma as_list_Some [simp]: "as_list v = Some xs \<longleftrightarrow> v = PList xs"
  by (cases v) (auto simp: as_list_def)

section \<open>The environment\<close>

record inventory_env = helper_env +
  json_of :: "bytes \<Rightarrow> exn + pyval"
  plist_of :: "bytes \<Rightarrow> exn + pyval"
  walk_depth :: nat

definition INVENTORY :: path where
  "INVENTORY = [''macos'', ''sentry-native-inventory.json'']"

definition RECEIPT :: path where
  "RECEIPT = [''macos'', ''sentry-native-build.json'']"

section \<open>Runtime images\<close>

definition bad_executable :: "string \<Rightarrow> bool" where
  "bad_executable s \<longleftrightarrow> s = [] \<or> 200 < length s \<or> s \<in> set [''.'', ''..'']
     \<or> CHR ''/'' \<in> set s \<or> char_of (92 :: nat) \<in> set s \<or> char_of (0 :: nat) \<in> set s"

definition app_executable :: "inventory_env \<Rightarrow> path \<Rightarrow> exn + string" where
  "app_executable env app =
     rbind (content (files_of env) (app @ [''Contents'', ''Info.plist''])) (\<lambda>data.
     rbind (plist_of env data) (\<lambda>info.
     rbind (subscript info ''CFBundleExecutable'') (\<lambda>v.
       case text_of v of
         None \<Rightarrow> raise InventoryError ''invalid_macos_executable_metadata''
       | Some s \<Rightarrow> if bad_executable s then raise InventoryError ''invalid_macos_executable_metadata'' else Inr s)))"

record runtime_row =
  rt_target :: string
  rt_product :: string
  rt_binary :: string
  rt_variants :: "(string \<times> string) list"

record runtime_scan =
  rt_seen :: "path list"
  rt_rows :: "runtime_row list"

definition bad_image :: "variant \<Rightarrow> bool" where
  "bad_image v \<longleftrightarrow> architecture v \<notin> set [''x86_64'', ''arm64''] \<or> uuid v = [] \<or> filetype v \<notin> {2, 6, 8}"

definition framework_part :: "path \<Rightarrow> string option" where
  "framework_part parts = (case filter (ends_with ''.framework'') parts of [] \<Rightarrow> None | p # _ \<Rightarrow> Some p)"

text \<open>The image at the path \<open>actual\<close>, which was not seen before.\<close>

definition runtime_image ::
    "inventory_env \<Rightarrow> path \<Rightarrow> path \<Rightarrow> path \<Rightarrow> path \<Rightarrow> bytes \<Rightarrow> runtime_scan \<Rightarrow> exn + runtime_scan" where
  "runtime_image env root app runner actual data s =
     (if \<not> is_relative_to actual app \<or> \<not> is_relative_to actual root
      then raise InventoryError ''macos_dependency_runtime_escaped_bundle''
      else rbind (if actual = runner then Inr ''runner'' else label (PStr (path_name actual))) (\<lambda>target.
        if target \<in> set (map rt_target (rt_rows s)) then raise InventoryError ''duplicate_macos_dependency_runtime''
        else rbind (inspect_macho data) (\<lambda>(variants, _).
          if list_ex bad_image variants then raise InventoryError ''invalid_macos_dependency_runtime''
          else Inr \<lparr>rt_seen = actual # rt_seen s, rt_rows = rt_rows s
            @ [\<lparr>rt_target = target,
                rt_product = (case framework_part (drop (length app) actual) of Some f \<Rightarrow> f | None \<Rightarrow> target),
                rt_binary = relative_text actual root,
                rt_variants = sort_key fst (map (\<lambda>v. (architecture v, uuid v)) variants)\<rparr>]\<rparr>)))"

definition runtime_file :: "inventory_env \<Rightarrow> path \<Rightarrow> path \<Rightarrow> path \<Rightarrow> runtime_scan \<Rightarrow> path \<Rightarrow> exn + runtime_scan" where
  "runtime_file env root app runner s p =
     (if \<not> is_file (files_of env) p then Inr s
      else rbind (resolve (files_of env) p) (\<lambda>actual.
        if actual \<in> set (rt_seen s) then Inr s
        else rbind (content (files_of env) p) (\<lambda>data.
          if \<not> is_macho data then Inr s else runtime_image env root app runner actual data s)))"

definition runtime_modules :: "inventory_env \<Rightarrow> path \<Rightarrow> path \<Rightarrow> exn + runtime_row list" where
  "runtime_modules env build_root app =
     rbind (resolve (files_of env) build_root) (\<lambda>root.
     rbind (resolve (files_of env) app) (\<lambda>app.
     rbind (app_executable env app) (\<lambda>executable.
     rbind (resolve (files_of env) (app @ [''Contents'', ''MacOS'', executable])) (\<lambda>runner.
     rbind (walk_below (walk_depth env) (files_of env) app) (\<lambda>ps.
     rbind (foldE (runtime_file env root app runner) \<lparr>rt_seen = [], rt_rows = []\<rparr> (sort ps)) (\<lambda>s.
       if ''runner'' \<notin> set (map rt_target (rt_rows s)) then raise InventoryError ''macos_dependency_runner_missing''
       else Inr (sort_key rt_target (rt_rows s))))))))"

definition row_value :: "runtime_row \<Rightarrow> pyval" where
  "row_value r = PDict [(''target'', PStr (rt_target r)), (''product'', PStr (rt_product r)), (''binary'', PStr (rt_binary r)),
     (''variants'', PList (map (\<lambda>(a, u). PDict [(''architecture'', PStr a), (''uuid'', PStr u)]) (rt_variants r)))]"

section \<open>Validation of a link helper\<close>

type_synonym 'a checked = "(pydict, 'a) cmd"

definition mark :: "string \<Rightarrow> unit checked" where
  "mark check = updating (\<lambda>d. dict_set d ''inventory_check'' (PStr check))"

definition bad :: "'a checked" where
  "bad = throw ValueError []"

definition check :: "bool \<Rightarrow> unit checked" where
  "check ok = (if ok then ret () else bad)"

definition LINKER_ONLY_LIMITATION :: string where
  "LINKER_ONLY_LIMITATION = ''comments_only_binary_link_helper_no_target_lines''"

definition proof_keys :: "string list" where
  "proof_keys = [''schema_version'', ''reason'', ''package_path'', ''manifest_sha256'', ''target_path'', ''declared_sources'',
     ''sources'', ''linker_settings'', ''product'', ''product_targets'', ''binary_targets'']"

definition is_int :: "pyval \<Rightarrow> bool" where
  "is_int v \<longleftrightarrow> (case v of PInt i \<Rightarrow> True | _ \<Rightarrow> False)"

definition source_claim_ok :: "pyval \<Rightarrow> bool" where
  "source_claim_ok v \<longleftrightarrow>
     (case v of PDict d \<Rightarrow> exact_keys [''path'', ''language'', ''bytes'', ''sha256''] d \<and> is_int (dict_get d ''bytes'') | _ \<Rightarrow> False)"

definition file_value :: "helper_file \<Rightarrow> pyval" where
  "file_value f = PDict [(''path'', PStr (f_path f)), (''language'', PStr (f_language f)),
     (''bytes'', PInt (int (f_bytes f))), (''sha256'', PStr (f_sha256 f))]"

text \<open>The pairs a receipt may bind: package, target and host of every binary target.\<close>

definition binary_bindings :: "pyval \<Rightarrow> exn + (pyval \<times> pyval \<times> pyval) list" where
  "binary_bindings b =
     rbind (subscript b ''package'') (\<lambda>package.
     rbind (subscript b ''target'') (\<lambda>target.
     rbind (subscript b ''hosts'') (\<lambda>hosts.
     rbind (iterate hosts) (\<lambda>hs.
     rbind (set_of (if hs = [] then [] else package # target # hs)) (\<lambda>_.
       Inr (map (\<lambda>h. (package, target, h)) hs))))))"

definition setting_claim :: "pyval \<Rightarrow> exn + unit" where
  "setting_claim v =
     (case v of
        PDict d \<Rightarrow>
          if \<not> exact_keys [''kind'', ''value''] d then value_error
          else rbind (member_of (dict_get d ''kind'') linked_kinds) (\<lambda>known.
            if \<not> known then value_error else rbind (label (dict_get d ''value'')) (\<lambda>_. Inr ()))
      | _ \<Rightarrow> value_error)"

type_synonym binding = "string \<times> string \<times> string"

definition helper_reference ::
    "pydict \<Rightarrow> pyval list \<Rightarrow> pyval list \<Rightarrow> (pyval \<times> pyval \<times> pyval) list \<Rightarrow> binding list \<Rightarrow> pyval \<Rightarrow> exn + binding list" where
  "helper_reference item targets hosts expected actual v =
     (case v of
        PDict d \<Rightarrow>
          if \<not> exact_keys [''package'', ''target'', ''host''] d then value_error
          else rbind (label (dict_get d ''package'')) (\<lambda>package.
            rbind (label (dict_get d ''target'')) (\<lambda>target.
            rbind (label (dict_get d ''host'')) (\<lambda>host.
              if (package, target, host) \<in> set actual \<or> (PStr package, PStr target, PStr host) \<notin> set expected
              then value_error
              else rbind (dict_item item ''package'') (\<lambda>own.
                if own \<noteq> PStr package \<or> PStr target \<notin> set targets \<or> PStr host \<notin> set hosts
                then value_error else Inr (actual @ [(package, target, host)])))))
      | _ \<Rightarrow> value_error)"

definition proof_shape :: "pyval \<Rightarrow> exn + pydict" where
  "proof_shape v =
     (case v of
        PDict d \<Rightarrow> if \<not> exact_keys proof_keys d \<or> dict_get d ''schema_version'' \<noteq> PInt 1
            \<or> dict_get d ''reason'' \<noteq> PStr LINKER_ONLY_LIMITATION
          then value_error else Inr d
      | _ \<Rightarrow> value_error)"

definition bounded_list :: "nat \<Rightarrow> pyval \<Rightarrow> exn + pyval list" where
  "bounded_list limit v =
     (case as_list v of Some xs \<Rightarrow> if xs = [] \<or> limit < length xs then value_error else Inr xs | None \<Rightarrow> value_error)"

text \<open>The bindings of a proof to its product, targets, settings and binary targets.\<close>

definition helper_bindings :: "pydict \<Rightarrow> pydict \<Rightarrow> pyval list \<Rightarrow> exn + unit" where
  "helper_bindings item claim binaries =
     rbind (label (dict_get claim ''product'')) (\<lambda>_.
     rbind (bounded_list 64 (dict_get claim ''product_targets'')) (\<lambda>targets.
     rbind (traverse label targets) (\<lambda>names.
     rbind (require (distinct names)) (\<lambda>_.
     rbind (dict_item item ''target'') (\<lambda>target.
     rbind (require (target \<in> set targets)) (\<lambda>_.
     rbind (case as_list (dict_get claim ''linker_settings'') of
         Some settings \<Rightarrow> if 16 < length settings then value_error else foldE (\<lambda>_. setting_claim) () settings
       | None \<Rightarrow> value_error) (\<lambda>_.
     rbind (bounded_list 64 (dict_get claim ''binary_targets'')) (\<lambda>references.
     rbind (traverse binary_bindings binaries) (\<lambda>expected.
     rbind (dict_item item ''hosts'') (\<lambda>hosts.
     rbind (iterate hosts) (\<lambda>hs.
     rbind (foldE (helper_reference item targets hs (concat expected)) [] references) (\<lambda>actual.
       require (set hs = set (map (\<lambda>(_, _, h). PStr h) actual))))))))))))))"

definition validate_link_helper :: "inventory_env \<Rightarrow> path \<Rightarrow> pyval list \<Rightarrow> pydict \<Rightarrow> unit checked" where
  "validate_link_helper env project binaries item =
     seq (mark ''link_helper_schema'') (\<lambda>_.
     seq (lift_result (rbind (dict_item item ''linker_only'') proof_shape)) (\<lambda>claim.
     seq (lift_result (helper_relative (dict_get claim ''package_path''))) (\<lambda>relative.
     seq (lift_result (bounded_list MAX_LINK_HELPER_FILES (dict_get claim ''sources''))) (\<lambda>sources.
     seq (check (list_all source_claim_ok sources)) (\<lambda>_.
     seq (mark ''link_helper_manifest'') (\<lambda>_.
     seq (lift_result (manifest_sha (helper_env.truncate env) (abspath (project @ relative)))) (\<lambda>sha.
     seq (check (dict_get claim ''manifest_sha256'' = PStr sha)) (\<lambda>_.
     seq (mark ''link_helper_sources'') (\<lambda>_.
     seq (lift_result (helper_sources (helper_env.truncate env) (abspath (project @ relative))
         (dict_get claim ''target_path'') (dict_get claim ''declared_sources''))) (\<lambda>actual.
     seq (check (py_eq (PList (map file_value actual)) (PList sources))) (\<lambda>_.
     seq (mark ''link_helper_bindings'') (\<lambda>_.
       lift_result (helper_bindings item claim binaries)))))))))))))"

section \<open>The inventory and its receipt\<close>

definition inside_root :: "inventory_env \<Rightarrow> path \<Rightarrow> path \<Rightarrow> exn + bool" where
  "inside_root env root p =
     (if linked (files_of env) p then Inr False
      else rbind (resolve (files_of env) p) (\<lambda>q. Inr (is_relative_to q root)))"

definition both_inside :: "inventory_env \<Rightarrow> path \<Rightarrow> exn + unit" where
  "both_inside env root =
     foldE (\<lambda>_ p. rbind (inside_root env root p) (\<lambda>inside. if inside then Inr () else value_error)) () [root @ INVENTORY, root @ RECEIPT]"

definition allowed_managers :: "string list list" where
  "allowed_managers = [[''pods''], [''spm''], [''pods'', ''spm'']]"

definition text_list :: "string list \<Rightarrow> pyval" where
  "text_list xs = PList (map PStr xs)"

text \<open>\<open>managers in ([...], ...)\<close> and equality with the receipt; the answer is the list of names.\<close>

definition agreed_managers :: "pyval \<Rightarrow> pyval \<Rightarrow> exn + string list" where
  "agreed_managers claimed received =
     (case filter (\<lambda>ms. text_list ms = claimed) allowed_managers of
        [] \<Rightarrow> value_error
      | ms # _ \<Rightarrow> if received = claimed then Inr ms else value_error)"

definition app_identity :: "inventory_env \<Rightarrow> path \<Rightarrow> path \<Rightarrow> exn + string" where
  "app_identity env root app =
     rbind (resolve (files_of env) app) (\<lambda>a. if is_relative_to a root then Inr (relative_text a root) else value_error)"

definition length_of :: "pyval \<Rightarrow> exn + nat" where
  "length_of v = (case v of
      PList xs \<Rightarrow> Inr (length xs) | PDict d \<Rightarrow> Inr (length d) | PStr s \<Rightarrow> Inr (length s) | _ \<Rightarrow> raise TypeError ''len'')"

text \<open>\<open>{row["target"]: row for row in rows}\<close>, and how it differs from another.\<close>

definition target_table :: "pyval list \<Rightarrow> exn + (pyval \<times> pyval) list" where
  "target_table rows =
     foldE (\<lambda>t row. rbind (subscript row ''target'') (\<lambda>k.
       if hashable k then Inr ((k, row) # filter (\<lambda>(k', _). \<not> py_eq k' k) t) else raise TypeError ''unhashable'')) [] rows"

definition missing_keys :: "(pyval \<times> pyval) list \<Rightarrow> (pyval \<times> pyval) list \<Rightarrow> int" where
  "missing_keys a b = int (length (filter (\<lambda>(k, _). \<not> py_member k (map fst b)) a))"

definition changed_keys :: "(pyval \<times> pyval) list \<Rightarrow> (pyval \<times> pyval) list \<Rightarrow> int" where
  "changed_keys a b = int (length (filter (\<lambda>(k, v). list_ex (\<lambda>(k', v'). py_eq k k' \<and> \<not> py_eq v v') b) a))"

definition compare_runtime :: "pyval \<Rightarrow> runtime_row list \<Rightarrow> unit checked" where
  "compare_runtime expected actual =
     seq (lift_result (length_of expected)) (\<lambda>n.
     seq (updating (\<lambda>d. dict_update d [(''expected_runtime_count'', PInt (int n)),
       (''actual_runtime_count'', PInt (int (length actual)))])) (\<lambda>_.
       if py_eq expected (PList (map row_value actual)) then ret ()
       else seq (lift_result (rbind (iterate expected) target_table)) (\<lambda>old.
         seq (lift_result (target_table (map row_value actual))) (\<lambda>new.
         seq (updating (\<lambda>d. dict_update d [(''added_modules'', PInt (missing_keys new old)),
           (''removed_modules'', PInt (missing_keys old new)), (''changed_modules'', PInt (changed_keys old new))])) (\<lambda>_. bad)))))"

text \<open>\<open>for index, item in enumerate(items)\<close> with the index noted.\<close>

primrec each_record :: "nat \<Rightarrow> ('s \<Rightarrow> pyval \<Rightarrow> exn + 's) \<Rightarrow> 's \<Rightarrow> pyval list \<Rightarrow> 's checked" where
  "each_record i f s [] = ret s"
| "each_record i f s (v # vs) =
     seq (updating (\<lambda>d. dict_set d ''record_index'' (PInt (int i)))) (\<lambda>_.
     seq (lift_result (f s v)) (\<lambda>t. each_record (Suc i) f t vs))"

text \<open>The images by product: of two with the same product the later counts.\<close>

definition product_targets :: "runtime_row list \<Rightarrow> (string \<times> string) list" where
  "product_targets rows = rev (map (\<lambda>r. (rt_product r, rt_target r)) rows)"

definition check_product :: "string list \<Rightarrow> runtime_row list \<Rightarrow> string list \<Rightarrow> pyval \<Rightarrow> exn + string list" where
  "check_product managers rows seen item =
     rbind (subscript item ''product'') (\<lambda>p. rbind (label p) (\<lambda>product.
     rbind (subscript item ''target'') (\<lambda>t. rbind (label t) (\<lambda>target.
     rbind (subscript item ''source'') (\<lambda>source.
       if product \<in> set seen \<or> source \<notin> set (map PStr managers) \<or> map_of (product_targets rows) product \<noteq> Some target
       then value_error else Inr (product # seen))))))"

definition target_names :: "runtime_row list \<Rightarrow> pyval list" where
  "target_names rows = map (\<lambda>r. PStr (rt_target r)) rows"

definition check_hosts ::
    "string list \<Rightarrow> runtime_row list \<Rightarrow> (string \<times> string) list \<Rightarrow> pyval \<Rightarrow> exn + (string \<times> string) list" where
  "check_hosts managers rows seen item =
     rbind (subscript item ''package'') (\<lambda>p. rbind (label p) (\<lambda>package.
     rbind (subscript item ''target'') (\<lambda>t. rbind (label t) (\<lambda>target.
     rbind (subscript item ''hosts'') (\<lambda>hosts.
       if ''spm'' \<notin> set managers \<or> (package, target) \<in> set seen then value_error
       else case as_list hosts of
           None \<Rightarrow> value_error
         | Some hs \<Rightarrow> if hs = [] then value_error
             else rbind (set_of hs) (\<lambda>_.
               if no_repeats hs \<and> subset_of hs (target_names rows) then Inr ((package, target) # seen) else value_error))))))"

definition check_dynamic :: "unit \<Rightarrow> pyval \<Rightarrow> exn + unit" where
  "check_dynamic u item =
     rbind (subscript item ''dynamic_hosts'') (\<lambda>dynamic.
       case as_list dynamic of
         None \<Rightarrow> value_error
       | Some ds \<Rightarrow> rbind (set_of ds) (\<lambda>_. rbind (subscript item ''hosts'') (\<lambda>hosts.
           rbind (iterate hosts) (\<lambda>hs. require (subset_of ds hs)))))"

text \<open>A source target with the mark of a verified link helper.\<close>

type_synonym source_target = "pyval \<times> bool"

primrec check_sources :: "inventory_env \<Rightarrow> path \<Rightarrow> pyval list \<Rightarrow> nat \<Rightarrow> pyval list \<Rightarrow> source_target list checked" where
  "check_sources env project binaries i [] = ret []"
| "check_sources env project binaries i (v # vs) =
     seq (updating (\<lambda>d. dict_set d ''record_index'' (PInt (int i)))) (\<lambda>_.
     seq (if has_key (items_of v) ''linker_only''
          then seq (validate_link_helper env project binaries (items_of v)) (\<lambda>_. ret True) else ret False) (\<lambda>helper.
     seq (check_sources env project binaries (Suc i) vs) (\<lambda>rest. ret ((v, helper) # rest))))"

definition own_targets :: "string list" where
  "own_targets = [''runner'', ''rust_api'', ''librust_api.dylib'', ''rust_api.dylib'', ''FlClashCore'']"

definition check_owner :: "pyval list \<Rightarrow> bool \<Rightarrow> pyval \<Rightarrow> exn + unit" where
  "check_owner owned verified item =
     (if verified then Inr ()
      else rbind (subscript item ''hosts'') (\<lambda>hosts. rbind (iterate hosts) (\<lambda>hs. rbind (set_of hs) (\<lambda>_. require (subset_of hs owned)))))"

primrec check_owners :: "pyval list \<Rightarrow> nat \<Rightarrow> source_target list \<Rightarrow> unit checked" where
  "check_owners owned i [] = ret ()"
| "check_owners owned i (s # ss) =
     seq (updating (\<lambda>d. dict_set d ''record_index'' (PInt (int i)))) (\<lambda>_.
     seq (lift_result (check_owner owned (snd s) (fst s))) (\<lambda>_. check_owners owned (Suc i) ss))"

record loaded =
  l_managers :: "string list"
  l_products :: "pyval list"
  l_sources :: "source_target list"
  l_binaries :: "pyval list"
  l_runtime :: "runtime_row list"

text \<open>The three lists of records, read before any is checked to be a list.\<close>

definition record_lists :: "pyval \<Rightarrow> exn + pyval list \<times> pyval list \<times> pyval list" where
  "record_lists v =
     rbind (subscript v ''products'') (\<lambda>p. rbind (subscript v ''source_targets'') (\<lambda>s. rbind (subscript v ''binary_targets'') (\<lambda>b.
       case (as_list p, as_list s, as_list b) of (Some ps, Some ss, Some bs) \<Rightarrow> Inr (ps, ss, bs) | _ \<Rightarrow> value_error)))"

text \<open>The records of an inventory whose receipt is in order.\<close>

definition load_records :: "inventory_env \<Rightarrow> path \<Rightarrow> pyval \<Rightarrow> string list \<Rightarrow> runtime_row list \<Rightarrow> loaded checked" where
  "load_records env root v managers rows =
     seq (mark ''record_lists'') (\<lambda>_.
     seq (lift_result (record_lists v)) (\<lambda>(products, sources, binaries).
     seq (mark ''products'') (\<lambda>_.
     seq (each_record 0 (check_product managers rows) [] products) (\<lambda>_.
     seq (mark ''target_hosts'') (\<lambda>_.
     seq (each_record 0 (check_hosts managers rows) [] (sources @ binaries)) (\<lambda>_.
     seq (mark ''binary_hosts'') (\<lambda>_.
     seq (each_record 0 check_dynamic () binaries) (\<lambda>_.
     seq (mark ''spm_graph'') (\<lambda>_.
     seq (check (\<not> (''spm'' \<in> set managers \<and> sources = [] \<and> binaries = []))) (\<lambda>_.
     seq (check_sources env (butlast root) binaries 0 sources) (\<lambda>checked.
     seq (mark ''source_ownership'') (\<lambda>_.
     seq (lift_result (traverse (\<lambda>item. subscript item ''target'') products)) (\<lambda>targets.
     seq (check_owners (targets @ map PStr own_targets) 0 checked) (\<lambda>_.
       ret \<lparr>l_managers = managers, l_products = products, l_sources = checked, l_binaries = binaries, l_runtime = rows\<rparr>))))))))))))))"

definition same_value :: "pyval \<Rightarrow> string \<Rightarrow> pyval \<Rightarrow> exn + unit" where
  "same_value v key w = rbind (subscript v key) (\<lambda>u. require (py_eq u w))"

definition load_body :: "inventory_env \<Rightarrow> path \<Rightarrow> path \<Rightarrow> string \<Rightarrow> loaded checked" where
  "load_body env root app configuration =
     seq (lift_result (both_inside env root)) (\<lambda>_.
     seq (mark ''inventory_read'') (\<lambda>_.
     seq (lift_result (content (files_of env) (root @ INVENTORY))) (\<lambda>raw.
     seq (lift_result (json_of env raw)) (\<lambda>v.
     seq (mark ''receipt_read'') (\<lambda>_.
     seq (lift_result (rbind (content (files_of env) (root @ RECEIPT)) (json_of env))) (\<lambda>receipt.
     seq (mark ''schema'') (\<lambda>_.
     seq (lift_result (same_value v ''schema_version'' (PInt 2))) (\<lambda>_.
     seq (lift_result (same_value receipt ''schema_version'' (PInt 1))) (\<lambda>_.
     seq (mark ''managers'') (\<lambda>_.
     seq (lift_result (rbind (subscript v ''dependency_managers'') (\<lambda>a.
         rbind (subscript receipt ''dependency_managers'') (agreed_managers a)))) (\<lambda>managers.
     seq (mark ''configuration'') (\<lambda>_.
     seq (lift_result (same_value receipt ''configuration'' (PStr configuration))) (\<lambda>_.
     seq (mark ''inventory_digest'') (\<lambda>_.
     seq (lift_result (same_value receipt ''inventory_sha256'' (PStr (digest env raw)))) (\<lambda>_.
     seq (mark ''app_identity'') (\<lambda>_.
     seq (lift_result (rbind (subscript receipt ''app'') (\<lambda>a. rbind (app_identity env root app) (\<lambda>b. require (a = PStr b))))) (\<lambda>_.
     seq (mark ''runtime_read'') (\<lambda>_.
     seq (lift_result (runtime_modules env root app)) (\<lambda>rows.
     seq (mark ''runtime_match'') (\<lambda>_.
     seq (lift_result (subscript receipt ''runtime'')) (\<lambda>expected.
     seq (compare_runtime expected rows) (\<lambda>_.
       load_records env root v managers rows))))))))))))))))))))))"

section \<open>The diagnostic\<close>

definition VALIDATION_REPORT :: path where
  "VALIDATION_REPORT = [''macos'', ''sentry-inventory-validation.json'']"

text \<open>The destination of the report is checked before every write.\<close>

definition report_place :: "inventory_env \<Rightarrow> path \<Rightarrow> exn + unit" where
  "report_place env root =
     rbind (inside_root env root (root @ VALIDATION_REPORT)) (\<lambda>inside.
       if inside then Inr () else raise InventoryError ''unsafe_macos_inventory_validation_destination'')"

text \<open>The message of an \<open>OSError\<close> is the name of its class.\<close>

definition exception_kind :: "exn \<Rightarrow> string" where
  "exception_kind e =
     (if exn_class_of e = OSError
      then (if exn_message e = ''FileNotFoundError'' then ''file_not_found''
        else if exn_message e = ''PermissionError'' then ''permission'' else ''os_error'')
      else if exn_class_of e = TypeError then ''type_error'' else ''value_error'')"

definition expected_failure :: "exn_class \<Rightarrow> bool" where
  "expected_failure c \<longleftrightarrow> c = InventoryError \<or> c = OSError \<or> c = ValueError \<or> c = UnicodeError \<or> c = JSONDecodeError
     \<or> c = TypeError \<or> c = KeyError \<or> c = MachoError"

definition first_state :: pydict where
  "first_state = [(''schema_version'', PInt 1), (''status'', PStr ''running''), (''inventory_check'', PStr ''paths'')]"

definition completed :: "pydict \<Rightarrow> pydict" where
  "completed d = dict_update (dict_pop d ''record_index'') [(''status'', PStr ''complete''), (''inventory_check'', PStr ''complete'')]"

definition failed :: "pydict \<Rightarrow> exn \<Rightarrow> pydict" where
  "failed d e = dict_update d [(''status'', PStr ''failed''), (''exception_kind'', PStr (exception_kind e))]"

definition mismatched :: exn where
  "mismatched = Exn InventoryError ''macos_dependency_inventory_missing_or_mismatched''"

text \<open>The result and the reports written, the last one first.\<close>

definition load_inventory :: "inventory_env \<Rightarrow> path \<Rightarrow> path \<Rightarrow> string \<Rightarrow> (exn + loaded) \<times> pydict list" where
  "load_inventory env build_root app configuration =
     (case rbind (resolve (files_of env) build_root) (\<lambda>root. rbind (report_place env root) (\<lambda>_. Inr root)) of
        Inl e \<Rightarrow> (Inl e, [])
      | Inr root \<Rightarrow>
          (case load_body env root app configuration first_state of
             (r, d) \<Rightarrow>
               (let (result, last_state) = (case r of
                      Inr v \<Rightarrow> (Inr v, completed d)
                    | Inl e \<Rightarrow> if expected_failure (exn_class_of e) then (Inl mismatched, failed d e) else (Inl e, d)) in
                case report_place env root of
                  Inl e \<Rightarrow> (Inl e, [first_state])
                | Inr u \<Rightarrow> (result, [last_state, first_state]))))"

section \<open>What a loaded inventory rests on\<close>

lemma basic_Inr:
  "lift_result m s = (Inr x, t) \<longleftrightarrow> m = Inr x \<and> t = s"
  "check ok s = (Inr u, t) \<longleftrightarrow> ok \<and> t = s"
  "mark c s = (Inr u, t) \<longleftrightarrow> t = dict_set s ''inventory_check'' (PStr c)"
  "ret x s = (Inr y, t) \<longleftrightarrow> y = x \<and> t = s"
  "updating g s = (Inr u, t) \<longleftrightarrow> t = g s"
  by (auto simp: lift_result_def check_def bad_def throw_def ret_def mark_def updating_def)

text \<open>A file of a verified link helper: read from the package and nothing but comments.\<close>

definition comment_file :: "helper_env \<Rightarrow> path \<Rightarrow> helper_file \<Rightarrow> bool" where
  "comment_file env package f \<longleftrightarrow> (\<exists>p data. content (files_of env) p = Inr data \<and> f_path f = relative_text p package
     \<and> f_bytes f = length data \<and> f_sha256 f = digest env data \<and> f_language f \<in> {''swift'', ''c'', ''c++''}
     \<and> comment_text (f_language f = ''swift'') data)"

lemma comments_source_text:
  "comments_only_source data language \<Longrightarrow> language \<in> {''swift'', ''c'', ''c++''} \<and> comment_text (language = ''swift'') data"
  by (simp add: comments_only_source_def comments_only_iff)

lemma helper_source_files:
  assumes "helper_source env package p s = Inr t" and "\<forall>f\<in>set (found s). comment_file env package f"
  shows "\<forall>f\<in>set (found t). comment_file env package f"
proof -
  from assms(1) obtain language data where data: "content (files_of env) p = Inr data" "comments_only_source data language"
      and t: "found t = found s @ [\<lparr>f_path = relative_text p package, f_language = language, f_bytes = length data,
        f_sha256 = digest env data\<rparr>]"
    by (auto simp: helper_source_def Let_def split: option.splits if_splits)
  have "comment_file env package \<lparr>f_path = relative_text p package, f_language = language, f_bytes = length data,
      f_sha256 = digest env data\<rparr>"
    unfolding comment_file_def using data comments_source_text [OF data(2)] by (intro exI [of _ p] exI [of _ data]) simp
  with assms(2) t show ?thesis by auto
qed

lemma helper_entry_files:
  assumes "helper_entry env package root s p = Inr t" and "\<forall>f\<in>set (found s). comment_file env package f"
  shows "\<forall>f\<in>set (found t). comment_file env package f"
proof -
  let ?s = "s\<lparr>seen_entries := seen_entries s + 1\<rparr>"
  from assms(1) have "found t = found s \<or> helper_source env package p ?s = Inr t"
    by (auto simp: helper_entry_def Let_def split: if_splits)
  with helper_source_files [of env package p ?s t] assms(2) show ?thesis by auto
qed

lemma helper_directory_files:
  assumes "helper_directory env package root s dir = Inr t" and "\<forall>f\<in>set (found s). comment_file env package f"
  shows "\<forall>f\<in>set (found t). comment_file env package f"
proof -
  obtain names where "foldE (helper_entry env package root) s (map (\<lambda>name. dir @ [name]) (sort names)) = Inr t"
    using assms(1) by (auto simp: helper_directory_def)
  then show ?thesis
    by (rule foldE_invariant [where P = "\<lambda>u. \<forall>f\<in>set (found u). comment_file env package f"])
       (use assms(2) helper_entry_files in blast)+
qed

lemma helper_walk_files:
  "helper_walk env package root s = Inr t \<Longrightarrow> \<forall>f\<in>set (found s). comment_file env package f
   \<Longrightarrow> \<forall>f\<in>set (found t). comment_file env package f"
proof (induction env package root s rule: helper_walk.induct)
  case (1 env package root s)
  show ?case
  proof (cases "open_dirs s")
    case Nil
    with 1 show ?thesis by (subst (asm) helper_walk.simps) simp
  next
    case (Cons dir rest)
    with "1.prems"(1) obtain u where u: "helper_directory env package root (s\<lparr>open_dirs := rest\<rparr>) dir = Inr u"
        "helper_walk env package root u = Inr t"
      by (subst (asm) helper_walk.simps) (auto split: sum.splits)
    have "\<forall>f\<in>set (found u). comment_file env package f"
      by (rule helper_directory_files [OF u(1)]) (use "1.prems"(2) in simp)
    with "1.IH" [OF Cons u(1) u(2)] show ?thesis by blast
  qed
qed

lemma helper_sources_files:
  assumes "helper_sources env package target_path declared = Inr files"
  shows "files \<noteq> [] \<and> (\<forall>f\<in>set files. comment_file env package f)"
proof -
  obtain root s where walk: "helper_walk env package root \<lparr>found = [], open_dirs = [root], total_bytes = 0, seen_entries = 0\<rparr> = Inr s"
      and s: "found s \<noteq> []" "files = sort_key f_path (found s)"
    using assms by (auto simp: helper_sources_def Let_def split: if_splits)
  have "\<forall>f\<in>set (found s). comment_file env package f"
    by (rule helper_walk_files [OF walk]) simp
  moreover have "files \<noteq> []" using s by (metis length_0_conv length_sort)
  ultimately show ?thesis using s(2) by simp
qed

definition helper_ok :: "inventory_env \<Rightarrow> pyval \<Rightarrow> bool" where
  "helper_ok env item \<longleftrightarrow> (\<exists>claim package files. dict_item (items_of item) ''linker_only'' = Inr (PDict claim) \<and> files \<noteq> []
     \<and> (\<forall>f\<in>set files. comment_file (helper_env.truncate env) package f)
     \<and> py_eq (PList (map file_value files)) (dict_get claim ''sources''))"

lemma proof_shape_Inr: "proof_shape v = Inr d \<Longrightarrow> v = PDict d"
  by (auto simp: proof_shape_def split: pyval.splits if_splits)

lemma bounded_list_Inr: "bounded_list n v = Inr xs \<Longrightarrow> v = PList xs"
  by (auto simp: bounded_list_def split: option.splits if_splits)

lemma validated_helper:
  assumes "validate_link_helper env project binaries item d = (Inr u, d')" and "item = items_of v"
  shows "helper_ok env v"
proof -
  from assms(1) obtain claim sources package files where
      shape: "rbind (dict_item item ''linker_only'') proof_shape = Inr claim"
    and listed: "bounded_list MAX_LINK_HELPER_FILES (dict_get claim ''sources'') = Inr sources"
    and files: "helper_sources (helper_env.truncate env) package (dict_get claim ''target_path'')
      (dict_get claim ''declared_sources'') = Inr files"
    and same: "py_eq (PList (map file_value files)) (PList sources)"
    unfolding validate_link_helper_def seq_Inr basic_Inr by blast
  have claim: "dict_item item ''linker_only'' = Inr (PDict claim)"
    using shape proof_shape_Inr by auto
  have sources: "dict_get claim ''sources'' = PList sources" by (rule bounded_list_Inr [OF listed])
  from helper_sources_files [OF files] same sources claim assms(2) show ?thesis
    unfolding helper_ok_def by auto
qed

lemma check_sources_helpers:
  "check_sources env project binaries i vs d = (Inr ss, d') \<Longrightarrow> map fst ss = vs \<and> (\<forall>(v, verified)\<in>set ss. verified \<longrightarrow> helper_ok env v)"
proof (induction vs arbitrary: i d ss)
  case (Cons v vs)
  from Cons.prems obtain helper rest d1 d2 where
      first: "(if has_key (items_of v) ''linker_only''
        then seq (validate_link_helper env project binaries (items_of v)) (\<lambda>_. ret True) else ret False) d1 = (Inr helper, d2)"
    and rest: "check_sources env project binaries (Suc i) vs d2 = (Inr rest, d')" and ss: "ss = (v, helper) # rest"
    by (auto simp: seq_Inr basic_Inr)
  have "helper \<longrightarrow> helper_ok env v"
    using first by (auto simp: seq_Inr basic_Inr split: if_splits dest: validated_helper)
  with Cons.IH [OF rest] ss show ?case by auto
qed (simp add: basic_Inr)

lemma check_sources_hosts:
  "check_owners owned i ss d = (Inr u, d') \<Longrightarrow> (v, False) \<in> set ss
   \<Longrightarrow> \<exists>hosts hs. subscript v ''hosts'' = Inr hosts \<and> iterate hosts = Inr hs \<and> subset_of hs owned"
proof (induction ss arbitrary: i d)
  case (Cons s ss)
  from Cons.prems(1) obtain d1 where here: "check_owner owned (snd s) (fst s) = Inr ()"
      and rest: "check_owners owned (Suc i) ss d1 = (Inr u, d')"
    by (auto simp: seq_Inr basic_Inr)
  show ?case
  proof (cases "s = (v, False)")
    case True
    with here show ?thesis by (auto simp: check_owner_def)
  next
    case False
    with Cons.prems(2) have "(v, False) \<in> set ss" by auto
    with Cons.IH [OF rest] show ?thesis .
  qed
qed simp

lemma each_record_fold: "each_record i f s vs d = (Inr t, d') \<Longrightarrow> foldE f s vs = Inr t"
proof (induction vs arbitrary: i s d)
  case (Cons v vs)
  then obtain u d1 where "f s v = Inr u" "each_record (Suc i) f u vs d1 = (Inr t, d')"
    by (auto simp: seq_Inr basic_Inr)
  with Cons.IH show ?case by auto
qed (simp add: basic_Inr)

lemma foldE_each: "foldE f s vs = Inr t \<Longrightarrow> v \<in> set vs \<Longrightarrow> \<exists>a b. f a v = Inr b"
  by (induction vs arbitrary: s) auto

definition product_ok :: "runtime_row list \<Rightarrow> pyval \<Rightarrow> bool" where
  "product_ok rows item \<longleftrightarrow> (\<exists>product target. subscript item ''product'' = Inr (PStr product)
     \<and> subscript item ''target'' = Inr (PStr target) \<and> (product, target) \<in> set (product_targets rows))"

lemma label_Inr: "label v = Inr s \<Longrightarrow> v = PStr s"
  by (cases v) (auto simp: label_def split: if_splits)

lemma check_product_ok:
  assumes "check_product managers rows a item = Inr b"
  shows "product_ok rows item"
proof -
  from assms obtain p product t target where "subscript item ''product'' = Inr p" "label p = Inr product"
      "subscript item ''target'' = Inr t" "label t = Inr target" "map_of (product_targets rows) product = Some target"
    by (auto simp: check_product_def split: if_splits)
  with label_Inr map_of_SomeD show ?thesis unfolding product_ok_def by metis
qed

text \<open>What a source target is given: hosts of the owned targets, unless it is a verified helper.\<close>

definition source_kept :: "inventory_env \<Rightarrow> pyval list \<Rightarrow> source_target \<Rightarrow> bool" where
  "source_kept env owned s \<longleftrightarrow> (if snd s then helper_ok env (fst s)
     else \<exists>hosts hs. subscript (fst s) ''hosts'' = Inr hosts \<and> iterate hosts = Inr hs \<and> subset_of hs owned)"

definition loaded_ok :: "inventory_env \<Rightarrow> loaded \<Rightarrow> bool" where
  "loaded_ok env v \<longleftrightarrow> (\<forall>item\<in>set (l_products v). product_ok (l_runtime v) item)
     \<and> (\<exists>targets. traverse (\<lambda>item. subscript item ''target'') (l_products v) = Inr targets
          \<and> (\<forall>s\<in>set (l_sources v). source_kept env (targets @ map PStr own_targets) s))"

lemma load_records_ok:
  assumes "load_records env root v managers rows d = (Inr result, d')"
  shows "loaded_ok env result \<and> l_runtime result = rows"
proof -
  from assms obtain products sources binaries seen checked targets u d1 d2 d3 d4 d5 d6 where
      products: "each_record 0 (check_product managers rows) [] products d1 = (Inr seen, d2)"
    and sources: "check_sources env (butlast root) binaries 0 sources d3 = (Inr checked, d4)"
    and targets: "traverse (\<lambda>item. subscript item ''target'') products = Inr targets"
    and owners: "check_owners (targets @ map PStr own_targets) 0 checked d5 = (Inr u, d6)"
    and result: "result = \<lparr>l_managers = managers, l_products = products, l_sources = checked, l_binaries = binaries, l_runtime = rows\<rparr>"
    unfolding load_records_def seq_Inr basic_Inr split_paired_Ex prod.case by blast
  have "product_ok rows item" if "item \<in> set products" for item
    using foldE_each [OF each_record_fold [OF products] that] check_product_ok by blast
  moreover have "source_kept env (targets @ map PStr own_targets) s" if "s \<in> set checked" for s
  proof (cases s)
    case (Pair item verified)
    with that check_sources_helpers [OF sources] check_sources_hosts [OF owners, of item] show ?thesis
      by (cases verified) (auto simp: source_kept_def)
  qed
  ultimately show ?thesis using targets result by (auto simp: loaded_ok_def)
qed

lemma load_body_ok:
  assumes "load_body env root app configuration d = (Inr v, d')"
  shows "loaded_ok env v \<and> runtime_modules env root app = Inr (l_runtime v)"
proof -
  from assms obtain w managers rows d1 where rows: "runtime_modules env root app = Inr rows"
      and "load_records env root w managers rows d1 = (Inr v, d')"
    unfolding load_body_def seq_Inr basic_Inr by blast
  with load_records_ok show ?thesis by blast
qed

section \<open>The reports of a load\<close>

definition still_running :: "pydict \<Rightarrow> bool" where
  "still_running d \<longleftrightarrow> dict_get d ''status'' = PStr ''running''"

lemma running_set: "still_running d \<Longrightarrow> k \<noteq> ''status'' \<Longrightarrow> still_running (dict_set d k v)"
  by (simp add: still_running_def)

lemma running_update: "still_running d \<Longrightarrow> ''status'' \<notin> fst ` set e \<Longrightarrow> still_running (dict_update d e)"
  by (simp add: still_running_def dict_get_update)

lemma running_mark [keeps_intros]: "keeps still_running (mark c)"
  unfolding mark_def by (rule keeps_updating) (simp add: running_set)

lemma running_index [keeps_intros]: "keeps still_running (updating (\<lambda>d. dict_set d ''record_index'' v))"
  by (rule keeps_updating) (simp add: running_set)

lemma running_check [keeps_intros]: "keeps still_running (check ok)" "keeps still_running bad"
  by (simp_all add: check_def bad_def keeps_intros)

lemma running_compare [keeps_intros]: "keeps still_running (compare_runtime expected actual)"
  unfolding compare_runtime_def by (intro keeps_intros running_update) simp_all

lemma running_records [keeps_intros]: "keeps still_running (each_record i f s vs)"
  by (induction vs arbitrary: i s) (auto intro!: keeps_intros)

lemma running_helper [keeps_intros]: "keeps still_running (validate_link_helper env project binaries item)"
  unfolding validate_link_helper_def by (intro keeps_intros)

lemma running_sources [keeps_intros]: "keeps still_running (check_sources env project binaries i vs)"
  by (induction vs arbitrary: i) (auto intro!: keeps_intros)

lemma running_owners [keeps_intros]: "keeps still_running (check_owners owned i ss)"
  by (induction ss arbitrary: i) (auto intro!: keeps_intros)

lemma running_load_records [keeps_intros]: "keeps still_running (load_records env root v managers rows)"
  unfolding load_records_def by (intro keeps_intros)

lemma running_load_body: "keeps still_running (load_body env root app configuration)"
  unfolding load_body_def by (intro keeps_intros)


section \<open>A sample build\<close>

text \<open>An executable image of x86-64 with an identifier and no segments.\<close>

definition sample_image :: bytes where
  "sample_image = le32s [0xfeedface, 0x1000007, 3, 2, 1, 24, 0] @ le32s [0x1b, 24] @ replicate 16 0"

definition sample_row :: runtime_row where
  "sample_row = \<lparr>rt_target = ''runner'', rt_product = ''runner'', rt_binary = ''A.app/Contents/MacOS/F'',
     rt_variants = [(''x86_64'', ''00000000-0000-0000-0000-000000000000'')]\<rparr>"

definition sample_claim :: pyval where
  "sample_claim = PDict [(''schema_version'', PInt 1), (''reason'', PStr LINKER_ONLY_LIMITATION), (''package_path'', PStr ''pkg''),
     (''manifest_sha256'', PStr []), (''target_path'', PStr ''Sources/Link''), (''declared_sources'', PNone),
     (''sources'', PList [file_value \<lparr>f_path = ''Sources/Link/a.swift'', f_language = ''swift'', f_bytes = 4, f_sha256 = []\<rparr>]),
     (''linker_settings'', PList []), (''product'', PStr ''P''), (''product_targets'', text_list [''Link'', ''Bin'']),
     (''binary_targets'', PList [PDict [(''package'', PStr ''pkg''), (''target'', PStr ''Bin''), (''host'', PStr ''runner'')]])]"

definition sample_inventory :: pyval where
  "sample_inventory = PDict [(''schema_version'', PInt 2), (''dependency_managers'', text_list [''spm'']), (''products'', PList []),
     (''source_targets'', PList [PDict [(''package'', PStr ''pkg''), (''target'', PStr ''Link''), (''hosts'', text_list [''runner'']),
        (''linker_only'', sample_claim)]]),
     (''binary_targets'', PList [PDict [(''package'', PStr ''pkg''), (''target'', PStr ''Bin''), (''hosts'', text_list [''runner'']),
        (''dynamic_hosts'', PList [])]])]"

definition sample_receipt :: pyval where
  "sample_receipt = PDict [(''schema_version'', PInt 1), (''dependency_managers'', text_list [''spm'']),
     (''configuration'', PStr ''Release''), (''inventory_sha256'', PStr []), (''app'', PStr ''A.app''),
     (''runtime'', PList [row_value sample_row])]"

definition sample_contents :: "(path \<times> bytes) list" where
  "sample_contents =
     [([''b''] @ INVENTORY, [1]), ([''b''] @ RECEIPT, [2]), ([''b'', ''A.app'', ''Contents'', ''Info.plist''], [3]),
      ([''b'', ''A.app'', ''Contents'', ''MacOS'', ''F''], sample_image), ([''pkg'', ''Package.swift''], [4]),
      ([''pkg'', ''Sources'', ''Link'', ''a.swift''], ascii ''// x'')]"

definition sample_entries :: "(path \<times> string list) list" where
  "sample_entries = [([''b'', ''A.app''], [''Contents'']), ([''b'', ''A.app'', ''Contents''], [''Info.plist'', ''MacOS'']),
     ([''b'', ''A.app'', ''Contents'', ''MacOS''], [''F'']), ([''pkg'', ''Sources'', ''Link''], [''a.swift''])]"

definition sample_build :: inventory_env where
  "sample_build = \<lparr>files_of = \<lparr>resolve = Inr, linked = (\<lambda>p. False), is_file = (\<lambda>p. p \<in> fst ` set sample_contents),
       is_dir = (\<lambda>p. p \<in> fst ` set sample_entries),
       children = (\<lambda>p. case map_of sample_entries p of None \<Rightarrow> raise OSError [] | Some ns \<Rightarrow> Inr ns),
       content = (\<lambda>p. case map_of sample_contents p of None \<Rightarrow> raise OSError [] | Some bs \<Rightarrow> Inr bs)\<rparr>,
     digest = (\<lambda>bs. []),
     json_of = (\<lambda>bs. if bs = [1] then Inr sample_inventory else if bs = [2] then Inr sample_receipt else raise JSONDecodeError []),
     plist_of = (\<lambda>bs. Inr (PDict [(''CFBundleExecutable'', PStr ''F'')])), walk_depth = 5\<rparr>"

section \<open>Properties\<close>

text \<open>C4: A loaded inventory is complete and true to the build: its last report says so, its runtime images are
  those of the application, every product is an image of its target, and each source target either has only hosts
  that are owned or is a verified link helper, whose sources were read from the package and hold only comments.\<close>

theorem loaded_inventory_sound:
  assumes "load_inventory env build_root app configuration = (Inr v, reports)"
  shows "loaded_ok env v \<and> dict_get (hd reports) ''status'' = PStr ''complete''
    \<and> (\<exists>root. resolve (files_of env) build_root = Inr root \<and> runtime_modules env root app = Inr (l_runtime v))"
proof -
  from assms obtain root d where root: "resolve (files_of env) build_root = Inr root"
      and loaded: "load_body env root app configuration first_state = (Inr v, d)" and reports: "hd reports = completed d"
    by (auto simp: load_inventory_def Let_def split: sum.splits prod.splits if_splits)
  have "dict_get (completed d) ''status'' = PStr ''complete''"
    by (simp add: completed_def dict_get_update)
  with load_body_ok [OF loaded] root reports show ?thesis by auto
qed

lemma loaded_inventory_sound_witness:
  "\<exists>v reports. load_inventory sample_build [''b''] [''b'', ''A.app''] ''Release'' = (Inr v, reports) \<and> loaded_ok sample_build v
     \<and> l_runtime v = [sample_row] \<and> map snd (l_sources v) = [True]"
proof -
  have "case load_inventory sample_build [''b''] [''b'', ''A.app''] ''Release'' of
      (Inl e, reports) \<Rightarrow> False | (Inr v, reports) \<Rightarrow> l_runtime v = [sample_row] \<and> map snd (l_sources v) = [True]"
    by code_simp
  then obtain v reports where v: "load_inventory sample_build [''b''] [''b'', ''A.app''] ''Release'' = (Inr v, reports)"
      and "l_runtime v = [sample_row]" "map snd (l_sources v) = [True]"
    by (auto split: sum.splits prod.splits)
  with conjunct1 [OF loaded_inventory_sound [OF v]] v show ?thesis by (intro exI [of _ v] exI [of _ reports]) simp
qed

text \<open>C35: A failed load is never reported as complete: every report it wrote says that it runs or has failed, and
  when the last one says failed the error is the one code for a missing or mismatched inventory.\<close>

theorem load_failure_reported:
  assumes "load_inventory env build_root app configuration = (Inl e, reports)"
  shows "(\<forall>d\<in>set reports. dict_get d ''status'' \<in> {PStr ''running'', PStr ''failed''})
    \<and> (reports \<noteq> [] \<and> dict_get (hd reports) ''status'' = PStr ''failed'' \<longrightarrow> e = mismatched)"
proof (cases "rbind (resolve (files_of env) build_root) (\<lambda>root. rbind (report_place env root) (\<lambda>_. Inr root))")
  case (Inr root)
  obtain r d where body: "load_body env root app configuration first_state = (r, d)" by fastforce
  have "still_running first_state" by code_simp
  with running_load_body [of env root app configuration] body have running: "still_running d"
    by (metis keepsD)
  have "dict_get (failed d e') ''status'' = PStr ''failed''" for e' by (simp add: failed_def dict_get_update)
  with assms Inr body running \<open>still_running first_state\<close> show ?thesis
    by (cases r) (auto simp: load_inventory_def Let_def still_running_def split: sum.splits prod.splits if_splits)
qed (use assms in \<open>simp add: load_inventory_def\<close>)

lemma load_failure_reported_witness:
  "\<exists>reports. load_inventory sample_build [''b''] [''b'', ''A.app''] ''Debug'' = (Inl mismatched, reports) \<and> length reports = 2
     \<and> dict_get (hd reports) ''inventory_check'' = PStr ''configuration''"
proof -
  have "case load_inventory sample_build [''b''] [''b'', ''A.app''] ''Debug'' of
      (Inr v, reports) \<Rightarrow> False
    | (Inl e, reports) \<Rightarrow> length reports = 2 \<and> dict_get (hd reports) ''status'' = PStr ''failed''
        \<and> dict_get (hd reports) ''inventory_check'' = PStr ''configuration''"
    by code_simp
  then obtain e reports where e: "load_inventory sample_build [''b''] [''b'', ''A.app''] ''Debug'' = (Inl e, reports)"
      and two: "length reports = 2" "dict_get (hd reports) ''status'' = PStr ''failed''"
        "dict_get (hd reports) ''inventory_check'' = PStr ''configuration''"
    by (cases "load_inventory sample_build [''b''] [''b'', ''A.app''] ''Debug''"; cases "fst (load_inventory sample_build [''b''] [''b'', ''A.app''] ''Debug'')") auto
  moreover from two(1) have "reports \<noteq> []" by auto
  ultimately have "e = mismatched" using load_failure_reported [OF e] by blast
  with e two show ?thesis by auto
qed

end
