(* ===== verification/Bounded_Capture.thy ===== *)
theory Bounded_Capture
  imports Py_Effects Process_Cleanup
begin

text \<open>
  Running a native tool with its two output streams read into bounded memory, as \<open>ManifestDumper.dump\<close> of
  \<open>tool/sentry_macos_inventory.py\<close> and \<open>_bounded_native_run\<close> of \<open>tool/pick_sentry_symbolication_probe.py\<close> do it
  with the same loop, and the signals that end its process group. The operating system is a record of operations on a world of any type; times are in
  milliseconds. The loop carries fuel; \<open>capture_returns\<close> bounds it by the streams, the limits and the time left.
\<close>

section \<open>The loop\<close>

datatype stream = Out | Err

text \<open>
  \<open>ready ks t\<close> waits at most \<open>t\<close> and names streams with input, of which the selector reports the registered
  ones \<open>ks\<close>; \<open>read_some k n\<close> is \<open>os.read\<close>; \<open>poll_exit\<close> is \<open>process.poll()\<close>.
\<close>

record 'w pipe_ops =
  monotonic :: "'w \<Rightarrow> int"
  ready :: "stream list \<Rightarrow> int \<Rightarrow> 'w \<Rightarrow> stream list \<times> 'w"
  read_some :: "stream \<Rightarrow> nat \<Rightarrow> 'w \<Rightarrow> (exn + bytes) \<times> 'w"
  poll_exit :: "'w \<Rightarrow> int option \<times> 'w"

record capture_limits =
  limit_of :: "stream \<Rightarrow> nat"
  limit_class :: exn_class
  timeout_code :: string
  overflow_code :: string

record 'w capture =
  world_of :: 'w
  captured :: "stream \<Rightarrow> bytes"
  open_streams :: "stream list"
  overran :: bool
  expired :: bool

definition start_capture :: "'w \<Rightarrow> 'w capture" where
  "start_capture w = \<lparr>world_of = w, captured = (\<lambda>k. []), open_streams = [Out, Err], overran = False, expired = False\<rparr>"

text \<open>One ready stream: at most one byte more than fits is read, and that byte ends the capture.\<close>

definition read_ready :: "capture_limits \<Rightarrow> ('w, 'z) pipe_ops_scheme \<Rightarrow> stream \<Rightarrow> ('w capture, unit) cmd" where
  "read_ready l ops k s =
     (let available = limit_of l k - length (captured s k) in
      case read_some ops k (min 65536 (available + 1)) (world_of s) of
        (Inl e, w) \<Rightarrow> (Inl e, s\<lparr>world_of := w\<rparr>)
      | (Inr chunk, w) \<Rightarrow>
          if chunk = [] then (Inr (), s\<lparr>world_of := w, open_streams := remove1 k (open_streams s)\<rparr>)
          else let s = s\<lparr>world_of := w, captured := (captured s)(k := captured s k @ take available chunk)\<rparr> in
            if available < length chunk then (raise (limit_class l) (overflow_code l), s\<lparr>overran := True\<rparr>) else (Inr (), s))"

definition events :: "stream list \<Rightarrow> stream list \<Rightarrow> stream list" where
  "events registered ks = filter (\<lambda>k. k \<in> set registered) (remdups ks)"

text \<open>One pass; the answer is whether the loop is over.\<close>

definition capture_pass :: "capture_limits \<Rightarrow> ('w, 'z) pipe_ops_scheme \<Rightarrow> int \<Rightarrow> ('w capture, bool) cmd" where
  "capture_pass l ops deadline s =
     (let (over, s) = (if open_streams s = []
          then (case poll_exit ops (world_of s) of (c, w) \<Rightarrow> (c \<noteq> None, s\<lparr>world_of := w\<rparr>)) else (False, s));
          t = monotonic ops (world_of s) in
      if over then (Inr True, s)
      else if deadline \<le> t then (raise (limit_class l) (timeout_code l), s\<lparr>expired := True\<rparr>)
      else case ready ops (open_streams s) (min 100 (max 0 (deadline - t))) (world_of s) of (ks, w) \<Rightarrow>
        seq (loop_over (\<lambda>_. read_ready l ops) () (events (open_streams s) ks)) (\<lambda>_. ret False) (s\<lparr>world_of := w\<rparr>))"

fun capture_loop :: "nat \<Rightarrow> capture_limits \<Rightarrow> ('w, 'z) pipe_ops_scheme \<Rightarrow> int \<Rightarrow> 'w capture \<Rightarrow> ((exn + unit) \<times> 'w capture) option" where
  "capture_loop fuel l ops deadline s =
     (if fuel = 0 then None
      else case capture_pass l ops deadline s of
          (Inl e, t) \<Rightarrow> Some (Inl e, t)
        | (Inr over, t) \<Rightarrow> if over then Some (Inr (), t) else capture_loop (fuel - 1) l ops deadline t)"

declare capture_loop.simps [simp del]

section \<open>Bounded memory\<close>

text \<open>What is kept of a stream is within its limit, and the mark of an overrun is never lost.\<close>

definition within :: "capture_limits \<Rightarrow> 'w capture \<Rightarrow> bool" where
  "within l s \<longleftrightarrow> (\<forall>k. length (captured s k) \<le> limit_of l k)"

lemma within_start [simp]: "within l (start_capture w)"
  by (simp add: within_def start_capture_def)

lemma fits: "\<not> l - n < m \<Longrightarrow> n \<le> l \<Longrightarrow> n + m \<le> (l :: nat)"
  by simp

lemma within_read [keeps_intros]: "keeps (within l) (read_ready l ops k)"
  by (rule keepsI) (auto simp: read_ready_def within_def Let_def intro: fits split: prod.splits sum.splits if_splits)

lemma within_pass [keeps_intros]: "keeps (within l) (capture_pass l ops deadline)"
proof (rule keepsI)
  fix s r t
  assume s: "within l s" and pass: "capture_pass l ops deadline s = (r, t)"
  have loop: "keeps (within l) (seq (loop_over (\<lambda>_. read_ready l ops) () ks) (\<lambda>_. ret False))" for ks
    by (intro keeps_intros)
  have "within l (s\<lparr>world_of := w\<rparr>)" "within l (s\<lparr>world_of := w, expired := b\<rparr>)" "within l (s\<lparr>expired := b\<rparr>)" for w b
    using s by (simp_all add: within_def)
  with s pass show "within l t"
    by (auto simp: capture_pass_def Let_def split: prod.splits if_splits dest: keepsD [OF loop])
qed

lemma capture_loop_Suc:
  "capture_loop (Suc n) l ops deadline s = (case capture_pass l ops deadline s of
      (Inl e, t) \<Rightarrow> Some (Inl e, t)
    | (Inr over, t) \<Rightarrow> if over then Some (Inr (), t) else capture_loop n l ops deadline t)"
  by (subst capture_loop.simps) (simp split: prod.split sum.split)

section \<open>How the loop ends\<close>

text \<open>A mark is set only by the exception it explains.\<close>

definition unmarked :: "'w capture \<Rightarrow> bool" where
  "unmarked s \<longleftrightarrow> \<not> overran s \<and> \<not> expired s"

lemma read_ready_result:
  assumes "read_ready l ops k s = (r, t)" and "unmarked s"
  shows "(r = Inr () \<longrightarrow> unmarked t) \<and> (overran t \<longrightarrow> r = raise (limit_class l) (overflow_code l)) \<and> \<not> expired t"
  using assms by (auto simp: read_ready_def unmarked_def Let_def split: prod.splits sum.splits if_splits)

lemma reads_result:
  "loop_over (\<lambda>_. read_ready l ops) () ks s = (r, t) \<Longrightarrow> unmarked s
   \<Longrightarrow> (r = Inr () \<longrightarrow> unmarked t) \<and> (overran t \<longrightarrow> r = raise (limit_class l) (overflow_code l)) \<and> \<not> expired t"
proof (induction ks arbitrary: s)
  case (Cons k ks)
  obtain q u where first: "read_ready l ops k s = (q, u)" by fastforce
  note read_ready_result [OF first Cons.prems(2)]
  with Cons.prems first Cons.IH [of u] show ?case by (cases q) (auto simp: seq_def)
qed (simp add: ret_def unmarked_def)

lemma capture_pass_result:
  assumes "capture_pass l ops deadline s = (r, t)" and "unmarked s"
  shows "(\<forall>b. r = Inr b \<longrightarrow> unmarked t)
    \<and> (overran t \<longrightarrow> r = raise (limit_class l) (overflow_code l)) \<and> (expired t \<longrightarrow> r = raise (limit_class l) (timeout_code l))
    \<and> (r = Inr True \<longrightarrow> open_streams t = [] \<and> captured t = captured s \<and> (\<exists>w c. poll_exit ops w = (Some c, world_of t)))"
proof -
  obtain over u where first: "(if open_streams s = []
      then (case poll_exit ops (world_of s) of (c, w) \<Rightarrow> (c \<noteq> None, s\<lparr>world_of := w\<rparr>)) else (False, s)) = (over, u)" by fastforce
  then have u: "unmarked u" "captured u = captured s" "open_streams u = open_streams s"
      and polled: "over \<longrightarrow> open_streams s = [] \<and> (\<exists>c. poll_exit ops (world_of s) = (Some c, world_of u))"
    using assms(2) by (auto simp: unmarked_def split: if_splits prod.splits)
  consider "over" | "\<not> over" "deadline \<le> monotonic ops (world_of u)" | "\<not> over" "\<not> deadline \<le> monotonic ops (world_of u)" by blast
  then show ?thesis
  proof cases
    case 3
    obtain ks w where ready: "ready ops (open_streams u) (min 100 (max 0 (deadline - monotonic ops (world_of u)))) (world_of u) = (ks, w)"
      by fastforce
    obtain q v where reads: "loop_over (\<lambda>_. read_ready l ops) () (events (open_streams u) ks) (u\<lparr>world_of := w\<rparr>) = (q, v)" by fastforce
    have "unmarked (u\<lparr>world_of := w\<rparr>)" using u(1) by (simp add: unmarked_def)
    note reads_result [OF reads this]
    moreover have "(r, t) = (case q of Inl e \<Rightarrow> (Inl e, v) | Inr _ \<Rightarrow> (Inr False, v))"
      using assms(1) first 3 ready reads by (simp add: capture_pass_def seq_def ret_def split: sum.splits)
    ultimately show ?thesis by (cases q) auto
  qed (use assms(1) first u polled in \<open>auto simp: capture_pass_def unmarked_def\<close>)
qed

text \<open>
  What the run relies on: the clock never goes back, a wait that finds no input lasts as long as it was asked to,
  and a read gives at most the bytes it was asked for.
\<close>

definition fair_pipes :: "('w, 'z) pipe_ops_scheme \<Rightarrow> bool" where
  "fair_pipes ops \<longleftrightarrow>
     (\<forall>w. monotonic ops w \<le> monotonic ops (snd (poll_exit ops w)))
   \<and> (\<forall>k n w. monotonic ops w \<le> monotonic ops (snd (read_some ops k n w)))
   \<and> (\<forall>ks t w. monotonic ops w + (if events ks (fst (ready ops ks t w)) = [] then t else 0) \<le> monotonic ops (snd (ready ops ks t w)))"

text \<open>The work left: streams to close, bytes that fit, and time.\<close>

definition space_left :: "capture_limits \<Rightarrow> 'w capture \<Rightarrow> nat" where
  "space_left l s = length (open_streams s) + (limit_of l Out - length (captured s Out)) + (limit_of l Err - length (captured s Err))"

lemma less_room: "0 < m \<Longrightarrow> m \<le> l - n \<Longrightarrow> l - (n + m) < l - (n :: nat)"
  by simp

lemma read_ready_space:
  assumes "read_ready l ops k s = (Inr (), t)" and "fair_pipes ops" and "k \<in> set (open_streams s)"
  shows "space_left l t < space_left l s \<and> monotonic ops (world_of s) \<le> monotonic ops (world_of t)"
proof -
  obtain chunk w where read: "read_some ops k (min 65536 (limit_of l k - length (captured s k) + 1)) (world_of s) = (Inr chunk, w)"
    using assms(1) by (auto simp: read_ready_def Let_def split: prod.splits sum.splits)
  have "monotonic ops (world_of s) \<le> monotonic ops w"
    using assms(2) read by (metis fair_pipes_def snd_conv)
  moreover have "world_of t = w" using assms(1) read by (auto simp: read_ready_def Let_def split: if_splits)
  moreover have "space_left l t < space_left l s"
  proof (cases "chunk = []")
    case True
    with assms(1) read have t: "open_streams t = remove1 k (open_streams s)" "captured t = captured s"
      by (auto simp: read_ready_def Let_def)
    have "length (remove1 k (open_streams s)) < length (open_streams s)"
      using assms(3) length_pos_if_in_set [OF assms(3)] by (simp add: length_remove1)
    with t show ?thesis by (simp add: space_left_def)
  next
    case False
    with assms(1) read have t: "open_streams t = open_streams s" "captured t = (captured s)(k := captured s k @ chunk)"
        "length chunk \<le> limit_of l k - length (captured s k)" "0 < length chunk"
      by (auto simp: read_ready_def Let_def split: if_splits)
    then show ?thesis by (cases k) (auto simp: space_left_def intro!: less_room)
  qed
  ultimately show ?thesis by simp
qed

lemma read_ready_open: "read_ready l ops k s = (r, t) \<Longrightarrow> k' \<noteq> k \<Longrightarrow> k' \<in> set (open_streams s) \<Longrightarrow> k' \<in> set (open_streams t)"
  by (auto simp: read_ready_def Let_def split: prod.splits sum.splits if_splits)

lemma reads_space:
  "loop_over (\<lambda>_. read_ready l ops) () ks s = (Inr u, t) \<Longrightarrow> fair_pipes ops \<Longrightarrow> set ks \<subseteq> set (open_streams s) \<Longrightarrow> distinct ks
   \<Longrightarrow> space_left l t + length ks \<le> space_left l s \<and> monotonic ops (world_of s) \<le> monotonic ops (world_of t)"
proof (induction ks arbitrary: s)
  case (Cons k ks)
  from Cons.prems(1) obtain v where first: "read_ready l ops k s = (Inr (), v)"
      and rest: "loop_over (\<lambda>_. read_ready l ops) () ks v = (Inr u, t)"
    by (auto elim: seq_cases)
  have "set ks \<subseteq> set (open_streams v)"
  proof
    fix x assume "x \<in> set ks"
    then show "x \<in> set (open_streams v)" using Cons.prems(3, 4) by (intro read_ready_open [OF first]) auto
  qed
  from Cons.IH [OF rest Cons.prems(2) this] Cons.prems(3, 4) read_ready_space [OF first Cons.prems(2)] show ?case by simp
qed (simp add: ret_def)

definition work_left :: "capture_limits \<Rightarrow> ('w, 'z) pipe_ops_scheme \<Rightarrow> int \<Rightarrow> 'w capture \<Rightarrow> nat" where
  "work_left l ops deadline s = space_left l s + nat (deadline - monotonic ops (world_of s))"

lemma work_decreases: "a + n \<le> (b :: nat) \<Longrightarrow> x \<le> y \<Longrightarrow> n = 0 \<longrightarrow> x < d \<and> x < y \<Longrightarrow> a + nat (d - y) < b + nat (d - x)"
  by linarith

lemma capture_pass_progress:
  assumes "capture_pass l ops deadline s = (Inr False, t)" and "fair_pipes ops"
  shows "work_left l ops deadline t < work_left l ops deadline s"
proof -
  obtain over u where first: "(if open_streams s = []
      then (case poll_exit ops (world_of s) of (c, w) \<Rightarrow> (c \<noteq> None, s\<lparr>world_of := w\<rparr>)) else (False, s)) = (over, u)" by fastforce
  have polled: "monotonic ops (world_of s) \<le> monotonic ops (snd (poll_exit ops (world_of s)))" using assms(2) by (simp add: fair_pipes_def)
  with first have u: "space_left l u = space_left l s" "monotonic ops (world_of s) \<le> monotonic ops (world_of u)"
    by (auto simp: space_left_def split: if_splits prod.splits)
  let ?t = "monotonic ops (world_of u)" and ?ks = "open_streams u"
  have going: "\<not> over" "?t < deadline" using assms(1) first by (auto simp: capture_pass_def Let_def split: if_splits)
  let ?wait = "min 100 (max 0 (deadline - ?t))"
  obtain ks w where ready: "ready ops ?ks ?wait (world_of u) = (ks, w)" by fastforce
  from assms(1) first going ready have reads: "loop_over (\<lambda>_. read_ready l ops) () (events ?ks ks) (u\<lparr>world_of := w\<rparr>) = (Inr (), t)"
    by (auto simp: capture_pass_def Let_def ret_def elim!: seq_cases)
  have "set (events ?ks ks) \<subseteq> set ?ks" "distinct (events ?ks ks)" by (auto simp: events_def)
  then have "space_left l t + length (events ?ks ks) \<le> space_left l u" "monotonic ops w \<le> monotonic ops (world_of t)"
    using reads_space [OF reads assms(2)] by (auto simp: space_left_def)
  moreover have "?t + (if events ?ks ks = [] then ?wait else 0) \<le> monotonic ops w"
    using assms(2) ready by (metis fair_pipes_def fst_conv snd_conv)
  moreover have "0 < ?wait" using going(2) by simp
  ultimately show ?thesis using u going(2) unfolding work_left_def by (intro work_decreases) (auto split: if_splits)
qed

text \<open>The loop ends whatever the tool does.\<close>

lemma capture_returns:
  assumes "fair_pipes ops" and "work_left l ops deadline s < fuel"
  shows "\<exists>r t. capture_loop fuel l ops deadline s = Some (r, t)"
  using assms(2)
proof (induction fuel arbitrary: s)
  case (Suc n)
  obtain q u where pass: "capture_pass l ops deadline s = (q, u)" by fastforce
  show ?case
  proof (cases "q = Inr False")
    case True
    with capture_pass_progress [OF _ assms(1)] pass Suc.prems have "work_left l ops deadline u < n" by fastforce
    with Suc.IH True pass show ?thesis by (simp add: capture_loop_Suc)
  qed (use pass in \<open>cases q; auto simp: capture_loop_Suc\<close>)
qed simp

text \<open>How a capture that was started afresh ends.\<close>

lemma capture_loop_result:
  assumes "capture_loop fuel l ops deadline s = Some (r, t)" and "unmarked s" and "within l s"
  shows "within l t \<and> (overran t \<longrightarrow> r = raise (limit_class l) (overflow_code l)) \<and> (expired t \<longrightarrow> r = raise (limit_class l) (timeout_code l))
    \<and> (r = Inr () \<longrightarrow> unmarked t \<and> open_streams t = [] \<and> (\<exists>w c. poll_exit ops w = (Some c, world_of t)))"
  using assms
proof (induction fuel arbitrary: s)
  case (Suc n)
  obtain q u where pass: "capture_pass l ops deadline s = (q, u)" by fastforce
  note here = capture_pass_result [OF pass Suc.prems(2)] keepsD [OF within_pass Suc.prems(3) pass]
  show ?case
  proof (cases "q = Inr False")
    case True
    with Suc.prems(1) pass have "capture_loop n l ops deadline u = Some (r, t)" by (simp add: capture_loop_Suc)
    moreover have "unmarked u" using here True by (simp add: unmarked_def)
    ultimately show ?thesis using Suc.IH here by blast
  next
    case False
    with Suc.prems(1) pass have "t = u \<and> ((\<exists>e. q = Inl e \<and> r = Inl e) \<or> q = Inr True \<and> r = Inr ())"
      by (cases q) (auto simp: capture_loop_Suc)
    with here show ?thesis by auto
  qed
qed (simp add: capture_loop.simps)

section \<open>Stopping the process group\<close>

text \<open>Launching, signalling and waiting; an environment of \<open>None\<close> is the inherited one, and \<open>ToolMissing\<close> carries the file name of a \<open>FileNotFoundError\<close>.\<close>

datatype launched = Launched | ToolMissing string | LaunchFailed exn

record 'w tool_ops = "'w pipe_ops" +
  launch :: "string list \<Rightarrow> (string \<times> string) list option \<Rightarrow> 'w \<Rightarrow> launched \<times> 'w"
  kill_group :: "signal \<Rightarrow> 'w \<Rightarrow> failure option \<times> 'w"
  wait_child :: "int \<Rightarrow> 'w \<Rightarrow> failure option \<times> 'w"

primrec failure_exn :: "failure_kind \<Rightarrow> exn" where
  "failure_exn Permission = Exn OSError ''PermissionError''"
| "failure_exn Missing = Exn OSError ''ProcessLookupError''"
| "failure_exn TimedOut = Exn SubprocessError ''TimeoutExpired''"
| "failure_exn OsFailure = Exn OSError ''OSError''"
| "failure_exn Invalid = Exn ValueError []"
| "failure_exn Other = Exn RuntimeError []"

text \<open>\<open>try: op except kind: pass\<close>.\<close>

definition tolerate :: "failure_kind \<Rightarrow> ('w \<Rightarrow> failure option \<times> 'w) \<Rightarrow> ('w, unit) cmd" where
  "tolerate k op w = (case op w of
      (None, w) \<Rightarrow> (Inr (), w)
    | (Some f, w) \<Rightarrow> (if kind_of f = k then Inr () else Inl (failure_exn (kind_of f)), w))"

definition stop_signal :: "('w, 'z) tool_ops_scheme \<Rightarrow> int \<Rightarrow> signal \<Rightarrow> ('w, unit) cmd" where
  "stop_signal ops pause sig = seq (tolerate Missing (kill_group ops sig)) (\<lambda>_. tolerate TimedOut (wait_child ops pause))"

definition stop_group :: "('w, 'z) tool_ops_scheme \<Rightarrow> int \<Rightarrow> ('w, unit) cmd" where
  "stop_group ops pause = loop_over (\<lambda>_. stop_signal ops pause) () [SIGTERM, SIGKILL]"

text \<open>\<open>any(needle in output for needle in needles)\<close> for each row, on the lower-case output.\<close>

definition lower_byte :: "byte \<Rightarrow> byte" where
  "lower_byte b = (if 65 \<le> b \<and> b \<le> 90 then b + 32 else b)"

definition categories :: "(string \<times> string list) list \<Rightarrow> bytes \<Rightarrow> string list" where
  "categories table output =
     map fst (filter (\<lambda>(_, needles). list_ex (\<lambda>n. contains (ascii n) (map lower_byte output)) needles) table)"

end
