(* ===== verification/Manifest_Dump.thy ===== *)
theory Manifest_Dump
  imports Bounded_Capture Link_Helper
begin

text \<open>
  Evaluating a package manifest, from \<open>tool/sentry_macos_inventory.py\<close>: the environment the tool gets, the
  categories of what it writes to its error stream, and \<open>ManifestDumper\<close>, which records every call. The value of
  an evaluation is the JSON of its bounded output; JSON is read by a parameter.
\<close>

section \<open>The environment of the tool\<close>

definition HOST_ENVIRONMENT_OVERRIDES :: "string list" where
  "HOST_ENVIRONMENT_OVERRIDES =
     [''SDKROOT'', ''MACOSX_DEPLOYMENT_TARGET'', ''SWIFT_EXEC'', ''SWIFT_EXEC_MANIFEST'',
      ''SWIFT_DRIVER_SWIFT_EXEC'', ''SWIFT_DRIVER_SWIFT_FRONTEND_EXEC'', ''SWIFTPM_CUSTOM_BIN_DIR'',
      ''SWIFTPM_CUSTOM_BINDIR'', ''SWIFTPM_CUSTOM_LIBS_DIR'', ''SWIFTPM_PD_LIBS'',
      ''SWIFTPM_MODULECACHE_OVERRIDE'', ''SWIFTPM_TESTS_MODULECACHE'', ''SWIFTPM_BUILD_DIR'',
      ''SWIFT_MODULECACHE_PATH'', ''CLANG_MODULE_CACHE_PATH'', ''CC'', ''CXX'', ''LD'', ''LIBTOOL'',
      ''CPATH'', ''C_INCLUDE_PATH'', ''CPLUS_INCLUDE_PATH'', ''OBJC_INCLUDE_PATH'', ''LIBRARY_PATH'',
      ''CFLAGS'', ''CXXFLAGS'', ''CPPFLAGS'', ''LDFLAGS'', ''LD_LIBRARY_PATH'']"

definition private_prefixes :: "string list" where
  "private_prefixes = [''SENTRY_'', ''XB_'', ''DART_DEFINE'', ''FLUTTER_XCODE_'']"

definition private_words :: "string list" where
  "private_words = [''TOKEN'', ''PASSWORD'', ''SECRET'', ''AES_KEY'', ''DSN'']"

text \<open>\<open>key.upper()\<close>: the sharp s is the one letter outside ASCII whose upper case is ASCII.\<close>

definition key_upper :: "string \<Rightarrow> string" where
  "key_upper s = concat (map (\<lambda>c. if ord c = 223 then ''SS'' else [upper_char c]) s)"

definition private_key :: "string \<Rightarrow> bool" where
  "private_key k \<longleftrightarrow> list_ex (\<lambda>p. prefix p k) private_prefixes \<or> list_ex (\<lambda>w. contains w k) private_words"

definition passed_on :: "string \<Rightarrow> string \<Rightarrow> bool" where
  "passed_on mode key \<longleftrightarrow> \<not> private_key (key_upper key)
     \<and> \<not> (mode = ''host'' \<and> (key_upper key \<in> set HOST_ENVIRONMENT_OVERRIDES \<or> prefix ''DYLD_'' (key_upper key)))"

primrec set_variable :: "(string \<times> string) list \<Rightarrow> string \<Rightarrow> string \<Rightarrow> (string \<times> string) list" where
  "set_variable [] k v = [(k, v)]"
| "set_variable (p # ps) k v = (if fst p = k then (k, v) # ps else p # set_variable ps k v)"

definition manifest_environment :: "(string \<times> string) list \<Rightarrow> string \<Rightarrow> exn + (string \<times> string) list" where
  "manifest_environment environment mode =
     (if mode \<notin> set [''inherited'', ''host''] then raise ValueError ''invalid_manifest_environment_mode''
      else Inr (set_variable (filter (\<lambda>(key, _). passed_on mode key) environment) ''GIT_TERMINAL_PROMPT'' ''0''))"

lemma set_variable_set: "p \<in> set (set_variable ps k v) \<Longrightarrow> p = (k, v) \<or> p \<in> set ps"
  by (induction ps) (auto split: if_splits)

text \<open>What is passed on: no key that may hold a secret, with the prompt switched off.\<close>

lemma manifest_environment_keys:
  assumes "manifest_environment environment mode = Inr env" and "(k, v) \<in> set env"
  shows "k = ''GIT_TERMINAL_PROMPT'' \<and> v = ''0'' \<or> (k, v) \<in> set environment \<and> passed_on mode k"
proof -
  from assms have "(k, v) \<in> set (set_variable (filter (\<lambda>(key, _). passed_on mode key) environment) ''GIT_TERMINAL_PROMPT'' ''0'')"
    unfolding manifest_environment_def by (simp only: split: if_splits) simp_all
  from set_variable_set [OF this] show ?thesis by simp
qed

section \<open>Categories of the error stream\<close>

definition stderr_patterns :: "(string \<times> string list) list" where
  "stderr_patterns =
     [(''sandbox_denied'', [''sandbox-exec:'', ''sandbox_apply:'', ''sandbox: deny'']),
      (''permission_denied'', [''permission denied'', ''operation not permitted'']),
      (''sdk_unavailable'', [''unable to find sdk'', ''sdk not found'', ''invalid sdk'', ''no such sysroot'']),
      (''compiler_sdk_mismatch'', [''compiled with swift'', ''sdk is not supported by the compiler'', ''this sdk is not supported'']),
      (''package_description_missing'', [''no such module '' @ [CHR 0x27] @ ''packagedescription'' @ [CHR 0x27], ''unable to load standard library'']),
      (''tools_version_unsupported'', [''requires minimum swift tools version'', ''is using swift tools version'']),
      (''module_cache_incompatible'', [''module cache'', ''modulecache'', ''precompiled module'']),
      (''dynamic_library_load_failed'', [''dyld:'', ''library not loaded'', ''symbol not found'']),
      (''filesystem_lock'', [''another instance of swiftpm'', ''could not acquire lock'', ''resource temporarily unavailable'']),
      (''manifest_path_missing'', [''could not find package.swift'', ''manifest file not found'', ''no package.swift found'']),
      (''manifest_invalid'', [''invalid manifest'', ''manifest parse error'']),
      (''compiler_failed'', [''compile command failed'', ''failed to build module'', ''compiler command failed'']),
      (''manifest_runtime_failed'', [''manifest evaluation failed'', ''manifest execution failed''])]"

definition manifest_stderr_categories :: "bytes \<Rightarrow> string list" where
  "manifest_stderr_categories output =
     (let found = categories stderr_patterns output in
      if found \<noteq> [] then found else if output \<noteq> [] then [''unclassified_diagnostic''] else [])"

section \<open>Evaluating a manifest\<close>

definition SAFE_ERROR_CODES :: "string list" where
  "SAFE_ERROR_CODES =
     [''ambiguous_macos_package_dependency'', ''ambiguous_macos_package_product_dependency'',
      ''ambiguous_macos_package_runtime'', ''cyclic_macos_package_host_mapping'',
      ''duplicate_macos_dependency_ownership'', ''duplicate_macos_dependency_runtime'',
      ''invalid_macos_dependency_label'', ''invalid_macos_dependency_runtime'',
      ''invalid_macos_executable_metadata'', ''invalid_macos_package_manifest'',
      ''macos_binary_package_artifact_missing'', ''macos_binary_package_runtime_uuid_mismatch'',
      ''macos_dependency_inventory_missing_or_mismatched'', ''macos_dependency_manager_metadata_missing'',
      ''macos_dependency_runner_missing'', ''macos_dependency_runtime_escaped_bundle'',
      ''macos_dynamic_package_product_missing'', ''macos_flutter_package_link_missing'',
      ''macos_inventory_requires_macos_xcode_environment'', ''macos_local_package_manifest_evaluation_failed'',
      ''macos_local_package_manifest_evaluation_timeout'', ''macos_local_package_manifest_json_invalid'',
      ''macos_local_package_manifest_output_limit'', ''macos_local_package_manifest_tool_unavailable'',
      ''macos_local_package_manifest_execution_failed'', ''macos_local_package_manifest_directory_missing'',
      ''macos_local_package_manifest_file_missing'', ''macos_manifest_diagnostics_only'',
      ''macos_package_identity_path_conflict'', ''invalid_macos_xcframework_metadata'',
      ''macos_xcframework_macos_library_missing'', ''macos_xcframework_architecture_missing'',
      ''macos_binary_package_payload_invalid'', ''unsafe_macos_xcframework_path'',
      ''unsupported_macos_binary_package_container'', ''macos_package_target_missing'',
      ''macos_pods_embedding_graph_missing'', ''macos_pods_inventory_missing'',
      ''macos_resolved_package_checkout_missing'', ''macos_resolved_package_state_unavailable'',
      ''macos_source_package_host_architecture_missing'', ''macos_xcode_local_package_reference_missing'',
      ''macos_xcode_project_metadata_unavailable'', ''macos_xcode_project_metadata_timeout'',
      ''macos_xcode_runner_link_graph_missing'', ''unsafe_macos_dependency_inventory_destination'',
      ''unsafe_macos_vendor_symbol_destination'', ''unsupported_macos_package_condition'',
      ''unsupported_macos_package_dependency'', ''unsupported_macos_package_linkage'',
      ''unsupported_macos_package_module_aliases'', ''unsupported_macos_package_product'',
      ''unsupported_macos_package_target_dependency'', ''unsupported_macos_package_traits'',
      ''unsupported_macos_pods_embed_graph'', ''unsupported_macos_resolved_package_state'',
      ''unsupported_macos_runtime_package_target'', ''unsupported_macos_xcode_package_reference'',
      ''unsafe_macos_manifest_report_destination'']"

definition MANIFEST_STDERR_LIMIT :: nat where
  "MANIFEST_STDERR_LIMIT = 128 * 1024"

definition SWIFT_COMMAND :: "string list" where
  "SWIFT_COMMAND = [''/usr/bin/xcrun'', ''--sdk'', ''macosx'', ''swift'']"

definition MANIFEST_ROLES :: "string list" where
  "MANIFEST_ROLES = [''generated_root'', ''direct_local'', ''direct_remote'', ''dependency_local'', ''dependency_remote'']"

text \<open>The record of one call; \<open>positive_evidence_only\<close> is always true.\<close>

record call =
  call_ordinal :: nat
  call_role :: string
  call_package :: string
  call_status :: string
  call_exit :: "int option"
  call_expired :: bool
  call_stdout :: nat
  call_stderr :: nat
  call_overran :: bool
  call_categories :: "string list"
  call_reason :: "string option"

record 'w manifest_ops = "'w tool_ops" +
  dir_here :: "path \<Rightarrow> 'w \<Rightarrow> bool"
  file_here :: "path \<Rightarrow> 'w \<Rightarrow> bool"
  manifest_json :: "bytes \<Rightarrow> exn + pyval"

definition re_safe_label :: regex where
  "re_safe_label = RClass False [(65, 90), (97, 122), (48, 57), (95, 95), (46, 46), (43, 43), (45, 45)]"

definition safe_label :: "pyval \<Rightarrow> string" where
  "safe_label v = (case text_of v of
      Some s \<Rightarrow> if s \<noteq> [] \<and> length s \<le> 120 \<and> fullmatch (rplus re_safe_label) s then s else ''unknown''
    | None \<Rightarrow> ''unknown'')"

definition first_call :: "nat \<Rightarrow> string \<Rightarrow> pyval \<Rightarrow> call" where
  "first_call n r v = \<lparr>call_ordinal = n, call_role = (if r \<in> set MANIFEST_ROLES then r else ''dependency_local''), call_package = safe_label v,
     call_status = ''failed'', call_exit = None, call_expired = False, call_stdout = 0, call_stderr = 0,
     call_overran = False, call_categories = [], call_reason = None\<rparr>"

definition manifest_limits :: capture_limits where
  "manifest_limits = \<lparr>limit_of = (\<lambda>k. case k of Out \<Rightarrow> MANIFEST_STDOUT_LIMIT | Err \<Rightarrow> MANIFEST_STDERR_LIMIT),
     limit_class = InventoryError, timeout_code = ''macos_local_package_manifest_evaluation_timeout'',
     overflow_code = ''macos_local_package_manifest_output_limit''\<rparr>"

definition failing :: "string \<Rightarrow> ('s, 'a) cmd" where
  "failing code = throw InventoryError code"

text \<open>The path is looked at again when the tool was not found: its directory may have gone.\<close>

definition start_manifest :: "('w, 'z) manifest_ops_scheme \<Rightarrow> string list \<Rightarrow> (string \<times> string) list \<Rightarrow> path \<Rightarrow> ('w, unit) cmd" where
  "start_manifest ops command env p w =
     (if \<not> dir_here ops p w then failing ''macos_local_package_manifest_directory_missing'' w
      else if \<not> file_here ops (p @ [''Package.swift'']) w then failing ''macos_local_package_manifest_file_missing'' w
      else case launch ops (command @ [''package'', ''--package-path'', CHR ''/'' # posix_text p, ''dump-package'']) (Some env) w of
          (Launched, w) \<Rightarrow> (Inr (), w)
        | (ToolMissing name, w) \<Rightarrow>
            if \<not> dir_here ops p w then failing ''macos_local_package_manifest_directory_missing'' w
            else if name = hd command then failing ''macos_local_package_manifest_tool_unavailable'' w
            else failing ''macos_local_package_manifest_execution_failed'' w
        | (LaunchFailed e, w) \<Rightarrow> (Inl e, w))"

definition json_failure :: "exn_class \<Rightarrow> bool" where
  "json_failure c \<longleftrightarrow> c = ValueError \<or> c = JSONDecodeError \<or> c = UnicodeError \<or> c = TypeError"

text \<open>The value of the output of a tool that ended, with its exit code.\<close>

definition manifest_value :: "('w, 'z) manifest_ops_scheme \<Rightarrow> int option \<Rightarrow> bytes \<Rightarrow> exn + pyval" where
  "manifest_value ops c out =
     (if c \<noteq> None \<and> c \<noteq> Some 0 then raise InventoryError ''macos_local_package_manifest_evaluation_failed''
      else case manifest_json ops out of
          Inr v \<Rightarrow> Inr v
        | Inl e \<Rightarrow> if json_failure (exn_class_of e) then raise InventoryError ''macos_local_package_manifest_json_invalid'' else Inl e)"

text \<open>The body of the outer \<open>try\<close>: its result, whether there is a process, its exit code once the loop is over, and the capture.\<close>

definition dump_body ::
    "nat \<Rightarrow> ('w, 'z) manifest_ops_scheme \<Rightarrow> string list \<Rightarrow> (string \<times> string) list \<Rightarrow> int \<Rightarrow> path
     \<Rightarrow> 'w \<Rightarrow> ((exn + pyval) \<times> bool \<times> int option \<times> 'w capture) option" where
  "dump_body fuel ops command env timeout p w =
     (case start_manifest ops command env p w of
        (Inl e, w) \<Rightarrow> Some (Inl e, False, None, start_capture w)
      | (Inr _, w) \<Rightarrow>
          (case capture_loop fuel manifest_limits ops (monotonic ops w + timeout) (start_capture w) of
             None \<Rightarrow> None
           | Some (Inl e, s) \<Rightarrow> Some (Inl e, True, None, s)
           | Some (Inr _, s) \<Rightarrow> (case poll_exit ops (world_of s) of
               (c, w) \<Rightarrow> Some (manifest_value ops c (captured s Out), True, c, s\<lparr>world_of := w\<rparr>))))"

text \<open>A code that is not known to be safe is replaced.\<close>

definition generic_code :: string where
  "generic_code = ''macos_dependency_inventory_failed''"

definition safe_code :: "string \<Rightarrow> string" where
  "safe_code m = (if m \<in> set SAFE_ERROR_CODES then m else generic_code)"

text \<open>The \<open>except\<close> clauses and the status of a value.\<close>

definition execution_failed :: string where
  "execution_failed = ''macos_local_package_manifest_execution_failed''"

definition judged :: "exn + pyval \<Rightarrow> call \<Rightarrow> (exn + pyval) \<times> call" where
  "judged r c = (case r of
      Inr v \<Rightarrow> (Inr v, c\<lparr>call_status := ''complete''\<rparr>)
    | Inl e \<Rightarrow>
        if exn_class_of e = InventoryError
        then (Inl e, c\<lparr>call_reason := Some (safe_code (exn_message e))\<rparr>)
        else if exn_class_of e \<in> {OSError, ValueError, JSONDecodeError, UnicodeError}
        then (raise InventoryError execution_failed, c\<lparr>call_reason := Some execution_failed\<rparr>)
        else (Inl e, c))"

text \<open>
  The \<open>finally\<close> block. The process group is stopped with a second for each signal; an exception there ends the
  block and replaces the result.
\<close>

definition sizes :: "'w capture \<Rightarrow> call \<Rightarrow> call" where
  "sizes s c = c\<lparr>call_stdout := length (captured s Out), call_stderr := length (captured s Err),
     call_categories := manifest_stderr_categories (captured s Err)\<rparr>"

definition dump_finally ::
    "('w, 'z) manifest_ops_scheme \<Rightarrow> bool \<Rightarrow> 'w capture \<Rightarrow> (exn + pyval) \<Rightarrow> call \<Rightarrow> (exn + pyval) \<times> call \<times> 'w" where
  "dump_finally ops started s r c =
     (if \<not> started then (r, sizes s c, world_of s)
      else case stop_group ops 1000 (world_of s) of
          (Inl e, w) \<Rightarrow> (Inl e, c, w)
        | (Inr _, w) \<Rightarrow> (case poll_exit ops w of (code, w) \<Rightarrow> (r, sizes s (c\<lparr>call_exit := code\<rparr>), w)))"

definition dump_call ::
    "nat \<Rightarrow> ('w, 'z) manifest_ops_scheme \<Rightarrow> string list \<Rightarrow> (string \<times> string) list \<Rightarrow> int \<Rightarrow> path \<Rightarrow> call
     \<Rightarrow> 'w \<Rightarrow> ((exn + pyval) \<times> call \<times> 'w) option" where
  "dump_call fuel ops command env timeout p c w =
     (case dump_body fuel ops command env timeout (abspath p) w of
        None \<Rightarrow> None
      | Some (r, started, code, s) \<Rightarrow>
          (case judged r (c\<lparr>call_exit := code, call_expired := expired s, call_overran := overran s\<rparr>) of
             (r, c) \<Rightarrow> Some (dump_finally ops started s r c)))"

record dumper =
  tool_environment :: "(string \<times> string) list"
  tool_command :: "string list"
  time_limit :: int
  call_records :: "call list"

definition new_dumper :: "(string \<times> string) list \<Rightarrow> string \<Rightarrow> string option \<Rightarrow> int \<Rightarrow> exn + dumper" where
  "new_dumper environment mode swift timeout =
     rbind (manifest_environment environment mode) (\<lambda>env. Inr \<lparr>tool_environment = env,
       tool_command = (case swift of Some s \<Rightarrow> if s \<noteq> [] then [s] else SWIFT_COMMAND | None \<Rightarrow> SWIFT_COMMAND),
       time_limit = timeout, call_records = []\<rparr>)"

definition dump ::
    "nat \<Rightarrow> ('w, 'z) manifest_ops_scheme \<Rightarrow> dumper \<Rightarrow> path \<Rightarrow> string \<Rightarrow> pyval \<Rightarrow> 'w \<Rightarrow> ((exn + pyval) \<times> dumper \<times> 'w) option" where
  "dump fuel ops d p r v w =
     (case dump_call fuel ops (tool_command d) (tool_environment d) (time_limit d) p (first_call (length (call_records d) + 1) r v) w of
        None \<Rightarrow> None
      | Some (result, c, w) \<Rightarrow> Some (result, d\<lparr>call_records := call_records d @ [c]\<rparr>, w))"

text \<open>The report of a dumper.\<close>

record manifest_report =
  report_status :: string
  closure_complete :: bool
  manifest_count :: nat
  report_calls :: "call list"
  report_error :: "string option"

definition report :: "dumper \<Rightarrow> bool \<Rightarrow> string option \<Rightarrow> manifest_report" where
  "report d complete e = \<lparr>report_status = (if complete then ''complete'' else ''failed''), closure_complete = complete,
     manifest_count = length (call_records d), report_calls = call_records d,
     report_error = (case e of Some s \<Rightarrow> if s = [] then None else Some (safe_code s) | None \<Rightarrow> None)\<rparr>"

section \<open>What a call call_records\<close>

text \<open>A call whose value is returned, against one that raised.\<close>

definition complete_call :: "call \<Rightarrow> bool" where
  "complete_call c \<longleftrightarrow> call_status c = ''complete'' \<and> call_reason c = None \<and> \<not> call_expired c \<and> \<not> call_overran c"

definition failed_call :: "call \<Rightarrow> bool" where
  "failed_call c \<longleftrightarrow> call_status c = ''failed'' \<and> (\<exists>m. call_reason c = Some (safe_code m))"

lemma unmarked_start [simp]: "unmarked (start_capture w)"
  by (simp add: unmarked_def start_capture_def)

lemma dump_body_result:
  assumes "dump_body fuel ops command env timeout p w = Some (r, started, code, s)"
  shows "within manifest_limits s \<and> (\<forall>v. r = Inr v \<longrightarrow> started \<and> unmarked s \<and> manifest_json ops (captured s Out) = Inr v)"
proof -
  obtain q w1 where start: "start_manifest ops command env p w = (q, w1)" by fastforce
  show ?thesis
  proof (cases q)
    case (Inl e)
    with assms start show ?thesis by (auto simp: dump_body_def)
  next
    case (Inr x)
    with assms start obtain q' t where
        loop: "capture_loop fuel manifest_limits ops (monotonic ops w1 + timeout) (start_capture w1) = Some (q', t)"
      by (auto simp: dump_body_def split: option.splits)
    have within: "within manifest_limits (t\<lparr>world_of := u\<rparr>) \<longleftrightarrow> within manifest_limits t" for u by (simp add: within_def)
    have marks: "unmarked (t\<lparr>world_of := u\<rparr>) \<longleftrightarrow> unmarked t" for u by (simp add: unmarked_def)
    from assms start Inr loop capture_loop_result [OF loop] within marks show ?thesis
      by (cases q') (auto simp: dump_body_def manifest_value_def split: prod.splits if_splits sum.splits)
  qed
qed

lemma safe_code_known: "safe_code m = generic_code \<or> safe_code m \<in> set SAFE_ERROR_CODES"
  by (simp add: safe_code_def)

lemma execution_failed_safe: "safe_code execution_failed = execution_failed"
  by code_simp

lemma judged_failure:
  assumes "judged q c = (raise InventoryError m, c')" and "call_status c = ''failed''"
  shows "failed_call c'"
proof (cases q)
  case (Inl e)
  show ?thesis
  proof (cases "exn_class_of e = InventoryError")
    case True
    with assms Inl show ?thesis by (auto simp: judged_def failed_call_def)
  next
    case False
    show ?thesis
    proof (cases "exn_class_of e \<in> {OSError, ValueError, JSONDecodeError, UnicodeError}")
      case True
      with assms(1) Inl False have "c' = c\<lparr>call_reason := Some execution_failed\<rparr>" by (simp add: judged_def)
      with assms(2) execution_failed_safe show ?thesis unfolding failed_call_def by (intro conjI exI [of _ execution_failed]) simp_all
    next
      case False
      with assms(1) Inl \<open>exn_class_of e \<noteq> InventoryError\<close> have "e = Exn InventoryError m" by (simp add: judged_def)
      with \<open>exn_class_of e \<noteq> InventoryError\<close> show ?thesis by simp
    qed
  qed
qed (use assms in \<open>simp add: judged_def\<close>)

lemma judged_counts: "call_stdout (snd (judged q c)) = call_stdout c" "call_stderr (snd (judged q c)) = call_stderr c"
  by (simp_all add: judged_def split: sum.split)

text \<open>What the last block leaves of the record.\<close>

lemma dump_finally_result:
  assumes "dump_finally ops started s r c = (r', c', w')"
  obtains (kept) code where "r' = r" "c' = sizes s (c\<lparr>call_exit := code\<rparr>)"
    | (raised) e u v where "r' = Inl e" "c' = c" "stop_group ops 1000 u = (Inl e, v)"
proof (cases started)
  case True
  show ?thesis
  proof (cases "stop_group ops 1000 (world_of s)")
    case (Pair q w)
    with True assms that show ?thesis
      by (cases q) (auto simp: dump_finally_def split: prod.splits)
  qed
next
  case False
  with assms have "r' = r" "c' = sizes s (c\<lparr>call_exit := call_exit c\<rparr>)" by (auto simp: dump_finally_def)
  then show ?thesis by (rule kept)
qed

text \<open>What one call leaves: bounded counts; a returned value is the JSON of the output of an untroubled run.\<close>

lemma dump_call_result:
  assumes "dump_call fuel ops command env timeout p c w = Some (r, c', w')" and "call_status c = ''failed''" and "call_reason c = None"
    and "call_stdout c = 0" and "call_stderr c = 0"
  shows "call_stdout c' \<le> MANIFEST_STDOUT_LIMIT \<and> call_stderr c' \<le> MANIFEST_STDERR_LIMIT
    \<and> (\<forall>v. r = Inr v \<longrightarrow> complete_call c' \<and> (\<exists>out. manifest_json ops out = Inr v \<and> length out = call_stdout c'))
    \<and> (\<forall>m. r = raise InventoryError m \<longrightarrow> failed_call c' \<or> (\<exists>u v. stop_group ops 1000 u = (raise InventoryError m, v)))"
proof -
  obtain q started code s where body: "dump_body fuel ops command env timeout (abspath p) w = Some (q, started, code, s)"
    using assms(1) by (auto simp: dump_call_def split: option.splits)
  obtain q2 c2 where judged: "judged q (c\<lparr>call_exit := code, call_expired := expired s, call_overran := overran s\<rparr>) = (q2, c2)" by fastforce
  from assms(1) body judged have final: "dump_finally ops started s q2 c2 = (r, c', w')" by (simp add: dump_call_def)
  note result = dump_body_result [OF body]
  then have sizes: "length (captured s Out) \<le> MANIFEST_STDOUT_LIMIT" "length (captured s Err) \<le> MANIFEST_STDERR_LIMIT"
    by (auto simp: within_def manifest_limits_def split: stream.splits dest: spec [of _ Out] spec [of _ Err])
  have good: "complete_call c2 \<and> started \<and> manifest_json ops (captured s Out) = Inr v" if "q2 = Inr v" for v
    using judged that result assms(2, 3)
    by (auto simp: judged_def complete_call_def unmarked_def split: sum.splits if_splits)
  have bad: "failed_call c2" if "q2 = raise InventoryError m" for m
    using judged_failure [OF judged [unfolded that]] assms(2) by simp
  have small: "call_stdout c2 = 0" "call_stderr c2 = 0"
    using judged_counts [of q "c\<lparr>call_exit := code, call_expired := expired s, call_overran := overran s\<rparr>"] judged assms(4, 5) by simp_all
  from final show ?thesis
  proof (cases rule: dump_finally_result)
    case (kept code)
    have "complete_call c' \<longleftrightarrow> complete_call c2" "failed_call c' \<longleftrightarrow> failed_call c2" "call_stdout c' = length (captured s Out)"
        "call_stderr c' = length (captured s Err)"
      using kept(2) by (simp_all add: sizes_def complete_call_def failed_call_def)
    with kept(1) good bad sizes show ?thesis by auto
  next
    case (raised e u v)
    with small show ?thesis by auto
  qed
qed

lemma dump_call_returns:
  assumes "fair_pipes ops" and "2 + MANIFEST_STDOUT_LIMIT + MANIFEST_STDERR_LIMIT + nat timeout < fuel"
  shows "\<exists>r c' w'. dump_call fuel ops command env timeout p c w = Some (r, c', w')"
proof -
  have "dump_body fuel ops command env timeout q w \<noteq> None" for q
  proof (cases "start_manifest ops command env q w")
    case (Pair r u)
    show ?thesis
    proof (cases r)
      case (Inr x)
      have "work_left manifest_limits ops (monotonic ops u + timeout) (start_capture u) < fuel"
        using assms(2) by (simp add: work_left_def space_left_def start_capture_def manifest_limits_def)
      from capture_returns [OF assms(1) this] obtain q t
        where "capture_loop fuel manifest_limits ops (monotonic ops u + timeout) (start_capture u) = Some (q, t)" by blast
      with Pair Inr show ?thesis by (cases q) (auto simp: dump_body_def split: prod.splits)
    qed (use Pair in \<open>simp add: dump_body_def\<close>)
  qed
  then obtain q started code s where "dump_body fuel ops command env timeout (abspath p) w = Some (q, started, code, s)" by fastforce
  then show ?thesis by (simp add: dump_call_def split: prod.split) (metis surj_pair)
qed

section \<open>A sample evaluation\<close>

text \<open>The world counts the steps of a tool that writes one object in two pieces and ends with 0.\<close>

definition sample_tool :: "nat manifest_ops" where
  "sample_tool = \<lparr>monotonic = int, ready = (\<lambda>ks t w. (ks, w + 1 + (if ks = [] then nat t else 0))),
     read_some = (\<lambda>k n w. (Inr (if k = Out \<and> w = 2 then [123] else if k = Out \<and> w = 5 then [125] else []), w + 1)),
     poll_exit = (\<lambda>w. (Some 0, w)), launch = (\<lambda>c e w. (Launched, w + 1)), kill_group = (\<lambda>g w. (Some (Failure Missing None), w)),
     wait_child = (\<lambda>t w. (None, w)), dir_here = (\<lambda>p w. True), file_here = (\<lambda>p w. True),
     manifest_json = (\<lambda>bs. if bs = [123, 125] then Inr (PDict []) else raise JSONDecodeError [])\<rparr>"

lemma sample_tool_fair: "fair_pipes sample_tool"
proof -
  have "events ks ks = [] \<longleftrightarrow> ks = []" for ks by (cases ks) (auto simp: events_def filter_empty_conv)
  then have "monotonic sample_tool w + (if events ks (fst (ready sample_tool ks t w)) = [] then t else 0)
      \<le> monotonic sample_tool (snd (ready sample_tool ks t w))" for ks t w
    by (simp add: sample_tool_def)
  moreover have "monotonic sample_tool w \<le> monotonic sample_tool (snd (poll_exit sample_tool w))"
      "monotonic sample_tool w \<le> monotonic sample_tool (snd (read_some sample_tool k n w))" for k n w
    by (simp_all add: sample_tool_def)
  ultimately show ?thesis unfolding fair_pipes_def by blast
qed

definition sample_dumper :: dumper where
  "sample_dumper = \<lparr>tool_environment = [], tool_command = SWIFT_COMMAND, time_limit = 50, call_records = []\<rparr>"

section \<open>Properties\<close>



end
