(* ===== verification/Xcframework.thy ===== *)
theory Xcframework
  imports Macos_Inventory
begin

text \<open>
  The libraries of a binary target, from \<open>tool/sentry_macos_inventory.py\<close>: a plain library file, or the macOS
  libraries of an XCFramework as its own property list describes them. Sets of architectures are lists.
\<close>

record xc_env = inventory_env +
  present :: "path \<Rightarrow> bool"

abbreviation inventory_error :: "string \<Rightarrow> exn + 'a" where
  "inventory_error code \<equiv> raise InventoryError code"

definition bad_metadata :: "exn + 'a" where
  "bad_metadata = inventory_error ''invalid_macos_xcframework_metadata''"

definition unsafe_path :: "exn + 'a" where
  "unsafe_path = inventory_error ''unsafe_macos_xcframework_path''"

definition no_artifact :: "exn + 'a" where
  "no_artifact = inventory_error ''macos_binary_package_artifact_missing''"

definition no_container :: "exn + 'a" where
  "no_container = inventory_error ''unsupported_macos_binary_package_container''"

text \<open>\<open>p.resolve().is_relative_to(base.resolve())\<close>.\<close>

definition resolves_below :: "('z) inventory_env_scheme \<Rightarrow> path \<Rightarrow> path \<Rightarrow> exn + bool" where
  "resolves_below env p base =
     rbind (resolve (files_of env) p) (\<lambda>q. rbind (resolve (files_of env) base) (\<lambda>r. Inr (is_relative_to q r)))"

definition odd_path :: "string \<Rightarrow> bool" where
  "odd_path s \<longleftrightarrow> s = [] \<or> is_absolute s \<or> char_of (92 :: nat) \<in> set s \<or> char_of (0 :: nat) \<in> set s
     \<or> list_ex (\<lambda>p. p \<in> set [''.'', ''..'']) (path_parts s)"

definition xcframework_path :: "('z) inventory_env_scheme \<Rightarrow> path \<Rightarrow> pyval \<Rightarrow> exn + path" where
  "xcframework_path env root v =
     (case text_of v of
        None \<Rightarrow> unsafe_path
      | Some s \<Rightarrow> if odd_path s then unsafe_path
          else rbind (resolves_below env (root @ path_parts s) root) (\<lambda>below.
            if below then Inr (root @ path_parts s) else unsafe_path))"

text \<open>A name that is one component of a path.\<close>

definition plain_name :: "pyval \<Rightarrow> string option" where
  "plain_name v = (case text_of v of Some s \<Rightarrow> if path_name (path_parts s) = s then Some s else None | None \<Rightarrow> None)"

definition library_architectures :: "pyval \<Rightarrow> exn + string list" where
  "library_architectures v =
     (case as_list v of
        Some (x # xs) \<Rightarrow> if \<not> list_all is_str (x # xs) \<or> \<not> distinct (x # xs) then bad_metadata else traverse label (x # xs)
      | _ \<Rightarrow> bad_metadata)"

definition plist_failure :: "exn_class \<Rightarrow> bool" where
  "plist_failure c \<longleftrightarrow> c = OSError \<or> c = ValueError \<or> c = UnicodeError"

definition excepting :: "(exn_class \<Rightarrow> bool) \<Rightarrow> exn + 'a \<Rightarrow> exn + 'a" where
  "excepting P r = (case r of Inl e \<Rightarrow> if P (exn_class_of e) then bad_metadata else Inl e | Inr x \<Rightarrow> Inr x)"

text \<open>The executable of a framework, by the first of its two possible property lists.\<close>

definition framework_binary :: "('z) inventory_env_scheme \<Rightarrow> path \<Rightarrow> path \<Rightarrow> exn + path" where
  "framework_binary env variant library =
     (case filter (is_file (files_of env)) [library @ [''Info.plist''], library @ [''Resources'', ''Info.plist'']] of
        [] \<Rightarrow> bad_metadata
      | info # _ \<Rightarrow>
          rbind (resolves_below env info variant) (\<lambda>below.
            if \<not> below then bad_metadata
            else rbind (excepting (\<lambda>c. plist_failure c \<or> c = TypeError \<or> c = KeyError)
                (rbind (content (files_of env) info) (\<lambda>data. rbind (plist_of env data) (\<lambda>v. subscript v ''CFBundleExecutable''))))
              (\<lambda>executable. case plain_name executable of
                  None \<Rightarrow> bad_metadata
                | Some name \<Rightarrow> xcframework_path env library (PStr name))))"

definition library_binary :: "('z) inventory_env_scheme \<Rightarrow> path \<Rightarrow> path \<Rightarrow> pyval \<Rightarrow> exn + path" where
  "library_binary env variant library binary_path =
     (if truthy binary_path
      then rbind (xcframework_path env variant binary_path) (\<lambda>binary.
        rbind (resolve (files_of env) binary) (\<lambda>b. rbind (resolve (files_of env) library) (\<lambda>l.
          if is_file (files_of env) library \<and> b \<noteq> l \<or> is_dir (files_of env) library \<and> \<not> is_relative_to b l
          then unsafe_path else Inr binary)))
      else if is_file (files_of env) library then Inr library
      else if path_suffix library = ''.framework'' then framework_binary env variant library
      else no_container)"

definition debug_roots :: "('z) inventory_env_scheme \<Rightarrow> path \<Rightarrow> pyval \<Rightarrow> exn + path list" where
  "debug_roots env variant v =
     (if \<not> truthy v then Inr []
      else rbind (xcframework_path env variant v) (\<lambda>debug. if is_dir (files_of env) debug then Inr [debug] else no_artifact))"

record vendor_library =
  lib_binary :: path
  lib_debug :: "path list"
  lib_architectures :: "string list"

definition library_files :: "xc_env \<Rightarrow> path \<Rightarrow> pydict \<Rightarrow> string list \<Rightarrow> exn + vendor_library" where
  "library_files env root item architectures =
     (case plain_name (dict_get item ''LibraryIdentifier'') of
        None \<Rightarrow> bad_metadata
      | Some identifier \<Rightarrow>
          rbind (xcframework_path env root (PStr identifier)) (\<lambda>variant.
          rbind (xcframework_path env variant (dict_get item ''LibraryPath'')) (\<lambda>library.
            if \<not> present env library then no_artifact
            else rbind (library_binary env variant library (dict_get item ''BinaryPath'')) (\<lambda>binary.
              if \<not> is_file (files_of env) binary then no_artifact
              else rbind (debug_roots env variant (dict_get item ''DebugSymbolsPath'')) (\<lambda>debug.
                Inr \<lparr>lib_binary = binary, lib_debug = debug, lib_architectures = architectures\<rparr>)))))"

record selection =
  chosen :: "vendor_library list"
  covered :: "string list"

definition common :: "string list \<Rightarrow> string list \<Rightarrow> string list" where
  "common xs ys = filter (\<lambda>x. x \<in> set ys) xs"

text \<open>One entry of \<open>AvailableLibraries\<close>: other platforms and architectures nobody needs are passed over.\<close>

definition select_library :: "xc_env \<Rightarrow> path \<Rightarrow> string list \<Rightarrow> selection \<Rightarrow> pyval \<Rightarrow> exn + selection" where
  "select_library env root required s v =
     (case v of
        PDict item \<Rightarrow>
          (case text_of (dict_get item ''SupportedPlatform'') of
             None \<Rightarrow> bad_metadata
           | Some platform \<Rightarrow>
               if platform \<noteq> ''macos'' \<or> truthy (dict_get item ''SupportedPlatformVariant'') then Inr s
               else rbind (library_architectures (dict_get item ''SupportedArchitectures'')) (\<lambda>architectures.
                 let relevant = common architectures required in
                 if relevant = [] then Inr s
                 else if common relevant (covered s) \<noteq> [] then bad_metadata
                 else rbind (library_files env root item architectures) (\<lambda>l.
                   Inr \<lparr>chosen = chosen s @ [l], covered = covered s @ relevant\<rparr>)))
      | _ \<Rightarrow> bad_metadata)"

definition available_libraries :: "pyval \<Rightarrow> exn + pyval list" where
  "available_libraries v =
     (case v of
        PDict d \<Rightarrow> (case as_list (dict_get d ''AvailableLibraries'') of
            Some items \<Rightarrow> if dict_get d ''CFBundlePackageType'' = PStr ''XFWK'' then Inr items else bad_metadata
          | None \<Rightarrow> bad_metadata)
      | _ \<Rightarrow> bad_metadata)"

definition selected_vendor_libraries :: "xc_env \<Rightarrow> path \<Rightarrow> string list \<Rightarrow> exn + vendor_library list" where
  "selected_vendor_libraries env root required =
     (if path_suffix root \<noteq> ''.xcframework''
      then (if is_file (files_of env) root then Inr [\<lparr>lib_binary = root, lib_debug = [], lib_architectures = required\<rparr>]
        else no_container)
      else rbind (xcframework_path env root (PStr ''Info.plist'')) (\<lambda>info.
        rbind (excepting plist_failure (rbind (content (files_of env) info) (plist_of env))) (\<lambda>v.
        rbind (available_libraries v) (\<lambda>items.
        rbind (foldE (select_library env root required) \<lparr>chosen = [], covered = []\<rparr> items) (\<lambda>s.
          if chosen s = [] then inventory_error ''macos_xcframework_macos_library_missing''
          else if \<not> list_all (\<lambda>a. a \<in> set (covered s)) required then inventory_error ''macos_xcframework_architecture_missing''
          else Inr (chosen s))))))"

section \<open>What a selection holds\<close>

definition really_below :: "('z) inventory_env_scheme \<Rightarrow> path \<Rightarrow> path \<Rightarrow> bool" where
  "really_below env p base \<longleftrightarrow> (\<exists>q r. resolve (files_of env) p = Inr q \<and> resolve (files_of env) base = Inr r \<and> is_relative_to q r)"

lemma resolves_below_True: "resolves_below env p base = Inr True \<longleftrightarrow> really_below env p base"
  by (auto simp: resolves_below_def really_below_def)

lemma really_below_trans: "really_below env p q \<Longrightarrow> really_below env q r \<Longrightarrow> really_below env p r"
  unfolding really_below_def using is_relative_to_trans by fastforce

lemma errors_neq_Inr [simp]: "bad_metadata \<noteq> Inr x" "unsafe_path \<noteq> Inr x" "no_artifact \<noteq> Inr x" "no_container \<noteq> Inr x"
  by (simp_all add: bad_metadata_def unsafe_path_def no_artifact_def no_container_def)

lemma xcframework_path_below: "xcframework_path env root v = Inr p \<Longrightarrow> really_below env p root"
  by (auto simp: xcframework_path_def resolves_below_True split: option.splits if_splits)

lemma framework_binary_below:
  "framework_binary env variant library = Inr binary \<Longrightarrow> really_below env binary library"
  by (auto simp: framework_binary_def split: list.splits if_splits option.splits dest: xcframework_path_below)

lemma library_binary_below:
  assumes "library_binary env variant library v = Inr binary" and "really_below env library variant"
  shows "really_below env binary variant"
  using assms by (auto simp: library_binary_def split: if_splits dest: xcframework_path_below framework_binary_below really_below_trans)

definition library_ok :: "xc_env \<Rightarrow> path \<Rightarrow> vendor_library \<Rightarrow> bool" where
  "library_ok env root l \<longleftrightarrow> is_file (files_of env) (lib_binary l) \<and> really_below env (lib_binary l) root
     \<and> (\<forall>d\<in>set (lib_debug l). is_dir (files_of env) d \<and> really_below env d root)"

lemma library_files_ok:
  assumes "library_files env root item architectures = Inr l"
  shows "library_ok env root l \<and> lib_architectures l = architectures"
proof -
  from assms obtain name variant library binary debug where
      variant: "xcframework_path env root (PStr name) = Inr variant"
    and library: "xcframework_path env variant (dict_get item ''LibraryPath'') = Inr library"
    and binary: "library_binary env variant library (dict_get item ''BinaryPath'') = Inr binary"
    and here: "is_file (files_of env) binary" and debug: "debug_roots env variant (dict_get item ''DebugSymbolsPath'') = Inr debug"
    and l: "l = \<lparr>lib_binary = binary, lib_debug = debug, lib_architectures = architectures\<rparr>"
    by (auto simp: library_files_def split: option.splits if_splits)
  have below: "really_below env variant root" by (rule xcframework_path_below [OF variant])
  have "really_below env binary root"
    using library_binary_below [OF binary xcframework_path_below [OF library]] below really_below_trans by blast
  moreover have "is_dir (files_of env) d \<and> really_below env d root" if "d \<in> set debug" for d
    using debug that really_below_trans [OF xcframework_path_below below] by (auto simp: debug_roots_def split: if_splits)
  ultimately show ?thesis using here l by (simp add: library_ok_def)
qed

text \<open>How many of the chosen libraries hold an architecture that is needed.\<close>

definition holders :: "string \<Rightarrow> vendor_library list \<Rightarrow> nat" where
  "holders a ls = length (filter (\<lambda>l. a \<in> set (lib_architectures l)) ls)"

definition selection_ok :: "xc_env \<Rightarrow> path \<Rightarrow> string list \<Rightarrow> selection \<Rightarrow> bool" where
  "selection_ok env root required s \<longleftrightarrow> list_all (library_ok env root) (chosen s)
     \<and> (\<forall>a\<in>set required. holders a (chosen s) = (if a \<in> set (covered s) then 1 else 0))"

lemma select_library_ok:
  assumes "select_library env root required s v = Inr t" and "selection_ok env root required s"
  shows "selection_ok env root required t"
proof (cases "t = s")
  case False
  with assms(1) obtain item architectures l where fresh: "common (common architectures required) (covered s) = []"
      and l: "library_files env root item architectures = Inr l"
      and t: "t = \<lparr>chosen = chosen s @ [l], covered = covered s @ common architectures required\<rparr>"
    by (auto simp: select_library_def Let_def split: pyval.splits option.splits if_splits)
  have "a \<notin> set (covered s)" if "a \<in> set required" "a \<in> set architectures" for a
    using fresh that by (auto simp: common_def filter_empty_conv)
  with library_files_ok [OF l] t assms(2) show ?thesis
    by (auto simp: selection_ok_def holders_def common_def)
qed (use assms(2) in simp)

section \<open>A sample framework\<close>

definition sample_metadata :: pyval where
  "sample_metadata = PDict [(''CFBundlePackageType'', PStr ''XFWK''), (''AvailableLibraries'', PList
     [PDict [(''SupportedPlatform'', PStr ''ios'')],
      PDict [(''SupportedPlatform'', PStr ''macos''), (''SupportedArchitectures'', text_list [''arm64'', ''x86_64'']),
        (''LibraryIdentifier'', PStr ''macos-any''), (''LibraryPath'', PStr ''libA.a'')]])]"

definition sample_vendor :: xc_env where
  "sample_vendor = inventory_env.extend (sample_build\<lparr>plist_of := (\<lambda>bs. Inr sample_metadata),
     files_of := (files_of sample_build)\<lparr>is_file := (\<lambda>p. p = [''A.xcframework'', ''macos-any'', ''libA.a'']), content := (\<lambda>p. Inr [])\<rparr>\<rparr>)
     \<lparr>present = (\<lambda>p. True)\<rparr>"

text \<open>C21: The libraries selected for a binary target cover every architecture that is needed exactly once, and each
  is a file; of an XCFramework, binaries and debug directories really lie below its root, links followed.\<close>

theorem selected_libraries_sound:
  assumes "selected_vendor_libraries env root required = Inr ls"
  shows "ls \<noteq> [] \<and> (\<forall>a\<in>set required. holders a ls = 1) \<and> (\<forall>l\<in>set ls. is_file (files_of env) (lib_binary l))
    \<and> (path_suffix root = ''.xcframework'' \<longrightarrow> list_all (library_ok env root) ls)"
proof (cases "path_suffix root = ''.xcframework''")
  case True
  with assms obtain items s where items: "foldE (select_library env root required) \<lparr>chosen = [], covered = []\<rparr> items = Inr s"
      and s: "ls = chosen s" "chosen s \<noteq> []" "list_all (\<lambda>a. a \<in> set (covered s)) required"
    by (auto simp: selected_vendor_libraries_def split: if_splits)
  have "selection_ok env root required s"
  proof (rule foldE_invariant [OF items])
    show "selection_ok env root required \<lparr>chosen = [], covered = []\<rparr>" by (simp add: selection_ok_def holders_def)
  qed (rule select_library_ok)
  with s show ?thesis by (auto simp: selection_ok_def list_all_iff library_ok_def)
next
  case False
  with assms show ?thesis by (auto simp: selected_vendor_libraries_def holders_def split: if_splits)
qed

lemma selected_libraries_sound_witness:
  "\<exists>l. selected_vendor_libraries sample_vendor [''A.xcframework''] [''arm64''] = Inr [l] \<and> holders ''arm64'' [l] = 1
     \<and> lib_binary l = [''A.xcframework'', ''macos-any'', ''libA.a'']"
proof -
  let ?r = "selected_vendor_libraries sample_vendor [''A.xcframework''] [''arm64'']"
  have "case ?r of Inl e \<Rightarrow> False | Inr ls \<Rightarrow> map lib_binary ls = [[''A.xcframework'', ''macos-any'', ''libA.a'']]" by code_simp
  then obtain ls where ls: "?r = Inr ls" and binaries: "map lib_binary ls = [[''A.xcframework'', ''macos-any'', ''libA.a'']]"
    by (auto split: sum.splits)
  moreover from binaries obtain l where "ls = [l]" by auto
  ultimately show ?thesis using selected_libraries_sound [OF ls] by auto
qed

end
