(* ===== verification/Package_Graph.thy ===== *)
theory Package_Graph
  imports Xcframework Manifest_Dump "HOL-Library.AList"
begin

text \<open>
  The walk over the Swift packages of a build, \<open>PackageGraph\<close> of \<open>tool/sentry_macos_inventory.py\<close>: the state of
  the resolved workspace, the identities of packages, their manifests, dependencies, products and targets. The
  dictionaries of the object are association lists in insertion order; the evaluation of a manifest is a
  parameter. A recursion that is too deep raises \<open>RecursionError\<close>, the fuel being the number of calls allowed.
\<close>

section \<open>The graph\<close>

record graph_env = xc_env +
  g_root :: path
  g_cache :: path
  g_modules :: "runtime_row list"
  manifest_only :: bool
  evaluate :: "path \<Rightarrow> string \<Rightarrow> string \<Rightarrow> exn + pyval"

type_synonym key = "string \<times> string"

record selected =
  sel_path :: path
  sel_product :: string
  sel_host :: string
  sel_targets :: "pyval list"

record graph =
  packages :: "(path \<times> pydict) list"
  visited :: "(path \<times> string \<times> string) list"
  sources :: "(key \<times> string list) list"
  binaries :: "(key \<times> string list) list"
  products :: "(string \<times> string) list"
  identities :: "(path \<times> string) list"
  identity_paths :: "(string \<times> path) list"
  manifest_roles :: "(path \<times> string \<times> string) list"
  module_parents :: "(string \<times> string list) list"
  descriptors :: "(key \<times> path \<times> pydict) list"
  ambiguous :: "key list"
  selected_products :: "selected list"
  package_paths :: "(key \<times> path list) list"
  vendor_targets :: "(key \<times> path list) list"

type_synonym 'a walk = "(graph, 'a) cmd"

definition new_graph :: "graph_env \<Rightarrow> graph" where
  "new_graph env = \<lparr>packages = [], visited = [], sources = [], binaries = [], products = [], identities = [], identity_paths = [],
     manifest_roles = [(g_root env, ''generated_root'', ''FlutterGeneratedPluginSwiftPackage'')], module_parents = [],
     descriptors = [], ambiguous = [], selected_products = [], package_paths = [], vendor_targets = []\<rparr>"

definition fail :: "string \<Rightarrow> ('s, 'a) cmd" where
  "fail code = throw InventoryError code"

text \<open>\<open>d.setdefault(key, v)\<close>, and \<open>d.setdefault(key, set()).update(xs)\<close>.\<close>

definition set_default :: "('k \<times> 'v) list \<Rightarrow> 'k \<Rightarrow> 'v \<Rightarrow> ('k \<times> 'v) list" where
  "set_default d k v = (case map_of d k of None \<Rightarrow> AList.update k v d | Some _ \<Rightarrow> d)"

definition join_to :: "('k \<times> 'v list) list \<Rightarrow> 'k \<Rightarrow> 'v list \<Rightarrow> ('k \<times> 'v list) list" where
  "join_to d k xs = (let old = (case map_of d k of None \<Rightarrow> [] | Some ys \<Rightarrow> ys) in
     AList.update k (old @ filter (\<lambda>x. x \<notin> set old) (remdups xs)) d)"

definition logical_package_path :: "path \<Rightarrow> string \<Rightarrow> path" where
  "logical_package_path owner s = abspath (path_join owner s)"

definition replace_char :: "char \<Rightarrow> char \<Rightarrow> string \<Rightarrow> string" where
  "replace_char a b s = map (\<lambda>c. if c = a then b else c) s"

definition name_aliases :: "pyval \<Rightarrow> exn + string list" where
  "name_aliases v = rbind (label v) (\<lambda>name. Inr [name, replace_char (CHR ''-'') (CHR ''_'') name, replace_char (CHR ''_'') (CHR ''-'') name])"

section \<open>The resolved workspace\<close>

definition state_file :: "graph_env \<Rightarrow> path" where
  "state_file env = g_cache env @ [''workspace-state.json'']"

definition unsupported_state :: "exn + 'a" where
  "unsupported_state = inventory_error ''unsupported_macos_resolved_package_state''"

definition state_failure :: "exn_class \<Rightarrow> bool" where
  "state_failure c \<longleftrightarrow> c = OSError \<or> c = ValueError \<or> c = JSONDecodeError \<or> c = UnicodeError"

definition state_item_ok :: "string list \<Rightarrow> pyval \<Rightarrow> bool" where
  "state_item_ok texts v = (case v of
      PDict item \<Rightarrow> (case dict_get item ''packageRef'' of
          PDict ref \<Rightarrow> is_str (dict_get ref ''identity'') \<and> list_all (\<lambda>k. is_str (dict_get item k)) texts
        | _ \<Rightarrow> False)
    | _ \<Rightarrow> False)"

definition state_object :: "pyval \<Rightarrow> exn + pydict" where
  "state_object v = (case v of
      PDict d \<Rightarrow>
        if \<not> hashable (dict_get d ''version'') then raise TypeError ''unhashable''
        else if \<not> py_member (dict_get d ''version'') (map PInt [4, 5, 6, 7]) then unsupported_state
        else (case dict_get d ''object'' of PDict obj \<Rightarrow> Inr obj | _ \<Rightarrow> unsupported_state)
    | _ \<Rightarrow> unsupported_state)"

text \<open>The dependencies and the artifacts of the resolved workspace, each with the text it needs.\<close>

definition workspace_state :: "graph_env \<Rightarrow> exn + pydict list \<times> pydict list" where
  "workspace_state env =
     rbind (case rbind (content (files_of env) (state_file env)) (json_of env) of
         Inr v \<Rightarrow> Inr v
       | Inl e \<Rightarrow> if state_failure (exn_class_of e) then inventory_error ''macos_resolved_package_state_unavailable'' else Inl e) (\<lambda>v.
     rbind (state_object v) (\<lambda>obj.
       case (as_list (dict_get obj ''dependencies''), as_list (dict_get obj ''artifacts'')) of
         (Some ds, Some as) \<Rightarrow>
           if list_all (state_item_ok [''subpath'']) ds \<and> list_all (state_item_ok [''targetName'', ''path'']) as
           then Inr (map items_of ds, map items_of as) else unsupported_state
       | _ \<Rightarrow> unsupported_state))"

definition text_at :: "pydict \<Rightarrow> string \<Rightarrow> string" where
  "text_at d k = (case text_of (dict_get d k) of Some s \<Rightarrow> s | None \<Rightarrow> [])"

definition reference :: "pydict \<Rightarrow> pydict" where
  "reference item = items_of (dict_get item ''packageRef'')"

definition matching_dependencies :: "graph_env \<Rightarrow> pyval \<Rightarrow> exn + pydict list" where
  "matching_dependencies env v =
     rbind (workspace_state env) (\<lambda>(ds, _).
       if ds = [] then Inr []
       else rbind (label v) (\<lambda>name. Inr (filter (\<lambda>d. lower_text (text_at (reference d) ''identity'') = lower_text name) ds)))"

definition local_kinds :: "string list" where
  "local_kinds = [''fileSystem'', ''local'', ''root'']"

definition reference_location :: "pydict \<Rightarrow> exn + path" where
  "reference_location ref =
     (case text_of (dict_get_default ref ''location'' (dict_get ref ''path'')) of
        Some s \<Rightarrow> if is_absolute s then Inr (logical_package_path [] s) else unsupported_state
      | None \<Rightarrow> unsupported_state)"

definition resolved_local_path :: "graph_env \<Rightarrow> pyval \<Rightarrow> exn + path option" where
  "resolved_local_path env v =
     (if \<not> is_file (files_of env) (state_file env) then Inr None
      else rbind (matching_dependencies env v) (\<lambda>matches.
        case matches of
          [] \<Rightarrow> Inr None
        | [m] \<Rightarrow> rbind (member_of (dict_get (reference m) ''kind'') local_kinds) (\<lambda>here.
            if here then rbind (reference_location (reference m)) (\<lambda>p. Inr (Some p)) else Inr None)
        | _ \<Rightarrow> inventory_error ''macos_package_identity_path_conflict''))"

section \<open>Identities\<close>

definition same_place :: "graph_env \<Rightarrow> path \<Rightarrow> path \<Rightarrow> exn + bool" where
  "same_place env p q = rbind (resolve (files_of env) p) (\<lambda>a. rbind (resolve (files_of env) q) (\<lambda>b. Inr (a = b)))"

definition record_identity :: "string \<Rightarrow> path \<Rightarrow> path walk" where
  "record_identity name p =
     seq (updating (\<lambda>g. g\<lparr>identity_paths := AList.update name p (identity_paths g)\<rparr>)) (\<lambda>_.
     seq (reading identities) (\<lambda>named.
       if map_of named p \<notin> {None, Some name} then fail ''macos_package_identity_path_conflict''
       else seq (updating (\<lambda>g. g\<lparr>identities := AList.update p name (identities g)\<rparr>)) (\<lambda>_. ret p)))"

text \<open>One identity has one path, and the first path it was bound to is kept.\<close>

definition bind_identity :: "graph_env \<Rightarrow> pyval \<Rightarrow> path \<Rightarrow> path walk" where
  "bind_identity env v p =
     seq (lift_result (label v)) (\<lambda>name. let name = lower_text name in
     seq (reading identity_paths) (\<lambda>known.
     seq (case map_of known name of
         None \<Rightarrow> ret (abspath p)
       | Some q \<Rightarrow> seq (lift_result (same_place env q (abspath p))) (\<lambda>same.
           if same then ret q else fail ''macos_package_identity_path_conflict'')) (\<lambda>p.
       record_identity name p)))"

definition note_role :: "path \<Rightarrow> string \<Rightarrow> string \<Rightarrow> unit walk" where
  "note_role p role name = updating (\<lambda>g. g\<lparr>manifest_roles := set_default (manifest_roles g) p (role, name)\<rparr>)"

definition missing_checkout :: "exn + 'a" where
  "missing_checkout = inventory_error ''macos_resolved_package_checkout_missing''"

text \<open>Where a resolved dependency lies: a local one where it says, a remote one in the checkouts.\<close>

definition checkout_path :: "graph_env \<Rightarrow> pydict \<Rightarrow> exn + path" where
  "checkout_path env m =
     rbind (label (dict_get m ''subpath'')) (\<lambda>subpath. let p = g_cache env @ [''checkouts'', subpath] in
     rbind (member_of (dict_get (reference m) ''kind'') local_kinds) (\<lambda>here.
       if here then reference_location (reference m)
       else rbind (resolves_below env p (g_cache env)) (\<lambda>below. if below then Inr p else missing_checkout)))"

text \<open>The result of the search, before the identity is bound; None only where an optional one is missing.\<close>

definition find_checkout :: "graph_env \<Rightarrow> pyval \<Rightarrow> bool \<Rightarrow> exn + path option" where
  "find_checkout env v optional =
     (if optional \<and> \<not> is_file (files_of env) (state_file env) then Inr None
      else rbind (matching_dependencies env v) (\<lambda>matches.
        case matches of
          [] \<Rightarrow> if optional then Inr None else missing_checkout
        | [m] \<Rightarrow>
            if plain_name (dict_get m ''subpath'') = None then missing_checkout
            else rbind (checkout_path env m) (\<lambda>p.
              if is_dir (files_of env) p \<and> is_file (files_of env) (p @ [''Package.swift'']) then Inr (Some p)
              else if optional then Inr None else missing_checkout)
        | _ \<Rightarrow> missing_checkout))"

definition checkout :: "graph_env \<Rightarrow> pyval \<Rightarrow> bool \<Rightarrow> path option walk" where
  "checkout env v optional =
     seq (lift_result (find_checkout env v optional)) (\<lambda>found.
       case found of
         None \<Rightarrow> ret None
       | Some p \<Rightarrow> seq (bind_identity env v p) (\<lambda>p. seq (lift_result (label v)) (\<lambda>name.
           seq (note_role p ''dependency_remote'' name) (\<lambda>_. ret (Some p)))))"

section \<open>Manifests\<close>

definition bad_manifest :: "exn + 'a" where
  "bad_manifest = inventory_error ''invalid_macos_package_manifest''"

definition is_dict :: "pyval \<Rightarrow> bool" where
  "is_dict v \<longleftrightarrow> (case v of PDict d \<Rightarrow> True | _ \<Rightarrow> False)"

definition product_item_ok :: "pyval \<Rightarrow> bool" where
  "product_item_ok v = (case v of
      PDict d \<Rightarrow> is_str (dict_get d ''name'') \<and> is_dict (dict_get d ''type'') \<and> as_list (dict_get d ''targets'') \<noteq> None | _ \<Rightarrow> False)"

definition target_item_ok :: "pyval \<Rightarrow> bool" where
  "target_item_ok v = (case v of
      PDict d \<Rightarrow> is_str (dict_get d ''name'') \<and> is_str (dict_get d ''type'') \<and> as_list (dict_get d ''dependencies'') \<noteq> None | _ \<Rightarrow> False)"

definition check_manifest :: "pyval \<Rightarrow> exn + pydict" where
  "check_manifest v = (case v of
      PDict d \<Rightarrow> rbind (label (dict_get d ''name'')) (\<lambda>_.
        case (as_list (dict_get d ''products''), as_list (dict_get d ''targets''), as_list (dict_get d ''dependencies'')) of
          (Some ps, Some ts, Some ds) \<Rightarrow> if list_all product_item_ok ps \<and> list_all target_item_ok ts then Inr d else bad_manifest
        | _ \<Rightarrow> bad_manifest)
    | _ \<Rightarrow> bad_manifest)"

definition list_at :: "pydict \<Rightarrow> string \<Rightarrow> pyval list" where
  "list_at d k = (case as_list (dict_get d k) of Some xs \<Rightarrow> xs | None \<Rightarrow> [])"

definition dict_list :: "pydict \<Rightarrow> string \<Rightarrow> pydict list" where
  "dict_list d k = map items_of (list_at d k)"

text \<open>A manifest is evaluated once.\<close>

definition load_package :: "graph_env \<Rightarrow> path \<Rightarrow> pydict walk" where
  "load_package env p =
     seq (reading packages) (\<lambda>loaded.
     seq (reading manifest_roles) (\<lambda>roles.
       case map_of loaded (abspath p) of
         Some d \<Rightarrow> ret d
       | None \<Rightarrow>
           (case (case map_of roles (abspath p) of Some r \<Rightarrow> r | None \<Rightarrow> (''dependency_local'', path_name (abspath p))) of (role, name) \<Rightarrow>
             seq (lift_result (rbind (evaluate env (abspath p) role name) check_manifest)) (\<lambda>d.
             seq (updating (\<lambda>g. g\<lparr>packages := AList.update (abspath p) d (packages g)\<rparr>)) (\<lambda>_. ret d)))))"

section \<open>Dependencies\<close>

type_synonym dependency = "string \<times> pydict"

definition bad_dependency :: "exn + 'a" where
  "bad_dependency = inventory_error ''unsupported_macos_package_dependency''"

definition dependency_entry :: "pyval \<Rightarrow> exn + dependency" where
  "dependency_entry v =
     (case v of
        PDict [(kind, PList [PDict item])] \<Rightarrow>
          if kind \<notin> set [''fileSystem'', ''sourceControl''] \<or> \<not> is_str (dict_get item ''identity'')
            \<or> kind = ''fileSystem'' \<and> \<not> is_str (dict_get item ''path'')
          then bad_dependency else Inr (kind, item)
      | _ \<Rightarrow> bad_dependency)"

definition same_dependency :: "dependency \<Rightarrow> dependency \<Rightarrow> bool" where
  "same_dependency a b \<longleftrightarrow> fst a = fst b \<and> py_eq (PDict (snd a)) (PDict (snd b))"

text \<open>One alias of a dependency: text that no other dependency has.\<close>

definition add_alias :: "dependency \<Rightarrow> (string \<times> dependency) list \<Rightarrow> pyval \<Rightarrow> exn + (string \<times> dependency) list" where
  "add_alias dep result v =
     (case text_of v of
        None \<Rightarrow> raise AttributeError ''lower''
      | Some alias \<Rightarrow>
          if \<not> (case map_of result (lower_text alias) of None \<Rightarrow> True | Some other \<Rightarrow> same_dependency other dep)
          then inventory_error ''ambiguous_macos_package_dependency''
          else rbind (label v) (\<lambda>_. Inr (AList.update (lower_text alias) dep result)))"

definition add_dependency :: "(string \<times> dependency) list \<Rightarrow> pyval \<Rightarrow> exn + (string \<times> dependency) list" where
  "add_dependency result entry =
     rbind (dependency_entry entry) (\<lambda>dep.
     rbind (label (dict_get (snd dep) ''identity'')) (\<lambda>name.
       let other = dict_get (snd dep) ''nameForTargetDependencyResolutionOnly'' in
       if truthy other \<and> \<not> hashable other then raise TypeError ''unhashable''
       else foldE (add_alias dep) result (PStr name # (if truthy other \<and> other \<noteq> PStr name then [other] else []))))"

text \<open>The generated root binds the identities of its local packages before any of them is walked.\<close>

definition bind_local :: "graph_env \<Rightarrow> path \<Rightarrow> dependency \<Rightarrow> unit walk" where
  "bind_local env owner dep =
     (if fst dep \<noteq> ''fileSystem'' then ret ()
      else let v = dict_get (snd dep) ''identity''; candidate = logical_package_path owner (text_at (snd dep) ''path'') in
        seq (lift_result (resolved_local_path env v)) (\<lambda>found.
        seq (lift_result (case found of None \<Rightarrow> Inr True | Some p \<Rightarrow> same_place env candidate p)) (\<lambda>same.
          if \<not> same then fail ''macos_package_identity_path_conflict''
          else if is_file (files_of env) (candidate @ [''Package.swift''])
          then seq (bind_identity env v candidate) (\<lambda>_. ret ()) else ret ())))"

text \<open>The last descriptor of every identity, in the order in which the identities came.\<close>

definition by_identity :: "(string \<Rightarrow> string) \<Rightarrow> dependency list \<Rightarrow> dependency list" where
  "by_identity f deps = map snd (foldl (\<lambda>d dep. AList.update (f (text_at (snd dep) ''identity'')) dep d) [] deps)"

definition dependencies :: "graph_env \<Rightarrow> path \<Rightarrow> (string \<times> dependency) list walk" where
  "dependencies env p =
     seq (load_package env p) (\<lambda>d.
     seq (lift_result (foldE add_dependency [] (list_at d ''dependencies''))) (\<lambda>result.
     seq (if abspath p = g_root env then loop_over (\<lambda>_. bind_local env p) () (by_identity lower_text (map snd result)) else ret ()) (\<lambda>_.
       ret result)))"

definition dependency_path :: "graph_env \<Rightarrow> path \<Rightarrow> bool \<Rightarrow> dependency \<Rightarrow> path option walk" where
  "dependency_path env owner optional dep =
     (let v = dict_get (snd dep) ''identity'' in
      seq (lift_result (label v)) (\<lambda>name.
      seq (reading identity_paths) (\<lambda>known.
        case map_of known (lower_text name) of
          Some bound \<Rightarrow>
            seq (note_role bound (if fst dep = ''fileSystem'' then ''dependency_local'' else ''dependency_remote'') (lower_text name)) (\<lambda>_. ret (Some bound))
        | None \<Rightarrow>
            if fst dep = ''sourceControl'' then checkout env v optional
            else seq (lift_result (resolved_local_path env (PStr (lower_text name)))) (\<lambda>found.
              let p = (case found of Some p \<Rightarrow> p | None \<Rightarrow> logical_package_path owner (text_at (snd dep) ''path'')) in
              if optional \<and> \<not> is_file (files_of env) (p @ [''Package.swift'']) then ret None
              else seq (bind_identity env (PStr (lower_text name)) p) (\<lambda>p.
                seq (note_role p ''dependency_local'' name) (\<lambda>_. ret (Some p)))))))"

section \<open>Products and targets\<close>

definition path_stem :: "string \<Rightarrow> string" where
  "path_stem s = (let name = path_name (path_parts s) in take (length name - length (name_suffix name)) name)"

definition has_alias :: "runtime_row \<Rightarrow> string list \<Rightarrow> bool" where
  "has_alias m as \<longleftrightarrow> rt_target m \<in> set as \<or> path_stem (rt_product m) \<in> set as \<or> rt_product m \<in> set (map (\<lambda>a. ''lib'' @ a @ ''.dylib'') as)"

primrec any_alias :: "runtime_row \<Rightarrow> pyval list \<Rightarrow> exn + bool" where
  "any_alias m [] = Inr False"
| "any_alias m (n # ns) = rbind (name_aliases n) (\<lambda>as. if has_alias m as then Inr True else any_alias m ns)"

definition matching_module :: "graph_env \<Rightarrow> pyval list \<Rightarrow> exn + runtime_row option" where
  "matching_module env names =
     rbind (traverse (\<lambda>m. if rt_target m = ''runner'' then Inr [] else rbind (any_alias m names) (\<lambda>b. Inr (if b then [m] else []))) (g_modules env)) (\<lambda>ms.
       case concat ms of [] \<Rightarrow> Inr None | [m] \<Rightarrow> Inr (Some m) | _ \<Rightarrow> inventory_error ''ambiguous_macos_package_runtime'')"

text \<open>\<open>text in v\<close>.\<close>

definition text_in :: "string \<Rightarrow> pyval \<Rightarrow> exn + bool" where
  "text_in s v = (case v of
      PList xs \<Rightarrow> Inr (PStr s \<in> set xs) | PDict d \<Rightarrow> Inr (has_key d s) | PStr t \<Rightarrow> Inr (contains s t) | _ \<Rightarrow> raise TypeError ''in'')"

definition enabled :: "pyval \<Rightarrow> exn + bool" where
  "enabled condition =
     (case condition of
        PNone \<Rightarrow> Inr True
      | PDict d \<Rightarrow>
          if \<not> only_keys [''platformNames'', ''config'', ''traits''] d then inventory_error ''unsupported_macos_package_condition''
          else if truthy (dict_get d ''traits'') then inventory_error ''unsupported_macos_package_traits''
          else rbind (if truthy (dict_get d ''platformNames'') then text_in ''macos'' (dict_get d ''platformNames'') else Inr True) (\<lambda>here.
            Inr (here \<and> dict_get_default d ''config'' (PStr ''release'') = PStr ''release''))
      | _ \<Rightarrow> inventory_error ''unsupported_macos_package_condition'')"

datatype task = Product path string string | Target path pyval string

definition named :: "string \<Rightarrow> pydict list \<Rightarrow> pydict list" where
  "named name = filter (\<lambda>d. dict_get d ''name'' = PStr name)"

text \<open>The linkage of a library; None for a tool of the build, which has no image in the application.\<close>

definition product_linkage :: "pydict list \<Rightarrow> exn + (pydict \<times> pyval) option" where
  "product_linkage ps =
     (case ps of
        [p] \<Rightarrow>
          (case items_of (dict_get p ''type'') of
             [(kind, linkage)] \<Rightarrow>
               if kind \<in> set [''macro'', ''plugin''] then Inr None
               else if kind \<noteq> ''library'' then inventory_error ''unsupported_macos_package_product''
               else if linkage \<notin> set (map (\<lambda>l. text_list [l]) [''automatic'', ''static'', ''dynamic''])
               then inventory_error ''unsupported_macos_package_linkage'' else Inr (Some (p, linkage))
           | _ \<Rightarrow> inventory_error ''unsupported_macos_package_product'')
      | _ \<Rightarrow> inventory_error ''unsupported_macos_package_product'')"

definition product_module :: "graph_env \<Rightarrow> string \<Rightarrow> pyval list \<Rightarrow> pyval \<Rightarrow> exn + runtime_row option" where
  "product_module env name targets linkage =
     rbind (if linkage = text_list [''static''] then Inr None else matching_module env (PStr name # targets)) (\<lambda>m.
       if linkage = text_list [''dynamic''] \<and> m = None \<and> \<not> manifest_only env
       then inventory_error ''macos_dynamic_package_product_missing'' else Inr m)"

definition note_module :: "runtime_row option \<Rightarrow> string \<Rightarrow> unit walk" where
  "note_module m host = (case m of
      None \<Rightarrow> ret () | Some r \<Rightarrow> updating (\<lambda>g. g\<lparr>module_parents := join_to (module_parents g) (rt_target r) [host]\<rparr>))"

text \<open>A product built from source: a binary one has no source target with its host.\<close>

definition note_product :: "runtime_row option \<Rightarrow> unit walk" where
  "note_product m = (case m of
      None \<Rightarrow> ret ()
    | Some r \<Rightarrow> updating (\<lambda>g. if list_ex (\<lambda>(_, hosts). rt_target r \<in> set hosts) (sources g)
        then g\<lparr>products := AList.update (rt_product r) (rt_target r) (products g)\<rparr> else g))"

definition visit_product :: "graph_env \<Rightarrow> (task \<Rightarrow> unit walk) \<Rightarrow> path \<Rightarrow> string \<Rightarrow> string \<Rightarrow> unit walk" where
  "visit_product env self p name host =
     (let p = abspath p in
      seq (load_package env p) (\<lambda>manifest.
      seq (lift_result (product_linkage (named name (dict_list manifest ''products'')))) (\<lambda>linkage.
        case linkage of
          None \<Rightarrow> ret ()
        | Some (item, l) \<Rightarrow>
            (let targets = list_at item ''targets'' in
             seq (lift_result (product_module env name targets l)) (\<lambda>m.
             seq (note_module m host) (\<lambda>_.
             let host = (case m of Some r \<Rightarrow> rt_target r | None \<Rightarrow> host) in
             seq (updating (\<lambda>g. g\<lparr>selected_products := selected_products g
               @ [\<lparr>sel_path = p, sel_product = name, sel_host = host, sel_targets = targets\<rparr>]\<rparr>)) (\<lambda>_.
             seq (loop_over (\<lambda>_ t. self (Target p t host)) () targets) (\<lambda>_. note_product m))))))))"

text \<open>Where the artifact of a binary target lies: at its own path, or where the workspace has put it.\<close>

definition artifact_roots :: "graph_env \<Rightarrow> path \<Rightarrow> string \<Rightarrow> pydict \<Rightarrow> path list walk" where
  "artifact_roots env p name target =
     (let own = dict_get target ''path'' in
      if truthy own
      then (case text_of own of
          None \<Rightarrow> throw TypeError []
        | Some s \<Rightarrow> if present env (logical_package_path p s) then ret [logical_package_path p s] else lift_result no_artifact)
      else seq (reading identities) (\<lambda>named.
        let name_of = (case map_of named p of Some i \<Rightarrow> i | None \<Rightarrow> lower_text (path_name p)) in
        seq (lift_result (workspace_state env)) (\<lambda>(_, artifacts).
        let roots = map (\<lambda>a. path_parts (text_at a ''path''))
          (filter (\<lambda>a. text_at a ''targetName'' = name \<and> lower_text (text_at (reference a) ''identity'') = name_of) artifacts) in
        seq (lift_result (traverse (\<lambda>r. if \<not> is_dir (files_of env) r then no_artifact
            else rbind (resolves_below env r (g_cache env)) (\<lambda>below. if below then Inr r else no_artifact)) roots)) (\<lambda>_.
          if roots = [] then lift_result no_artifact else ret (remdups roots)))))"

definition visit_binary :: "graph_env \<Rightarrow> path \<Rightarrow> key \<Rightarrow> pydict \<Rightarrow> string \<Rightarrow> unit walk" where
  "visit_binary env p k target host =
     (if manifest_only env then ret ()
      else seq (updating (\<lambda>g. g\<lparr>binaries := set_default (binaries g) k [], package_paths := join_to (package_paths g) k [p]\<rparr>)) (\<lambda>_.
        seq (artifact_roots env p (snd k) target) (\<lambda>roots.
          updating (\<lambda>g. g\<lparr>vendor_targets := join_to (vendor_targets g) k roots, binaries := join_to (binaries g) k [host]\<rparr>))))"

text \<open>The packages that may hold a product of this name: the one that is named, or all dependencies.\<close>

definition candidate_paths :: "graph_env \<Rightarrow> path \<Rightarrow> (string \<times> dependency) list \<Rightarrow> pyval \<Rightarrow> path option list walk" where
  "candidate_paths env p deps alias =
     (if truthy alias
      then seq (lift_result (rbind (label alias) (\<lambda>a. case map_of deps (lower_text a) of
          Some dep \<Rightarrow> Inr dep | None \<Rightarrow> raise KeyError (lower_text a)))) (\<lambda>dep.
        seq (dependency_path env p False dep) (\<lambda>q. ret [q]))
      else loop_over (\<lambda>qs dep. seq (dependency_path env p True dep) (\<lambda>q. ret (qs @ [q]))) [] (by_identity id (map snd deps)))"

definition product_owner :: "graph_env \<Rightarrow> string \<Rightarrow> path option list \<Rightarrow> path walk" where
  "product_owner env name qs =
     seq (loop_over (\<lambda>ms q. case q of
         None \<Rightarrow> ret ms
       | Some q \<Rightarrow> seq (load_package env q) (\<lambda>d. ret (if named name (dict_list d ''products'') \<noteq> [] then ms @ [q] else ms))) [] qs) (\<lambda>ms.
       case ms of [m] \<Rightarrow> ret m | _ \<Rightarrow> fail ''ambiguous_macos_package_product_dependency'')"

definition target_entry :: "pyval \<Rightarrow> exn + string \<times> pyval list" where
  "target_entry v =
     (case v of
        PDict [(kind, PList vs)] \<Rightarrow>
          if kind \<notin> set [''target'', ''byName'', ''product''] \<or> length vs \<noteq> (if kind = ''product'' then 4 else 2)
          then inventory_error ''unsupported_macos_package_target_dependency'' else Inr (kind, vs)
      | _ \<Rightarrow> inventory_error ''unsupported_macos_package_target_dependency'')"

definition visit_dependency ::
    "graph_env \<Rightarrow> (task \<Rightarrow> unit walk) \<Rightarrow> path \<Rightarrow> pydict list \<Rightarrow> (string \<times> dependency) list \<Rightarrow> string \<Rightarrow> pyval \<Rightarrow> unit walk" where
  "visit_dependency env self p targets deps host entry =
     seq (lift_result (target_entry entry)) (\<lambda>(kind, vs).
     seq (lift_result (enabled (last vs))) (\<lambda>on.
       if \<not> on then ret ()
       else if kind = ''product'' \<and> truthy (vs ! 2) then fail ''unsupported_macos_package_module_aliases''
       else seq (lift_result (label (vs ! 0))) (\<lambda>name.
         if kind = ''target'' \<or> kind = ''byName'' \<and> named name targets \<noteq> [] then self (Target p (PStr name) host)
         else seq (candidate_paths env p deps (if kind = ''product'' then vs ! 1 else PNone)) (\<lambda>qs.
           seq (product_owner env name qs) (\<lambda>q. self (Product q name host))))))"

definition visit_source :: "graph_env \<Rightarrow> (task \<Rightarrow> unit walk) \<Rightarrow> path \<Rightarrow> pydict \<Rightarrow> key \<Rightarrow> pydict \<Rightarrow> string \<Rightarrow> unit walk" where
  "visit_source env self p manifest k target host =
     seq (updating (\<lambda>g. g\<lparr>sources := join_to (sources g) k [host],
         ambiguous := (case map_of (descriptors g) k of
             Some (q, d) \<Rightarrow> if q = p \<and> py_eq (PDict d) (PDict target) then ambiguous g else k # ambiguous g | None \<Rightarrow> ambiguous g),
         descriptors := set_default (descriptors g) k (p, target)\<rparr>)) (\<lambda>_.
     seq (dependencies env p) (\<lambda>deps.
       loop_over (\<lambda>_. visit_dependency env self p (dict_list manifest ''targets'') deps host) () (list_at target ''dependencies'')))"

definition visit_target :: "graph_env \<Rightarrow> (task \<Rightarrow> unit walk) \<Rightarrow> path \<Rightarrow> pyval \<Rightarrow> string \<Rightarrow> unit walk" where
  "visit_target env self p v host =
     (let p = abspath p in
      seq (lift_result (label v)) (\<lambda>name.
      seq (reading visited) (\<lambda>before.
        if (p, name, host) \<in> set before then ret ()
        else seq (updating (\<lambda>g. g\<lparr>visited := (p, name, host) # visited g\<rparr>)) (\<lambda>_.
          seq (load_package env p) (\<lambda>manifest.
            case named name (dict_list manifest ''targets'') of
              [target] \<Rightarrow>
                (let k = (text_at manifest ''name'', name); kind = text_at target ''type'' in
                 if kind = ''binary'' then visit_binary env p k target host
                 else if kind \<in> set [''system'', ''macro'', ''plugin''] then ret ()
                 else if kind \<noteq> ''regular'' then fail ''unsupported_macos_runtime_package_target''
                 else visit_source env self p manifest k target host)
            | _ \<Rightarrow> fail ''macos_package_target_missing'')))))"

primrec visit :: "nat \<Rightarrow> graph_env \<Rightarrow> task \<Rightarrow> unit walk" where
  "visit 0 env t = throw RecursionError []"
| "visit (Suc n) env t = (case t of
      Product p name host \<Rightarrow> visit_product env (visit n env) p name host
    | Target p v host \<Rightarrow> visit_target env (visit n env) p v host)"


section \<open>Invariants of a walk that does not raise\<close>

text \<open>An exception ends the whole walk, so an invariant has to hold only where a command returns.\<close>

named_theorems settles_intros

definition settles :: "('s \<Rightarrow> bool) \<Rightarrow> ('s, 'a) cmd \<Rightarrow> bool" where
  "settles I m \<longleftrightarrow> (\<forall>s x t. I s \<longrightarrow> m s = (Inr x, t) \<longrightarrow> I t)"

lemma settlesD: "settles I m \<Longrightarrow> I s \<Longrightarrow> m s = (Inr x, t) \<Longrightarrow> I t"
  by (auto simp: settles_def)

lemma settles_basic [settles_intros]:
  "settles I (ret x)" "settles I (lift_result r)" "settles I (reading f)" "settles I (fail code)" "settles I (throw c m)"
  by (auto simp: settles_def ret_def lift_result_def reading_def fail_def throw_def)

lemma settles_updating [settles_intros]: "(\<And>s. I s \<Longrightarrow> I (f s)) \<Longrightarrow> settles I (updating f)"
  by (auto simp: settles_def updating_def)

lemma settles_seq [settles_intros]: "settles I m \<Longrightarrow> (\<And>x. settles I (f x)) \<Longrightarrow> settles I (seq m f)"
  unfolding settles_def by (blast elim: seq_cases)

lemma settles_if [settles_intros]: "(c \<Longrightarrow> settles I m) \<Longrightarrow> (\<not> c \<Longrightarrow> settles I n) \<Longrightarrow> settles I (if c then m else n)"
  by simp

lemma settles_option [settles_intros]:
  "settles I m \<Longrightarrow> (\<And>x. settles I (f x)) \<Longrightarrow> settles I (case v of None \<Rightarrow> m | Some x \<Rightarrow> f x)"
  by (cases v) simp_all

lemma settles_list [settles_intros]:
  "settles I m \<Longrightarrow> (\<And>x xs. settles I (f x xs)) \<Longrightarrow> settles I (case v of [] \<Rightarrow> m | x # xs \<Rightarrow> f x xs)"
  by (cases v) simp_all

lemma settles_prod [settles_intros]: "(\<And>a b. settles I (f a b)) \<Longrightarrow> settles I (case v of (a, b) \<Rightarrow> f a b)"
  by (cases v) simp

lemma settles_let [settles_intros]: "settles I (f v) \<Longrightarrow> settles I (let x = v in f x)"
  by (simp add: Let_def)

lemma settles_loop [settles_intros]: "(\<And>acc x. settles I (f acc x)) \<Longrightarrow> settles I (loop_over f acc xs)"
  by (induction xs arbitrary: acc) (auto intro!: settles_intros)

text \<open>A command whose value is constrained too.\<close>

lemma settles_seq_value:
  "settles I m \<Longrightarrow> (\<And>s x t. I s \<Longrightarrow> m s = (Inr x, t) \<Longrightarrow> Q x) \<Longrightarrow> (\<And>x. Q x \<Longrightarrow> settles I (f x)) \<Longrightarrow> settles I (seq m f)"
  unfolding settles_def by (blast elim: seq_cases)

subsection \<open>Identities\<close>

text \<open>The two dictionaries are inverse to each other.\<close>

definition registry :: "graph \<Rightarrow> string \<Rightarrow> path option" where
  "registry g = map_of (identity_paths g)"

definition identities_ok :: "graph \<Rightarrow> bool" where
  "identities_ok g \<longleftrightarrow> (\<forall>name p. registry g name = Some p \<longleftrightarrow> map_of (identities g) p = Some name)"

text \<open>
  What binding an identity promises, on the registry alone: an identity keeps its first path, which has to be the
  same place as the new one, and a path is given to one identity only.
\<close>

definition bind_spec :: "(path \<Rightarrow> path \<Rightarrow> bool) \<Rightarrow> (string \<Rightarrow> path option) \<Rightarrow> string \<Rightarrow> path \<Rightarrow> (path \<times> (string \<Rightarrow> path option)) option" where
  "bind_spec same r name p =
     (case r name of
        Some q \<Rightarrow> if same q p then Some (q, r) else None
      | None \<Rightarrow> if p \<in> ran r then None else Some (p, r(name \<mapsto> p)))"

lemma record_identity_run:
  "record_identity name p g = (if map_of (identities g) p \<notin> {None, Some name}
     then (inventory_error ''macos_package_identity_path_conflict'', g\<lparr>identity_paths := AList.update name p (identity_paths g)\<rparr>)
     else (Inr p, g\<lparr>identity_paths := AList.update name p (identity_paths g), identities := AList.update p name (identities g)\<rparr>))"
  by (simp add: record_identity_def fail_def cmd_defs)

text \<open>A new path is bound to a new identity, or the old one is bound again.\<close>

lemma record_new:
  assumes "identities_ok g" and "registry g name = None"
  shows "case record_identity name p g of
      (Inr q, t) \<Rightarrow> bind_spec same (registry g) name p = Some (q, registry t) \<and> identities_ok t
    | (Inl e, t) \<Rightarrow> bind_spec same (registry g) name p = None"
proof -
  have "map_of (identities g) q \<noteq> Some name" for q using assms by (metis identities_ok_def option.distinct(1))
  moreover have "p \<in> ran (registry g) \<longleftrightarrow> map_of (identities g) p \<noteq> None" using assms(1) by (auto simp: identities_ok_def ran_def)
  ultimately show ?thesis
    using assms by (auto simp: record_identity_run bind_spec_def identities_ok_def registry_def update_conv')
qed

lemma record_again:
  assumes "identities_ok g" and "registry g name = Some q"
  shows "\<exists>t. record_identity name q g = (Inr q, t) \<and> registry t = registry g \<and> identities_ok t"
proof -
  have "map_of (identities g) q = Some name" using assms by (simp add: identities_ok_def)
  then show ?thesis using assms by (auto simp: record_identity_run identities_ok_def registry_def update_conv' fun_upd_idem)
qed

lemma identities_bind: "settles identities_ok (bind_identity env v p)"
  unfolding settles_def
proof (intro allI impI)
  fix s x t
  assume ok: "identities_ok s" and run: "bind_identity env v p s = (Inr x, t)"
  then obtain name where "label v = Inr name" by (auto simp: bind_identity_def cmd_defs split: sum.splits)
  with run consider "registry s (lower_text name) = None" "record_identity (lower_text name) (abspath p) s = (Inr x, t)"
    | q where "registry s (lower_text name) = Some q" "record_identity (lower_text name) q s = (Inr x, t)"
    by (auto simp: bind_identity_def registry_def fail_def cmd_defs Let_def split: option.splits sum.splits if_splits)
  then show "identities_ok t"
  proof cases
    case 1
    with record_new [OF ok 1(1), where p = "abspath p"] show ?thesis by simp
  next
    case 2
    with record_again [OF ok 2(1)] show ?thesis by auto
  qed
qed

subsection \<open>Hosts\<close>

definition known_host :: "graph_env \<Rightarrow> string \<Rightarrow> bool" where
  "known_host env h \<longleftrightarrow> h = ''runner'' \<or> h \<in> rt_target ` set (g_modules env)"

definition hosts_ok :: "graph_env \<Rightarrow> string list \<Rightarrow> bool" where
  "hosts_ok env hs \<longleftrightarrow> hs \<noteq> [] \<and> distinct hs \<and> (\<forall>h\<in>set hs. known_host env h)"

definition all_values :: "('v \<Rightarrow> bool) \<Rightarrow> ('k \<times> 'v) list \<Rightarrow> bool" where
  "all_values P d \<longleftrightarrow> (\<forall>(k, v)\<in>set d. P v)"

lemma update_values: "all_values P d \<Longrightarrow> P v \<Longrightarrow> all_values P (AList.update k v d)"
  by (induction d) (auto simp: all_values_def)

lemma all_values_of: "all_values P d \<Longrightarrow> map_of d k = Some v \<Longrightarrow> P v"
  unfolding all_values_def by (fastforce dest: map_of_SomeD)

lemma join_hosts:
  assumes "all_values (hosts_ok env) d" and "known_host env h"
  shows "all_values (hosts_ok env) (join_to d k [h])"
proof (cases "map_of d k")
  case None
  with assms show ?thesis by (simp add: join_to_def update_values hosts_ok_def)
next
  case (Some hs)
  then have "hosts_ok env hs" using assms(1) all_values_of by metis
  then have "hosts_ok env (hs @ filter (\<lambda>x. x \<notin> set hs) (remdups [h]))"
    using assms(2) by (simp add: hosts_ok_def)
  with update_values [OF assms(1)] Some show ?thesis by (simp add: join_to_def Let_def)
qed

definition products_ok :: "graph_env \<Rightarrow> (string \<times> string) list \<Rightarrow> bool" where
  "products_ok env ps \<longleftrightarrow> (\<forall>(product, target)\<in>set ps. \<exists>m\<in>set (g_modules env). rt_product m = product \<and> rt_target m = target)"

lemma update_subset: "set (AList.update k v d) \<subseteq> insert (k, v) (set d)"
  by (induction d) auto

lemma products_update:
  assumes "products_ok env ps" and "m \<in> set (g_modules env)"
  shows "products_ok env (AList.update (rt_product m) (rt_target m) ps)"
proof -
  note update_subset [of "rt_product m" "rt_target m" ps]
  then have "e = (rt_product m, rt_target m) \<or> e \<in> set ps" if "e \<in> set (AList.update (rt_product m) (rt_target m) ps)" for e
    using that by blast
  with assms show ?thesis unfolding products_ok_def by fastforce
qed

definition graph_ok :: "graph_env \<Rightarrow> graph \<Rightarrow> bool" where
  "graph_ok env g \<longleftrightarrow> identities_ok g \<and> all_values (hosts_ok env) (sources g) \<and> all_values (hosts_ok env) (binaries g)
     \<and> products_ok env (products g)"

lemma graph_ok_new: "graph_ok env (new_graph env)"
  by (simp add: graph_ok_def new_graph_def identities_ok_def registry_def all_values_def products_ok_def)

lemma matching_module_member:
  assumes "matching_module env names = Inr (Some m)"
  shows "m \<in> set (g_modules env)"
proof -
  let ?f = "\<lambda>m. if rt_target m = ''runner'' then Inr [] else rbind (any_alias m names) (\<lambda>b. Inr (if b then [m] else []))"
  from assms obtain ms where ms: "traverse ?f (g_modules env) = Inr ms"
      and one: "(case concat ms of [] \<Rightarrow> Inr None | [m] \<Rightarrow> Inr (Some m) | _ \<Rightarrow> inventory_error ''ambiguous_macos_package_runtime'') = Inr (Some m)"
    unfolding matching_module_def rbind_eq_Inr by blast
  from one have "concat ms = [m]" by (simp split: list.splits)
  then have "m \<in> set (concat ms)" by (simp del: set_concat)
  then obtain l where l: "l \<in> set ms" "m \<in> set l" unfolding set_concat by blast
  from traverse_set [OF ms l(1)] l(2) show ?thesis by (auto split: if_splits)
qed


subsection \<open>Every step\<close>

text \<open>
  The interface of the steps that find a package: an invariant that does not look at manifests and roles and
  survives the recording of an identity is kept by all of them.
\<close>

locale quiet_invariant =
  fixes I :: "graph \<Rightarrow> bool"
  assumes packages_kept: "I g \<Longrightarrow> I (g\<lparr>packages := ps\<rparr>)"
    and roles_kept: "I g \<Longrightarrow> I (g\<lparr>manifest_roles := rs\<rparr>)"
    and identity_kept: "settles I (bind_identity env v p)"
begin

lemma quiet_role: "settles I (note_role p role name)"
  unfolding note_role_def by (intro settles_intros roles_kept)

lemma quiet_load: "settles I (load_package env p)"
  unfolding load_package_def by (intro settles_intros packages_kept)

lemma quiet_checkout: "settles I (checkout env v optional)"
  unfolding checkout_def by (intro settles_intros identity_kept quiet_role)

lemma quiet_dependencies: "settles I (dependencies env p)"
  unfolding dependencies_def bind_local_def by (intro settles_intros quiet_load identity_kept)

lemma quiet_dependency_path: "settles I (dependency_path env owner optional dep)"
  unfolding dependency_path_def by (intro settles_intros quiet_role identity_kept quiet_checkout)

lemma quiet_candidates: "settles I (candidate_paths env p deps alias)"
  unfolding candidate_paths_def by (intro settles_intros quiet_dependency_path)

lemma quiet_owner: "settles I (product_owner env name qs)"
  unfolding product_owner_def by (intro settles_intros quiet_load)

end

lemma bind_identity_rest:
  assumes "bind_identity env v p s = (r, t)"
  shows "sources t = sources s \<and> binaries t = binaries s \<and> products t = products s"
proof -
  have "keeps (\<lambda>g. sources g = sources s \<and> binaries g = binaries s \<and> products g = products s) (bind_identity env v p)"
    unfolding bind_identity_def record_identity_def fail_def Let_def by (intro keeps_intros) simp_all
  from keepsD [OF this _ assms] show ?thesis by simp
qed

interpretation walk: quiet_invariant "graph_ok env" for env
proof (unfold_locales, goal_cases)
  case (3 env' v p)
  then show ?case
    unfolding settles_def graph_ok_def by (metis bind_identity_rest settlesD [OF identities_bind])
qed (simp_all add: graph_ok_def identities_ok_def registry_def)

lemma update_update: "AList.update k w (AList.update k v d) = AList.update k w d"
  by (induction d) auto

lemma join_default: "join_to (set_default d k []) k xs = join_to d k xs"
  by (simp add: join_to_def set_default_def update_update update_conv' split: option.split)

lemma artifact_roots_same: "artifact_roots env p n target g = (Inr r, t) \<Longrightarrow> t = g"
  by (auto simp: artifact_roots_def Let_def seq_def ret_def throw_def reading_def lift_result_def no_artifact_def
      split: option.splits if_splits prod.splits sum.splits)

lemma settles_binary:
  assumes "known_host env host"
  shows "settles (graph_ok env) (visit_binary env p k target host)"
  unfolding settles_def
proof (intro allI impI)
  fix s x t
  assume s: "graph_ok env s" and run: "visit_binary env p k target host s = (Inr x, t)"
  let ?u = "s\<lparr>binaries := set_default (binaries s) k [], package_paths := join_to (package_paths s) k [p]\<rparr>"
  show "graph_ok env t"
  proof (cases "manifest_only env")
    case True
    with s run show ?thesis by (simp add: visit_binary_def ret_def)
  next
    case False
    with run obtain roots v where found: "artifact_roots env p (snd k) target ?u = (Inr roots, v)"
        and t: "t = v\<lparr>vendor_targets := join_to (vendor_targets v) k roots, binaries := join_to (binaries v) k [host]\<rparr>"
      by (auto simp: visit_binary_def updating_def elim!: seq_cases)
    with artifact_roots_same [OF found] have "binaries t = join_to (binaries s) k [host]" "sources t = sources s" "products t = products s"
        "identities t = identities s" "identity_paths t = identity_paths s"
      by (auto simp: join_default)
    with s show ?thesis by (simp add: graph_ok_def identities_ok_def registry_def join_hosts assms)
  qed
qed

text \<open>What a walk below a task may assume of the walks it starts.\<close>

fun known_task :: "graph_env \<Rightarrow> task \<Rightarrow> bool" where
  "known_task env (Product p name host) = known_host env host"
| "known_task env (Target p v host) = known_host env host"

lemma settles_source:
  assumes "\<And>t. known_task env t \<Longrightarrow> settles (graph_ok env) (self t)" and "known_host env host"
  shows "settles (graph_ok env) (visit_source env self p manifest k target host)"
proof -
  have "settles (graph_ok env) (visit_dependency env self p targets deps host entry)" for targets deps entry
    unfolding visit_dependency_def
    by (intro settles_intros walk.quiet_candidates walk.quiet_owner assms(1)) (simp_all add: assms(2))
  moreover have "graph_ok env (g\<lparr>sources := join_to (sources g) k [host], ambiguous := a, descriptors := d\<rparr>)" if "graph_ok env g" for g a d
    using that by (simp add: graph_ok_def identities_ok_def registry_def join_hosts assms(2))
  ultimately show ?thesis
    unfolding visit_source_def by (intro settles_intros walk.quiet_dependencies) simp_all
qed

lemma settles_target:
  assumes "\<And>t. known_task env t \<Longrightarrow> settles (graph_ok env) (self t)" and "known_host env host"
  shows "settles (graph_ok env) (visit_target env self p v host)"
  unfolding visit_target_def
  by (intro settles_intros walk.quiet_load settles_binary settles_source assms) (simp add: graph_ok_def identities_ok_def registry_def)

lemma product_module_member: "product_module env name targets linkage = Inr (Some m) \<Longrightarrow> m \<in> set (g_modules env)"
  by (auto simp: product_module_def split: if_splits dest: matching_module_member)

lemma settles_note_product:
  "(\<And>r. m = Some r \<Longrightarrow> r \<in> set (g_modules env)) \<Longrightarrow> settles (graph_ok env) (note_product m)"
  unfolding note_product_def
  by (cases m) (auto intro!: settles_intros products_update simp: graph_ok_def identities_ok_def registry_def)

lemma settles_product:
  assumes "\<And>t. known_task env t \<Longrightarrow> settles (graph_ok env) (self t)" and "known_host env host"
  shows "settles (graph_ok env) (visit_product env self p name host)"
proof -
  let ?I = "graph_ok env"
  have rest: "settles ?I (seq (note_module m host) (\<lambda>_. let host = (case m of Some r \<Rightarrow> rt_target r | None \<Rightarrow> host) in
      seq (updating (\<lambda>g. g\<lparr>selected_products := selected_products g @ [x host]\<rparr>)) (\<lambda>_.
      seq (loop_over (\<lambda>_ t. self (Target q t host)) () targets) (\<lambda>_. note_product m))))"
    if m: "\<And>r. m = Some r \<Longrightarrow> r \<in> set (g_modules env)" for m x q targets
  proof -
    have "known_host env (case m of Some r \<Rightarrow> rt_target r | None \<Rightarrow> host)"
      using assms(2) m by (cases m) (auto simp: known_host_def)
    moreover have "settles ?I (note_module m host)"
      unfolding note_module_def by (cases m) (auto intro!: settles_intros simp: graph_ok_def identities_ok_def registry_def)
    ultimately show ?thesis
      by (intro settles_intros settles_note_product m assms(1)) (simp_all add: graph_ok_def identities_ok_def registry_def)
  qed
  have pick: "settles ?I (seq (lift_result (product_module env name targets l)) f)"
    if "\<And>m. (\<And>r. m = Some r \<Longrightarrow> r \<in> set (g_modules env)) \<Longrightarrow> settles ?I (f m)" for targets l f
    by (rule settles_seq_value [where Q = "\<lambda>m. \<forall>r. m = Some r \<longrightarrow> r \<in> set (g_modules env)"])
       (use that product_module_member in \<open>auto intro: settles_intros simp: lift_result_def\<close>)
  show ?thesis
    unfolding visit_product_def by (intro settles_intros walk.quiet_load pick rest)
qed

lemma settles_visit: "known_task env t \<Longrightarrow> settles (graph_ok env) (visit n env t)"
proof (induction n arbitrary: t)
  case (Suc n)
  then show ?case by (cases t) (auto intro: settles_product settles_target)
qed (simp add: settles_intros)


text \<open>All selected products, each linked by the runner.\<close>

definition visit_all :: "nat \<Rightarrow> graph_env \<Rightarrow> (path \<times> string) list \<Rightarrow> unit walk" where
  "visit_all n env direct = loop_over (\<lambda>_ (p, name). visit n env (Product p name ''runner'')) ()
     (if direct = [] then [(g_root env, ''FlutterGeneratedPluginSwiftPackage'')] else direct)"

lemma settles_visit_all: "settles (graph_ok env) (visit_all n env direct)"
  unfolding visit_all_def by (intro settles_intros settles_visit) (simp add: known_host_def)

section \<open>A sample package\<close>

definition library_product :: "string \<Rightarrow> string list \<Rightarrow> pyval" where
  "library_product name targets = PDict [(''name'', PStr name), (''type'', PDict [(''library'', text_list [''automatic''])]), (''targets'', text_list targets)]"

definition package_target :: "string \<Rightarrow> pyval list \<Rightarrow> pyval" where
  "package_target name deps = PDict [(''name'', PStr name), (''type'', PStr ''regular''), (''dependencies'', PList deps)]"

definition sample_manifests :: "(path \<times> pyval) list" where
  "sample_manifests =
     [([''gen''], PDict [(''name'', PStr ''Gen''), (''products'', PList [library_product ''Gen'' [''Gen'']]),
        (''targets'', PList [package_target ''Gen'' [PDict [(''product'', PList [PStr ''plug'', PStr ''plug'', PNone, PNone])]]]),
        (''dependencies'', PList [PDict [(''fileSystem'', PList [PDict [(''identity'', PStr ''plug''), (''path'', PStr ''../plug'')]])]])]),
      ([''plug''], PDict [(''name'', PStr ''Plug''), (''products'', PList [library_product ''plug'' [''plug'']]),
        (''targets'', PList [package_target ''plug'' []]), (''dependencies'', PList [])])]"

definition sample_graph_env :: graph_env where
  "sample_graph_env = xc_env.extend sample_vendor
     \<lparr>g_root = [''gen''], g_cache = [''cache''], g_modules = [sample_row, sample_row\<lparr>rt_target := ''plug'', rt_product := ''plug.framework''\<rparr>],
      manifest_only = False,
      evaluate = (\<lambda>p role name. case map_of sample_manifests p of None \<Rightarrow> inventory_error ''missing'' | Some v \<Rightarrow> Inr v)\<rparr>
     \<lparr>files_of := (files_of sample_vendor)\<lparr>is_file := (\<lambda>p. p = [''plug'', ''Package.swift'']), resolve := Inr\<rparr>\<rparr>"

section \<open>Properties\<close>

text \<open>C7: After the walk over the selected products no two package identities share a path and every bound path has
  its identity recorded; every source and binary target has at least one host, none twice, all of them the runner or
  images of the application; and every product built from source is an image of the application with its target.\<close>

theorem package_walk_sound:
  assumes "visit_all n env direct (new_graph env) = (Inr (), g)"
  shows "inj_on (registry g) (dom (registry g))
    \<and> (\<forall>name p. registry g name = Some p \<longleftrightarrow> map_of (identities g) p = Some name)
    \<and> (\<forall>(k, hosts)\<in>set (sources g @ binaries g). hosts \<noteq> [] \<and> distinct hosts \<and> (\<forall>h\<in>set hosts. known_host env h))
    \<and> (\<forall>(product, target)\<in>set (products g). \<exists>m\<in>set (g_modules env). rt_product m = product \<and> rt_target m = target)"
proof -
  have ok: "graph_ok env g" by (rule settlesD [OF settles_visit_all graph_ok_new assms])
  then have names: "registry g name = Some p \<longleftrightarrow> map_of (identities g) p = Some name" for name p
    by (simp add: graph_ok_def identities_ok_def)
  then have "inj_on (registry g) (dom (registry g))"
    by (intro inj_onI) (metis domD option.inject)
  with names ok show ?thesis by (auto simp: graph_ok_def all_values_def hosts_ok_def products_ok_def)
qed

lemma package_walk_sound_witness:
  "\<exists>g. visit_all 9 sample_graph_env [([''gen''], ''Gen'')] (new_graph sample_graph_env) = (Inr (), g)
     \<and> sources g = [((''Gen'', ''Gen''), [''runner'']), ((''Plug'', ''plug''), [''plug''])] \<and> products g = [(''plug.framework'', ''plug'')]
     \<and> inj_on (registry g) (dom (registry g))"
proof -
  let ?r = "visit_all 9 sample_graph_env [([''gen''], ''Gen'')] (new_graph sample_graph_env)"
  have "case ?r of (Inl e, g) \<Rightarrow> False | (Inr u, g) \<Rightarrow> sources g = [((''Gen'', ''Gen''), [''runner'']), ((''Plug'', ''plug''), [''plug''])]
      \<and> products g = [(''plug.framework'', ''plug'')]" by code_simp
  then obtain g where g: "?r = (Inr (), g)" and "sources g = [((''Gen'', ''Gen''), [''runner'']), ((''Plug'', ''plug''), [''plug''])]"
      "products g = [(''plug.framework'', ''plug'')]"
    by (cases ?r; cases "fst ?r") auto
  with package_walk_sound [OF g] show ?thesis by blast
qed

text \<open>C8: Binding an identity implements its specification on the registry: from a consistent state it succeeds
  exactly when the specification does, with the same path and the registry the specification gives, and leaves a
  consistent state; otherwise it reports the conflict.\<close>

theorem bind_identity_refines:
  assumes "identities_ok g" and "label v = Inr name" and "\<forall>a b. same_place env a b = Inr (same a b)"
  shows "case bind_identity env v p g of
      (Inr q, t) \<Rightarrow> bind_spec same (registry g) (lower_text name) (abspath p) = Some (q, registry t) \<and> identities_ok t
    | (Inl e, t) \<Rightarrow> bind_spec same (registry g) (lower_text name) (abspath p) = None \<and> e = Exn InventoryError ''macos_package_identity_path_conflict''"
proof (cases "registry g (lower_text name)")
  case None
  then have run: "bind_identity env v p g = record_identity (lower_text name) (abspath p) g"
    using assms(2) by (simp add: bind_identity_def registry_def cmd_defs Let_def)
  have "e = Exn InventoryError ''macos_package_identity_path_conflict''" if "record_identity (lower_text name) (abspath p) g = (Inl e, t)" for e t
    using that by (simp add: record_identity_run split: if_splits)
  with record_new [OF assms(1) None, where p = "abspath p" and same = same] run show ?thesis by (auto split: prod.splits sum.splits)
next
  case (Some q)
  then have run: "bind_identity env v p g = (if same q (abspath p) then record_identity (lower_text name) q g
      else (inventory_error ''macos_package_identity_path_conflict'', g))"
    using assms(2, 3) by (simp add: bind_identity_def registry_def fail_def cmd_defs Let_def)
  with record_again [OF assms(1) Some] Some show ?thesis by (auto simp: bind_spec_def)
qed

lemma bind_identity_refines_witness:
  "\<exists>t. bind_identity sample_graph_env (PStr ''Plug'') [''plug''] (new_graph sample_graph_env) = (Inr [''plug''], t)
     \<and> registry t = [''plug'' \<mapsto> [''plug'']] \<and> identities_ok t"
proof -
  let ?r = "bind_identity sample_graph_env (PStr ''Plug'') [''plug''] (new_graph sample_graph_env)"
  have "case ?r of (Inl e, t) \<Rightarrow> False | (Inr q, t) \<Rightarrow> q = [''plug''] \<and> identity_paths t = [(''plug'', [''plug''])]" by code_simp
  then obtain t where run: "?r = (Inr [''plug''], t)" and paths: "identity_paths t = [(''plug'', [''plug''])]"
    by (cases ?r; cases "fst ?r") auto
  have "label (PStr ''Plug'') = Inr ''Plug''" by code_simp
  moreover have "\<forall>a b. same_place sample_graph_env a b = Inr (a = b)"
    by (simp add: same_place_def sample_graph_env_def xc_env.defs)
  moreover have "identities_ok (new_graph sample_graph_env)" by (simp add: identities_ok_def registry_def new_graph_def)
  ultimately have "identities_ok t" using bind_identity_refines [of "new_graph sample_graph_env" "PStr ''Plug''" "''Plug''" sample_graph_env "(=)" "[''plug'']"] run by simp
  with run paths show ?thesis by (auto simp: registry_def)
qed

end
