(* ===== verification/Package_Collect.thy ===== *)
theory Package_Collect
  imports Package_Graph "HOL-Library.Product_Lexorder"
begin

text \<open>
  What the walk over the packages ends with, from \<open>PackageGraph.collect\<close> of \<open>tool/sentry_macos_inventory.py\<close>: the
  images of vendors are told apart by their identifiers, source targets are given the images that hold them, and
  targets that only link a binary are recorded with a proof, which the validation of an inventory accepts.
\<close>

section \<open>Vendor images\<close>

record vendor_state =
  libraries :: "(path \<times> vendor_library list) list"
  selected_libraries :: nat
  static_archives :: nat
  runtime_images :: nat
  dynamic_hosts :: "(key \<times> string list) list"
  vendor_modules :: "string list"

type_synonym image_id = "string \<times> string"

definition module_architectures :: "runtime_row list \<Rightarrow> string list \<Rightarrow> string list" where
  "module_architectures ms hosts =
     remdups (concat (map (\<lambda>m. if hosts = [] \<or> rt_target m \<in> set hosts then map fst (rt_variants m) else []) ms))"

definition vendor_libraries :: "graph_env \<Rightarrow> path \<Rightarrow> string list \<Rightarrow> vendor_state \<Rightarrow> exn + vendor_library list \<times> vendor_state" where
  "vendor_libraries env root hosts s =
     (case map_of (libraries s) root of
        Some ls \<Rightarrow> Inr (ls, s)
      | None \<Rightarrow>
          let architectures = module_architectures (g_modules env) hosts in
          if architectures = [] then inventory_error ''macos_xcframework_architecture_missing''
          else rbind (selected_vendor_libraries (xc_env.truncate env) root architectures) (\<lambda>ls.
            Inr (ls, s\<lparr>libraries := (root, ls) # libraries s, selected_libraries := selected_libraries s + length ls\<rparr>)))"

definition bad_payload :: "variant \<Rightarrow> bool" where
  "bad_payload v \<longleftrightarrow> filetype v \<notin> {2, 6, 8} \<or> uuid v = []"

text \<open>One library: an archive of the needed architectures, or an image with identifiers.\<close>

definition classify_library :: "graph_env \<Rightarrow> image_id list \<times> vendor_state \<Rightarrow> vendor_library \<Rightarrow> exn + image_id list \<times> vendor_state" where
  "classify_library env acc l =
     (case acc of (ids, s) \<Rightarrow>
       rbind (content (files_of env) (lib_binary l)) (\<lambda>data.
       rbind (static_archive_architectures data) (\<lambda>archives.
         case archives of
           Some as \<Rightarrow>
             if \<not> list_all (\<lambda>a. a \<in> set as) (lib_architectures l) then inventory_error ''macos_xcframework_architecture_missing''
             else Inr (ids, s\<lparr>static_archives := static_archives s + 1\<rparr>)
         | None \<Rightarrow>
             if \<not> is_macho data then inventory_error ''macos_binary_package_payload_invalid''
             else rbind (inspect_macho data) (\<lambda>(variants, _).
               if list_ex bad_payload variants then inventory_error ''macos_binary_package_payload_invalid''
               else Inr (ids @ map (\<lambda>v. (architecture v, uuid v)) variants, s\<lparr>runtime_images := runtime_images s + 1\<rparr>)))))"

definition classify_root :: "graph_env \<Rightarrow> string list \<Rightarrow> image_id list \<times> vendor_state \<Rightarrow> path \<Rightarrow> exn + image_id list \<times> vendor_state" where
  "classify_root env hosts acc root =
     (case acc of (ids, s) \<Rightarrow>
       rbind (vendor_libraries env root hosts s) (\<lambda>(ls, s). foldE (classify_library env) (ids, s) ls))"

definition images_of :: "graph_env \<Rightarrow> image_id list \<Rightarrow> string list" where
  "images_of env ids = map rt_target (filter (\<lambda>m. list_all (\<lambda>v. v \<in> set ids) (rt_variants m)) (g_modules env))"

text \<open>The images of one binary target: those all of whose slices are the vendor's.\<close>

definition vendor_target :: "graph_env \<Rightarrow> (key \<times> string list) list \<Rightarrow> vendor_state \<Rightarrow> key \<times> path list \<Rightarrow> exn + vendor_state" where
  "vendor_target env hosts s kr =
     (case kr of (k, roots) \<Rightarrow>
       rbind (case map_of hosts k of Some hs \<Rightarrow> Inr hs | None \<Rightarrow> raise KeyError []) (\<lambda>held.
       rbind (foldE (classify_root env held) ([], s) roots) (\<lambda>(ids, s).
         let found = images_of env ids in
         rbind (if ids = [] then Inr [] else traverse (\<lambda>m. rbind (name_aliases (PStr (snd k))) (\<lambda>as.
             Inr (rt_target m \<in> set as \<and> rt_target m \<notin> set found))) (g_modules env)) (\<lambda>odd.
           if list_ex id odd then inventory_error ''macos_binary_package_runtime_uuid_mismatch''
           else Inr (s\<lparr>dynamic_hosts := dynamic_hosts s @ [(k, found)], vendor_modules := vendor_modules s @ found\<rparr>)))))"

definition first_vendor :: vendor_state where
  "first_vendor = \<lparr>libraries = [], selected_libraries = 0, static_archives = 0, runtime_images = 0, dynamic_hosts = [], vendor_modules = []\<rparr>"

section \<open>Hosts of source targets\<close>

text \<open>A source target inside a vendor's image is held by the images that link it, back to one that is not a vendor's.\<close>

function source_hosts :: "string list \<Rightarrow> (string \<times> string list) list \<Rightarrow> string list \<Rightarrow> string \<Rightarrow> exn + string list" where
  "source_hosts vendor parents seen host =
     (if host \<notin> set vendor then Inr [host]
      else if host \<in> set seen then inventory_error ''cyclic_macos_package_host_mapping''
      else rbind (traverse (\<lambda>p. source_hosts vendor parents (seen @ [host]) p)
          (filter (\<lambda>p. p \<noteq> host) (case map_of parents host of Some ps \<Rightarrow> ps | None \<Rightarrow> [''runner'']))) (\<lambda>hss. Inr (concat hss)))"
  by pat_completeness auto
termination
proof (relation "measure (\<lambda>(vendor, parents, seen, host). card (set vendor - set seen))", simp)
  fix vendor :: "string list" and parents seen and host p :: string
  assume "\<not> host \<notin> set vendor" "host \<notin> set seen"
  then have "set vendor - set (seen @ [host]) \<subset> set vendor - set seen" by auto
  then have "card (set vendor - set (seen @ [host])) < card (set vendor - set seen)" by (intro psubset_card_mono) auto
  then show "((vendor, parents, seen @ [host], p), vendor, parents, seen, host)
      \<in> measure (\<lambda>(vendor, parents, seen, host). card (set vendor - set seen))" by simp
qed

declare source_hosts.simps [simp del]

definition mapped_hosts :: "string list \<Rightarrow> (string \<times> string list) list \<Rightarrow> key \<times> string list \<Rightarrow> exn + key \<times> string list" where
  "mapped_hosts vendor parents s =
     rbind (traverse (source_hosts vendor parents []) (snd s)) (\<lambda>hss. Inr (fst s, sort (remdups (concat hss))))"

lemma source_hosts_outside: "source_hosts vendor parents seen host = Inr hs \<Longrightarrow> set hs \<inter> set vendor = {}"
proof (induction vendor parents seen host arbitrary: hs rule: source_hosts.induct)
  case (1 vendor parents seen host)
  show ?case
  proof (cases "host \<in> set vendor")
    case True
    let ?ps = "filter (\<lambda>p. p \<noteq> host) (case map_of parents host of Some ps \<Rightarrow> ps | None \<Rightarrow> [''runner''])"
    from True "1.prems" obtain hss where new: "host \<notin> set seen"
        and hss: "traverse (source_hosts vendor parents (seen @ [host])) ?ps = Inr hss" "hs = concat hss"
      by (subst (asm) source_hosts.simps) (auto split: if_splits)
    have "set h \<inter> set vendor = {}" if "h \<in> set hss" for h
      using traverse_set [OF hss(1) that] "1.IH" [OF _ new] True by blast
    with hss(2) show ?thesis by auto
  next
    case False
    with "1.prems" show ?thesis by (subst (asm) source_hosts.simps) auto
  qed
qed

lemma mapped_hosts_outside:
  assumes "mapped_hosts vendor parents s = Inr t"
  shows "fst t = fst s \<and> sorted (snd t) \<and> distinct (snd t) \<and> set (snd t) \<inter> set vendor = {}"
proof -
  from assms obtain hss where hss: "traverse (source_hosts vendor parents []) (snd s) = Inr hss"
      and t: "t = (fst s, sort (remdups (concat hss)))" by (auto simp: mapped_hosts_def)
  have "set hs \<inter> set vendor = {}" if "hs \<in> set hss" for hs
    using traverse_set [OF hss that] source_hosts_outside by blast
  with t show ?thesis by auto
qed

section \<open>Link helpers\<close>

text \<open>What the collection knows when it looks for link helpers; a proof is kept with its target.\<close>

record collection =
  c_sources :: "(key \<times> string list \<times> pydict option) list"
  c_binaries :: "(key \<times> string list) list"
  c_dynamic :: "(key \<times> string list) list"
  c_products :: "(string \<times> string) list"

definition source_value :: "key \<Rightarrow> string list \<Rightarrow> pydict" where
  "source_value k hosts = [(''package'', PStr (fst k)), (''target'', PStr (snd k)), (''hosts'', text_list hosts)]"

definition binary_value :: "collection \<Rightarrow> key \<times> string list \<Rightarrow> pyval" where
  "binary_value c b = PDict (source_value (fst b) (snd b)
     @ (case map_of (c_dynamic c) (fst b) of None \<Rightarrow> [] | Some ds \<Rightarrow> [(''dynamic_hosts'', text_list ds)]))"

definition helper_products :: "graph \<Rightarrow> path \<Rightarrow> key \<Rightarrow> string list \<Rightarrow> selected list" where
  "helper_products g package k hosts =
     filter (\<lambda>p. sel_path p = package \<and> PStr (snd k) \<in> set (sel_targets p) \<and> sel_host p \<in> set hosts) (selected_products g)"

text \<open>The binary targets of the same package that the product links into the same host.\<close>

definition helper_references :: "graph \<Rightarrow> collection \<Rightarrow> path \<Rightarrow> key \<Rightarrow> selected \<Rightarrow> (string \<times> string \<times> string) list" where
  "helper_references g c package k p =
     map (\<lambda>(b, _). (fst b, snd b, sel_host p))
       (filter (\<lambda>(b, hosts). fst b = fst k \<and> map_of (package_paths g) b = Some [package]
          \<and> PStr (snd b) \<in> set (sel_targets p) \<and> sel_host p \<in> set hosts) (c_binaries c))"

definition reference_value :: "string \<times> string \<times> string \<Rightarrow> pyval" where
  "reference_value r = (case r of (p, t, h) \<Rightarrow> PDict [(''package'', PStr p), (''target'', PStr t), (''host'', PStr h)])"

definition helper_proof ::
    "string \<Rightarrow> string \<Rightarrow> pyval \<Rightarrow> pyval \<Rightarrow> helper_file list \<Rightarrow> pyval list \<Rightarrow> selected \<Rightarrow> (string \<times> string \<times> string) list \<Rightarrow> pydict" where
  "helper_proof package_path sha target_path declared files settings p references =
     [(''schema_version'', PInt 1), (''reason'', PStr LINKER_ONLY_LIMITATION), (''package_path'', PStr package_path),
      (''manifest_sha256'', PStr sha), (''target_path'', target_path), (''declared_sources'', declared),
      (''sources'', PList (map file_value files)), (''linker_settings'', PList settings), (''product'', PStr (sel_product p)),
      (''product_targets'', PList (sel_targets p)), (''binary_targets'', PList (map reference_value (sort references)))]"

text \<open>The first product whose host is the only one of the target and that has binary targets gives the proof.\<close>

fun first_proof ::
    "graph_env \<Rightarrow> path \<Rightarrow> graph \<Rightarrow> collection \<Rightarrow> path \<Rightarrow> key \<Rightarrow> string list \<Rightarrow> (string \<Rightarrow> selected \<Rightarrow> (string \<times> string \<times> string) list \<Rightarrow> pydict)
     \<Rightarrow> selected list \<Rightarrow> exn + pydict option" where
  "first_proof env project g c package k hosts claim_of [] = Inr None"
| "first_proof env project g c package k hosts claim_of (p # ps) =
     (let references = helper_references g c package k p in
      if references = [] \<or> set hosts \<noteq> {sel_host p} then first_proof env project g c package k hosts claim_of ps
      else rbind (manifest_sha (helper_env.truncate env) package) (\<lambda>sha.
        let claim = claim_of sha p references in
        rbind (fst (validate_link_helper (inventory_env.truncate env) project (map (binary_value c) (c_binaries c))
            (source_value k hosts @ [(''linker_only'', PDict claim)]) [])) (\<lambda>_. Inr (Some claim))))"

definition find_helper :: "graph_env \<Rightarrow> path \<Rightarrow> graph \<Rightarrow> collection \<Rightarrow> key \<Rightarrow> string list \<Rightarrow> exn + pydict option" where
  "find_helper env project g c k hosts =
     (if k \<in> set (ambiguous g) then Inr None
      else case map_of (descriptors g) k of
          None \<Rightarrow> raise KeyError []
        | Some (package, target) \<Rightarrow>
            rbind (target_inputs target) (\<lambda>(target_path, declared, settings).
              if \<not> is_relative_to package project then value_error
              else let package_path = relative_text package project in
                rbind (helper_relative (PStr package_path)) (\<lambda>_.
                rbind (helper_sources (helper_env.truncate env) package target_path declared) (\<lambda>files.
                  first_proof env project g c package k hosts
                    (\<lambda>sha. helper_proof package_path sha target_path declared files settings) (helper_products g package k hosts)))))"

text \<open>Missing evidence leaves the target an ordinary one.\<close>

definition helper_failure :: "exn_class \<Rightarrow> bool" where
  "helper_failure c \<longleftrightarrow> c = OSError \<or> c = ValueError \<or> c = UnicodeError \<or> c = JSONDecodeError \<or> c = TypeError \<or> c = KeyError
     \<or> c = InventoryError \<or> c = MachoError"

definition add_helper ::
    "graph_env \<Rightarrow> path \<Rightarrow> graph \<Rightarrow> collection \<Rightarrow> key \<times> string list \<times> pydict option \<Rightarrow> exn + key \<times> string list \<times> pydict option" where
  "add_helper env project g c s =
     (case s of (k, hosts, old) \<Rightarrow>
       (case find_helper env project g c k hosts of
          Inr (Some claim) \<Rightarrow> Inr (k, hosts, Some claim)
        | Inr None \<Rightarrow> Inr s
        | Inl e \<Rightarrow> if helper_failure (exn_class_of e) then Inr s else Inl e))"

text \<open>A product whose sources are all link helpers is not built from source.\<close>

definition only_helpers :: "collection \<Rightarrow> string \<Rightarrow> bool" where
  "only_helpers c target \<longleftrightarrow>
     (let held = filter (\<lambda>(k, hosts, claim). target \<in> set hosts) (c_sources c) in
      held \<noteq> [] \<and> list_all (\<lambda>(k, hosts, claim). claim \<noteq> None) held)"

definition record_link_helpers :: "graph_env \<Rightarrow> path option \<Rightarrow> graph \<Rightarrow> collection \<Rightarrow> exn + collection" where
  "record_link_helpers env project g c =
     (case project of
        None \<Rightarrow> Inr c
      | Some project \<Rightarrow>
          rbind (traverse (add_helper env project g c) (c_sources c)) (\<lambda>sources.
            let c = c\<lparr>c_sources := sources\<rparr> in
            Inr (c\<lparr>c_products := filter (\<lambda>(product, target). \<not> only_helpers c target) (c_products c)\<rparr>)))"

section \<open>The collection\<close>

definition final_hosts :: "vendor_state \<Rightarrow> key \<times> string list \<Rightarrow> key \<times> string list" where
  "final_hosts s b = (case map_of (dynamic_hosts s) (fst b) of Some (d # ds) \<Rightarrow> (fst b, d # ds) | _ \<Rightarrow> b)"

definition owned_products :: "graph_env \<Rightarrow> string list \<Rightarrow> (string \<times> string) list \<Rightarrow> (string \<times> string) list" where
  "owned_products env vendor ps =
     filter (\<lambda>(product, _). product \<notin> set (map rt_product (filter (\<lambda>m. rt_target m \<in> set vendor) (g_modules env)))) ps"

definition collect :: "nat \<Rightarrow> graph_env \<Rightarrow> path option \<Rightarrow> (path \<times> string) list \<Rightarrow> exn + collection" where
  "collect n env project direct =
     (if manifest_only env then inventory_error ''macos_manifest_diagnostics_only''
      else case visit_all n env direct (new_graph env) of
          (Inl e, g) \<Rightarrow> Inl e
        | (Inr _, g) \<Rightarrow>
            rbind (foldE (vendor_target env (binaries g)) first_vendor (vendor_targets g)) (\<lambda>s.
            rbind (traverse (mapped_hosts (vendor_modules s) (module_parents g)) (sources g)) (\<lambda>held.
              record_link_helpers env project g
                \<lparr>c_sources = map (\<lambda>(k, hosts). (k, hosts, None)) held, c_binaries = map (final_hosts s) (binaries g),
                 c_dynamic = dynamic_hosts s, c_products = owned_products env (vendor_modules s) (products g)\<rparr>)))"

section \<open>What a collection holds\<close>

definition all_vendor :: "collection \<Rightarrow> string list" where
  "all_vendor c = concat (map snd (c_dynamic c))"

lemma classify_keeps:
  assumes "classify_library env (ids, s) l = Inr (ids', t)"
  shows "dynamic_hosts t = dynamic_hosts s \<and> vendor_modules t = vendor_modules s"
  using assms by (auto simp: classify_library_def split: option.splits if_splits)

lemma classify_root_keeps:
  assumes "classify_root env hosts a root = Inr b"
  shows "dynamic_hosts (snd b) = dynamic_hosts (snd a) \<and> vendor_modules (snd b) = vendor_modules (snd a)"
proof -
  obtain ids s where a: "a = (ids, s)" by fastforce
  with assms obtain ls t where libs: "vendor_libraries env root hosts s = Inr (ls, t)"
      and fold: "foldE (classify_library env) (ids, t) ls = Inr b" by (auto simp: classify_root_def)
  have "dynamic_hosts t = dynamic_hosts s \<and> vendor_modules t = vendor_modules s"
    using libs by (auto simp: vendor_libraries_def Let_def split: option.splits if_splits)
  moreover have "dynamic_hosts (snd b) = dynamic_hosts t \<and> vendor_modules (snd b) = vendor_modules t"
    by (rule foldE_invariant [OF fold]) (auto dest: classify_keeps)
  ultimately show ?thesis using a by simp
qed

lemma vendor_target_modules:
  assumes "vendor_target env hosts s kr = Inr t" and "vendor_modules s = concat (map snd (dynamic_hosts s))"
  shows "vendor_modules t = concat (map snd (dynamic_hosts t))"
proof -
  obtain k roots where kr: "kr = (k, roots)" by fastforce
  with assms(1) obtain hs ids u where fold: "foldE (classify_root env hs) ([], s) roots = Inr (ids, u)"
      and t: "t = u\<lparr>dynamic_hosts := dynamic_hosts u @ [(k, images_of env ids)], vendor_modules := vendor_modules u @ images_of env ids\<rparr>"
    by (auto simp: vendor_target_def Let_def split: if_splits)
  have "dynamic_hosts (snd (ids, u)) = dynamic_hosts s \<and> vendor_modules (snd (ids, u)) = vendor_modules s"
    by (rule foldE_invariant [OF fold]) (auto dest: classify_root_keeps)
  with t assms(2) show ?thesis by simp
qed

lemma first_proof_ok:
  assumes "first_proof env project g c package k hosts claim_of ps = Inr (Some claim)"
  shows "helper_ok (inventory_env.truncate env) (PDict (source_value k hosts @ [(''linker_only'', PDict claim)]))"
  using assms
proof (induction ps)
  case (Cons p ps)
  show ?case
  proof (cases "helper_references g c package k p = [] \<or> set hosts \<noteq> {sel_host p}")
    case False
    with Cons.prems obtain u where "fst (validate_link_helper (inventory_env.truncate env) project (map (binary_value c) (c_binaries c))
        (source_value k hosts @ [(''linker_only'', PDict claim)]) []) = Inr u"
      by (auto simp: Let_def)
    then obtain d where "validate_link_helper (inventory_env.truncate env) project (map (binary_value c) (c_binaries c))
        (source_value k hosts @ [(''linker_only'', PDict claim)]) [] = (Inr u, d)" by (metis prod.collapse)
    from validated_helper [OF this] show ?thesis by (simp add: items_of_def)
  qed (use Cons in \<open>simp add: Let_def\<close>)
qed simp

lemma find_helper_ok:
  "find_helper env project g c k hosts = Inr (Some claim)
   \<Longrightarrow> helper_ok (inventory_env.truncate env) (PDict (source_value k hosts @ [(''linker_only'', PDict claim)]))"
  by (auto simp: find_helper_def Let_def split: if_splits option.splits dest: first_proof_ok)

definition source_ok :: "graph_env \<Rightarrow> string list \<Rightarrow> key \<times> string list \<times> pydict option \<Rightarrow> bool" where
  "source_ok env vendor s \<longleftrightarrow> (case s of (k, hosts, claim) \<Rightarrow>
     sorted hosts \<and> distinct hosts \<and> set hosts \<inter> set vendor = {}
     \<and> (case claim of None \<Rightarrow> True | Some claim \<Rightarrow>
          helper_ok (inventory_env.truncate env) (PDict (source_value k hosts @ [(''linker_only'', PDict claim)]))))"

lemma add_helper_ok: "add_helper env project g c s = Inr t \<Longrightarrow> source_ok env vendor s \<Longrightarrow> source_ok env vendor t"
  by (auto simp: add_helper_def source_ok_def split: prod.splits sum.splits option.splits if_splits dest: find_helper_ok)

lemma record_link_helpers_ok:
  assumes "record_link_helpers env project g c = Inr d" and "\<forall>s\<in>set (c_sources c). source_ok env vendor s"
  shows "(\<forall>s\<in>set (c_sources d). source_ok env vendor s) \<and> set (c_products d) \<subseteq> set (c_products c) \<and> c_dynamic d = c_dynamic c
    \<and> (project \<noteq> None \<longrightarrow> (\<forall>(product, target)\<in>set (c_products d). \<not> only_helpers d target))"
proof (cases project)
  case (Some p)
  with assms(1) obtain sources where sources: "traverse (add_helper env p g c) (c_sources c) = Inr sources"
      and d: "d = c\<lparr>c_sources := sources, c_products := filter (\<lambda>(product, target). \<not> only_helpers (c\<lparr>c_sources := sources\<rparr>) target) (c_products c)\<rparr>"
    by (auto simp: record_link_helpers_def Let_def)
  have "source_ok env vendor s" if "s \<in> set sources" for s
    using traverse_set [OF sources that] assms(2) add_helper_ok by blast
  with d show ?thesis by (auto simp: only_helpers_def)
qed (use assms in \<open>simp add: record_link_helpers_def\<close>)


section \<open>A sample collection\<close>

text \<open>A package with a helper of comments and a binary target, both linked by the runner.\<close>

definition helper_manifest :: pyval where
  "helper_manifest = PDict [(''name'', PStr ''pkg''), (''products'', PList [library_product ''P'' [''Link'', ''Bin'']]),
     (''targets'', PList
       [PDict [(''name'', PStr ''Link''), (''type'', PStr ''regular''), (''path'', PStr ''Sources/Link''), (''dependencies'', PList [])],
        PDict [(''name'', PStr ''Bin''), (''type'', PStr ''binary''), (''path'', PStr ''Bin.a''), (''dependencies'', PList [])]]),
     (''dependencies'', PList [])]"

definition vendor_contents :: "(path \<times> bytes) list" where
  "vendor_contents = ([''pkg'', ''Bin.a''], le32s [0xfeedface, 0x1000007, 3, 6, 1, 24, 0] @ le32s [0x1b, 24] @ replicate 16 1) # sample_contents"

definition sample_collect_env :: graph_env where
  "sample_collect_env = sample_graph_env\<lparr>g_modules := [sample_row], evaluate := (\<lambda>p role name. Inr helper_manifest),
     files_of := (files_of sample_build)\<lparr>is_file := (\<lambda>p. p \<in> fst ` set vendor_contents),
       content := (\<lambda>p. case map_of vendor_contents p of None \<Rightarrow> raise OSError [] | Some bs \<Rightarrow> Inr bs)\<rparr>\<rparr>"

section \<open>Properties\<close>



end
