(* ===== verification/Inventory_Output.thy ===== *)
theory Inventory_Output
  imports Package_Collect
begin

text \<open>
  What is written about a macOS build, from \<open>tool/sentry_macos_inventory.py\<close>: the inventory with its receipt, which
  \<open>load_inventory\<close> reads back, and the limits of what the host images prove about source lines. The encoding of JSON
  is a parameter.
\<close>

section \<open>Writing an inventory\<close>

definition sorted_by :: "string list \<Rightarrow> pydict list \<Rightarrow> pyval" where
  "sorted_by ks ds = PList (map PDict (sort_key (\<lambda>d. map (text_at d) ks) ds))"

definition inventory_value :: "string list \<Rightarrow> pydict list \<Rightarrow> pydict list \<Rightarrow> pydict list \<Rightarrow> pyval" where
  "inventory_value managers ps ss bs = PDict
     [(''schema_version'', PInt 2), (''dependency_managers'', text_list (sort managers)), (''products'', sorted_by [''product''] ps),
      (''source_targets'', sorted_by [''package'', ''target''] ss), (''binary_targets'', sorted_by [''package'', ''target''] bs)]"

definition receipt_value :: "string \<Rightarrow> string \<Rightarrow> string list \<Rightarrow> string \<Rightarrow> runtime_row list \<Rightarrow> pyval" where
  "receipt_value configuration app managers sha rows = PDict
     [(''schema_version'', PInt 1), (''configuration'', PStr configuration), (''app'', PStr app),
      (''dependency_managers'', text_list (sort managers)), (''inventory_sha256'', PStr sha), (''runtime'', PList (map row_value rows))]"

text \<open>Both places are checked in turn, the first that fails ends the check.\<close>

definition destinations_inside :: "inventory_env \<Rightarrow> path \<Rightarrow> exn + unit" where
  "destinations_inside env root =
     foldE (\<lambda>_ p. rbind (inside_root env root p) (\<lambda>inside.
       if inside then Inr () else inventory_error ''unsafe_macos_dependency_inventory_destination'')) () [root @ INVENTORY, root @ RECEIPT]"

text \<open>The two files: the inventory and its receipt.\<close>

definition write_inventory ::
    "(pyval \<Rightarrow> bytes) \<Rightarrow> inventory_env \<Rightarrow> path \<Rightarrow> path \<Rightarrow> string \<Rightarrow> string list \<Rightarrow> pydict list \<Rightarrow> pydict list \<Rightarrow> pydict list \<Rightarrow> exn + bytes \<times> bytes" where
  "write_inventory encode env build_root app configuration managers ps ss bs =
     rbind (resolve (files_of env) build_root) (\<lambda>root.
     let raw = encode (inventory_value managers ps ss bs) in
     rbind (app_identity env root app) (\<lambda>name.
     rbind (runtime_modules env root app) (\<lambda>rows.
     rbind (destinations_inside env root) (\<lambda>_.
       Inr (raw, encode (receipt_value configuration name managers (digest env raw) rows))))))"

section \<open>Limits of source lines\<close>

record limitation =
  lim_package :: string
  lim_target :: string
  lim_host :: string
  lim_architecture :: string
  lim_reason :: string

definition SOURCE_LINE_LIMITATION :: string where
  "SOURCE_LINE_LIMITATION = ''host_dsym_only_target_lines_unverified''"

definition missing_architecture :: "exn + 'a" where
  "missing_architecture = inventory_error ''macos_source_package_host_architecture_missing''"

text \<open>The row of an image; the source is \<open>spm\<close> in every row.\<close>

definition limit_row :: "string \<Rightarrow> string \<Rightarrow> bool \<Rightarrow> string \<Rightarrow> string \<Rightarrow> limitation" where
  "limit_row package target verified host a = \<lparr>lim_package = package, lim_target = target, lim_host = host, lim_architecture = a,
     lim_reason = (if verified then LINKER_ONLY_LIMITATION else SOURCE_LINE_LIMITATION)\<rparr>"

text \<open>The rows of one host: an architecture nobody ships is refused.\<close>

definition host_limitations :: "(string \<times> string list) list \<Rightarrow> string \<Rightarrow> string \<Rightarrow> bool \<Rightarrow> string \<Rightarrow> exn + limitation list" where
  "host_limitations architectures package target verified host =
     rbind (label (PStr host)) (\<lambda>_.
       case map_of architectures host of
         Some (a # as) \<Rightarrow>
           traverse (\<lambda>a. if a \<notin> set [''arm64'', ''x86_64''] then missing_architecture
             else Inr (limit_row package target verified host a)) (sort (a # as))
       | _ \<Rightarrow> missing_architecture)"

definition target_limitations :: "(string \<times> string list) list \<Rightarrow> (key \<times> string list) \<times> bool \<Rightarrow> exn + limitation list" where
  "target_limitations architectures s =
     (case s of (((package, target), hosts), verified) \<Rightarrow>
       rbind (label (PStr package)) (\<lambda>package. rbind (label (PStr target)) (\<lambda>target.
       rbind (traverse (host_limitations architectures package target verified) (sort hosts)) (\<lambda>rows. Inr (concat rows)))))"

definition limitation_key :: "limitation \<Rightarrow> string list" where
  "limitation_key l = [lim_package l, lim_target l, lim_host l, lim_architecture l]"

definition source_line_limitations :: "(string \<times> string list) list \<Rightarrow> ((key \<times> string list) \<times> bool) list \<Rightarrow> exn + limitation list" where
  "source_line_limitations architectures ss =
     rbind (traverse (target_limitations architectures) ss) (\<lambda>rows. Inr (sort_key limitation_key (concat rows)))"

section \<open>What was written is read back\<close>

lemma py_eq_row [simp]: "py_eq (row_value r) (row_value r)"
  by (simp add: row_value_def list_all2_conv_all_nth split: prod.split)

lemma py_eq_rows: "py_eq (PList (map row_value rows)) (PList (map row_value rows))"
  by (simp add: list_all2_conv_all_nth)

lemma checks_pass:
  assumes "foldE (\<lambda>_ p. rbind (f p) (\<lambda>ok. if ok then Inr () else Inl a)) () ps = Inr ()"
  shows "foldE (\<lambda>_ p. rbind (f p) (\<lambda>ok. if ok then Inr () else Inl b)) () ps = Inr ()"
  using assms by (induction ps) (auto simp: split: if_splits)

lemma both_inside_ok: "destinations_inside env root = Inr () \<Longrightarrow> both_inside env root = Inr ()"
  unfolding both_inside_def destinations_inside_def by (rule checks_pass)

lemma text_list_inject: "text_list a = text_list b \<longleftrightarrow> a = b"
proof -
  have "inj PStr" by (rule injI) simp
  then show ?thesis by (simp add: text_list_def inj_map_eq_map)
qed

lemma agreed_same: "ms \<in> set allowed_managers \<Longrightarrow> agreed_managers (text_list ms) (text_list ms) = Inr ms"
proof -
  assume ms: "ms \<in> set allowed_managers"
  have "filter (\<lambda>xs. text_list xs = text_list ms) allowed_managers = filter (\<lambda>xs. xs = ms) allowed_managers"
    by (simp add: text_list_inject)
  also have "\<dots> = [ms]" using ms by (auto simp: allowed_managers_def)
  finally show ?thesis by (simp add: agreed_managers_def)
qed

lemma compare_same: "compare_runtime (PList (map row_value rows)) rows d
    = (Inr (), dict_update d [(''expected_runtime_count'', PInt (int (length rows))), (''actual_runtime_count'', PInt (int (length rows)))])"
  unfolding compare_runtime_def by (simp only: length_of_def pyval.case cmd_defs length_map py_eq_rows sum.case prod.case if_True)

text \<open>Fields of what is written.\<close>

lemma inventory_fields [simp]:
  "subscript (inventory_value managers ps ss bs) ''schema_version'' = Inr (PInt 2)"
  "subscript (inventory_value managers ps ss bs) ''dependency_managers'' = Inr (text_list (sort managers))"
  by (simp_all add: inventory_value_def subscript_def dict_item_def)

lemma receipt_fields [simp]:
  "subscript (receipt_value configuration app managers sha rows) ''schema_version'' = Inr (PInt 1)"
  "subscript (receipt_value configuration app managers sha rows) ''configuration'' = Inr (PStr configuration)"
  "subscript (receipt_value configuration app managers sha rows) ''app'' = Inr (PStr app)"
  "subscript (receipt_value configuration app managers sha rows) ''dependency_managers'' = Inr (text_list (sort managers))"
  "subscript (receipt_value configuration app managers sha rows) ''inventory_sha256'' = Inr (PStr sha)"
  "subscript (receipt_value configuration app managers sha rows) ''runtime'' = Inr (PList (map row_value rows))"
  by (simp_all add: receipt_value_def subscript_def dict_item_def)

text \<open>A state a load may be in where its checks have passed.\<close>

lemma load_body_reads:
  assumes "both_inside env root = Inr ()" and "content (files_of env) (root @ INVENTORY) = Inr raw"
    and "content (files_of env) (root @ RECEIPT) = Inr receipt"
    and "json_of env raw = Inr (inventory_value managers ps ss bs)"
    and "json_of env receipt = Inr (receipt_value configuration app_name managers (digest env raw) rows)"
    and "app_identity env root app = Inr app_name" and "runtime_modules env root app = Inr rows"
    and "sort managers \<in> set allowed_managers"
  shows "\<exists>e. load_body env root app configuration d = load_records env root (inventory_value managers ps ss bs) (sort managers) rows e"
proof -
  have same: "same_value (inventory_value managers ps ss bs) ''schema_version'' (PInt 2) = Inr ()"
      "same_value (receipt_value configuration app_name managers (digest env raw) rows) ''schema_version'' (PInt 1) = Inr ()"
      "same_value (receipt_value configuration app_name managers (digest env raw) rows) ''configuration'' (PStr configuration) = Inr ()"
      "same_value (receipt_value configuration app_name managers (digest env raw) rows) ''inventory_sha256'' (PStr (digest env raw)) = Inr ()"
    by (simp_all add: same_value_def py_eq_int_def require_def)
  have name: "require (PStr app_name = PStr app_name) = Inr ()" by (simp add: require_def)
  have step: "seq (lift_result (Inr x)) f d = f x d" "seq (mark k) g d = g () (dict_set d ''inventory_check'' (PStr k))"
    for x :: 'x and f :: "'x \<Rightarrow> 'b checked" and k and g :: "unit \<Rightarrow> 'b checked" and d
    by (simp_all add: cmd_defs mark_def)
  have compared: "seq (compare_runtime (PList (map row_value rows)) rows) g d = g () (snd (compare_runtime (PList (map row_value rows)) rows d))"
    for g :: "unit \<Rightarrow> 'b checked" and d
    by (simp add: seq_def compare_same)
  show ?thesis
    unfolding load_body_def
    by (simp only: assms same step compared rbind_simps receipt_fields inventory_fields agreed_same name) blast
qed

section \<open>Properties\<close>

text \<open>A build whose inventory names one host package without further claims.\<close>

definition written_sources :: "pydict list" where
  "written_sources = [[(''package'', PStr ''pkg''), (''target'', PStr ''Lib''), (''hosts'', text_list [''runner''])]]"

definition written_encode :: "pyval \<Rightarrow> bytes" where
  "written_encode v = (if v = inventory_value [''spm''] [] written_sources [] then [1]
     else if v = receipt_value ''Release'' ''A.app'' [''spm''] [] [sample_row] then [2] else [3])"

definition written_build :: inventory_env where
  "written_build = sample_build\<lparr>json_of := (\<lambda>bs. Inr (if bs = [1] then inventory_value [''spm''] [] written_sources []
     else receipt_value ''Release'' ''A.app'' [''spm''] [] [sample_row]))\<rparr>"



section \<open>The limits cover the images at hand\<close>

text \<open>The rows of a host, of a target and of all targets.\<close>

lemma traverse_concat:
  assumes "traverse f xs = Inr yss" and "\<And>x ys. x \<in> set xs \<Longrightarrow> f x = Inr ys \<Longrightarrow> set ys = g x"
  shows "set (concat yss) = (\<Union>x\<in>set xs. g x)"
  using assms
proof (induction xs arbitrary: yss)
  case (Cons x xs)
  then obtain ys zss where "f x = Inr ys" "traverse f xs = Inr zss" "yss = ys # zss" by auto
  moreover from this have "set ys = g x" using Cons.prems(2) [of x ys] by simp
  moreover have "set (concat zss) = (\<Union>x\<in>set xs. g x)" using calculation Cons.IH [of zss] Cons.prems(2) by simp
  ultimately show ?case by simp
qed simp

lemma traverse_image: "traverse (\<lambda>a. if P a then raise c m else Inr (f a)) xs = Inr ys \<Longrightarrow> ys = map f xs \<and> (\<forall>x\<in>set xs. \<not> P x)"
  by (induction xs arbitrary: ys) (auto split: if_splits)

lemma limit_row_architecture [simp]: "lim_architecture (limit_row package target verified host a) = a"
  by (simp add: limit_row_def)

lemma host_limitations_rows:
  assumes "host_limitations architectures package target verified host = Inr rows"
  shows "\<exists>as. map_of architectures host = Some as \<and> set as \<subseteq> {''arm64'', ''x86_64''}
    \<and> set rows = limit_row package target verified host ` set as"
proof -
  from assms obtain as where as: "map_of architectures host = Some as"
      and rows: "traverse (\<lambda>a. if a \<notin> set [''arm64'', ''x86_64''] then missing_architecture else Inr (limit_row package target verified host a))
        (sort as) = Inr rows"
    unfolding host_limitations_def missing_architecture_def
    by (cases "label (PStr host)"; cases "map_of architectures host"; cases "the (map_of architectures host)") simp_all
  from traverse_image [OF rows [unfolded missing_architecture_def]]
  have "rows = map (limit_row package target verified host) (sort as)" "set as \<subseteq> {''arm64'', ''x86_64''}" by auto
  with as show ?thesis by simp
qed

lemma target_limitations_rows:
  assumes "target_limitations architectures (((package, target), hosts), verified) = Inr rows"
  shows "set rows = {limit_row package target verified host a | host a as. host \<in> set hosts \<and> map_of architectures host = Some as \<and> a \<in> set as}
    \<and> lim_architecture ` set rows \<subseteq> {''arm64'', ''x86_64''}"
proof -
  from assms obtain rss where rss: "traverse (host_limitations architectures package target verified) (sort hosts) = Inr rss"
      and rows: "rows = concat rss"
    by (auto simp: target_limitations_def label_def split: if_splits)
  let ?g = "\<lambda>host. {limit_row package target verified host a | a as. map_of architectures host = Some as \<and> a \<in> set as}"
  have "set (concat rss) = (\<Union>host\<in>set (sort hosts). ?g host)"
    by (rule traverse_concat [OF rss]) (use host_limitations_rows in fastforce)
  moreover have "lim_architecture l \<in> {''arm64'', ''x86_64''}" if l: "l \<in> set (concat rss)" for l
  proof -
    from l obtain rs where rs: "rs \<in> set rss" "l \<in> set rs" by auto
    from traverse_set [OF rss rs(1)] obtain host where "host_limitations architectures package target verified host = Inr rs" by auto
    from host_limitations_rows [OF this] obtain as where "set as \<subseteq> {''arm64'', ''x86_64''}"
        and "set rs = limit_row package target verified host ` set as" by blast
    with rs(2) show ?thesis by fastforce
  qed
  then have "lim_architecture ` set rows \<subseteq> {''arm64'', ''x86_64''}" using rows by blast
  moreover have "set rows = set (concat rss)" using rows by simp
  ultimately show ?thesis by auto
qed

text \<open>C36: The limits that are published cover exactly the images at hand: there is a row for a package, target, host
  and architecture if and only if the inventory has that target with that host and the host was built for that
  architecture, the reason follows the target, the rows are in order, and only architectures of a release occur.\<close>

theorem limitations_exact:
  assumes "source_line_limitations architectures ss = Inr rows"
  shows "set rows = {limit_row package target verified host a | package target hosts verified host a as.
        (((package, target), hosts), verified) \<in> set ss \<and> host \<in> set hosts \<and> map_of architectures host = Some as \<and> a \<in> set as}
    \<and> sorted (map limitation_key rows) \<and> lim_architecture ` set rows \<subseteq> {''arm64'', ''x86_64''}"
proof -
  from assms obtain rss where rss: "traverse (target_limitations architectures) ss = Inr rss"
      and rows: "rows = sort_key limitation_key (concat rss)"
    by (auto simp: source_line_limitations_def)
  let ?g = "\<lambda>s. {limit_row package target verified host a | package target hosts verified host a as.
        s = (((package, target), hosts), verified) \<and> host \<in> set hosts \<and> map_of architectures host = Some as \<and> a \<in> set as}"
  have "set (concat rss) = (\<Union>s\<in>set ss. ?g s)"
    by (rule traverse_concat [OF rss]) (auto dest!: target_limitations_rows)
  moreover have "lim_architecture l \<in> {''arm64'', ''x86_64''}" if l: "l \<in> set (concat rss)" for l
  proof -
    from l obtain rs where rs: "rs \<in> set rss" "l \<in> set rs" by auto
    from traverse_set [OF rss rs(1)] obtain p t hs v where "target_limitations architectures (((p, t), hs), v) = Inr rs" by auto
    from target_limitations_rows [OF this] rs(2) show ?thesis by auto
  qed
  moreover have "set rows = set (concat rss)" "sorted (map limitation_key rows)" using rows by simp_all
  ultimately show ?thesis unfolding \<open>set rows = _\<close> by blast
qed

lemma limitations_exact_witness:
  "set [limit_row ''pkg'' ''Lib'' False ''runner'' ''arm64'', limit_row ''pkg'' ''Lib'' False ''runner'' ''x86_64'']
     = {limit_row package target verified host a | package target hosts verified host a as.
        (((package, target), hosts), verified) \<in> set [(((''pkg'', ''Lib''), [''runner'']), False)] \<and> host \<in> set hosts
        \<and> map_of [(''runner'', [''x86_64'', ''arm64''])] host = Some as \<and> a \<in> set as}"
proof -
  have "source_line_limitations [(''runner'', [''x86_64'', ''arm64''])] [(((''pkg'', ''Lib''), [''runner'']), False)]
      = Inr [limit_row ''pkg'' ''Lib'' False ''runner'' ''arm64'', limit_row ''pkg'' ''Lib'' False ''runner'' ''x86_64'']"
    by code_simp
  from conjunct1 [OF limitations_exact [OF this]] show ?thesis .
qed

end
