(* ===== verification/Symbol_Cli.thy ===== *)
theory Symbol_Cli
  imports Linux_Inventory Upload_Confirmation
begin

text \<open>
  What the symbol upload runs and reads, from \<open>tool/upload_sentry_symbols.py\<close>: \<open>sentry-cli\<close> with its time limit and
  retries, the check of one debug file, fingerprints and the paths of a manifest. Every run of the tool is logged,
  the newest first. The tool, the clock, \<open>json.loads\<close> of its answer and what the host makes of the text of a path
  are parameters; times are milliseconds.
\<close>

section \<open>The tool\<close>

record tool_result =
  exit_code :: int
  out_text :: string
  err_text :: string

text \<open>
  \<open>run_tool\<close> is \<open>subprocess.run\<close> with a timeout: a result or what it raised, \<open>SubprocessError\<close> standing for
  \<open>TimeoutExpired\<close>. \<open>host_path\<close> is the absolute \<open>Path(text)\<close> of the host, \<open>path_text\<close> is \<open>str(path)\<close> and \<open>name_case\<close> is what the host's
  globbing makes of the case of a name.
\<close>

record 'w symbol_env = linux_env +
  run_tool :: "string list \<Rightarrow> int \<Rightarrow> 'w \<Rightarrow> (exn + tool_result) \<times> 'w"
  tool_clock :: "'w \<Rightarrow> int \<times> 'w"
  tool_sleep :: "int \<Rightarrow> 'w \<Rightarrow> 'w"
  text_json :: "string \<Rightarrow> exn + pyval"
  host_path :: "string \<Rightarrow> path"
  path_text :: "path \<Rightarrow> string"
  name_case :: "string \<Rightarrow> string"

text \<open>One run: arguments, time limit and outcome.\<close>

record tool_run =
  run_arguments :: "string list"
  run_limit :: int
  run_outcome :: "exn + tool_result"

text \<open>\<open>diagnostic\<close> is that of the upload error raised last.\<close>

record 'w tool_state =
  runs_made :: "tool_run list"
  diagnostic :: pydict
  tools :: 'w

abbreviation symbol_error :: "string \<Rightarrow> exn + 'a" where
  "symbol_error code \<equiv> raise SymbolError code"

definition invoke :: "'w symbol_env \<Rightarrow> string list \<Rightarrow> int \<Rightarrow> ('w tool_state, tool_result) cmd" where
  "invoke env args limit s =
     (case run_tool env args limit (tools s) of (r, w) \<Rightarrow>
       (r, s\<lparr>runs_made := \<lparr>run_arguments = args, run_limit = limit, run_outcome = r\<rparr> # runs_made s, tools := w\<rparr>))"

definition tool_now :: "'w symbol_env \<Rightarrow> ('w tool_state, int) cmd" where
  "tool_now env s = (case tool_clock env (tools s) of (t, w) \<Rightarrow> (Inr t, s\<lparr>tools := w\<rparr>))"

definition rest :: "'w symbol_env \<Rightarrow> int \<Rightarrow> ('w tool_state, unit) cmd" where
  "rest env delay s = (Inr (), s\<lparr>tools := tool_sleep env delay (tools s)\<rparr>)"

text \<open>Raises an upload error with its diagnostic.\<close>

definition raise_upload :: "exn \<Rightarrow> pydict \<Rightarrow> ('w tool_state, 'a) cmd" where
  "raise_upload e d = seq (updating (\<lambda>s. s\<lparr>diagnostic := d\<rparr>)) (\<lambda>_. lift_result (Inl e))"

definition CLI_MS :: int where
  "CLI_MS = 900000"

definition cli_timeout :: exn where
  "cli_timeout = Exn (UploadError ''upload'' None None 0) ''cli_timeout''"

definition transient :: "string list" where
  "transient = [''transport_error'', ''server_error'']"

definition is_upload :: "string list \<Rightarrow> bool" where
  "is_upload args \<longleftrightarrow> take 2 args = [''debug-files'', ''upload'']"

definition attempts_made :: "pydict \<Rightarrow> nat \<Rightarrow> pydict" where
  "attempts_made d attempt = dict_set d ''attempts'' (PInt (int attempt + 1))"

definition retry_delay :: "nat \<Rightarrow> int" where
  "retry_delay attempt = (if attempt = 0 then 2000 else 5000)"

text \<open>One pass of the loop: a result leaves the loop.\<close>

definition failed_pass :: "'w symbol_env \<Rightarrow> int \<Rightarrow> nat \<Rightarrow> tool_result \<Rightarrow> ('w tool_state, tool_result option) cmd" where
  "failed_pass env deadline attempt res =
     (case cli_failure (exit_code res) (out_text res) (err_text res) of (failure, d) \<Rightarrow>
       if exn_message failure \<notin> set transient \<or> attempt = 2 then raise_upload failure (attempts_made d attempt)
       else seq (tool_now env) (\<lambda>t.
         if deadline - t \<le> retry_delay attempt then raise_upload failure (attempts_made d attempt)
         else seq (rest env (retry_delay attempt)) (\<lambda>_. ret None)))"

definition cli_pass :: "'w symbol_env \<Rightarrow> string list \<Rightarrow> int \<Rightarrow> nat \<Rightarrow> ('w tool_state, tool_result option) cmd" where
  "cli_pass env args deadline attempt =
     seq (tool_now env) (\<lambda>t.
       if deadline - t \<le> 0 then raise_upload cli_timeout (upload_diagnostic cli_timeout)
       else seq (invoke env args (if is_upload args then deadline - t else CLI_MS)) (\<lambda>res.
         if \<not> is_upload args \<or> exit_code res = 0 then ret (Some res) else failed_pass env deadline attempt res))"

text \<open>A PE file with an identifier but no debug sections makes \<open>check --json\<close> exit with 1.\<close>

definition check_answer :: "string list \<Rightarrow> tool_result \<Rightarrow> bool" where
  "check_answer args res \<longleftrightarrow> take 3 args = [''debug-files'', ''check'', ''--json''] \<and> exit_code res = 1
     \<and> prefix ''{'' (dropWhile (\<lambda>c. c \<in> set text_space) (out_text res))"

definition cli_failed :: "string list \<Rightarrow> tool_result \<Rightarrow> ('w tool_state, string) cmd" where
  "cli_failed args res =
     (if is_upload args then (case cli_failure (exit_code res) (out_text res) (err_text res) of (e, d) \<Rightarrow> raise_upload e d)
      else throw SymbolError (''sentry-cli '' @ join '' '' (take 2 args) @ '' failed (exit '' @ int_text (exit_code res) @ '')''))"

text \<open>The third pass always leaves the loop, so the last case is not reached.\<close>

definition run_cli :: "'w symbol_env \<Rightarrow> string list \<Rightarrow> ('w tool_state, string) cmd" where
  "run_cli env args =
     seq (tool_now env) (\<lambda>start.
     seq (try_each (cli_pass env args (start + CLI_MS)) (if is_upload args then [0, 1, 2] else [0])) (\<lambda>r.
       case r of
         Some res \<Rightarrow> if exit_code res \<noteq> 0 \<and> \<not> check_answer args res then cli_failed args res else ret (out_text res)
       | None \<Rightarrow> throw RuntimeError ''no result''))"

section \<open>What the runs of one call are\<close>

definition tool_failure :: "tool_result \<Rightarrow> exn" where
  "tool_failure res = fst (cli_failure (exit_code res) (out_text res) (err_text res))"

text \<open>A run that met a failure after which it is tried again.\<close>

definition met_transient :: "tool_run \<Rightarrow> bool" where
  "met_transient x \<longleftrightarrow> (case run_outcome x of Inl e \<Rightarrow> False
     | Inr res \<Rightarrow> exit_code res \<noteq> 0 \<and> exn_message (tool_failure res) \<in> set transient)"

definition max_runs :: "string list \<Rightarrow> nat" where
  "max_runs args = (if is_upload args then 3 else 1)"

definition proper_run :: "string list \<Rightarrow> tool_run \<Rightarrow> bool" where
  "proper_run args x \<longleftrightarrow> run_arguments x = args \<and> 0 < run_limit x"

text \<open>Before a pass, after the last one, and where an exception leaves.\<close>

definition going_on :: "string list \<Rightarrow> tool_run list \<Rightarrow> nat \<Rightarrow> 'w tool_state \<Rightarrow> bool" where
  "going_on args L k s \<longleftrightarrow> k < max_runs args
     \<and> (\<exists>new. runs_made s = new @ L \<and> length new = k \<and> list_all (proper_run args) new \<and> list_all met_transient new)"

definition has_result :: "string list \<Rightarrow> tool_run list \<Rightarrow> tool_result \<Rightarrow> 'w tool_state \<Rightarrow> bool" where
  "has_result args L res s \<longleftrightarrow> (\<exists>x new. runs_made s = x # new @ L \<and> length new < max_runs args \<and> list_all (proper_run args) (x # new)
     \<and> list_all met_transient new \<and> run_outcome x = Inr res \<and> (is_upload args \<longrightarrow> exit_code res = 0))"

text \<open>What an upload raises: its time is over, the tool could not be run, or the failure of the last run.\<close>

definition upload_cause :: "tool_run list \<Rightarrow> exn \<Rightarrow> bool" where
  "upload_cause new e \<longleftrightarrow> e = cli_timeout \<or> (case new of [] \<Rightarrow> False
     | x # _ \<Rightarrow> (case run_outcome x of Inl e' \<Rightarrow> e = e' | Inr res \<Rightarrow> exit_code res \<noteq> 0 \<and> e = tool_failure res))"

definition gave_up :: "string list \<Rightarrow> tool_run list \<Rightarrow> exn \<Rightarrow> 'w tool_state \<Rightarrow> bool" where
  "gave_up args L e s \<longleftrightarrow> (\<exists>new. runs_made s = new @ L \<and> length new \<le> max_runs args \<and> list_all (proper_run args) new
     \<and> list_all met_transient (tl new) \<and> (is_upload args \<longrightarrow> upload_cause new e))"

lemma triple_now [triple_intros]: "(\<And>t s w. P s \<Longrightarrow> Q t (s\<lparr>tools := w\<rparr>)) \<Longrightarrow> triple P (tool_now env) Q E"
  by (simp add: triple_def tool_now_def split: prod.split)

lemma tools_irrelevant [simp]:
  "going_on args L k (s\<lparr>tools := w\<rparr>) = going_on args L k s" "has_result args L res (s\<lparr>tools := w\<rparr>) = has_result args L res s"
  "gave_up args L e (s\<lparr>tools := w\<rparr>) = gave_up args L e s" "gave_up args L e (s\<lparr>diagnostic := d\<rparr>) = gave_up args L e s"
  by (simp_all add: going_on_def has_result_def gave_up_def)

lemma triple_raise_upload [triple_intros]:
  "(\<And>s. P s \<Longrightarrow> E e (s\<lparr>diagnostic := d\<rparr>)) \<Longrightarrow> triple P (raise_upload e d) Q E"
  by (simp add: triple_def raise_upload_def cmd_defs)

lemma triple_rest [triple_intros]: "(\<And>s w. P s \<Longrightarrow> Q () (s\<lparr>tools := w\<rparr>)) \<Longrightarrow> triple P (rest env delay) Q E"
  by (simp add: triple_def rest_def)

lemma list_all_tl: "list_all P xs \<Longrightarrow> list_all P (tl xs)"
  by (cases xs) simp_all

lemma timed_out: "going_on args L k s \<Longrightarrow> gave_up args L cli_timeout s"
  by (auto simp: going_on_def gave_up_def upload_cause_def list_all_tl)

text \<open>After a run the newest entry is its outcome.\<close>

definition just_ran :: "string list \<Rightarrow> tool_run list \<Rightarrow> nat \<Rightarrow> tool_result \<Rightarrow> 'w tool_state \<Rightarrow> bool" where
  "just_ran args L k res s \<longleftrightarrow> k < max_runs args \<and> (\<exists>x new. runs_made s = x # new @ L \<and> length new = k \<and> list_all (proper_run args) (x # new)
     \<and> list_all met_transient new \<and> run_outcome x = Inr res)"

lemma just_ran_tools [simp]: "just_ran args L k res (s\<lparr>tools := w\<rparr>) = just_ran args L k res s"
  by (simp add: just_ran_def)

lemma triple_invoke:
  assumes "0 < limit"
  shows "triple (going_on args L k) (invoke env args limit) (just_ran args L k) (gave_up args L)"
proof -
  have "case invoke env args limit s of (Inl e, t) \<Rightarrow> gave_up args L e t | (Inr res, t) \<Rightarrow> just_ran args L k res t"
    if "going_on args L k s" for s
  proof -
    obtain r w where r: "run_tool env args limit (tools s) = (r, w)" by fastforce
    from that obtain new where new: "runs_made s = new @ L" "length new = k" "list_all (proper_run args) new" "list_all met_transient new"
        and k: "k < max_runs args"
      by (auto simp: going_on_def)
    let ?x = "\<lparr>run_arguments = args, run_limit = limit, run_outcome = r\<rparr>"
    have x: "proper_run args ?x" using assms by (simp add: proper_run_def)
    show ?thesis
    proof (cases r)
      case (Inl e)
      with r new k x show ?thesis by (auto simp: invoke_def gave_up_def upload_cause_def intro!: exI [of _ "?x # new"])
    next
      case (Inr res)
      with r new k x show ?thesis by (auto simp: invoke_def just_ran_def)
    qed
  qed
  then show ?thesis by (simp add: triple_def)
qed

lemma just_ran_result: "just_ran args L k res s \<Longrightarrow> \<not> is_upload args \<or> exit_code res = 0 \<Longrightarrow> has_result args L res s"
  unfolding just_ran_def has_result_def by blast

lemma just_ran_failed:
  "just_ran args L k res s \<Longrightarrow> exit_code res \<noteq> 0 \<Longrightarrow> gave_up args L (tool_failure res) (s\<lparr>diagnostic := d\<rparr>)"
  by (fastforce simp: just_ran_def gave_up_def upload_cause_def)

lemma just_ran_again:
  "just_ran args L k res s \<Longrightarrow> exit_code res \<noteq> 0 \<Longrightarrow> exn_message (tool_failure res) \<in> set transient \<Longrightarrow> Suc k < max_runs args
   \<Longrightarrow> going_on args L (Suc k) s"
  by (fastforce simp: just_ran_def going_on_def met_transient_def)

lemma triple_failed_pass:
  assumes "is_upload args" and "exit_code res \<noteq> 0" and "k < 3"
  shows "triple (just_ran args L k res) (failed_pass env deadline k res)
    (\<lambda>r s. case r of None \<Rightarrow> going_on args L (Suc k) s | Some res \<Rightarrow> has_result args L res s) (gave_up args L)"
proof -
  obtain failure d where f: "cli_failure (exit_code res) (out_text res) (err_text res) = (failure, d)" by fastforce
  have t: "tool_failure res = failure" by (simp add: tool_failure_def f)
  have raised: "triple (just_ran args L k res) (raise_upload failure d') Q (gave_up args L)" for d' and Q :: "tool_result option \<Rightarrow> 'b tool_state \<Rightarrow> bool"
    using just_ran_failed [OF _ assms(2), unfolded t] by (intro triple_intros) auto
  have again: "Suc k < max_runs args" if "k \<noteq> 2" using assms that by (simp add: max_runs_def)
  show ?thesis
    unfolding failed_pass_def f prod.case
    using just_ran_again [OF _ assms(2), unfolded t] again
    by (intro triple_intros raised triple_seq [where R = "\<lambda>_. just_ran args L k res"] triple_seq [where R = "\<lambda>_. going_on args L (Suc k)"])
      auto
qed

lemma triple_cli_pass:
  assumes "k < max_runs args"
  shows "triple (going_on args L k) (cli_pass env args deadline k)
    (\<lambda>r s. case r of None \<Rightarrow> going_on args L (Suc k) s | Some res \<Rightarrow> has_result args L res s) (gave_up args L)"
proof -
  have k: "is_upload args \<Longrightarrow> k < 3" using assms by (simp add: max_runs_def)
  have limit: "0 < (if is_upload args then deadline - t else CLI_MS)" if "\<not> deadline - t \<le> 0" for t
    using that by (simp add: CLI_MS_def)
  have after: "triple (just_ran args L k res) (if \<not> is_upload args \<or> exit_code res = 0 then ret (Some res) else failed_pass env deadline k res)
      (\<lambda>r s. case r of None \<Rightarrow> going_on args L (Suc k) s | Some res \<Rightarrow> has_result args L res s) (gave_up args L)" for res
    using k by (intro triple_intros triple_failed_pass) (auto dest: just_ran_result)
  show ?thesis
    unfolding cli_pass_def
    by (intro triple_seq [where R = "\<lambda>_. going_on args L k"] triple_intros triple_seq [OF triple_invoke [OF limit] after]) (auto dest: timed_out)
qed

lemma failed_result: "has_result args L res s \<Longrightarrow> exit_code res \<noteq> 0 \<Longrightarrow> \<not> is_upload args \<Longrightarrow> gave_up args L e s"
  by (fastforce simp: has_result_def gave_up_def)

lemma uploaded_well: "has_result args L res s \<Longrightarrow> is_upload args \<Longrightarrow> exit_code res = 0"
  by (auto simp: has_result_def)

lemma triple_run_cli:
  "triple (\<lambda>s. runs_made s = L) (run_cli env args)
     (\<lambda>out s. \<exists>res. has_result args L res s \<and> out = out_text res \<and> (exit_code res = 0 \<or> \<not> is_upload args \<and> check_answer args res))
     (gave_up args L)"
proof -
  have first: "going_on args L 0 s" if "runs_made s = L" for s
    using that by (simp add: going_on_def max_runs_def)
  let ?passes = "if is_upload args then [0, 1, 2] else [0 :: nat]"
  have len: "length ?passes = max_runs args" and nth: "k < length ?passes \<Longrightarrow> ?passes ! k = k" for k
    by (auto simp: max_runs_def less_Suc_eq numeral_3_eq_3 nth_Cons')
  have each: "triple (going_on args L 0) (try_each (cli_pass env args deadline) ?passes)
      (\<lambda>r s. case r of None \<Rightarrow> False | Some res \<Rightarrow> has_result args L res s) (gave_up args L)" for deadline
  proof (rule triple_try_each_indexed)
    show "triple (going_on args L (0 + k)) (cli_pass env args deadline x)
        (\<lambda>r s. case r of None \<Rightarrow> going_on args L (Suc (0 + k)) s | Some y \<Rightarrow> (case Some y of None \<Rightarrow> False | Some res \<Rightarrow> has_result args L res s))
        (gave_up args L)" if "k < length ?passes" "x = ?passes ! k" for k x
      using triple_cli_pass [of k args] that len nth by (simp cong: option.case_cong)
    show "case None of None \<Rightarrow> False | Some res \<Rightarrow> has_result args L res s" if "going_on args L (0 + length ?passes) s" for s
      using that len by (simp add: going_on_def)
  qed
  have last: "triple (\<lambda>s. case r of None \<Rightarrow> False | Some res \<Rightarrow> has_result args L res s)
      (case r of Some res \<Rightarrow> if exit_code res \<noteq> 0 \<and> \<not> check_answer args res then cli_failed args res else ret (out_text res)
       | None \<Rightarrow> throw RuntimeError ''no result'')
      (\<lambda>out s. \<exists>res. has_result args L res s \<and> out = out_text res \<and> (exit_code res = 0 \<or> \<not> is_upload args \<and> check_answer args res))
      (gave_up args L)" for r
  proof (cases r)
    case (Some res)
    have "\<not> is_upload args \<or> \<not> check_answer args res"
      by (cases args; cases "tl args"; cases "tl (tl args)") (auto simp: check_answer_def is_upload_def)
    with Some show ?thesis
      unfolding cli_failed_def
      by (cases "cli_failure (exit_code res) (out_text res) (err_text res)") (auto intro!: triple_intros intro: failed_result dest: uploaded_well)
  qed (auto intro: triple_intros)
  have start: "triple (\<lambda>s. runs_made s = L) (tool_now env) (\<lambda>_. going_on args L 0) (gave_up args L)"
    using first by (intro triple_now) simp
  show ?thesis
    unfolding run_cli_def by (rule triple_seq [OF start triple_seq [OF each last]])
qed

section \<open>A sample host\<close>

text \<open>A host whose tool gives the listed outcomes in turn and whose clock stands still.\<close>

definition sample_host :: "file_system \<Rightarrow> (string \<Rightarrow> exn + pyval) \<Rightarrow> (exn + tool_result) list symbol_env" where
  "sample_host files json =
     \<lparr>fs = files, sha = (\<lambda>bs. bytes_text bs), utf8_text = (\<lambda>bs. Some (bytes_text bs)), depth = 5,
      run_tool = (\<lambda>args limit w. case w of [] \<Rightarrow> (raise OSError [], []) | r # rs \<Rightarrow> (r, rs)), tool_clock = (\<lambda>w. (0, w)),
      tool_sleep = (\<lambda>delay w. w), text_json = json, host_path = path_parts, path_text = (\<lambda>p. join ''/'' p),
      name_case = (\<lambda>s. s)\<rparr>"

definition no_files :: file_system where
  "no_files = \<lparr>resolve = Inr, linked = (\<lambda>p. False), is_file = (\<lambda>p. False), is_dir = (\<lambda>p. False), children = (\<lambda>p. raise OSError []),
     content = (\<lambda>p. raise OSError [])\<rparr>"

definition tool_answers :: "(exn + tool_result) list \<Rightarrow> (exn + tool_result) list tool_state" where
  "tool_answers rs = \<lparr>runs_made = [], diagnostic = [], tools = rs\<rparr>"



end
