(* ===== verification/Symbol_Audit.thy ===== *)
theory Symbol_Audit
  imports Symbol_Cli
begin

text \<open>
  What an audit asks of one file, from \<open>tool/upload_sentry_symbols.py\<close>: the check of a debug file by the tool,
  fingerprints, labels and the paths of a manifest; and the audit of a Windows build, which accepts only the PDB files
  of its target manifest.
\<close>

section \<open>Checked files\<close>

record symbol_info =
  si_ids :: "string list"
  si_architectures :: "string list"
  si_format :: pyval
  si_features :: pyval

definition re_debug_text :: regex where
  "re_debug_text = rplus (RClass False [(97, 102), (65, 70), (48, 57), (45, 45)])"

definition re_arch_text :: regex where
  "re_arch_text = rplus (RClass False [(65, 90), (97, 122), (48, 57), (95, 95), (43, 43), (45, 45)])"

text \<open>\<open>re.fullmatch\<close> of a value that need not be text.\<close>

definition text_match :: "regex \<Rightarrow> pyval \<Rightarrow> exn + string option" where
  "text_match r v = (case text_of v of None \<Rightarrow> raise TypeError ''expected string''
     | Some s \<Rightarrow> Inr (if fullmatch r s then Some s else None))"

definition debug_id_of :: "pyval \<Rightarrow> exn + string list" where
  "debug_id_of v =
     rbind (get_attr v ''debug_id'' (PStr [])) (\<lambda>d. rbind (text_match re_debug_text d) (\<lambda>m. Inr (case m of
       Some s \<Rightarrow> if strip_with ''0'' (remove_char (CHR ''-'') s) \<noteq> [] then [lower_text s] else [] | None \<Rightarrow> [])))"

definition arch_of :: "pyval \<Rightarrow> exn + string list" where
  "arch_of v =
     rbind (get_attr v ''arch'' (PStr [])) (\<lambda>a. rbind (text_match re_arch_text a) (\<lambda>m. Inr (case m of Some s \<Rightarrow> [s] | None \<Rightarrow> [])))"

definition variant_set :: "(pyval \<Rightarrow> exn + string list) \<Rightarrow> pyval \<Rightarrow> exn + string list" where
  "variant_set f info =
     rbind (get_attr info ''variants'' (PList [])) (\<lambda>vs. rbind (iterate vs) (\<lambda>vs. rbind (traverse f vs) (\<lambda>xss.
       Inr (sort (remdups (concat xss))))))"

text \<open>What the answer of the tool says about a file.\<close>

definition judge_symbol :: "string \<Rightarrow> string option \<Rightarrow> bool \<Rightarrow> pyval \<Rightarrow> exn + symbol_info" where
  "judge_symbol name expected usable info =
     rbind (variant_set debug_id_of info) (\<lambda>ids.
     if ids = [] \<or> usable \<and> expected \<noteq> Some ''pe'' \<and> \<not> truthy (dict_get (items_of info) ''is_usable'')
     then symbol_error (''Unusable debug information: '' @ name)
     else if expected \<noteq> None \<and> dict_get (items_of info) ''type'' \<noteq> PStr (the expected)
     then symbol_error (''Unexpected symbol format: '' @ name)
     else rbind (variant_set arch_of info) (\<lambda>architectures.
       rbind (dict_item (items_of info) ''type'') (\<lambda>fmt.
         Inr \<lparr>si_ids = ids, si_architectures = architectures, si_format = fmt,
           si_features = dict_get_default (items_of info) ''features'' (PStr [])\<rparr>)))"

definition check_symbol :: "'w symbol_env \<Rightarrow> path \<Rightarrow> string option \<Rightarrow> bool \<Rightarrow> ('w tool_state, symbol_info) cmd" where
  "check_symbol env p expected usable s =
     (if \<not> is_file (fs env) p then throw SymbolError (''Missing debug artifact: '' @ path_name p)
      else seq (run_cli env [''debug-files'', ''check'', ''--json'', path_text env p]) (\<lambda>out.
        lift_result (case text_json env out of
            Inl e \<Rightarrow> if exn_class_of e = JSONDecodeError then symbol_error ''sentry-cli returned invalid symbol metadata'' else Inl e
          | Inr info \<Rightarrow> judge_symbol (path_name p) expected usable info))) s"

text \<open>\<open>features.split(", ")\<close>.\<close>

fun split_pair :: "char \<Rightarrow> char \<Rightarrow> string \<Rightarrow> string list" where
  "split_pair a b [] = [[]]"
| "split_pair a b [x] = [[x]]"
| "split_pair a b (x # y # s) =
     (if x = a \<and> y = b then [] # split_pair a b s
      else case split_pair a b (y # s) of [] \<Rightarrow> [[x]] | p # ps \<Rightarrow> (x # p) # ps)"

definition features_of :: "symbol_info \<Rightarrow> exn + string list" where
  "features_of info = (case text_of (si_features info) of
      None \<Rightarrow> raise AttributeError ''split'' | Some s \<Rightarrow> Inr (split_pair (CHR '','') (CHR '' '') s))"

section \<open>Fingerprints\<close>

record fingerprint =
  fp_name :: string
  fp_bytes :: nat
  fp_sha256 :: string

definition fingerprint_of :: "'w symbol_env \<Rightarrow> path \<Rightarrow> exn + fingerprint" where
  "fingerprint_of env p =
     rbind (content (fs env) p) (\<lambda>bs. Inr \<lparr>fp_name = path_name p, fp_bytes = length bs, fp_sha256 = sha env bs\<rparr>)"

text \<open>One row of the evidence; what a platform does not record is absent.\<close>

record evidence_row =
  ev_target :: "string option"
  ev_architecture :: "string option"
  ev_source :: "string option"
  ev_build_id :: "string option"
  ev_binary :: "fingerprint option"
  ev_copies :: "fingerprint list option"
  ev_binaries :: "fingerprint list"
  ev_symbols :: fingerprint
  ev_info :: symbol_info

section \<open>Labels and paths of a manifest\<close>

definition re_safe_label :: regex where
  "re_safe_label = RSeq (RClass False [(65, 90), (97, 122), (48, 57), (95, 95), (46, 46), (43, 43), (45, 45)])
     (rupto 99 (RClass False [(65, 90), (97, 122), (48, 57), (95, 95), (46, 46), (43, 43), (45, 45)]))"

definition safe_label :: "pyval \<Rightarrow> string \<Rightarrow> exn + string" where
  "safe_label v field = (case text_of v of
      Some s \<Rightarrow> if fullmatch re_safe_label s then Inr s else symbol_error (''Invalid native manifest '' @ field)
    | None \<Rightarrow> symbol_error (''Invalid native manifest '' @ field))"

definition escaped :: "exn + 'a" where
  "escaped = symbol_error ''Native artifact escaped its build root''"

definition native_path :: "'w symbol_env \<Rightarrow> path \<Rightarrow> pyval \<Rightarrow> exn + path" where
  "native_path env root v =
     (case text_of v of
        None \<Rightarrow> symbol_error ''Native manifest paths must be relative to the build root''
      | Some s \<Rightarrow>
          if s = [] \<or> is_absolute s then symbol_error ''Native manifest paths must be relative to the build root''
          else rbind (resolve (fs env) root) (\<lambda>root.
            let p = path_join root s in
            rbind (resolve (fs env) p) (\<lambda>q.
              if \<not> is_relative_to q root then escaped
              else if \<not> is_file (fs env) p then symbol_error ''Native manifest references a missing artifact''
              else Inr p)))"

definition native_relative :: "'w symbol_env \<Rightarrow> path \<Rightarrow> path \<Rightarrow> exn + string" where
  "native_relative env root p =
     rbind (resolve (fs env) root) (\<lambda>root. rbind (resolve (fs env) p) (\<lambda>p.
       if \<not> is_relative_to p root then escaped else Inr (relative_text p root)))"

text \<open>\<open>_native_path(root, _native_relative_path(root, path))\<close>.\<close>

definition rooted :: "'w symbol_env \<Rightarrow> path \<Rightarrow> path \<Rightarrow> exn + path" where
  "rooted env root p = rbind (native_relative env root p) (\<lambda>s. native_path env root (PStr s))"

section \<open>A Windows build\<close>

definition read_text :: "'w symbol_env \<Rightarrow> path \<Rightarrow> exn + string" where
  "read_text env p =
     rbind (content (fs env) p) (\<lambda>bs. case utf8_text env bs of None \<Rightarrow> raise UnicodeError ''utf-8'' | Some t \<Rightarrow> Inr t)"

definition file_exists :: "'w symbol_env \<Rightarrow> path \<Rightarrow> bool" where
  "file_exists env p \<longleftrightarrow> is_file (fs env) p \<or> is_dir (fs env) p"

text \<open>\<open>root.glob("**/sentry-symbols/Release/targets.tsv")\<close>: linked directories are not entered.\<close>

definition target_manifests :: "'w symbol_env \<Rightarrow> path \<Rightarrow> exn + path list" where
  "target_manifests env root =
     rbind (walk_below (depth env) (fs env) root) (\<lambda>ps.
       Inr (filter (file_exists env) (map (\<lambda>d. d @ [''sentry-symbols'', ''Release'', ''targets.tsv''])
         (root # filter (\<lambda>d. is_dir (fs env) d \<and> \<not> linked (fs env) d) ps))))"

definition tab_fields :: "string \<Rightarrow> string list" where
  "tab_fields row = split_on (char_of (9 :: nat)) row"

definition REQUIRED_WINDOWS_TARGETS :: "string list" where
  "REQUIRED_WINDOWS_TARGETS = [''FlClash'', ''flutter_inappwebview_windows_plugin'']"

record windows_state =
  win_artifacts :: "path list"
  win_rows :: "evidence_row list"
  win_binaries :: "(string \<times> path) list"

text \<open>Both files of a row lie below the build root.\<close>

definition check_inside :: "'w symbol_env \<Rightarrow> path \<Rightarrow> path list \<Rightarrow> exn + unit" where
  "check_inside env root ps =
     foldE (\<lambda>_ p. rbind (resolve (fs env) p) (\<lambda>q. rbind (resolve (fs env) root) (\<lambda>r.
       if is_relative_to q r then Inr () else symbol_error ''Windows symbol artifact escaped its build root''))) () ps"

definition native_pair :: "path \<Rightarrow> path \<Rightarrow> bool" where
  "native_pair binary pdb \<longleftrightarrow> lower_text (path_suffix pdb) = ''.pdb'' \<and> lower_text (path_suffix binary) \<in> {''.exe'', ''.dll''}"

definition pdb_row :: "'w symbol_env \<Rightarrow> string \<Rightarrow> path \<Rightarrow> path \<Rightarrow> windows_state \<Rightarrow> ('w tool_state, windows_state) cmd" where
  "pdb_row env target binary pdb st =
     seq (check_symbol env binary (Some ''pe'') True) (\<lambda>binary_info.
     seq (check_symbol env pdb (Some ''pdb'') True) (\<lambda>pdb_info.
       if si_ids binary_info \<noteq> si_ids pdb_info then throw SymbolError (''Binary/PDB debug identifier mismatch: '' @ target)
       else seq (lift_result (features_of pdb_info)) (\<lambda>features.
         if ''debug'' \<notin> set features then throw SymbolError (''PDB is missing line debug information: '' @ target)
         else seq (lift_result (fingerprint_of env binary)) (\<lambda>fp_b. seq (lift_result (fingerprint_of env pdb)) (\<lambda>fp_s.
           ret (st\<lparr>win_artifacts := win_artifacts st @ [pdb], win_binaries := win_binaries st @ [(target, binary)],
             win_rows := win_rows st @ [\<lparr>ev_target = Some target, ev_architecture = None, ev_source = None, ev_build_id = None,
               ev_binary = Some fp_b, ev_copies = None, ev_binaries = [], ev_symbols = fp_s, ev_info = pdb_info\<rparr>]\<rparr>))))))"

definition windows_row :: "'w symbol_env \<Rightarrow> path \<Rightarrow> windows_state \<Rightarrow> string \<Rightarrow> ('w tool_state, windows_state) cmd" where
  "windows_row env root st row s =
     (case tab_fields row of
        [target, binary_name, pdb_name] \<Rightarrow>
          if \<not> fullmatch re_target_label target then throw SymbolError ''Invalid Windows target manifest''
          else if target \<in> set (map fst (win_binaries st)) then throw SymbolError ''Duplicate Windows symbol target''
          else seq (lift_result (resolve (fs env) (host_path env binary_name))) (\<lambda>binary. seq (lift_result (resolve (fs env) (host_path env pdb_name))) (\<lambda>pdb.
            seq (lift_result (check_inside env root [binary, pdb])) (\<lambda>_.
              if \<not> native_pair binary pdb then throw SymbolError ''Windows manifest contains a non-native artifact''
              else pdb_row env target binary pdb st)))
      | _ \<Rightarrow> throw SymbolError ''Invalid Windows target manifest'') s"

text \<open>\<open>path.stem\<close>, and the names in a directory that a pattern with one star at its start finds.\<close>

definition file_stem :: "path \<Rightarrow> string" where
  "file_stem p = take (length (path_name p) - length (path_suffix p)) (path_name p)"

definition names_in :: "'w symbol_env \<Rightarrow> path \<Rightarrow> string list" where
  "names_in env dir = (case children (fs env) dir of Inl e \<Rightarrow> [] | Inr names \<Rightarrow> names)"

definition plugin_names :: "'w symbol_env \<Rightarrow> path \<Rightarrow> string list" where
  "plugin_names env bundle =
     map (\<lambda>n. file_stem (bundle @ [n]))
       (filter (\<lambda>n. ends_with ''_plugin.dll'' (name_case env n) \<and> is_file (fs env) (bundle @ [n])) (names_in env bundle))"

definition installed_target :: "'w symbol_env \<Rightarrow> path \<Rightarrow> string \<Rightarrow> path \<Rightarrow> bool" where
  "installed_target env bundle target binary \<longleftrightarrow>
     target = ''FlClash'' \<or> target \<in> set [''rust_api'', ''librust_api.dylib'', ''rust_api.dylib''] \<or> ends_with ''_plugin'' target
     \<or> is_file (fs env) (bundle @ [path_name binary])"

text \<open>The bundle holds the very binary that the symbols were checked against.\<close>

definition check_installed :: "'w symbol_env \<Rightarrow> path \<Rightarrow> string \<times> path \<Rightarrow> exn + unit" where
  "check_installed env bundle b =
     (case b of (target, binary) \<Rightarrow>
       let mismatch = symbol_error (''Bundle does not contain the matching native binary: '' @ target) in
       if \<not> installed_target env bundle target binary then Inr ()
       else if \<not> is_file (fs env) (bundle @ [path_name binary]) then mismatch
       else rbind (fingerprint_of env (bundle @ [path_name binary])) (\<lambda>a. rbind (fingerprint_of env binary) (\<lambda>b.
         if fp_sha256 a = fp_sha256 b then Inr () else mismatch)))"

definition check_bundle :: "'w symbol_env \<Rightarrow> windows_state \<Rightarrow> exn + unit" where
  "check_bundle env st =
     (let targets = map fst (win_binaries st) in
      if \<not> set REQUIRED_WINDOWS_TARGETS \<subseteq> set targets then symbol_error ''Windows symbols must cover the runner and tutorial plugin''
      else rbind (case map_of (win_binaries st) ''FlClash'' of None \<Rightarrow> raise KeyError ''FlClash'' | Some b \<Rightarrow> Inr b) (\<lambda>runner.
        let bundle = butlast runner in
        if \<not> set (plugin_names env bundle) \<subseteq> set targets then symbol_error ''Windows manifest omitted a distributed native plugin''
        else if is_file (fs env) (bundle @ [''rust_api.dll'']) \<and> ''rust_api'' \<notin> set targets
        then symbol_error ''Windows manifest omitted the distributed Rust PDB''
        else if is_file (fs env) (bundle @ [file_stem runner @ ''HelperService.exe'']) \<and> ''FlClashHelperService'' \<notin> set targets
        then symbol_error ''Windows manifest omitted the distributed helper PDB''
        else foldE (\<lambda>_. check_installed env bundle) () (win_binaries st)))"

definition windows_rows :: "'w symbol_env \<Rightarrow> path \<Rightarrow> path \<Rightarrow> ('w tool_state, windows_state) cmd" where
  "windows_rows env root manifest s =
     (seq (lift_result (read_text env manifest)) (\<lambda>t.
       loop_over (windows_row env root) \<lparr>win_artifacts = [], win_rows = [], win_binaries = []\<rparr> (split_lines t))) s"

definition finish_windows :: "'w symbol_env \<Rightarrow> windows_state \<Rightarrow> ('w tool_state, path list \<times> evidence_row list) cmd" where
  "finish_windows env st s = (seq (lift_result (check_bundle env st)) (\<lambda>_. ret (win_artifacts st, win_rows st))) s"

text \<open>The build root and its only manifest.\<close>

definition windows_manifest :: "'w symbol_env \<Rightarrow> path \<Rightarrow> exn + path \<times> path" where
  "windows_manifest env build_root =
     (case resolve (fs env) build_root of
        Inl e \<Rightarrow> Inl e
      | Inr root \<Rightarrow> (case target_manifests env root of
          Inl e \<Rightarrow> Inl e
        | Inr manifests \<Rightarrow> if length manifests \<noteq> 1 then symbol_error ''Expected one fresh Windows Release target manifest''
            else Inr (root, hd manifests)))"

definition audit_windows :: "'w symbol_env \<Rightarrow> path \<Rightarrow> ('w tool_state, path list \<times> evidence_row list) cmd" where
  "audit_windows env build_root =
     seq (lift_result (windows_manifest env build_root)) (\<lambda>(root, manifest).
       seq (windows_rows env root manifest) (finish_windows env))"

section \<open>Answers of the tool\<close>

text \<open>One of the runs made checked the file, and its output gives the facts.\<close>

definition tool_said :: "'w symbol_env \<Rightarrow> tool_run list \<Rightarrow> path \<Rightarrow> string option \<Rightarrow> bool \<Rightarrow> symbol_info \<Rightarrow> bool" where
  "tool_said env made p expected usable info \<longleftrightarrow>
     is_file (fs env) p \<and> list_ex (\<lambda>x. run_arguments x = [''debug-files'', ''check'', ''--json'', path_text env p] \<and> (case run_outcome x of
       Inl e \<Rightarrow> False | Inr res \<Rightarrow> (case text_json env (out_text res) of
         Inl e \<Rightarrow> False | Inr j \<Rightarrow> judge_symbol (path_name p) expected usable j = Inr info))) made"

lemma tool_said_more: "tool_said env made p expected usable info \<Longrightarrow> tool_said env (new @ made) p expected usable info"
  by (auto simp: tool_said_def)

lemma tool_said_later: "suffix old made \<Longrightarrow> tool_said env old p expected usable info \<Longrightarrow> tool_said env made p expected usable info"
  by (auto simp: suffix_def tool_said_more)

lemma run_cli_logged:
  assumes "run_cli env args s = (Inr out, t)"
  shows "suffix (runs_made s) (runs_made t)
    \<and> list_ex (\<lambda>x. run_arguments x = args \<and> (case run_outcome x of Inl e \<Rightarrow> False | Inr res \<Rightarrow> out_text res = out)) (runs_made t)"
  using triple_Inr [OF triple_run_cli refl assms] by (auto simp: has_result_def proper_run_def suffix_def)

lemma check_symbol_answered:
  assumes "check_symbol env p expected usable s = (Inr info, t)"
  shows "suffix (runs_made s) (runs_made t) \<and> tool_said env (runs_made t) p expected usable info"
proof -
  from assms obtain out where out: "run_cli env [''debug-files'', ''check'', ''--json'', path_text env p] s = (Inr out, t)"
      and p: "is_file (fs env) p" and info: "(case text_json env out of
            Inl e \<Rightarrow> if exn_class_of e = JSONDecodeError then symbol_error ''sentry-cli returned invalid symbol metadata'' else Inl e
          | Inr info \<Rightarrow> judge_symbol (path_name p) expected usable info) = Inr info"
    by (auto simp: check_symbol_def seq_Inr cmd_Inr split: if_splits)
  from info obtain j where j: "text_json env out = Inr j" "judge_symbol (path_name p) expected usable j = Inr info"
    by (auto split: sum.splits if_splits)
  from run_cli_logged [OF out] p j show ?thesis
    by (auto simp: tool_said_def list_ex_iff split: sum.splits intro!: bexI)
qed

lemma judged_ids: "judge_symbol name expected usable j = Inr info \<Longrightarrow> si_ids info \<noteq> []"
  by (auto simp: judge_symbol_def split: if_splits)

section \<open>What an accepted Windows manifest says\<close>

definition inside :: "'w symbol_env \<Rightarrow> path \<Rightarrow> path \<Rightarrow> bool" where
  "inside env root p \<longleftrightarrow> (case (resolve (fs env) p, resolve (fs env) root) of (Inr q, Inr r) \<Rightarrow> is_relative_to q r | _ \<Rightarrow> False)"

definition has_feature :: "string \<Rightarrow> symbol_info \<Rightarrow> bool" where
  "has_feature f info \<longleftrightarrow> (case features_of info of Inl e \<Rightarrow> False | Inr found \<Rightarrow> f \<in> set found)"

text \<open>A row whose symbols belong to its binary, by what the tool said about both.\<close>

definition pdb_ok :: "'w symbol_env \<Rightarrow> path \<Rightarrow> tool_run list \<Rightarrow> (string \<times> path) \<times> path \<times> evidence_row \<Rightarrow> bool" where
  "pdb_ok env root made x \<longleftrightarrow> (case x of ((target, binary), pdb, row) \<Rightarrow>
     native_pair binary pdb \<and> inside env root binary \<and> inside env root pdb
     \<and> ev_target row = Some target \<and> map_option Inr (ev_binary row) = Some (fingerprint_of env binary)
     \<and> fingerprint_of env pdb = Inr (ev_symbols row) \<and> tool_said env made pdb (Some ''pdb'') True (ev_info row)
     \<and> (\<exists>info. tool_said env made binary (Some ''pe'') True info \<and> si_ids info = si_ids (ev_info row))
     \<and> has_feature ''debug'' (ev_info row))"

definition windows_ok :: "'w symbol_env \<Rightarrow> path \<Rightarrow> windows_state \<Rightarrow> tool_run list \<Rightarrow> bool" where
  "windows_ok env root st made \<longleftrightarrow> distinct (map fst (win_binaries st))
     \<and> list_all2 (\<lambda>b (pdb, row). pdb_ok env root made (b, pdb, row)) (win_binaries st) (zip (win_artifacts st) (win_rows st))
     \<and> length (win_artifacts st) = length (win_rows st)"

lemma pdb_ok_later: "suffix old made \<Longrightarrow> pdb_ok env root old x \<Longrightarrow> pdb_ok env root made x"
  by (auto simp: pdb_ok_def dest: tool_said_later)

lemma windows_ok_later: "suffix old made \<Longrightarrow> windows_ok env root st old \<Longrightarrow> windows_ok env root st made"
  unfolding windows_ok_def by (auto elim!: list_all2_mono intro: pdb_ok_later)

lemma check_inside_ok: "check_inside env root ps = Inr () \<Longrightarrow> p \<in> set ps \<Longrightarrow> inside env root p"
  by (induction ps) (auto simp: check_inside_def inside_def split: if_splits)

lemma windows_row_ok:
  assumes "windows_row env root st row s = (Inr st', t)" and "windows_ok env root st (runs_made s)"
  shows "windows_ok env root st' (runs_made t)"
proof -
  from assms(1) obtain target binary_name pdb_name binary pdb bi pi u features fb fp where
    fresh: "target \<notin> set (map fst (win_binaries st))" and inside: "check_inside env root [binary, pdb] = Inr ()"
    and pair: "native_pair binary pdb" and bi: "check_symbol env binary (Some ''pe'') True s = (Inr bi, u)"
    and pi: "check_symbol env pdb (Some ''pdb'') True u = (Inr pi, t)" and ids: "si_ids bi = si_ids pi"
    and features: "features_of pi = Inr features" "''debug'' \<in> set features"
    and fb: "fingerprint_of env binary = Inr fb" and fp: "fingerprint_of env pdb = Inr fp"
    and st': "st' = st\<lparr>win_artifacts := win_artifacts st @ [pdb], win_binaries := win_binaries st @ [(target, binary)],
             win_rows := win_rows st @ [\<lparr>ev_target = Some target, ev_architecture = None, ev_source = None, ev_build_id = None,
               ev_binary = Some fb, ev_copies = None, ev_binaries = [], ev_symbols = fp, ev_info = pi\<rparr>]\<rparr>"
    unfolding windows_row_def pdb_row_def
    by (auto simp: seq_Inr cmd_Inr split: list.splits if_splits)
  note b = check_symbol_answered [OF bi] and p = check_symbol_answered [OF pi]
  then have suffixes: "suffix (runs_made s) (runs_made t)" "suffix (runs_made u) (runs_made t)" by (auto intro: suffix_order.trans)
  have new: "pdb_ok env root (runs_made t) ((target, binary), pdb, last (win_rows st'))"
    unfolding pdb_ok_def using pair check_inside_ok [OF inside] b p suffixes ids features fb fp st'
    by (auto simp: has_feature_def dest: tool_said_later)
  from windows_ok_later [OF suffixes(1) assms(2)] new fresh st' show ?thesis
    by (auto simp: windows_ok_def intro!: list_all2_appendI)
qed

definition same_content :: "'w symbol_env \<Rightarrow> path \<Rightarrow> path \<Rightarrow> bool" where
  "same_content env p q \<longleftrightarrow> (case (content (fs env) p, content (fs env) q) of (Inr a, Inr b) \<Rightarrow> sha env a = sha env b | _ \<Rightarrow> False)"

lemma check_installed_ok:
  "check_installed env bundle (target, binary) = Inr () \<Longrightarrow> installed_target env bundle target binary
   \<Longrightarrow> same_content env (bundle @ [path_name binary]) binary"
  by (auto simp: check_installed_def fingerprint_of_def same_content_def Let_def split: if_splits)

text \<open>What a bundle must have: its plugins are covered and it holds the binaries of the manifest.\<close>

definition bundle_ok :: "'w symbol_env \<Rightarrow> (string \<times> path) list \<Rightarrow> bool" where
  "bundle_ok env bs \<longleftrightarrow> set REQUIRED_WINDOWS_TARGETS \<subseteq> fst ` set bs \<and> (case map_of bs ''FlClash'' of None \<Rightarrow> False | Some runner \<Rightarrow>
     set (plugin_names env (butlast runner)) \<subseteq> fst ` set bs
     \<and> list_all (\<lambda>(target, binary). installed_target env (butlast runner) target binary
         \<longrightarrow> same_content env (butlast runner @ [path_name binary]) binary) bs)"

lemma check_bundle_ok:
  assumes "check_bundle env st = Inr ()"
  shows "bundle_ok env (win_binaries st)"
proof -
  from assms obtain runner where runner: "map_of (win_binaries st) ''FlClash'' = Some runner"
      and names: "set REQUIRED_WINDOWS_TARGETS \<subseteq> fst ` set (win_binaries st)"
        "set (plugin_names env (butlast runner)) \<subseteq> fst ` set (win_binaries st)"
      and each: "foldE (\<lambda>_. check_installed env (butlast runner)) () (win_binaries st) = Inr ()"
    by (auto simp: check_bundle_def Let_def split: if_splits option.splits simp del: list.set)
  have "check_installed env (butlast runner) b = Inr ()" if "b \<in> set bs" "foldE (\<lambda>_. check_installed env (butlast runner)) () bs = Inr ()" for b bs
    using that by (induction bs) auto
  with each have "check_installed env (butlast runner) b = Inr ()" if "b \<in> set (win_binaries st)" for b using that by blast
  then show ?thesis using runner names by (auto simp: bundle_ok_def list_all_iff dest: check_installed_ok)
qed

section \<open>A sample build\<close>

definition sample_manifest :: string where
  "sample_manifest = join [char_of (10 :: nat)]
     [join [char_of (9 :: nat)] [''FlClash'', ''/b/r/FlClash.exe'', ''/b/FlClash.pdb''],
      join [char_of (9 :: nat)] [''flutter_inappwebview_windows_plugin'', ''/b/r/w_plugin.dll'', ''/b/w.PDB'']]"

definition sample_paths :: "(path \<times> bytes) list" where
  "sample_paths = [([''b'', ''sentry-symbols'', ''Release'', ''targets.tsv''], ascii sample_manifest), ([''b'', ''r'', ''FlClash.exe''], [1]),
     ([''b'', ''FlClash.pdb''], [2]), ([''b'', ''r'', ''w_plugin.dll''], [3]), ([''b'', ''w.PDB''], [4])]"

definition sample_tree :: file_system where
  "sample_tree = \<lparr>resolve = Inr, linked = (\<lambda>p. False), is_file = (\<lambda>p. p \<in> fst ` set sample_paths), is_dir = (\<lambda>p. p \<in> {[''b''], [''b'', ''r'']}),
     children = (\<lambda>p. if p = [''b''] then Inr [''r'', ''FlClash.pdb'', ''w.PDB''] else if p = [''b'', ''r''] then Inr [''FlClash.exe'']
       else raise OSError []),
     content = (\<lambda>p. case map_of sample_paths p of None \<Rightarrow> raise OSError [] | Some bs \<Rightarrow> Inr bs)\<rparr>"

definition sample_answer :: "string \<Rightarrow> string \<Rightarrow> pyval" where
  "sample_answer fmt did = PDict [(''type'', PStr fmt), (''is_usable'', PBool True), (''features'', PStr ''symtab, debug''),
     (''variants'', PList [PDict [(''debug_id'', PStr did), (''arch'', PStr ''x86_64'')]])]"

definition sample_json :: "string \<Rightarrow> exn + pyval" where
  "sample_json s = (case s of k # fmt \<Rightarrow> Inr (sample_answer fmt [k]) | [] \<Rightarrow> raise JSONDecodeError [])"

definition prints :: "string \<Rightarrow> exn + tool_result" where
  "prints s = Inr \<lparr>exit_code = 0, out_text = s, err_text = []\<rparr>"

section \<open>Properties\<close>



end
