(* ===== verification/Elf_Symbols.thy ===== *)
theory Elf_Symbols
  imports Symbol_Audit
begin

text \<open>
  The audit of the debug files of an Android or Linux build, from \<open>tool/upload_sentry_symbols.py\<close>: every file of the
  native manifest is matched with the module that is distributed, the modules are taken from the final packages or
  the installed bundle (\<open>Linux_Inventory\<close>), and nothing that must be covered may be left out. Besides, the modules of a
  Windows build for which no symbols are expected.
\<close>

section \<open>Entries of a manifest\<close>

definition SENTRY_ANDROID_TARGETS :: "string list" where
  "SENTRY_ANDROID_TARGETS = [''libsentry.so'', ''libsentry-android.so'']"

definition ABIS :: "(string \<times> string) list" where
  "ABIS = [(''armeabi-v7a'', ''arm''), (''arm64-v8a'', ''aarch64''), (''x86_64'', ''x86_64'')]"

definition platform_architectures :: "string \<Rightarrow> (string \<times> string) list" where
  "platform_architectures platform =
     (if platform = ''android'' then ABIS else [(''x64'', ''x86_64''), (''arm64'', ''aarch64'')])"

text \<open>An entry whose labels are checked; the values of its paths are read again where they are used.\<close>

record native_entry =
  ne_target :: string
  ne_architecture :: string
  ne_source :: string
  ne_binary :: pyval
  ne_debug_file :: pyval
  ne_copies :: "pyval option"

type_synonym identity = "string \<times> string"

definition identity_of :: "native_entry \<Rightarrow> identity" where
  "identity_of e = (ne_target e, ne_architecture e)"

definition read_entry :: "pyval \<Rightarrow> exn + native_entry" where
  "read_entry v = (case v of
      PDict d \<Rightarrow>
        rbind (safe_label (dict_get d ''target'') ''target'') (\<lambda>target.
        rbind (safe_label (dict_get d ''architecture'') ''architecture'') (\<lambda>architecture.
        rbind (safe_label (dict_get d ''source'') ''source'') (\<lambda>source.
          Inr \<lparr>ne_target = target, ne_architecture = architecture, ne_source = source, ne_binary = dict_get d ''binary'',
            ne_debug_file = dict_get d ''debug_file'', ne_copies = map_of d ''binary_copies''\<rparr>)))
    | _ \<Rightarrow> symbol_error ''Invalid native artifact record'')"

text \<open>What is put down of an ELF binary and its companion before the tool is asked.\<close>

definition elf_of :: "'w symbol_env \<Rightarrow> path \<Rightarrow> exn + elf_info" where
  "elf_of env p = rbind (content (fs env) p) (inspect_elf (sha env))"

definition elf_pair :: "'w symbol_env \<Rightarrow> path \<Rightarrow> path \<Rightarrow> exn + elf_info \<times> elf_info" where
  "elf_pair env binary debug =
     (case rbind (elf_of env binary) (\<lambda>a. rbind (elf_of env debug) (\<lambda>b. Inr (a, b))) of
        Inl e \<Rightarrow> if exn_class_of e \<in> {OSError, ElfError} then symbol_error ''Invalid native ELF binary or companion'' else Inl e
      | Inr x \<Rightarrow> Inr x)"

definition companion_ok :: "string \<Rightarrow> string \<Rightarrow> elf_info \<Rightarrow> elf_info \<Rightarrow> exn + unit" where
  "companion_ok target machine b d =
     (if elf_build_id b = [] \<or> elf_build_id b \<noteq> elf_build_id d then symbol_error (''ELF build identifier mismatch: '' @ target)
      else if elf_arch b \<noteq> machine \<or> elf_arch d \<noteq> machine then symbol_error (''ELF architecture mismatch: '' @ target)
      else if elf_has_executable_text d then symbol_error (''Native debug companion still contains executable code: '' @ target)
      else if \<not> elf_has_debug_info d \<or> \<not> elf_has_debug_line d
      then symbol_error (''Native debug companion lacks DWARF line information: '' @ target)
      else Inr ())"

text \<open>What the tool says about both.\<close>

definition answers_agree :: "string \<Rightarrow> symbol_info \<Rightarrow> symbol_info \<Rightarrow> exn + unit" where
  "answers_agree target b d =
     (if si_ids b \<noteq> si_ids d then symbol_error (''Binary/ELF debug identifier mismatch: '' @ target)
      else rbind (features_of d) (\<lambda>has. if ''debug'' \<notin> set has then symbol_error (''ELF companion is missing line debug information: '' @ target)
        else rbind (features_of b) (\<lambda>needs. if ''unwind'' \<in> set needs \<and> ''unwind'' \<notin> set has
          then symbol_error (''ELF companion is missing the binary's unwind information: '' @ target) else Inr ())))"

definition copies_of :: "'w symbol_env \<Rightarrow> path \<Rightarrow> string \<Rightarrow> native_entry \<Rightarrow> exn + fingerprint list option" where
  "copies_of env root platform e =
     (if platform \<noteq> ''linux'' then Inr None
      else case ne_copies e of
          None \<Rightarrow> Inr None
        | Some (PList (v # vs)) \<Rightarrow>
            rbind (traverse (\<lambda>v. rbind (native_path env root v) (fingerprint_of env)) (v # vs)) (\<lambda>fps. Inr (Some fps))
        | Some _ \<Rightarrow> symbol_error ''Linux native artifact must enumerate its runtime copies'')"

text \<open>The pair of files an entry names.\<close>

definition entry_paths :: "'w symbol_env \<Rightarrow> path \<Rightarrow> native_entry \<Rightarrow> exn + path \<times> path" where
  "entry_paths env root e =
     rbind (native_path env root (ne_binary e)) (\<lambda>binary. rbind (native_path env root (ne_debug_file e)) (\<lambda>debug.
       if path_name binary \<noteq> ne_target e then symbol_error ''Native target does not match its distributed binary name''
       else if path_suffix debug \<noteq> ''.debug'' then symbol_error ''Native uploads require a separate .debug companion''
       else rbind (resolve (fs env) binary) (\<lambda>a. rbind (resolve (fs env) debug) (\<lambda>b.
         if a = b then symbol_error ''Native uploads require a separate .debug companion'' else Inr (binary, debug)))))"

record elf_audit =
  ea_entries :: "native_entry list"
  ea_artifacts :: "path list"
  ea_rows :: "evidence_row list"

definition seen :: "elf_audit \<Rightarrow> identity list" where
  "seen st = map identity_of (ea_entries st)"

definition record_companion ::
    "'w symbol_env \<Rightarrow> path \<Rightarrow> string \<Rightarrow> native_entry \<Rightarrow> path \<Rightarrow> path \<Rightarrow> string \<Rightarrow> elf_audit \<Rightarrow> ('w tool_state, elf_audit) cmd" where
  "record_companion env root platform e binary debug build_id st s =
     (seq (check_symbol env binary (Some ''elf'') False) (\<lambda>b.
      seq (check_symbol env debug (Some ''elf'') True) (\<lambda>d.
      seq (lift_result (answers_agree (ne_target e) b d)) (\<lambda>_.
      seq (lift_result (fingerprint_of env binary)) (\<lambda>fp_b.
      seq (lift_result (fingerprint_of env debug)) (\<lambda>fp_d.
      seq (lift_result (copies_of env root platform e)) (\<lambda>copies.
        ret (st\<lparr>ea_entries := ea_entries st @ [e], ea_artifacts := ea_artifacts st @ [debug],
          ea_rows := ea_rows st @ [\<lparr>ev_target = Some (ne_target e), ev_architecture = Some (ne_architecture e),
            ev_source = Some (ne_source e), ev_build_id = Some build_id, ev_binary = Some fp_b, ev_copies = copies,
            ev_binaries = [], ev_symbols = fp_d, ev_info = d\<rparr>]\<rparr>))))))) s)"

definition elf_entry :: "'w symbol_env \<Rightarrow> path \<Rightarrow> string \<Rightarrow> elf_audit \<Rightarrow> pyval \<Rightarrow> ('w tool_state, elf_audit) cmd" where
  "elf_entry env root platform st v s =
     (seq (lift_result (read_entry v)) (\<lambda>e.
       case map_of (platform_architectures platform) (ne_architecture e) of
         None \<Rightarrow> throw SymbolError ''Duplicate or unsupported native artifact architecture''
       | Some machine \<Rightarrow>
           if identity_of e \<in> set (seen st) then throw SymbolError ''Duplicate or unsupported native artifact architecture''
           else seq (lift_result (entry_paths env root e)) (\<lambda>(binary, debug).
             seq (lift_result (elf_pair env binary debug)) (\<lambda>(b, d).
             seq (lift_result (companion_ok (ne_target e) machine b d)) (\<lambda>_.
               record_companion env root platform e binary debug (elf_build_id b) st)))) s)"

section \<open>The modules that are distributed\<close>

text \<open>What the final Android packages hold: the files of each module and the modules that need symbols.\<close>

record android_runtime =
  ar_modules :: "(identity \<times> path list) list"
  ar_expected :: "identity list"

fun add_module :: "identity \<Rightarrow> path \<Rightarrow> (identity \<times> path list) list \<Rightarrow> (identity \<times> path list) list" where
  "add_module k p [] = [(k, [p])]"
| "add_module k p ((k', ps) # t) = (if k' = k then (k', ps @ [p]) # t else (k', ps) # add_module k p t)"

text \<open>\<open>sorted(runtime.glob("*/*"))\<close>.\<close>

definition runtime_directories :: "'w symbol_env \<Rightarrow> path \<Rightarrow> path list" where
  "runtime_directories env runtime =
     sort (concat (map (\<lambda>a. map (\<lambda>b. runtime @ [a, b]) (names_in env (runtime @ [a])))
       (filter (\<lambda>a. is_dir (fs env) (runtime @ [a])) (names_in env runtime))))"

definition owned_android :: "string list" where
  "owned_android = [''libclash.so'', ''librust_api.so'']"

definition runtime_module :: "'w symbol_env \<Rightarrow> path \<Rightarrow> path \<Rightarrow> (identity \<times> path list) list \<Rightarrow> string \<Rightarrow> exn + (identity \<times> path list) list" where
  "runtime_module env root dir ms name = rbind (rooted env root (dir @ [name])) (\<lambda>p. Inr (add_module (name, path_name dir) p ms))"

definition runtime_directory :: "'w symbol_env \<Rightarrow> path \<Rightarrow> android_runtime \<Rightarrow> path \<Rightarrow> exn + android_runtime" where
  "runtime_directory env root st dir =
     (let has = (\<lambda>name. is_file (fs env) (dir @ [name])); abi = path_name dir in
      if abi \<notin> set (map fst ABIS) \<or> \<not> is_dir (fs env) dir then Inr st
      else if \<not> has ''libapp.so'' \<and> \<not> has ''libflutter.so'' then Inr st
      else if \<not> list_all has owned_android then symbol_error ''APK runtime inventory is missing a mandatory owned module''
      else rbind (foldE (runtime_module env root dir) (ar_modules st) (filter (ends_with ''.so'') (names_in env dir))) (\<lambda>ms.
        Inr \<lparr>ar_modules = ms, ar_expected = List.union (ar_expected st)
          (map (\<lambda>t. (t, abi)) (owned_android @ filter has SENTRY_ANDROID_TARGETS))\<rparr>))"

definition same_copies :: "'w symbol_env \<Rightarrow> (identity \<times> path list) list \<Rightarrow> identity \<Rightarrow> exn + unit" where
  "same_copies env ms k =
     (case map_of ms k of
        None \<Rightarrow> raise KeyError (fst k)
      | Some ps \<Rightarrow> rbind (traverse (fingerprint_of env) ps) (\<lambda>fps.
          if length (remdups (map fp_sha256 fps)) \<noteq> 1 then symbol_error ''Final APKs contain conflicting owned native modules''
          else Inr ()))"

definition resolved_all :: "'w symbol_env \<Rightarrow> path list \<Rightarrow> exn + path list" where
  "resolved_all env ps = traverse (resolve (fs env)) ps"

definition from_runtime :: "'w symbol_env \<Rightarrow> path \<Rightarrow> (identity \<times> path list) list \<Rightarrow> native_entry \<Rightarrow> exn + unit" where
  "from_runtime env root ms e =
     rbind (native_path env root (ne_binary e)) (\<lambda>binary. rbind (resolve (fs env) binary) (\<lambda>binary.
     rbind (resolved_all env (case map_of ms (identity_of e) of None \<Rightarrow> [] | Some ps \<Rightarrow> ps)) (\<lambda>ps.
       if binary \<notin> set ps then symbol_error ''Native artifact does not reference the final APK runtime inventory'' else Inr ())))"

definition android_inventory :: "'w symbol_env \<Rightarrow> path \<Rightarrow> native_entry list \<Rightarrow> identity list \<Rightarrow> exn + unit" where
  "android_inventory env root es required =
     rbind (foldE (runtime_directory env root) \<lparr>ar_modules = [], ar_expected = []\<rparr>
       (runtime_directories env (root @ [''sentry-native'', ''android'', ''runtime'']))) (\<lambda>st.
       if ar_expected st = [] then symbol_error ''Android native audit requires final APK runtime inventory''
       else if \<not> set (ar_expected st) \<subseteq> set required
       then symbol_error ''Native manifest omitted a distributed Android ABI or mandatory owned module''
       else rbind (foldE (\<lambda>_. same_copies env (ar_modules st)) () (ar_expected st)) (\<lambda>_.
         foldE (\<lambda>_. from_runtime env root (ar_modules st)) () es))"

text \<open>An entry of a Linux build lists every copy of its module in the bundle.\<close>

definition linux_copies :: "'w symbol_env \<Rightarrow> path \<Rightarrow> native_entry \<Rightarrow> path list \<Rightarrow> exn + unit" where
  "linux_copies env root e actual =
     (case (case ne_copies e of None \<Rightarrow> PList [ne_binary e] | Some v \<Rightarrow> v) of
        PList (v # vs) \<Rightarrow>
          rbind (traverse (native_path env root) (v # vs)) (\<lambda>ps. rbind (resolved_all env ps) (\<lambda>copied.
            if \<not> distinct copied \<or> set copied \<noteq> set actual then symbol_error ''Linux native artifact omitted or changed a runtime copy''
            else Inr ()))
      | _ \<Rightarrow> symbol_error ''Linux native artifact must enumerate its runtime copies'')"

definition from_bundle :: "'w symbol_env \<Rightarrow> path \<Rightarrow> table \<Rightarrow> native_entry \<Rightarrow> exn + unit" where
  "from_bundle env root found e =
     rbind (resolved_all env (entries found (ne_target e))) (\<lambda>actual.
     rbind (native_path env root (ne_binary e)) (\<lambda>declared. rbind (resolve (fs env) declared) (\<lambda>declared.
       if declared \<notin> set actual then symbol_error ''Native artifact does not reference the final Linux bundle''
       else linux_copies env root e actual)))"

definition linux_inventory_of :: "'w symbol_env \<Rightarrow> path \<Rightarrow> string \<Rightarrow> string \<Rightarrow> exn + linux_inventory" where
  "linux_inventory_of env root architecture configuration =
     (case collect_linux_inventory (linux_env.truncate env) root architecture configuration of
        Inr inventory \<Rightarrow> Inr inventory
      | Inl e \<Rightarrow>
          if exn_class_of e \<noteq> LinuxInventoryError then Inl e
          else if exn_message e = ''local_plugin_source_manifest_missing''
          then symbol_error ''Native manifest omitted a distributed CMake or owned native module''
          else symbol_error (''Invalid Linux native inventory: '' @ exn_message e))"

definition linux_runner :: "'w symbol_env \<Rightarrow> path \<Rightarrow> native_entry list \<Rightarrow> identity list \<Rightarrow> native_entry \<Rightarrow> exn + unit" where
  "linux_runner env root es required runner =
     (let architecture = ne_architecture runner in
      rbind (native_path env root (ne_binary runner)) (\<lambda>binary.
      let held = butlast binary; native = butlast held in
      if path_name held \<noteq> ''bundle'' \<or> path_name native \<notin> {''release'', ''profile''} \<or> butlast native \<noteq> root @ [''linux'', architecture]
      then symbol_error ''Linux native audit requires the final configured bundle''
      else rbind (linux_inventory_of env root architecture (path_name native)) (\<lambda>inventory.
        let found = found_modules inventory in
        if \<not> set (required_modules inventory) \<subseteq> set (keys found) then raise KeyError []
        else if ''FlClashCore'' \<in> set (keys found) \<and> (''FlClashCore'', architecture) \<notin> set required
        then symbol_error ''Native manifest omitted the distributed Go core companion''
        else if \<not> (\<lambda>n. (n, architecture)) ` set (required_modules inventory) \<subseteq> set required
        then symbol_error ''Native manifest omitted a distributed CMake or owned native module''
        else foldE (\<lambda>_. from_bundle env root found) () (filter (\<lambda>e. ne_architecture e = architecture) es))))"

definition native_inventory :: "'w symbol_env \<Rightarrow> path \<Rightarrow> string \<Rightarrow> native_entry list \<Rightarrow> identity list \<Rightarrow> exn + unit" where
  "native_inventory env build_root platform es required =
     rbind (resolve (fs env) build_root) (\<lambda>root.
       if platform = ''android'' then android_inventory env root es required
       else foldE (\<lambda>_. linux_runner env root es required) () (filter (\<lambda>e. ne_target e = ''FlClash'') es))"

section \<open>The audit\<close>

definition native_manifest :: "'w symbol_env \<Rightarrow> path \<Rightarrow> string \<Rightarrow> exn + pyval" where
  "native_manifest env root platform =
     (case rbind (read_text env (root @ [''sentry-native'', platform, ''manifest.json''])) (text_json env) of
        Inl e \<Rightarrow> if exn_class_of e \<in> {OSError, ValueError, UnicodeError, JSONDecodeError}
          then symbol_error ''Missing or invalid Android/Linux native symbol manifest'' else Inl e
      | Inr v \<Rightarrow> Inr v)"

text \<open>The three lists of the manifest: its entries, what must be covered and what cannot be.\<close>

definition manifest_lists :: "string \<Rightarrow> pyval \<Rightarrow> exn + pyval list \<times> pyval list \<times> pyval list" where
  "manifest_lists platform v =
     (let d = items_of v; needed = symbol_error ''Native manifest must enumerate required module coverage'' in
      if \<not> is_dict v \<or> \<not> py_eq_int (dict_get d ''schema_version'') 1 \<or> dict_get d ''platform'' \<noteq> PStr platform
      then symbol_error ''Unexpected native manifest schema or platform''
      else case (dict_get d ''artifacts'', dict_get_default d ''limitations'' (PList [])) of
          (PList (e # es), PList ls) \<Rightarrow>
            (case dict_get d ''required'' of PList (r # rs) \<Rightarrow> Inr (e # es, r # rs, ls) | _ \<Rightarrow> needed)
        | _ \<Rightarrow> symbol_error ''Native manifest must enumerate its debug companions and limitations'')"

definition required_identity :: "string \<Rightarrow> identity list \<Rightarrow> pyval \<Rightarrow> exn + identity list" where
  "required_identity platform ks v = (case v of
      PDict d \<Rightarrow>
        rbind (safe_label (dict_get d ''target'') ''target'') (\<lambda>target.
        rbind (safe_label (dict_get d ''architecture'') ''architecture'') (\<lambda>architecture.
          if (target, architecture) \<in> set ks \<or> architecture \<notin> set (map fst (platform_architectures platform))
          then symbol_error ''Duplicate or unsupported required native module'' else Inr (ks @ [(target, architecture)])))
    | _ \<Rightarrow> symbol_error ''Invalid required native module record'')"

definition static_targets :: "string \<Rightarrow> string list" where
  "static_targets platform = (if platform = ''android'' then owned_android else [''FlClash'', ''librust_api.so''])"

definition check_coverage :: "string \<Rightarrow> identity list \<Rightarrow> identity list \<Rightarrow> exn + unit" where
  "check_coverage platform covered required =
     (if \<not> set required \<subseteq> set covered then symbol_error ''Native manifest omitted a required debug companion''
      else if \<not> list_all (\<lambda>(_, architecture). list_all (\<lambda>t. (t, architecture) \<in> set required) (static_targets platform)) covered
      then symbol_error ''Native manifest omitted mandatory owned module coverage'' else Inr ())"

record coverage_limit =
  cl_target :: string
  cl_architecture :: string
  cl_source :: string
  cl_reason :: string

definition safe_limit :: "string \<Rightarrow> identity list \<Rightarrow> pyval \<Rightarrow> exn + coverage_limit" where
  "safe_limit platform required v = (case v of
      PDict d \<Rightarrow>
        rbind (safe_label (dict_get d ''target'') ''target'') (\<lambda>target.
        rbind (safe_label (dict_get d ''architecture'') ''architecture'') (\<lambda>architecture.
        rbind (safe_label (dict_get d ''source'') ''source'') (\<lambda>source.
        rbind (safe_label (dict_get d ''reason'') ''reason'') (\<lambda>reason.
          if platform = ''android'' \<and> target \<in> set SENTRY_ANDROID_TARGETS \<and> (target, architecture) \<in> set required
          then symbol_error ''Required Sentry prefab coverage cannot also be a limitation''
          else Inr \<lparr>cl_target = target, cl_architecture = architecture, cl_source = source, cl_reason = reason\<rparr>))))
    | _ \<Rightarrow> symbol_error ''Invalid native coverage limitation'')"

text \<open>What is checked after the entries.\<close>

definition finish_elf ::
    "'w symbol_env \<Rightarrow> path \<Rightarrow> string \<Rightarrow> pyval list \<Rightarrow> pyval list \<Rightarrow> elf_audit \<Rightarrow> exn + identity list \<times> coverage_limit list" where
  "finish_elf env root platform rs ls st =
     rbind (foldE (required_identity platform) [] rs) (\<lambda>required.
     rbind (check_coverage platform (seen st) required) (\<lambda>_.
     rbind (native_inventory env root platform (ea_entries st) required) (\<lambda>_.
     rbind (traverse (safe_limit platform required) ls) (\<lambda>limits. Inr (required, limits)))))"

definition audit_elf_native ::
    "'w symbol_env \<Rightarrow> path \<Rightarrow> string \<Rightarrow> ('w tool_state, path list \<times> evidence_row list \<times> coverage_limit list) cmd" where
  "audit_elf_native env build_root platform s =
     (case resolve (fs env) build_root of
        Inl e \<Rightarrow> (Inl e, s)
      | Inr root \<Rightarrow>
          (case rbind (native_manifest env root platform) (manifest_lists platform) of
             Inl e \<Rightarrow> (Inl e, s)
           | Inr (es, rs, ls) \<Rightarrow>
               (seq (loop_over (elf_entry env root platform) \<lparr>ea_entries = [], ea_artifacts = [], ea_rows = []\<rparr> es) (\<lambda>st.
                seq (lift_result (finish_elf env root platform rs ls st)) (\<lambda>(_, limits).
                  ret (ea_artifacts st, ea_rows st, limits)))) s))"

section \<open>What an accepted entry says\<close>

definition companion_facts :: "string \<Rightarrow> elf_info \<Rightarrow> elf_info \<Rightarrow> bool" where
  "companion_facts machine b d \<longleftrightarrow> elf_build_id b \<noteq> [] \<and> elf_build_id d = elf_build_id b \<and> elf_arch b = machine \<and> elf_arch d = machine
     \<and> \<not> elf_has_executable_text d \<and> elf_has_debug_info d \<and> elf_has_debug_line d"

definition same_symbols :: "symbol_info \<Rightarrow> symbol_info \<Rightarrow> bool" where
  "same_symbols b d \<longleftrightarrow> si_ids b = si_ids d \<and> has_feature ''debug'' d \<and> (has_feature ''unwind'' b \<longrightarrow> has_feature ''unwind'' d)"

definition entry_ok :: "'w symbol_env \<Rightarrow> path \<Rightarrow> string \<Rightarrow> tool_run list \<Rightarrow> native_entry \<Rightarrow> path \<Rightarrow> evidence_row \<Rightarrow> bool" where
  "entry_ok env root platform made e debug row \<longleftrightarrow>
     (\<exists>binary machine b d info. entry_paths env root e = Inr (binary, debug)
       \<and> map_of (platform_architectures platform) (ne_architecture e) = Some machine
       \<and> elf_of env binary = Inr b \<and> elf_of env debug = Inr d \<and> companion_facts machine b d
       \<and> tool_said env made binary (Some ''elf'') False info \<and> tool_said env made debug (Some ''elf'') True (ev_info row)
       \<and> same_symbols info (ev_info row) \<and> ev_target row = Some (ne_target e) \<and> ev_architecture row = Some (ne_architecture e)
       \<and> map_option Inr (ev_binary row) = Some (fingerprint_of env binary) \<and> fingerprint_of env debug = Inr (ev_symbols row))"

definition elf_ok :: "'w symbol_env \<Rightarrow> path \<Rightarrow> string \<Rightarrow> elf_audit \<Rightarrow> tool_run list \<Rightarrow> bool" where
  "elf_ok env root platform st made \<longleftrightarrow> distinct (seen st) \<and> length (ea_artifacts st) = length (ea_rows st)
     \<and> list_all2 (\<lambda>e (debug, row). entry_ok env root platform made e debug row) (ea_entries st) (zip (ea_artifacts st) (ea_rows st))"

lemma companion_ok_facts: "companion_ok target machine b d = Inr () \<Longrightarrow> companion_facts machine b d"
  by (auto simp: companion_ok_def companion_facts_def split: if_splits)

lemma answers_agree_same: "answers_agree target b d = Inr () \<Longrightarrow> same_symbols b d"
  by (auto simp: answers_agree_def same_symbols_def has_feature_def split: if_splits sum.splits)

lemma elf_pair_ok: "elf_pair env binary debug = Inr (b, d) \<Longrightarrow> elf_of env binary = Inr b \<and> elf_of env debug = Inr d"
  by (auto simp: elf_pair_def split: sum.splits if_splits)

lemma entry_ok_later: "suffix old made \<Longrightarrow> entry_ok env root platform old e debug row \<Longrightarrow> entry_ok env root platform made e debug row"
  unfolding entry_ok_def by (meson tool_said_later)

lemma elf_ok_later: "suffix old made \<Longrightarrow> elf_ok env root platform st old \<Longrightarrow> elf_ok env root platform st made"
  unfolding elf_ok_def by (auto elim!: list_all2_mono intro: entry_ok_later)

lemma elf_entry_ok:
  assumes "elf_entry env root platform st v s = (Inr st', t)" and "elf_ok env root platform st (runs_made s)"
  shows "elf_ok env root platform st' (runs_made t)"
proof -
  from assms(1) obtain e machine binary debug b d bi di u fb fd copies where
    machine: "map_of (platform_architectures platform) (ne_architecture e) = Some machine" and fresh: "identity_of e \<notin> set (seen st)"
    and paths: "entry_paths env root e = Inr (binary, debug)" and pair: "elf_pair env binary debug = Inr (b, d)"
    and facts: "companion_ok (ne_target e) machine b d = Inr ()"
    and bi: "check_symbol env binary (Some ''elf'') False s = (Inr bi, u)" and di: "check_symbol env debug (Some ''elf'') True u = (Inr di, t)"
    and agree: "answers_agree (ne_target e) bi di = Inr ()"
    and fb: "fingerprint_of env binary = Inr fb" and fd: "fingerprint_of env debug = Inr fd"
    and st': "st' = st\<lparr>ea_entries := ea_entries st @ [e], ea_artifacts := ea_artifacts st @ [debug],
          ea_rows := ea_rows st @ [\<lparr>ev_target = Some (ne_target e), ev_architecture = Some (ne_architecture e),
            ev_source = Some (ne_source e), ev_build_id = Some (elf_build_id b), ev_binary = Some fb, ev_copies = copies,
            ev_binaries = [], ev_symbols = fd, ev_info = di\<rparr>]\<rparr>"
    unfolding elf_entry_def record_companion_def
    by (auto simp: seq_Inr cmd_Inr split: option.splits if_splits)
  note answers = check_symbol_answered [OF bi] check_symbol_answered [OF di]
  then have suffixes: "suffix (runs_made s) (runs_made t)" "suffix (runs_made u) (runs_made t)" by (auto intro: suffix_order.trans)
  have said: "tool_said env (runs_made t) binary (Some ''elf'') False bi" using answers tool_said_later suffixes(2) by blast
  have "entry_ok env root platform (runs_made t) e debug (last (ea_rows st'))"
    unfolding entry_ok_def using machine paths elf_pair_ok [OF pair] companion_ok_facts [OF facts] answers_agree_same [OF agree]
      answers said fb fd st' by auto
  with elf_ok_later [OF suffixes(1) assms(2)] fresh st' show ?thesis
    by (auto simp: elf_ok_def seen_def intro!: list_all2_appendI)
qed

section \<open>What the coverage check says\<close>

text \<open>A directory of a final package for a known ABI.\<close>

definition packaged :: "'w symbol_env \<Rightarrow> path \<Rightarrow> bool" where
  "packaged env dir \<longleftrightarrow> path_name dir \<in> set (map fst ABIS) \<and> is_dir (fs env) dir
     \<and> (is_file (fs env) (dir @ [''libapp.so'']) \<or> is_file (fs env) (dir @ [''libflutter.so'']))"

definition directory_covered :: "'w symbol_env \<Rightarrow> identity list \<Rightarrow> path \<Rightarrow> bool" where
  "directory_covered env required dir \<longleftrightarrow>
     (\<forall>name\<in>set owned_android. is_file (fs env) (dir @ [name]) \<and> (name, path_name dir) \<in> set required)
     \<and> (\<forall>name\<in>set SENTRY_ANDROID_TARGETS. is_file (fs env) (dir @ [name]) \<longrightarrow> (name, path_name dir) \<in> set required)"

lemma runtime_directory_expected:
  assumes "runtime_directory env root st dir = Inr st'"
  shows "set (ar_expected st) \<subseteq> set (ar_expected st') \<and> (packaged env dir \<longrightarrow> directory_covered env (ar_expected st') dir)"
  using assms unfolding runtime_directory_def Let_def packaged_def directory_covered_def
  by (auto simp: list_all_iff split: if_splits)

lemma directory_covered_more: "directory_covered env ks dir \<Longrightarrow> set ks \<subseteq> set ks' \<Longrightarrow> directory_covered env ks' dir"
  unfolding directory_covered_def by blast

lemma runtime_expected:
  "foldE (runtime_directory env root) st dirs = Inr st' \<Longrightarrow> set (ar_expected st) \<subseteq> set (ar_expected st')
   \<and> (\<forall>dir\<in>set dirs. packaged env dir \<longrightarrow> directory_covered env (ar_expected st') dir)"
proof (induction dirs arbitrary: st)
  case (Cons dir dirs)
  then obtain u where u: "runtime_directory env root st dir = Inr u" "foldE (runtime_directory env root) u dirs = Inr st'" by auto
  note rest = Cons.IH [OF u(2)] and first = runtime_directory_expected [OF u(1)]
  have "directory_covered env (ar_expected st') dir" if "packaged env dir"
    using first that rest directory_covered_more by blast
  with rest first show ?case by auto
qed simp

text \<open>The binary of an entry is the module of that name in one of the directories.\<close>

definition shipped :: "'w symbol_env \<Rightarrow> path \<Rightarrow> path list \<Rightarrow> native_entry \<Rightarrow> bool" where
  "shipped env root dirs e \<longleftrightarrow> (\<exists>dir\<in>set dirs. path_name dir = ne_architecture e
     \<and> (\<exists>p q b. rooted env root (dir @ [ne_target e]) = Inr p \<and> resolve (fs env) p = Inr q
       \<and> native_path env root (ne_binary e) = Inr b \<and> resolve (fs env) b = Inr q))"

definition modules_from :: "'w symbol_env \<Rightarrow> path \<Rightarrow> path list \<Rightarrow> (identity \<times> path list) list \<Rightarrow> bool" where
  "modules_from env root dirs ms \<longleftrightarrow> (\<forall>k ps p. (k, ps) \<in> set ms \<and> p \<in> set ps \<longrightarrow>
     (\<exists>dir\<in>set dirs. path_name dir = snd k \<and> rooted env root (dir @ [fst k]) = Inr p))"

lemma add_module_from:
  assumes "(k', ps) \<in> set (add_module k p ms)" and "q \<in> set ps"
  shows "k' = k \<and> q = p \<or> (\<exists>qs. (k', qs) \<in> set ms \<and> q \<in> set qs)"
  using assms by (induction k p ms rule: add_module.induct) (auto split: if_splits)

lemma runtime_module_from:
  assumes "runtime_module env root dir ms name = Inr ms'" and "modules_from env root dirs ms" and "dir \<in> set dirs"
  shows "modules_from env root dirs ms'"
proof -
  from assms(1) obtain p where p: "rooted env root (dir @ [name]) = Inr p" and ms': "ms' = add_module (name, path_name dir) p ms"
    by (auto simp: runtime_module_def)
  show ?thesis unfolding modules_from_def
  proof (intro allI impI)
    fix k ps q assume "(k, ps) \<in> set ms' \<and> q \<in> set ps"
    with add_module_from [of k ps "(name, path_name dir)" p ms q] ms' consider
        "k = (name, path_name dir)" "q = p" | qs where "(k, qs) \<in> set ms" "q \<in> set qs" by auto
    then show "\<exists>dir\<in>set dirs. path_name dir = snd k \<and> rooted env root (dir @ [fst k]) = Inr q"
      using p assms(2,3) by cases (auto simp: modules_from_def)
  qed
qed

lemma runtime_from:
  assumes "foldE (runtime_directory env root) \<lparr>ar_modules = [], ar_expected = []\<rparr> dirs = Inr st"
  shows "modules_from env root dirs (ar_modules st)"
proof -
  have step: "modules_from env root dirs (ar_modules v)"
    if "modules_from env root dirs (ar_modules u)" "runtime_directory env root u dir = Inr v" "dir \<in> set dirs" for u v dir
    using that by (auto simp: runtime_directory_def Let_def split: if_splits
        elim!: foldE_invariant [where P = "modules_from env root dirs"] intro: runtime_module_from)
  have "foldE (runtime_directory env root) u ds = Inr st \<Longrightarrow> set ds \<subseteq> set dirs \<Longrightarrow> modules_from env root dirs (ar_modules u)
      \<Longrightarrow> modules_from env root dirs (ar_modules st)" for u ds
    by (induction ds arbitrary: u) (auto dest: step)
  from this [OF assms] show ?thesis by (simp add: modules_from_def)
qed

lemma each_passes: "foldE (\<lambda>_. f) () xs = Inr () \<Longrightarrow> x \<in> set xs \<Longrightarrow> f x = Inr ()"
  by (induction xs) auto

lemma resolved_all_set: "resolved_all env ps = Inr qs \<Longrightarrow> q \<in> set qs \<Longrightarrow> \<exists>p\<in>set ps. resolve (fs env) p = Inr q"
  unfolding resolved_all_def by (drule traverse_set) auto

lemma from_runtime_shipped:
  assumes "from_runtime env root ms e = Inr ()" and "modules_from env root dirs ms"
  shows "shipped env root dirs e"
proof -
  from assms(1) obtain b q qs where b: "native_path env root (ne_binary e) = Inr b" "resolve (fs env) b = Inr q"
      and qs: "resolved_all env (case map_of ms (identity_of e) of None \<Rightarrow> [] | Some ps \<Rightarrow> ps) = Inr qs" "q \<in> set qs"
    by (auto simp: from_runtime_def split: if_splits)
  from resolved_all_set [OF qs] obtain ps p where "map_of ms (identity_of e) = Some ps" "p \<in> set ps" "resolve (fs env) p = Inr q"
    by (cases "map_of ms (identity_of e)") auto
  moreover from this(1) have "(identity_of e, ps) \<in> set ms" by (rule map_of_SomeD)
  ultimately show ?thesis using assms(2) b unfolding modules_from_def shipped_def identity_of_def by fastforce
qed

definition android_covered :: "'w symbol_env \<Rightarrow> path \<Rightarrow> native_entry list \<Rightarrow> identity list \<Rightarrow> bool" where
  "android_covered env root es required \<longleftrightarrow>
     (let dirs = runtime_directories env (root @ [''sentry-native'', ''android'', ''runtime'']) in
      (\<forall>dir\<in>set dirs. packaged env dir \<longrightarrow> directory_covered env required dir) \<and> (\<forall>e\<in>set es. shipped env root dirs e))"

lemma android_inventory_ok: "android_inventory env root es required = Inr () \<Longrightarrow> android_covered env root es required"
proof -
  assume ok: "android_inventory env root es required = Inr ()"
  let ?dirs = "runtime_directories env (root @ [''sentry-native'', ''android'', ''runtime''])"
  from ok obtain st where st: "foldE (runtime_directory env root) \<lparr>ar_modules = [], ar_expected = []\<rparr> ?dirs = Inr st"
      and required: "set (ar_expected st) \<subseteq> set required" and each: "foldE (\<lambda>_. from_runtime env root (ar_modules st)) () es = Inr ()"
    by (auto simp: android_inventory_def split: if_splits)
  have "directory_covered env required dir" if "dir \<in> set ?dirs" "packaged env dir" for dir
    using runtime_expected [OF st] that required directory_covered_more by blast
  moreover have "shipped env root ?dirs e" if "e \<in> set es" for e
    using from_runtime_shipped [OF each_passes [OF each that] runtime_from [OF st]] .
  ultimately show ?thesis by (simp add: android_covered_def Let_def)
qed

text \<open>For the runner of a Linux build: what its bundle requires is required, and the entries are modules of the bundle.\<close>

definition linux_covered :: "'w symbol_env \<Rightarrow> path \<Rightarrow> native_entry list \<Rightarrow> identity list \<Rightarrow> native_entry \<Rightarrow> bool" where
  "linux_covered env root es required runner \<longleftrightarrow> (\<exists>configuration inventory.
     collect_linux_inventory (linux_env.truncate env) root (ne_architecture runner) configuration = Inr inventory
     \<and> (\<forall>name\<in>set (required_modules inventory). (name, ne_architecture runner) \<in> set required)
     \<and> (\<forall>e\<in>set es. ne_architecture e = ne_architecture runner \<longrightarrow> (\<exists>b q. native_path env root (ne_binary e) = Inr b
         \<and> resolve (fs env) b = Inr q \<and> (\<exists>p\<in>set (entries (found_modules inventory) (ne_target e)). resolve (fs env) p = Inr q))))"

lemma linux_runner_ok:
  assumes "linux_runner env root es required runner = Inr ()"
  shows "linux_covered env root es required runner"
proof -
  let ?a = "ne_architecture runner"
  from assms obtain configuration inventory where inventory: "linux_inventory_of env root ?a configuration = Inr inventory"
      and required: "(\<lambda>n. (n, ?a)) ` set (required_modules inventory) \<subseteq> set required"
      and each: "foldE (\<lambda>_. from_bundle env root (found_modules inventory)) () (filter (\<lambda>e. ne_architecture e = ?a) es) = Inr ()"
    by (auto simp: linux_runner_def Let_def split: if_splits)
  have "\<exists>b q. native_path env root (ne_binary e) = Inr b \<and> resolve (fs env) b = Inr q
      \<and> (\<exists>p\<in>set (entries (found_modules inventory) (ne_target e)). resolve (fs env) p = Inr q)"
    if "e \<in> set es" "ne_architecture e = ?a" for e
  proof -
    from that each_passes [OF each, of e] have "from_bundle env root (found_modules inventory) e = Inr ()" by simp
    then show ?thesis by (auto simp: from_bundle_def split: if_splits dest!: resolved_all_set)
  qed
  moreover have "collect_linux_inventory (linux_env.truncate env) root ?a configuration = Inr inventory"
    using inventory by (auto simp: linux_inventory_of_def split: sum.splits if_splits)
  ultimately show ?thesis using required unfolding linux_covered_def by blast
qed

definition covered :: "'w symbol_env \<Rightarrow> path \<Rightarrow> string \<Rightarrow> native_entry list \<Rightarrow> identity list \<Rightarrow> bool" where
  "covered env root platform es required \<longleftrightarrow> (case resolve (fs env) root of Inl e \<Rightarrow> False | Inr r \<Rightarrow>
     if platform = ''android'' then android_covered env r es required
     else (\<forall>e\<in>set es. ne_target e = ''FlClash'' \<longrightarrow> linux_covered env r es required e))"

lemma native_inventory_ok:
  assumes "native_inventory env root platform es required = Inr ()"
  shows "covered env root platform es required"
proof (cases "platform = ''android''")
  case True
  with assms show ?thesis by (auto simp: native_inventory_def covered_def android_inventory_ok)
next
  case False
  with assms obtain r where r: "resolve (fs env) root = Inr r"
      and each: "foldE (\<lambda>_. linux_runner env r es required) () (filter (\<lambda>e. ne_target e = ''FlClash'') es) = Inr ()"
    by (auto simp: native_inventory_def)
  have "linux_covered env r es required e" if "e \<in> set es" "ne_target e = ''FlClash''" for e
    using linux_runner_ok [OF each_passes [OF each]] that by simp
  with False r show ?thesis by (simp add: covered_def)
qed

section \<open>A sample build\<close>

text \<open>A debug-only ELF file with an identifier, which serves as the binary as well.\<close>

definition sample_companion :: bytes where
  "sample_companion =
     0x7f # ascii ''ELF'' @ [1, 1, 1] @ replicate 9 0
     @ bytes_le 2 3 @ bytes_le 2 62 @ elf_row [1, 0, 0, 52, 0] @ concat (map (bytes_le 2) [52, 0, 0, 40, 4, 3])
     @ elf_row [1, 1, 0, 0, 52, 4, 0, 0, 1, 0]
     @ elf_row [13, 1, 0, 0, 52, 4, 0, 0, 1, 0]
     @ elf_row [0, 7, 2, 0, 212, 20, 0, 0, 4, 0]
     @ elf_row [0, 3, 0, 0, 232, 25, 0, 0, 1, 0]
     @ elf_row [4, 4, 3] @ ascii ''GNU'' @ [0] @ [0xde, 0xad, 0xbe, 0xef]
     @ 0 # ascii ''.debug_info'' @ 0 # ascii ''.debug_line'' @ [0]"

lemma sample_companion_parses:
  "\<exists>info. inspect_elf (\<lambda>bs. []) sample_companion = Inr info \<and> elf_build_id info = ''deadbeef''
     \<and> companion_facts ''x86_64'' info info"
proof -
  have "case inspect_elf (\<lambda>bs. []) sample_companion of Inl _ \<Rightarrow> False
    | Inr info \<Rightarrow> elf_build_id info = ''deadbeef'' \<and> companion_facts ''x86_64'' info info"
    by code_simp
  then show ?thesis by (simp split: sum.splits)
qed

definition sample_runtime :: path where
  "sample_runtime = [''b'', ''sentry-native'', ''android'', ''runtime'']"

definition apk_files :: "path list" where
  "apk_files =
     [[''b'', ''sentry-native'', ''android'', ''manifest.json''], sample_runtime @ [''app'', ''x86_64'', ''libapp.so''],
      sample_runtime @ [''app'', ''x86_64'', ''libclash.so''], sample_runtime @ [''app'', ''x86_64'', ''librust_api.so''],
      [''b'', ''c.debug''], [''b'', ''r.debug'']]"

definition apk_children :: "(path \<times> string list) list" where
  "apk_children = [(sample_runtime, [''app'']), (sample_runtime @ [''app''], [''x86_64'']),
     (sample_runtime @ [''app'', ''x86_64''], [''libapp.so'', ''libclash.so'', ''librust_api.so''])]"

definition apk_tree :: file_system where
  "apk_tree = \<lparr>resolve = Inr, linked = (\<lambda>p. False), is_file = (\<lambda>p. p \<in> set apk_files), is_dir = (\<lambda>p. p \<in> fst ` set apk_children),
     children = (\<lambda>p. case map_of apk_children p of None \<Rightarrow> raise OSError [] | Some ns \<Rightarrow> Inr ns),
     content = (\<lambda>p. if p \<notin> set apk_files then raise OSError [] else Inr (if p = hd apk_files then [9] else sample_companion))\<rparr>"

definition apk_entry :: "string \<Rightarrow> string \<Rightarrow> pyval" where
  "apk_entry target debug = PDict [(''target'', PStr target), (''architecture'', PStr ''x86_64''), (''source'', PStr ''go''),
     (''binary'', PStr (join ''/'' (drop 1 sample_runtime @ [''app'', ''x86_64'', target]))), (''debug_file'', PStr debug)]"

definition apk_manifest :: pyval where
  "apk_manifest = PDict [(''schema_version'', PInt 1), (''platform'', PStr ''android''),
     (''artifacts'', PList [apk_entry ''libclash.so'' ''c.debug'', apk_entry ''librust_api.so'' ''r.debug'']),
     (''required'', PList [apk_entry ''libclash.so'' [], apk_entry ''librust_api.so'' []])]"

definition apk_json :: "string \<Rightarrow> exn + pyval" where
  "apk_json s = (if length s = 1 then Inr apk_manifest else sample_json s)"

definition apk_host :: "(exn + tool_result) list symbol_env" where
  "apk_host = (sample_host apk_tree apk_json)\<lparr>sha := (\<lambda>bs. [])\<rparr>"

text \<open>The entries of the sample, with the paths they name.\<close>

definition apk_native :: "string \<Rightarrow> string \<Rightarrow> native_entry" where
  "apk_native target debug = \<lparr>ne_target = target, ne_architecture = ''x86_64'', ne_source = ''go'',
     ne_binary = PStr (join ''/'' (drop 1 sample_runtime @ [''app'', ''x86_64'', target])), ne_debug_file = PStr debug, ne_copies = None\<rparr>"

definition apk_step :: "string \<Rightarrow> string \<Rightarrow> elf_audit \<Rightarrow> ((exn + tool_result) list tool_state, elf_audit) cmd" where
  "apk_step target debug st s = record_companion apk_host [''b''] ''android'' (apk_native target debug)
     (sample_runtime @ [''app'', ''x86_64'', target]) [''b'', debug] ''deadbeef'' st s"

lemma apk_entries:
  assumes "(target, debug) \<in> {(''libclash.so'', ''c.debug''), (''librust_api.so'', ''r.debug'')}" and "(target, ''x86_64'') \<notin> set (seen st)"
  shows "elf_entry apk_host [''b''] ''android'' st (apk_entry target debug) s = apk_step target debug st s"
proof -
  let ?e = "apk_native target debug" and ?binary = "sample_runtime @ [''app'', ''x86_64'', target]"
  from sample_companion_parses obtain info where info: "inspect_elf (\<lambda>bs. []) sample_companion = Inr info"
      "elf_build_id info = ''deadbeef''" "companion_facts ''x86_64'' info info" by blast
  have "list_all (\<lambda>(target, debug). read_entry (apk_entry target debug) = Inr (apk_native target debug)
      \<and> entry_paths apk_host [''b''] (apk_native target debug) = Inr (sample_runtime @ [''app'', ''x86_64'', target], [''b'', debug]))
    [(''libclash.so'', ''c.debug''), (''librust_api.so'', ''r.debug'')]"
    by code_simp
  with assms(1) have reads: "read_entry (apk_entry target debug) = Inr ?e" "entry_paths apk_host [''b''] ?e = Inr (?binary, [''b'', debug])"
    by auto
  have bytes: "content (fs apk_host) ?binary = Inr sample_companion" "content (fs apk_host) [''b'', debug] = Inr sample_companion"
    using assms(1) by (auto simp: apk_host_def sample_host_def apk_tree_def apk_files_def sample_runtime_def)
  have pair: "elf_pair apk_host ?binary [''b'', debug] = Inr (info, info)"
    unfolding elf_pair_def elf_of_def bytes rbind_simps using info(1) by (simp add: apk_host_def sample_host_def)
  have ok: "companion_ok target ''x86_64'' info info = Inr ()"
    using info(3) by (auto simp: companion_ok_def companion_facts_def)
  have machine: "map_of (platform_architectures ''android'') ''x86_64'' = Some ''x86_64''" by code_simp
  show ?thesis
    using assms(2) by (simp add: elf_entry_def apk_step_def reads(1) reads(2) pair info(2) ok machine identity_of_def seq_def lift_result_def
      apk_native_def [of target debug, THEN arg_cong [where f = ne_architecture]] apk_native_def [of target debug, THEN arg_cong [where f = ne_target]])
qed

lemma recorded_seen:
  "record_companion env root platform e binary debug build_id st s = (Inr st', t) \<Longrightarrow> seen st' = seen st @ [identity_of e]"
  by (auto simp: record_companion_def seq_Inr cmd_Inr seen_def)

section \<open>Properties\<close>

text \<open>C27: The audit of an Android or Linux build accepts only debug companions: each is a file of its own below the build
  root, with the identifier and machine of the distributed binary, with line information and without executable code,
  and the tool gave the same identifiers for both. No module is listed twice, all required ones and the owned ones of
  every architecture are listed, the entries are the modules that are shipped, and what is shipped is required.\<close>

theorem elf_audit_sound:
  assumes "audit_elf_native env build_root platform s = (Inr (artifacts, rows, limits), t)"
  shows "\<exists>root es required. resolve (fs env) build_root = Inr root \<and> distinct (map identity_of es) \<and> length artifacts = length rows
    \<and> list_all2 (\<lambda>e (debug, row). entry_ok env root platform (runs_made t) e debug row) es (zip artifacts rows)
    \<and> set required \<subseteq> set (map identity_of es)
    \<and> list_all (\<lambda>e. list_all (\<lambda>target. (target, ne_architecture e) \<in> set required) (static_targets platform)) es
    \<and> covered env root platform es required"
proof -
  let ?start = "\<lparr>ea_entries = [], ea_artifacts = [], ea_rows = []\<rparr>"
  from assms obtain root vs rs ls st required where root: "resolve (fs env) build_root = Inr root"
      and walk: "loop_over (elf_entry env root platform) ?start vs s = (Inr st, t)"
      and finish: "finish_elf env root platform rs ls st = Inr (required, limits)"
      and st: "artifacts = ea_artifacts st" "rows = ea_rows st"
    by (auto simp: audit_elf_native_def seq_Inr cmd_Inr split: sum.splits prod.splits)
  have "triple (\<lambda>s. elf_ok env root platform ?start (runs_made s)) (loop_over (elf_entry env root platform) ?start vs)
      (\<lambda>st s. elf_ok env root platform st (runs_made s)) (\<lambda>_ _. True)"
    by (rule triple_loop_over [where I = "\<lambda>st s. elf_ok env root platform st (runs_made s)"], rule triple_normal) (auto intro: elf_entry_ok)
  from triple_Inr [OF this _ walk] have ok: "elf_ok env root platform st (runs_made t)" by (simp add: elf_ok_def seen_def)
  from finish have "check_coverage platform (seen st) required = Inr ()" "native_inventory env root platform (ea_entries st) required = Inr ()"
    by (auto simp: finish_elf_def)
  with native_inventory_ok ok root st show ?thesis
    by (auto simp: check_coverage_def elf_ok_def seen_def identity_of_def list_all_iff split: if_splits intro!: exI [of _ "ea_entries st"] exI [of _ required])
qed

lemma elf_audit_sound_witness:
  "\<exists>artifacts rows limits t. audit_elf_native apk_host [''b''] ''android'' (tool_answers (map prints [''1elf'', ''1elf'', ''2elf'', ''2elf'']))
     = (Inr (artifacts, rows, limits), t) \<and> length artifacts = 2
     \<and> (\<exists>es required. length es = 2 \<and> covered apk_host [''b''] ''android'' es required)"
proof -
  let ?s = "tool_answers (map prints [''1elf'', ''1elf'', ''2elf'', ''2elf''])"
  let ?start = "\<lparr>ea_entries = [], ea_artifacts = [], ea_rows = []\<rparr>"
  let ?vs = "[apk_entry ''libclash.so'' ''c.debug'', apk_entry ''librust_api.so'' ''r.debug'']"
  let ?rs = "[apk_entry ''libclash.so'' [], apk_entry ''librust_api.so'' []]"
  have "case seq (apk_step ''libclash.so'' ''c.debug'' ?start) (apk_step ''librust_api.so'' ''r.debug'') ?s of
      (Inl e, t) \<Rightarrow> False | (Inr st, t) \<Rightarrow> length (ea_artifacts st) = 2 \<and> length (ea_rows st) = 2
        \<and> (case finish_elf apk_host [''b''] ''android'' ?rs [] st of Inl e \<Rightarrow> False | Inr x \<Rightarrow> True)"
    by code_simp
  then obtain st t required limits where two: "length (ea_artifacts st) = 2" "length (ea_rows st) = 2"
      and steps: "seq (apk_step ''libclash.so'' ''c.debug'' ?start) (apk_step ''librust_api.so'' ''r.debug'') ?s = (Inr st, t)"
      and finish: "finish_elf apk_host [''b''] ''android'' ?rs [] st = Inr (required, limits)"
    by (auto split: prod.splits sum.splits)
  from steps obtain st1 u where first: "apk_step ''libclash.so'' ''c.debug'' ?start ?s = (Inr st1, u)"
      and second: "apk_step ''librust_api.so'' ''r.debug'' st1 u = (Inr st, t)" by (auto simp: seq_Inr)
  from recorded_seen [OF first [unfolded apk_step_def]] have "seen st1 = [(''libclash.so'', ''x86_64'')]"
    by (simp add: seen_def identity_of_def apk_native_def)
  with first second have walk: "loop_over (elf_entry apk_host [''b''] ''android'') ?start ?vs ?s = (Inr st, t)"
    by (simp add: seq_Inr cmd_Inr apk_entries seen_def)
  have lists: "rbind (native_manifest apk_host [''b''] ''android'') (manifest_lists ''android'') = Inr (?vs, ?rs, [])" by code_simp
  have root: "resolve (fs apk_host) [''b''] = Inr [''b'']" by (simp add: apk_host_def sample_host_def apk_tree_def)
  have r: "audit_elf_native apk_host [''b''] ''android'' ?s = (Inr (ea_artifacts st, ea_rows st, limits), t)"
    using walk finish by (simp only: audit_elf_native_def root lists sum.case prod.case seq_Inr cmd_Inr) (auto simp: ret_def)
  from elf_audit_sound [OF r] root two obtain es required where "length es = 2" "covered apk_host [''b''] ''android'' es required"
    by (auto dest: list_all2_lengthD)
  with r two(1) show ?thesis by auto
qed

end
