(* ===== verification/Dart_Symbols.thy ===== *)
theory Dart_Symbols
  imports Elf_Symbols Mach_O
begin

text \<open>
  The debug files of the Dart code, from \<open>tool/upload_sentry_symbols.py\<close>: the compiled modules of the final build for
  each architecture, the shape of a split debug file and the collection that matches every file with the modules it
  belongs to by their identifiers.
\<close>

section \<open>The compiled modules\<close>

type_synonym runtimes = "(pyval \<times> path list) list"

text \<open>\<open>table.setdefault(key, [])\<close> and \<open>append\<close>; keys are those of a dictionary.\<close>

fun add_runtime :: "pyval \<Rightarrow> path \<Rightarrow> runtimes \<Rightarrow> runtimes" where
  "add_runtime k p [] = [(k, [p])]"
| "add_runtime k p ((k', ps) # t) = (if py_eq k' k then (k', ps @ [p]) # t else (k', ps) # add_runtime k p t)"

definition android_names :: "(string \<times> string) list" where
  "android_names = [(''armeabi-v7a'', ''arm''), (''arm64-v8a'', ''arm64''), (''x86_64'', ''x64'')]"

definition android_runtime_of :: "'w symbol_env \<Rightarrow> path \<Rightarrow> runtimes \<Rightarrow> path \<Rightarrow> exn + runtimes" where
  "android_runtime_of env root t dir =
     (case map_of android_names (path_name dir) of
        None \<Rightarrow> Inr t
      | Some name \<Rightarrow>
          if \<not> is_file (fs env) (dir @ [''libapp.so'']) \<and> \<not> is_file (fs env) (dir @ [''libflutter.so'']) then Inr t
          else rbind (rooted env root (dir @ [''libapp.so''])) (\<lambda>p. Inr (add_runtime (PStr name) p t)))"

definition windows_runner :: "'w symbol_env \<Rightarrow> path \<Rightarrow> exn + path" where
  "windows_runner env root =
     rbind (target_manifests env (root @ [''windows''])) (\<lambda>manifests.
       if length manifests \<noteq> 1 then symbol_error ''Dart audit requires one final Windows runner manifest''
       else rbind (read_text env (hd manifests)) (\<lambda>t.
         let runners = filter (\<lambda>row. length row = 3 \<and> hd row = ''FlClash'') (map tab_fields (split_lines t)) in
         if length runners \<noteq> 1 then symbol_error ''Dart audit requires one final Windows runner''
         else Inr (host_path env (hd runners ! 1))))"

definition windows_runtimes :: "'w symbol_env \<Rightarrow> path \<Rightarrow> exn + runtimes" where
  "windows_runtimes env root =
     rbind (windows_runner env root) (\<lambda>runner.
     rbind (rooted env root (butlast runner @ [''data'', ''app.so''])) (\<lambda>p.
       case rbind (elf_of env p) (\<lambda>info. case map_of [(''x86_64'', ''x64''), (''aarch64'', ''arm64'')] (elf_arch info) of
           None \<Rightarrow> raise KeyError (elf_arch info) | Some name \<Rightarrow> Inr name) of
         Inl e \<Rightarrow> if exn_class_of e \<in> {ElfError, KeyError, OSError} then symbol_error ''Invalid final Windows Dart AOT library'' else Inl e
       | Inr name \<Rightarrow> Inr [(PStr name, [p])]))"

definition subscripted :: "pyval \<Rightarrow> string \<Rightarrow> exn + pyval" where
  "subscripted v key = (case v of PDict d \<Rightarrow> dict_item d key | _ \<Rightarrow> raise TypeError ''subscript'')"

definition unhashable :: "pyval \<Rightarrow> bool" where
  "unhashable v = (case v of PList xs \<Rightarrow> True | PDict d \<Rightarrow> True | _ \<Rightarrow> False)"

definition linux_runtime :: "'w symbol_env \<Rightarrow> path \<Rightarrow> runtimes \<Rightarrow> pyval \<Rightarrow> exn + runtimes" where
  "linux_runtime env root t e =
     rbind (subscripted e ''target'') (\<lambda>target.
       if target \<noteq> PStr ''FlClash'' then Inr t
       else rbind (subscripted e ''binary'') (\<lambda>v. rbind (native_path env root v) (\<lambda>binary.
         rbind (rooted env root (butlast binary @ [''lib'', ''libapp.so''])) (\<lambda>p.
         rbind (subscripted e ''architecture'') (\<lambda>a.
           if unhashable a then raise TypeError ''unhashable'' else Inr (add_runtime a p t))))))"

text \<open>\<open>_macho_variants\<close>: the slices of a file by architecture.\<close>

definition macho_variants :: "'w symbol_env \<Rightarrow> path \<Rightarrow> exn + (string \<times> variant) list" where
  "macho_variants env p =
     (case rbind (content (fs env) p) inspect_macho of
        Inl e \<Rightarrow> if exn_class_of e \<in> {MachoError, OSError} then symbol_error ''Invalid Mach-O runtime or debug companion'' else Inl e
      | Inr (vs, _) \<Rightarrow>
          if list_ex (\<lambda>v. uuid v = [] \<or> architecture v \<notin> {''x86_64'', ''arm64''}) vs
          then symbol_error ''Missing Mach-O UUID or unsupported release architecture''
          else Inr (map (\<lambda>v. (architecture v, v)) vs))"

definition macos_runtimes :: "'w symbol_env \<Rightarrow> path \<Rightarrow> pyval \<Rightarrow> exn + runtimes" where
  "macos_runtimes env root manifest =
     rbind (subscripted manifest ''app'') (\<lambda>a.
       case text_of a of
         None \<Rightarrow> raise TypeError ''path''
       | Some s \<Rightarrow>
           rbind (walk_below (depth env) (fs env) (path_join root s @ [''Contents'', ''Frameworks'', ''App.framework''])) (\<lambda>ps.
           rbind (resolved_all env (filter (\<lambda>p. path_name p = ''App'' \<and> is_file (fs env) p) ps)) (\<lambda>qs.
             if length (remdups qs) \<noteq> 1 then symbol_error ''Dart audit requires one final macOS App.framework AOT module''
             else rbind (rooted env root (hd qs)) (\<lambda>binary.
               rbind (macho_variants env binary) (\<lambda>vs. Inr (map (\<lambda>(a, _). (PStr a, [binary])) vs))))))"

definition manifest_runtimes :: "'w symbol_env \<Rightarrow> path \<Rightarrow> string \<Rightarrow> exn + runtimes" where
  "manifest_runtimes env root platform =
     (case rbind (read_text env (root @ [''sentry-native'', platform, ''manifest.json''])) (\<lambda>t. rbind (text_json env t) (\<lambda>manifest.
         if platform = ''linux''
         then rbind (subscripted manifest ''artifacts'') (\<lambda>es. rbind (iterate es) (\<lambda>es. foldE (linux_runtime env root) [] es))
         else macos_runtimes env root manifest)) of
        Inl e \<Rightarrow> if exn_class_of e \<in> {OSError, ValueError, UnicodeError, JSONDecodeError, KeyError, TypeError}
          then symbol_error ''Dart audit requires the final platform AOT inventory'' else Inl e
      | Inr t \<Rightarrow> Inr t)"

definition dart_runtimes :: "'w symbol_env \<Rightarrow> path \<Rightarrow> string \<Rightarrow> exn + runtimes" where
  "dart_runtimes env root platform =
     rbind (resolve (fs env) root) (\<lambda>root.
     rbind (if platform = ''android''
            then foldE (android_runtime_of env root) [] (runtime_directories env (root @ [''sentry-native'', ''android'', ''runtime'']))
            else if platform = ''windows'' then windows_runtimes env root
            else manifest_runtimes env root platform) (\<lambda>t.
       if t = [] then symbol_error ''Dart audit found no distributed AOT modules'' else Inr t))"

section \<open>The shape of a debug file\<close>

definition machine_of_suffix :: "string \<Rightarrow> string option" where
  "machine_of_suffix = map_of [(''x64'', ''x86_64''), (''x86_64'', ''x86_64''), (''arm64'', ''aarch64''), (''arm'', ''arm'')]"

definition elf_shape :: "'w symbol_env \<Rightarrow> path \<Rightarrow> string \<Rightarrow> string \<Rightarrow> exn + string \<times> string" where
  "elf_shape env p platform machine =
     (if platform = ''macos''
      then symbol_error ''macOS Dart split symbols require the pinned macOS Flutter Mach-O snapshot build''
      else rbind (elf_of env p) (\<lambda>info.
        if elf_has_executable_text info then symbol_error ''Dart split companion contains executable code''
        else if \<not> elf_has_debug_info info \<or> \<not> elf_has_debug_line info \<or> elf_build_id info = []
        then symbol_error ''Dart split companion lacks identified DWARF line information''
        else if elf_arch info \<noteq> machine then symbol_error ''Dart split companion filename does not match its architecture''
        else Inr (''elf'', elf_build_id info)))"

definition macho_shape :: "'w symbol_env \<Rightarrow> path \<Rightarrow> string \<Rightarrow> string \<Rightarrow> exn + string \<times> string" where
  "macho_shape env p platform tag =
     (if platform \<noteq> ''macos'' then symbol_error ''Dart split companion is not a debug-only ELF file''
      else rbind (macho_variants env p) (\<lambda>vs.
        case map_of vs tag of
          None \<Rightarrow> symbol_error ''Dart split companion filename does not match its architecture''
        | Some info \<Rightarrow>
            if set (map fst vs) \<noteq> {tag} then symbol_error ''Dart split companion filename does not match its architecture''
            else if filetype info \<noteq> 10 \<or> has_executable_text info
            then symbol_error ''Dart split companion contains a runtime Mach-O or executable code''
            else if \<not> has_debug_info info \<or> \<not> has_debug_line info
            then symbol_error ''Dart split companion lacks DWARF line information''
            else Inr (''dsym'', uuid info)))"

definition companion_shape :: "'w symbol_env \<Rightarrow> path \<Rightarrow> string \<Rightarrow> string \<Rightarrow> exn + string \<times> string" where
  "companion_shape env p platform tag =
     (case machine_of_suffix tag of
        None \<Rightarrow> symbol_error ''Unsupported Dart split companion architecture''
      | Some machine \<Rightarrow>
          (case rbind (content (fs env) p) (\<lambda>bs.
               if take 4 bs = 0x7f # ascii ''ELF'' then elf_shape env p platform machine else macho_shape env p platform tag) of
             Inl e \<Rightarrow> if exn_class_of e \<in> {ElfError, OSError} then symbol_error ''Invalid Dart debug-only companion'' else Inl e
           | Inr x \<Rightarrow> Inr x))"

section \<open>The collection\<close>

record dart_state =
  da_artifacts :: "path list"
  da_rows :: "evidence_row list"

text \<open>The name of a debug file without the part before and after the architecture.\<close>

definition dart_prefix :: "string \<Rightarrow> string" where
  "dart_prefix platform = ''app.'' @ (if platform = ''macos'' then ''darwin'' else platform) @ ''-''"

definition dart_suffix :: "string \<Rightarrow> path \<Rightarrow> string" where
  "dart_suffix platform p = remove_suffix ''.symbols'' (remove_prefix (dart_prefix platform) (path_name p))"

text \<open>\<open>glob(f"app.{dart_platform}-*.symbols")\<close>.\<close>

definition dart_name :: "'w symbol_env \<Rightarrow> string \<Rightarrow> string \<Rightarrow> bool" where
  "dart_name env platform n \<longleftrightarrow> (let n = name_case env n; p = dart_prefix platform in
     prefix p n \<and> ends_with ''.symbols'' (drop (length p) n))"

definition dart_files :: "'w symbol_env \<Rightarrow> path \<Rightarrow> string \<Rightarrow> path list" where
  "dart_files env root platform =
     sort (map (\<lambda>n. root @ [''debug-info'', n]) (filter (dart_name env platform) (names_in env (root @ [''debug-info'']))))"

definition runtime_of :: "runtimes \<Rightarrow> string \<Rightarrow> path list option" where
  "runtime_of t tag = map_option snd (find (\<lambda>(k, _). py_eq k (PStr tag)) t)"

text \<open>One module that a debug file belongs to.\<close>

definition macos_match :: "'w symbol_env \<Rightarrow> string \<Rightarrow> symbol_info \<Rightarrow> path \<Rightarrow> ('w tool_state, unit) cmd" where
  "macos_match env tag info runtime =
     seq (lift_result (rbind (macho_variants env runtime) (\<lambda>vs. case map_of vs tag of None \<Rightarrow> raise KeyError tag | Some v \<Rightarrow> Inr (uuid v)))) (\<lambda>did.
     seq (check_symbol env runtime (Some ''dsym'') False) (\<lambda>runtime_info.
       if set (si_ids info) \<noteq> {did} \<or> did \<notin> set (si_ids runtime_info)
       then throw SymbolError ''macOS Dart split identifiers do not match final App.framework; use a supported matching snapshot build''
       else ret ()))"

definition runtime_elf :: "'w symbol_env \<Rightarrow> path \<Rightarrow> exn + elf_info" where
  "runtime_elf env p = (case elf_of env p of
      Inl e \<Rightarrow> if exn_class_of e \<in> {ElfError, OSError} then symbol_error ''Invalid final Dart AOT ELF module'' else Inl e
    | Inr info \<Rightarrow> Inr info)"

definition runtime_machine :: "string \<Rightarrow> exn + string" where
  "runtime_machine tag = (case map_of [(''x64'', ''x86_64''), (''arm64'', ''aarch64''), (''arm'', ''arm'')] tag of
      None \<Rightarrow> raise KeyError tag | Some m \<Rightarrow> Inr m)"

definition elf_match :: "'w symbol_env \<Rightarrow> string \<Rightarrow> symbol_info \<Rightarrow> string \<times> string \<Rightarrow> path \<Rightarrow> ('w tool_state, unit) cmd" where
  "elf_match env tag info shape runtime =
     seq (lift_result (runtime_elf env runtime)) (\<lambda>actual. seq (lift_result (runtime_machine tag)) (\<lambda>machine.
       if elf_arch actual \<noteq> machine then throw SymbolError ''Final Dart AOT library does not match its distributed architecture''
       else if fst shape \<noteq> ''elf'' \<or> snd shape \<noteq> elf_build_id actual
       then throw SymbolError ''Dart AOT and split companion build identifier mismatch''
       else seq (check_symbol env runtime (Some ''elf'') False) (\<lambda>runtime_info.
         if si_ids info \<noteq> si_ids runtime_info then throw SymbolError ''Dart AOT and split companion debug identifier mismatch''
         else ret ())))"

definition match_runtime ::
    "'w symbol_env \<Rightarrow> string \<Rightarrow> string \<Rightarrow> symbol_info \<Rightarrow> string \<times> string \<Rightarrow> fingerprint list \<Rightarrow> path \<Rightarrow> ('w tool_state, fingerprint list) cmd" where
  "match_runtime env platform tag info shape fps runtime s =
     seq (if platform = ''macos'' then macos_match env tag info runtime else elf_match env tag info shape runtime) (\<lambda>_.
       seq (lift_result (fingerprint_of env runtime)) (\<lambda>fp. ret (fps @ [fp]))) s"

definition arch_named :: "string \<Rightarrow> string \<Rightarrow> bool" where
  "arch_named expected a \<longleftrightarrow> a = expected \<or> expected = ''arm'' \<and> prefix ''armv'' a"

definition expected_arch :: "string \<Rightarrow> string" where
  "expected_arch tag = (if tag \<in> {''x64'', ''x86_64''} then ''x86_64'' else tag)"

text \<open>The check of the file itself; on macOS another error says how to get a usable one.\<close>

definition check_companion :: "'w symbol_env \<Rightarrow> string \<Rightarrow> path \<Rightarrow> ('w tool_state, symbol_info) cmd" where
  "check_companion env platform p =
     catching (check_symbol env p None True) {SymbolError} (\<lambda>e.
       if platform = ''macos''
       then throw SymbolError ''macOS Dart split symbols have no usable identifier; use the pinned macOS Flutter Mach-O snapshot build''
       else lift_result (Inl e))"

definition companion_fits :: "'w symbol_env \<Rightarrow> runtimes \<Rightarrow> string \<Rightarrow> path \<Rightarrow> symbol_info \<Rightarrow> exn + (string \<times> string) \<times> path list" where
  "companion_fits env t platform p info =
     (if si_format info \<notin> {PStr ''elf'', PStr ''dsym''} then symbol_error ''Unexpected Dart debug companion format''
      else rbind (features_of info) (\<lambda>features.
        if ''debug'' \<notin> set features then symbol_error ''Dart split companion is missing line debug information''
        else let tag = dart_suffix platform p in
          case runtime_of t tag of
            None \<Rightarrow> symbol_error ''Dart split companion has no matching distributed AOT architecture''
          | Some held \<Rightarrow> rbind (companion_shape env p platform tag) (\<lambda>shape.
              if \<not> list_all (arch_named (expected_arch tag)) (si_architectures info)
              then symbol_error ''Dart split companion filename does not match its architecture''
              else Inr (shape, held))))"

definition dart_companion :: "'w symbol_env \<Rightarrow> path \<Rightarrow> runtimes \<Rightarrow> string \<Rightarrow> dart_state \<Rightarrow> path \<Rightarrow> ('w tool_state, dart_state) cmd" where
  "dart_companion env root t platform st file s =
     seq (lift_result (rooted env root file)) (\<lambda>p.
     seq (check_companion env platform p) (\<lambda>info.
     seq (lift_result (companion_fits env t platform p info)) (\<lambda>(shape, held).
     seq (loop_over (match_runtime env platform (dart_suffix platform p) info shape) [] held) (\<lambda>fps.
     seq (lift_result (fingerprint_of env p)) (\<lambda>fp.
       ret (st\<lparr>da_artifacts := da_artifacts st @ [p], da_rows := da_rows st @ [\<lparr>ev_target = None, ev_architecture = None, ev_source = None,
         ev_build_id = None, ev_binary = None, ev_copies = None, ev_binaries = fps, ev_symbols = fp, ev_info = info\<rparr>]\<rparr>)))))) s"

definition finish_dart :: "runtimes \<Rightarrow> string \<Rightarrow> string list \<Rightarrow> dart_state \<Rightarrow> exn + unit" where
  "finish_dart t platform expected st =
     (if da_artifacts st = [] then symbol_error ''No Dart split debug information was generated''
      else let found = map (dart_suffix platform) (da_artifacts st) in
        if (expected \<noteq> [] \<or> t \<noteq> []) \<and> (\<not> list_all (\<lambda>(k, _). list_ex (\<lambda>f. k = PStr f) found) t \<or> \<not> set expected \<subseteq> set found)
        then symbol_error ''Dart split debug information is missing a distributed architecture'' else Inr ())"

definition collect_companions ::
    "'w symbol_env \<Rightarrow> path \<Rightarrow> string \<Rightarrow> string list \<Rightarrow> ('w tool_state, path list \<times> evidence_row list) cmd" where
  "collect_companions env build_root platform expected s =
     (case resolve (fs env) build_root of
        Inl e \<Rightarrow> (Inl e, s)
      | Inr root \<Rightarrow>
          (case dart_runtimes env root platform of
             Inl e \<Rightarrow> (Inl e, s)
           | Inr t \<Rightarrow> seq (loop_over (dart_companion env root t platform) \<lparr>da_artifacts = [], da_rows = []\<rparr> (dart_files env root platform)) (\<lambda>st.
               seq (lift_result (finish_dart t platform expected st)) (\<lambda>_. ret (da_artifacts st, da_rows st))) s))"

section \<open>What an accepted debug file says\<close>

text \<open>The file has line information and no executable code.\<close>

definition debug_only :: "'w symbol_env \<Rightarrow> path \<Rightarrow> string \<Rightarrow> string \<times> string \<Rightarrow> bool" where
  "debug_only env p tag shape \<longleftrightarrow>
     (if fst shape = ''elf'' then (case elf_of env p of Inl e \<Rightarrow> False | Inr info \<Rightarrow> \<not> elf_has_executable_text info
        \<and> elf_has_debug_info info \<and> elf_has_debug_line info \<and> elf_build_id info = snd shape \<and> snd shape \<noteq> [])
      else (case macho_variants env p of Inl e \<Rightarrow> False | Inr vs \<Rightarrow> set (map fst vs) = {tag} \<and> (case map_of vs tag of None \<Rightarrow> False
        | Some v \<Rightarrow> filetype v = 10 \<and> \<not> has_executable_text v \<and> has_debug_info v \<and> has_debug_line v \<and> uuid v = snd shape)))"

lemma companion_shape_ok: "companion_shape env p platform tag = Inr shape \<Longrightarrow> debug_only env p tag shape"
  by (auto simp: companion_shape_def elf_shape_def macho_shape_def debug_only_def simp del: set_map split: option.splits sum.splits if_splits)

definition module_matches :: "'w symbol_env \<Rightarrow> tool_run list \<Rightarrow> string \<Rightarrow> string \<Rightarrow> symbol_info \<Rightarrow> string \<times> string \<Rightarrow> path \<Rightarrow> bool" where
  "module_matches env made platform tag info shape m \<longleftrightarrow>
     (if platform = ''macos'' then (\<exists>vs v said. macho_variants env m = Inr vs \<and> map_of vs tag = Some v \<and> set (si_ids info) = {uuid v}
        \<and> tool_said env made m (Some ''dsym'') False said \<and> uuid v \<in> set (si_ids said))
      else (\<exists>elf said. elf_of env m = Inr elf \<and> shape = (''elf'', elf_build_id elf) \<and> runtime_machine tag = Inr (elf_arch elf)
        \<and> tool_said env made m (Some ''elf'') False said \<and> si_ids said = si_ids info))"

definition dart_row_ok :: "'w symbol_env \<Rightarrow> path \<Rightarrow> runtimes \<Rightarrow> string \<Rightarrow> tool_run list \<Rightarrow> path \<Rightarrow> evidence_row \<Rightarrow> bool" where
  "dart_row_ok env root t platform made p row \<longleftrightarrow>
     (\<exists>file\<in>set (dart_files env root platform). rooted env root file = Inr p)
     \<and> tool_said env made p None True (ev_info row) \<and> has_feature ''debug'' (ev_info row)
     \<and> (\<exists>shape held. runtime_of t (dart_suffix platform p) = Some held \<and> debug_only env p (dart_suffix platform p) shape
       \<and> list_all (module_matches env made platform (dart_suffix platform p) (ev_info row) shape) held)"

definition dart_ok :: "'w symbol_env \<Rightarrow> path \<Rightarrow> runtimes \<Rightarrow> string \<Rightarrow> dart_state \<Rightarrow> tool_run list \<Rightarrow> bool" where
  "dart_ok env root t platform st made \<longleftrightarrow> list_all2 (dart_row_ok env root t platform made) (da_artifacts st) (da_rows st)"

lemma module_matches_later:
  "Sublist.suffix old made \<Longrightarrow> module_matches env old platform tag info shape m \<Longrightarrow> module_matches env made platform tag info shape m"
  unfolding module_matches_def by (auto dest: tool_said_later split: if_splits)

lemma modules_match_later:
  "Sublist.suffix old made \<Longrightarrow> list_all (module_matches env old platform tag info shape) held
   \<Longrightarrow> list_all (module_matches env made platform tag info shape) held"
  by (erule list.pred_mono_strong) (rule module_matches_later)

lemma dart_row_ok_later:
  "Sublist.suffix old made \<Longrightarrow> dart_row_ok env root t platform old p row \<Longrightarrow> dart_row_ok env root t platform made p row"
  unfolding dart_row_ok_def using tool_said_later modules_match_later by blast

lemma dart_ok_later: "Sublist.suffix old made \<Longrightarrow> dart_ok env root t platform st old \<Longrightarrow> dart_ok env root t platform st made"
  unfolding dart_ok_def by (erule list_all2_mono) (rule dart_row_ok_later)

lemma match_runtime_ok:
  assumes "match_runtime env platform tag info shape fps m s = (Inr fps', t)"
  shows "Sublist.suffix (runs_made s) (runs_made t) \<and> module_matches env (runs_made t) platform tag info shape m"
proof (cases "platform = ''macos''")
  case True
  with assms obtain vs v said u where "macho_variants env m = Inr vs" "map_of vs tag = Some v" "set (si_ids info) = {uuid v}"
      and said: "check_symbol env m (Some ''dsym'') False s = (Inr said, t)" "uuid v \<in> set (si_ids said)"
    by (auto simp: match_runtime_def macos_match_def seq_Inr cmd_Inr split: if_splits option.splits)
  with check_symbol_answered [OF said(1)] True show ?thesis unfolding module_matches_def by auto
next
  case False
  with assms obtain elf machine said where "runtime_elf env m = Inr elf" "runtime_machine tag = Inr machine" "elf_arch elf = machine"
      and shape: "shape = (''elf'', elf_build_id elf)" and said: "check_symbol env m (Some ''elf'') False s = (Inr said, t)"
      and ids: "si_ids said = si_ids info"
    by (cases shape) (auto simp: match_runtime_def elf_match_def seq_Inr cmd_Inr split: if_splits)
  moreover from this(1) have "elf_of env m = Inr elf" by (auto simp: runtime_elf_def split: sum.splits if_splits)
  ultimately show ?thesis using check_symbol_answered [OF said] False unfolding module_matches_def by auto
qed

lemma match_all_ok:
  assumes "loop_over (match_runtime env platform tag info shape) fps held s = (Inr fps', t)"
  shows "Sublist.suffix (runs_made s) (runs_made t) \<and> list_all (module_matches env (runs_made t) platform tag info shape) held"
  using assms
proof (induction held arbitrary: fps s)
  case (Cons m held)
  then obtain fps1 u where first: "match_runtime env platform tag info shape fps m s = (Inr fps1, u)"
      and rest: "loop_over (match_runtime env platform tag info shape) fps1 held u = (Inr fps', t)" by (auto simp: seq_Inr)
  from match_runtime_ok [OF first] Cons.IH [OF rest] show ?case
    by (auto intro: module_matches_later suffix_order.trans)
qed (simp add: cmd_Inr)

lemma check_companion_answered:
  "check_companion env platform p s = (Inr info, t) \<Longrightarrow> Sublist.suffix (runs_made s) (runs_made t) \<and> tool_said env (runs_made t) p None True info"
  by (rule check_symbol_answered)
     (auto simp: check_companion_def catching_def cmd_Inr split: prod.splits sum.splits if_splits)

lemma dart_companion_ok:
  assumes "dart_companion env root t platform st file s = (Inr st', u)" and "file \<in> set (dart_files env root platform)"
    and "dart_ok env root t platform st (runs_made s)"
  shows "dart_ok env root t platform st' (runs_made u)"
proof -
  from assms(1) obtain p info shape held fps fp v where p: "rooted env root file = Inr p"
      and info: "check_companion env platform p s = (Inr info, v)" and fits: "companion_fits env t platform p info = Inr (shape, held)"
      and each: "loop_over (match_runtime env platform (dart_suffix platform p) info shape) [] held v = (Inr fps, u)"
      and st': "st' = st\<lparr>da_artifacts := da_artifacts st @ [p], da_rows := da_rows st @ [\<lparr>ev_target = None, ev_architecture = None,
        ev_source = None, ev_build_id = None, ev_binary = None, ev_copies = None, ev_binaries = fps, ev_symbols = fp, ev_info = info\<rparr>]\<rparr>"
    by (auto simp: dart_companion_def seq_Inr cmd_Inr)
  from fits have facts: "has_feature ''debug'' info" "runtime_of t (dart_suffix platform p) = Some held"
      and "companion_shape env p platform (dart_suffix platform p) = Inr shape"
    by (auto simp: companion_fits_def has_feature_def Let_def split: if_splits option.splits)
  then have shape: "debug_only env p (dart_suffix platform p) shape" by (intro companion_shape_ok)
  note before = check_companion_answered [OF info] and after = match_all_ok [OF each]
  have said: "tool_said env (runs_made u) p None True info" using before after tool_said_later by blast
  have last: "ev_info (last (da_rows st')) = info" using st' by simp
  have "dart_row_ok env root t platform (runs_made u) p (last (da_rows st'))"
    unfolding dart_row_ok_def last using said facts shape after p assms(2) by blast
  moreover have "Sublist.suffix (runs_made s) (runs_made u)" using before after by (auto intro: suffix_order.trans)
  ultimately have row: "dart_row_ok env root t platform (runs_made u) p (last (da_rows st'))" "Sublist.suffix (runs_made s) (runs_made u)" .
  with row dart_ok_later [OF row(2) assms(3)] st' show ?thesis by (auto simp: dart_ok_def intro!: list_all2_appendI)
qed

section \<open>A sample build\<close>

text \<open>A Linux build with one runner; its compiled code and the debug file have the sample identifier.\<close>

definition dart_files_there :: "path list" where
  "dart_files_there =
     [[''b'', ''sentry-native'', ''linux'', ''manifest.json''], [''b'', ''bundle'', ''FlClash''], [''b'', ''bundle'', ''lib'', ''libapp.so''],
      [''b'', ''debug-info'', ''app.linux-x64.symbols'']]"

definition dart_tree :: file_system where
  "dart_tree = \<lparr>resolve = Inr, linked = (\<lambda>p. False), is_file = (\<lambda>p. p \<in> set dart_files_there), is_dir = (\<lambda>p. False),
     children = (\<lambda>p. if p = [''b'', ''debug-info''] then Inr [''app.linux-x64.symbols''] else raise OSError []),
     content = (\<lambda>p. if p \<notin> set dart_files_there then raise OSError [] else Inr (if p = hd dart_files_there then [9] else sample_companion))\<rparr>"

definition dart_manifest :: pyval where
  "dart_manifest = PDict [(''artifacts'', PList [PDict [(''target'', PStr ''FlClash''), (''architecture'', PStr ''x64''),
     (''binary'', PStr ''bundle/FlClash'')]])]"

definition dart_json :: "string \<Rightarrow> exn + pyval" where
  "dart_json s = (if length s = 1 then Inr dart_manifest else sample_json s)"

definition dart_host :: "(exn + tool_result) list symbol_env" where
  "dart_host = (sample_host dart_tree dart_json)\<lparr>sha := (\<lambda>bs. [])\<rparr>"

section \<open>Properties\<close>

text \<open>C28: The collection of Dart debug files accepts only files of the debug directory that have line information and no
  executable code, and only with every compiled module of their architecture carrying the same identifier, by the bytes
  of both and by the answers of the tool. There is at least one, and every architecture that is distributed or expected
  has one.\<close>

theorem dart_companions_sound:
  assumes "collect_companions env build_root platform expected s = (Inr (artifacts, rows), u)"
  shows "\<exists>root t. resolve (fs env) build_root = Inr root \<and> dart_runtimes env root platform = Inr t \<and> artifacts \<noteq> []
    \<and> list_all2 (dart_row_ok env root t platform (runs_made u)) artifacts rows
    \<and> list_all (\<lambda>(k, _). list_ex (\<lambda>p. k = PStr (dart_suffix platform p)) artifacts) t
    \<and> set expected \<subseteq> dart_suffix platform ` set artifacts"
proof -
  from assms obtain root t st where root: "resolve (fs env) build_root = Inr root" and t: "dart_runtimes env root platform = Inr t"
      and walk: "loop_over (dart_companion env root t platform) \<lparr>da_artifacts = [], da_rows = []\<rparr> (dart_files env root platform) s = (Inr st, u)"
      and finish: "finish_dart t platform expected st = Inr ()" and st: "artifacts = da_artifacts st" "rows = da_rows st"
    by (auto simp: collect_companions_def seq_Inr cmd_Inr split: sum.splits)
  let ?start = "\<lparr>da_artifacts = [], da_rows = []\<rparr>"
  have "triple (\<lambda>s. dart_ok env root t platform ?start (runs_made s)) (loop_over (dart_companion env root t platform) ?start (dart_files env root platform))
      (\<lambda>st s. dart_ok env root t platform st (runs_made s)) (\<lambda>_ _. True)"
    by (rule triple_loop_over [where I = "\<lambda>st s. dart_ok env root t platform st (runs_made s)"], rule triple_normal) (auto intro: dart_companion_ok)
  from triple_Inr [OF this _ walk] have "dart_ok env root t platform st (runs_made u)" by (simp add: dart_ok_def)
  moreover have "t \<noteq> []" using t by (auto simp: dart_runtimes_def split: if_splits)
  ultimately show ?thesis using root t finish st
    by (auto simp: finish_dart_def Let_def dart_ok_def list_ex_iff split: if_splits)
qed

lemma dart_companions_sound_witness:
  "\<exists>artifacts rows u. collect_companions dart_host [''b''] ''linux'' [''x64''] (tool_answers [prints ''1elf'', prints ''1elf''])
     = (Inr (artifacts, rows), u) \<and> artifacts \<noteq> []
     \<and> (\<exists>t. dart_runtimes dart_host [''b''] ''linux'' = Inr t \<and> list_all2 (dart_row_ok dart_host [''b''] t ''linux'' (runs_made u)) artifacts rows)"
proof -
  let ?s = "tool_answers [prints ''1elf'', prints ''1elf'']" and ?p = "[''b'', ''debug-info'', ''app.linux-x64.symbols'']"
    and ?m = "[''b'', ''bundle'', ''lib'', ''libapp.so'']"
  let ?first = "check_companion dart_host ''linux'' ?p ?s" and ?start = "\<lparr>da_artifacts = [], da_rows = []\<rparr>"
  from sample_companion_parses obtain info where info: "inspect_elf (\<lambda>bs. []) sample_companion = Inr info" "elf_build_id info = ''deadbeef''"
      and facts: "companion_facts ''x86_64'' info info" by blast
  have there: "content (fs dart_host) ?p = Inr sample_companion" "content (fs dart_host) ?m = Inr sample_companion"
    by (simp_all add: dart_host_def sample_host_def dart_tree_def dart_files_there_def)
  then have elf: "elf_of dart_host ?p = Inr info" "elf_of dart_host ?m = Inr info"
    using info(1) by (simp_all add: elf_of_def dart_host_def sample_host_def)
  have fps: "\<exists>fp. fingerprint_of dart_host ?p = Inr fp" "\<exists>fp. fingerprint_of dart_host ?m = Inr fp"
    unfolding fingerprint_of_def there by simp_all
  have "take 4 sample_companion = 0x7f # ascii ''ELF''" by (simp add: sample_companion_def ascii_def)
  moreover have "machine_of_suffix ''x64'' = Some ''x86_64''" "''linux'' \<noteq> ''macos''" by (simp_all add: machine_of_suffix_def)
  ultimately have shape: "companion_shape dart_host ?p ''linux'' ''x64'' = Inr (''elf'', ''deadbeef'')"
    using facts info(2) by (simp add: companion_shape_def there elf_shape_def elf companion_facts_def)
  have "case ?first of (Inl e, t) \<Rightarrow> False | (Inr i, t) \<Rightarrow> si_ids i = [''1''] \<and> si_format i = PStr ''elf'' \<and> si_architectures i = [''x86_64'']
      \<and> si_features i = PStr ''symtab, debug''" by code_simp
  then obtain i s1 where first: "?first = (Inr i, s1)" and i: "si_ids i = [''1'']" "si_format i = PStr ''elf''"
      "si_architectures i = [''x86_64'']" "si_features i = PStr ''symtab, debug''" by (auto split: prod.splits sum.splits)
  have "case check_symbol dart_host ?m (Some ''elf'') False (snd ?first) of (Inl e, t) \<Rightarrow> False | (Inr i, t) \<Rightarrow> si_ids i = [''1'']" by code_simp
  then have "case check_symbol dart_host ?m (Some ''elf'') False s1 of (Inl e, t) \<Rightarrow> False | (Inr i, t) \<Rightarrow> si_ids i = [''1'']"
    unfolding first snd_conv .
  then obtain j s2 where second: "check_symbol dart_host ?m (Some ''elf'') False s1 = (Inr j, s2)" "si_ids j = [''1'']"
    by (auto split: prod.splits sum.splits)
  have reads: "dart_runtimes dart_host [''b''] ''linux'' = Inr [(PStr ''x64'', [?m])]" "dart_files dart_host [''b''] ''linux'' = [?p]"
      "rooted dart_host [''b''] ?p = Inr ?p" "dart_suffix ''linux'' ?p = ''x64''" by code_simp+
  have root: "resolve (fs dart_host) [''b''] = Inr [''b'']" by (simp add: dart_host_def sample_host_def dart_tree_def)
  have fits: "companion_fits dart_host [(PStr ''x64'', [?m])] ''linux'' ?p i = Inr ((''elf'', ''deadbeef''), [?m])"
    by (simp add: companion_fits_def i reads shape features_of_def runtime_of_def arch_named_def expected_arch_def)
  have matched: "elf_match dart_host ''x64'' i (''elf'', ''deadbeef'') ?m s1 = (Inr (), s2)"
    using facts info(2) second i(1) by (simp add: elf_match_def seq_def lift_result_def ret_def runtime_elf_def elf runtime_machine_def companion_facts_def)
  obtain st where step: "dart_companion dart_host [''b''] [(PStr ''x64'', [?m])] ''linux'' ?start ?p ?s = (Inr st, s2)" and st: "da_artifacts st = [?p]"
    using fps matched by (auto simp: dart_companion_def seq_def lift_result_def ret_def reads first fits match_runtime_def)
  have finish: "finish_dart [(PStr ''x64'', [?m])] ''linux'' [''x64''] st = Inr ()" by (simp add: finish_dart_def st reads)
  have r: "collect_companions dart_host [''b''] ''linux'' [''x64''] ?s = (Inr (da_artifacts st, da_rows st), s2)"
    unfolding collect_companions_def root sum.case reads loop_over.simps by (simp add: seq_def step lift_result_def ret_def finish)
  from dart_companions_sound [OF r] root show ?thesis by (intro exI [of _ "da_artifacts st"] exI [of _ "da_rows st"] exI [of _ s2]) (use r in auto)
qed

end
