(* ===== verification/Macos_Symbols.thy ===== *)
theory Macos_Symbols
  imports Dart_Symbols Inventory_Output
begin

text \<open>
  The audit of the debug files of a macOS build, from \<open>tool/upload_sentry_symbols.py\<close>: every image of the application
  (\<open>Mach_O\<close>) is either matched with a separate dSYM file or covered by a limitation the loaded dependency inventory
  (\<open>Macos_Inventory\<close>) allows. Property lists and what the scanner of \<open>prepare_sentry_macos_symbols.py\<close> finds in the DWARF of
  a file (a run of \<open>dwarfdump\<close>) are parameters.
\<close>

section \<open>The application and its images\<close>

record mac_tools =
  json_bytes :: "bytes \<Rightarrow> exn + pyval"
  plist_bytes :: "bytes \<Rightarrow> exn + pyval"
  rust_units :: "path \<Rightarrow> string \<Rightarrow> exn + bool"

definition mac_inventory :: "mac_tools \<Rightarrow> 'w symbol_env \<Rightarrow> inventory_env" where
  "mac_inventory mac env = \<lparr>files_of = fs env, digest = sha env, json_of = json_bytes mac, plist_of = plist_bytes mac, walk_depth = depth env\<rparr>"

definition macos_manifest :: "'w symbol_env \<Rightarrow> path \<Rightarrow> exn + pydict" where
  "macos_manifest env root =
     (case rbind (Symbol_Audit.read_text env (root @ [''sentry-native'', ''macos'', ''manifest.json''])) (text_json env) of
        Inl e \<Rightarrow> if exn_class_of e \<in> {OSError, ValueError, UnicodeError, JSONDecodeError}
          then symbol_error ''macOS release requires its native symbol manifest'' else Inl e
      | Inr v \<Rightarrow>
          if \<not> is_dict v \<or> \<not> py_eq_int (dict_get (items_of v) ''schema_version'') 1 \<or> dict_get (items_of v) ''platform'' \<noteq> PStr ''macos''
          then symbol_error ''Invalid macOS symbol manifest'' else Inr (items_of v))"

definition products_dir :: "path \<Rightarrow> path" where
  "products_dir root = root @ [''macos'', ''Build'', ''Products'', ''Release'']"

text \<open>The application: the only one in the products of the release.\<close>

definition macos_app :: "'w symbol_env \<Rightarrow> path \<Rightarrow> pyval \<Rightarrow> exn + path" where
  "macos_app env root v =
     (case text_of v of
        None \<Rightarrow> symbol_error ''macOS app path must be relative to the build root''
      | Some s \<Rightarrow>
          if is_absolute s then symbol_error ''macOS app path must be relative to the build root''
          else let app = path_join root s; pdir = products_dir root in
            rbind (resolve (fs env) app) (\<lambda>a. rbind (resolve (fs env) pdir) (\<lambda>p. rbind (resolve (fs env) (butlast app)) (\<lambda>parent.
            if \<not> is_relative_to a p \<or> \<not> is_dir (fs env) app \<or> path_suffix app \<noteq> ''.app'' \<or> parent \<noteq> p
            then symbol_error ''macOS symbol audit requires the final Release app bundle''
            else rbind (resolved_all env (filter (is_dir (fs env)) (map (\<lambda>n. pdir @ [n])
                (filter (\<lambda>n. ends_with ''.app'' (name_case env n)) (names_in env pdir))))) (\<lambda>candidates.
              if candidates \<noteq> [a] then symbol_error ''macOS symbol audit requires one unambiguous Release app'' else Inr app)))))"

definition INVENTORY_CHECKS :: "string list" where
  "INVENTORY_CHECKS = [''paths'', ''inventory_read'', ''receipt_read'', ''schema'', ''managers'', ''configuration'',
     ''inventory_digest'', ''app_identity'', ''runtime_read'', ''runtime_match'', ''record_lists'',
     ''products'', ''target_hosts'', ''binary_hosts'', ''spm_graph'', ''link_helper_schema'',
     ''link_helper_manifest'', ''link_helper_sources'', ''link_helper_bindings'', ''source_ownership'', ''complete'']"

text \<open>Only the error of a mismatch has a diagnostic; it names the check of the last report.\<close>

definition failed_check :: "exn \<Rightarrow> pydict list \<Rightarrow> string" where
  "failed_check e reports =
     (if e \<noteq> mismatched \<or> reports = [] then []
      else case text_of (dict_get (hd reports) ''inventory_check'') of
          Some c \<Rightarrow> if c \<in> set INVENTORY_CHECKS then '' ['' @ c @ '']'' else [] | None \<Rightarrow> [])"

definition owned_inventory :: "mac_tools \<Rightarrow> 'w symbol_env \<Rightarrow> path \<Rightarrow> path \<Rightarrow> exn + loaded" where
  "owned_inventory mac env root app =
     (case load_inventory (mac_inventory mac env) root app ''Release'' of
        (Inr v, reports) \<Rightarrow> Inr v
      | (Inl e, reports) \<Rightarrow>
          if exn_class_of e = InventoryError
          then symbol_error (''macOS dependency inventory/build receipt is missing or does not match the final app'' @ failed_check e reports)
          else Inl e)"

definition macos_executable :: "mac_tools \<Rightarrow> 'w symbol_env \<Rightarrow> path \<Rightarrow> exn + string" where
  "macos_executable mac env app =
     (case rbind (content (fs env) (app @ [''Contents'', ''Info.plist''])) (plist_bytes mac) of
        Inl e \<Rightarrow> if exn_class_of e \<in> {OSError, ValueError, UnicodeError} then symbol_error ''macOS Release app is missing valid executable metadata'' else Inl e
      | Inr v \<Rightarrow> (case text_of (dict_get (items_of v) ''CFBundleExecutable'') of
          None \<Rightarrow> symbol_error ''Invalid macOS app executable filename''
        | Some s \<Rightarrow> if bad_executable s then symbol_error ''Invalid macOS app executable filename'' else Inr s))"

record app_module =
  am_binary :: path
  am_info :: variant
  am_owned :: bool
  am_source :: pyval
  am_dart :: bool

definition rust_names :: "string list" where
  "rust_names = [''rust_api'', ''librust_api.dylib'', ''rust_api.dylib'']"

text \<open>The products an image may be listed under: the frameworks around it and its own name.\<close>

definition product_names :: "path \<Rightarrow> string list" where
  "product_names p = filter (\<lambda>c. name_suffix c = ''.framework'') (butlast p) @ [path_name p]"

text \<open>\<open>{item["product"]: item["source"]}\<close>.\<close>

definition owned_sources :: "pyval list \<Rightarrow> exn + (string \<times> pyval) list" where
  "owned_sources items =
     foldE (\<lambda>t item. rbind (subscript item ''product'') (\<lambda>p. rbind (subscript item ''source'') (\<lambda>source.
       case text_of p of None \<Rightarrow> raise TypeError ''product'' | Some s \<Rightarrow> Inr (dict_set t s source)))) [] items"

definition image_source :: "(string \<times> pyval) list \<Rightarrow> string \<Rightarrow> string list \<Rightarrow> pyval" where
  "image_source srcs target names =
     (if target = ''runner'' then PStr ''runner'' else if target \<in> set rust_names then PStr ''rust''
      else if target = ''FlClashCore'' then PStr ''go''
      else case filter (\<lambda>n. map_of srcs n \<noteq> None) names of n # _ \<Rightarrow> the (map_of srcs n) | [] \<Rightarrow> PStr ''prebuilt'')"

definition image_owned :: "(string \<times> pyval) list \<Rightarrow> string \<Rightarrow> string list \<Rightarrow> bool" where
  "image_owned srcs target names \<longleftrightarrow> list_ex (\<lambda>n. map_of srcs n \<noteq> None) names
     \<or> target \<in> set (''runner'' # rust_names @ [''FlClashCore''])"

type_synonym app_modules = "(identity \<times> app_module) list"

definition app_slice ::
    "(string \<times> pyval) list \<Rightarrow> path \<Rightarrow> string \<Rightarrow> string list \<Rightarrow> app_modules \<Rightarrow> string \<times> variant \<Rightarrow> exn + app_modules" where
  "app_slice srcs actual target names ms av =
     (case av of (a, v) \<Rightarrow>
       if (target, a) \<in> set (map fst ms) \<or> filetype v \<notin> {2, 6, 8}
       then symbol_error ''Duplicate or non-runtime Mach-O inside the app bundle''
       else Inr (ms @ [((target, a), \<lparr>am_binary = actual, am_info = v, am_owned = image_owned srcs target names,
         am_source = image_source srcs target names, am_dart = ''App.framework'' \<in> set names\<rparr>)]))"

definition app_image ::
    "'w symbol_env \<Rightarrow> (string \<times> pyval) list \<Rightarrow> path \<Rightarrow> path \<Rightarrow> path list \<times> app_modules \<Rightarrow> path \<Rightarrow> exn + path list \<times> app_modules" where
  "app_image env srcs app runner st p =
     (case st of (there, ms) \<Rightarrow>
       if \<not> is_file (fs env) p then Inr st
       else rbind (resolve (fs env) p) (\<lambda>actual.
         if actual \<in> set there then Inr st
         else rbind (content (fs env) p) (\<lambda>bs.
           if \<not> is_macho bs then Inr st
           else rbind (resolve (fs env) app) (\<lambda>a.
             if \<not> is_relative_to actual a then symbol_error ''Mach-O module escaped its final app bundle''
             else rbind (if actual = runner then Inr ''runner'' else Symbol_Audit.safe_label (PStr (path_name p)) ''Mach-O target'') (\<lambda>target.
               rbind (macho_variants env p) (\<lambda>vs.
                 rbind (foldE (app_slice srcs actual target (product_names p)) ms vs) (\<lambda>ms. Inr (actual # there, ms))))))))"

definition app_modules_of :: "'w symbol_env \<Rightarrow> (string \<times> pyval) list \<Rightarrow> path \<Rightarrow> string \<Rightarrow> exn + app_modules" where
  "app_modules_of env srcs app executable =
     rbind (resolve (fs env) (app @ [''Contents'', ''MacOS'', executable])) (\<lambda>runner.
     rbind (walk_below (depth env) (fs env) app) (\<lambda>ps.
     rbind (foldE (app_image env srcs app runner) ([], []) ps) (\<lambda>(_, ms).
       if \<not> list_ex (\<lambda>((t, _), _). t = ''runner'') ms then symbol_error ''macOS app executable is missing from its native inventory''
       else if \<not> list_ex (\<lambda>((t, _), _). t \<in> set rust_names) ms then symbol_error ''macOS app is missing its required Rust Native Asset''
       else Inr ms)))"

section \<open>One companion\<close>

text \<open>The state of the walk over the manifest: identities seen, files and evidence.\<close>

record mac_audit =
  ma_seen :: "identity list"
  ma_artifacts :: "path list"
  ma_rows :: "evidence_row list"

definition dsym_place :: "path \<Rightarrow> bool" where
  "dsym_place p \<longleftrightarrow> (let dwarf = butlast p; resources = butlast dwarf; held = butlast resources in
     path_name dwarf = ''DWARF'' \<and> path_name resources = ''Resources'' \<and> path_name held = ''Contents'' \<and> path_suffix (butlast held) = ''.dSYM'')"

definition not_dsym :: "exn + 'a" where
  "not_dsym = symbol_error ''macOS uploads require a separate dSYM DWARF companion''"

text \<open>The image and the companion of an entry.\<close>

definition mac_paths :: "'w symbol_env \<Rightarrow> path \<Rightarrow> path \<Rightarrow> app_module \<Rightarrow> native_entry \<Rightarrow> exn + path \<times> path" where
  "mac_paths env root app m e =
     rbind (native_path env root (ne_binary e)) (\<lambda>binary. rbind (native_path env root (ne_debug_file e)) (\<lambda>debug.
     rbind (resolve (fs env) binary) (\<lambda>b.
       if b \<noteq> am_binary m then symbol_error ''macOS companion does not reference the final app module''
       else rbind (resolve (fs env) debug) (\<lambda>d. rbind (resolve (fs env) app) (\<lambda>a.
         if is_relative_to d a \<or> \<not> dsym_place debug then not_dsym else Inr (binary, debug))))))"

definition dsym_facts :: "(string \<times> variant) list \<Rightarrow> string \<Rightarrow> variant \<Rightarrow> exn + unit" where
  "dsym_facts vs a here =
     (case map_of vs a of
        None \<Rightarrow> symbol_error ''dSYM is missing a distributed Mach-O architecture''
      | Some info \<Rightarrow>
          if uuid info \<noteq> uuid here then symbol_error ''Final Mach-O and dSYM UUID mismatch''
          else if list_ex (\<lambda>(_, v). filetype v \<noteq> 10 \<or> has_executable_text v) vs
          then symbol_error ''dSYM companion contains a runtime Mach-O or executable code''
          else if \<not> has_debug_info info \<or> \<not> has_debug_line info then symbol_error ''dSYM is missing DWARF line information''
          else Inr ())"

text \<open>Rust code must be seen in the DWARF of every slice of a Rust module.\<close>

definition rust_proof :: "mac_tools \<Rightarrow> native_entry \<Rightarrow> path \<Rightarrow> exn + unit" where
  "rust_proof mac e debug =
     (if ne_source e \<noteq> ''rust'' then Inr ()
      else case rust_units mac debug (ne_architecture e) of
          Inl _ \<Rightarrow> symbol_error ''macos_rust_debug_verification_failed''
        | Inr yes \<Rightarrow> if yes then Inr () else symbol_error ''macos_rust_slice_missing_rust_compilation_units'')"

definition mac_answers :: "string \<Rightarrow> symbol_info \<Rightarrow> symbol_info \<Rightarrow> exn + unit" where
  "mac_answers did b d =
     (let mismatch = symbol_error ''Sentry cannot match the Mach-O and usable dSYM identifiers'' in
      if did \<notin> set (si_ids b) \<or> did \<notin> set (si_ids d) then mismatch
      else rbind (features_of d) (\<lambda>features. if ''debug'' \<notin> set features then mismatch else Inr ()))"

text \<open>Everything that is checked before the tool is asked.\<close>

definition mac_companion :: "mac_tools \<Rightarrow> 'w symbol_env \<Rightarrow> path \<Rightarrow> path \<Rightarrow> app_modules \<Rightarrow> identity list \<Rightarrow> native_entry \<Rightarrow> exn + path \<times> path \<times> string" where
  "mac_companion mac env root app ms before e =
     (case map_of ms (identity_of e) of
        None \<Rightarrow> symbol_error ''Duplicate or undistributed macOS companion record''
      | Some m \<Rightarrow>
          if identity_of e \<in> set before then symbol_error ''Duplicate or undistributed macOS companion record''
          else if PStr (ne_source e) \<noteq> am_source m then symbol_error ''macOS companion source does not match the dependency inventory''
          else rbind (mac_paths env root app m e) (\<lambda>(binary, debug).
            rbind (macho_variants env debug) (\<lambda>vs.
            rbind (dsym_facts vs (ne_architecture e) (am_info m)) (\<lambda>_.
            rbind (rust_proof mac e debug) (\<lambda>_. Inr (binary, debug, uuid (am_info m)))))))"

definition mac_entry ::
    "mac_tools \<Rightarrow> 'w symbol_env \<Rightarrow> path \<Rightarrow> path \<Rightarrow> app_modules \<Rightarrow> mac_audit \<Rightarrow> pyval \<Rightarrow> ('w tool_state, mac_audit) cmd" where
  "mac_entry mac env root app ms st v s =
     (seq (lift_result (case v of PDict d \<Rightarrow> Elf_Symbols.read_entry v | _ \<Rightarrow> symbol_error ''Invalid macOS companion record'')) (\<lambda>e.
      seq (lift_result (mac_companion mac env root app ms (ma_seen st) e)) (\<lambda>(binary, debug, did).
      seq (check_symbol env binary (Some ''dsym'') False) (\<lambda>b.
      seq (check_symbol env debug (Some ''dsym'') True) (\<lambda>d.
      seq (lift_result (mac_answers did b d)) (\<lambda>_.
      seq (lift_result (fingerprint_of env binary)) (\<lambda>fp_b.
      seq (lift_result (fingerprint_of env debug)) (\<lambda>fp_d.
        ret \<lparr>ma_seen = ma_seen st @ [identity_of e], ma_artifacts = ma_artifacts st @ [debug],
          ma_rows = ma_rows st @ [\<lparr>ev_target = Some (ne_target e), ev_architecture = Some (ne_architecture e),
            ev_source = Some (ne_source e), ev_build_id = None, ev_binary = Some fp_b, ev_copies = None, ev_binaries = [], ev_symbols = fp_d,
            ev_info = \<lparr>si_ids = [did], si_architectures = [], si_format = PStr ''dsym'', si_features = si_features d\<rparr>\<rparr>]\<rparr>))))))) s)"

section \<open>What must be covered\<close>

definition mac_required :: "identity list \<Rightarrow> pyval \<Rightarrow> exn + identity list" where
  "mac_required ks v = (case v of
      PDict d \<Rightarrow>
        rbind (Symbol_Audit.safe_label (dict_get d ''target'') ''target'') (\<lambda>target.
        rbind (Symbol_Audit.safe_label (dict_get d ''architecture'') ''architecture'') (\<lambda>a.
          if (target, a) \<in> set ks then symbol_error ''Duplicate required macOS module'' else Inr (ks @ [(target, a)])))
    | _ \<Rightarrow> symbol_error ''Invalid required macOS module record'')"

text \<open>\<open>item["hosts"]\<close> and the like as a list of names.\<close>

definition name_list :: "pyval \<Rightarrow> string \<Rightarrow> exn + string list" where
  "name_list item k = rbind (subscript item k) (\<lambda>hs. rbind (iterate hs) (\<lambda>hs. case texts_of hs of
      None \<Rightarrow> raise TypeError k | Some ns \<Rightarrow> Inr ns))"

text \<open>A source target that is not a verified helper needs the symbols of all its hosts.\<close>

definition hosts_required :: "identity list \<Rightarrow> source_target list \<Rightarrow> exn + bool" where
  "hosts_required required ss =
     rbind (anyE (\<lambda>(item, _). rbind (name_list item ''hosts'') (\<lambda>hs. Inr (\<not> set hs \<subseteq> fst ` set required))) (filter (\<lambda>s. \<not> snd s) ss)) (\<lambda>missing.
       Inr (\<not> missing))"

text \<open>A local link product with the identifier of the image and a map of its object files.\<close>

definition linked_here :: "'w symbol_env \<Rightarrow> path \<Rightarrow> string \<Rightarrow> variant \<Rightarrow> path \<Rightarrow> exn + bool" where
  "linked_here env app a here p =
     (if \<not> is_file (fs env) p then Inr False
      else rbind (resolve (fs env) p) (\<lambda>q. rbind (resolve (fs env) app) (\<lambda>r.
        if is_relative_to q r then Inr False
        else rbind (content (fs env) p) (\<lambda>bs.
          if \<not> is_macho bs then Inr False
          else case static_archive_architectures bs of
              Inl e \<Rightarrow> if exn_class_of e = MachoError then symbol_error ''Invalid Mach-O build candidate'' else Inl e
            | Inr (Some _) \<Rightarrow> Inr False
            | Inr None \<Rightarrow> rbind (macho_variants env p) (\<lambda>vs. Inr (case map_of vs a of
                None \<Rightarrow> False | Some v \<Rightarrow> uuid v = uuid here \<and> filetype v \<in> {2, 6, 8} \<and> has_oso_symbols v))))))"

definition owned_now :: "'w symbol_env \<Rightarrow> path \<Rightarrow> path \<Rightarrow> identity \<Rightarrow> app_module \<Rightarrow> exn + bool" where
  "owned_now env pdir app k m =
     (if am_dart m then Inr (am_owned m) else if am_owned m then Inr True
      else rbind (walk_below (depth env) (fs env) pdir) (\<lambda>ps.
        anyE (linked_here env app (snd k) (am_info m)) (filter (\<lambda>p. path_name p = path_name (am_binary m)) ps)))"

definition settle_owner ::
    "'w symbol_env \<Rightarrow> path \<Rightarrow> path \<Rightarrow> identity list \<Rightarrow> identity \<times> app_module \<Rightarrow> exn + identity \<times> app_module" where
  "settle_owner env pdir app required km =
     (case km of (k, m) \<Rightarrow>
       rbind (owned_now env pdir app k m) (\<lambda>owned.
         if \<not> am_dart m \<and> owned \<and> k \<notin> set required then symbol_error ''macOS manifest omitted a locally compiled or required app module''
         else Inr (k, m\<lparr>am_owned := owned\<rparr>)))"

section \<open>The limitations\<close>

text \<open>The architectures of an image, \<open>host_architectures\<close>.\<close>

definition host_architectures :: "app_modules \<Rightarrow> (string \<times> string list) list" where
  "host_architectures ms =
     map (\<lambda>t. (t, map (\<lambda>((_, a), _). a) (filter (\<lambda>((t', _), _). t' = t) ms))) (remdups (map (\<lambda>((t, _), _). t) ms))"

definition source_edges :: "source_target \<Rightarrow> exn + (key \<times> string list) \<times> bool" where
  "source_edges s = (case s of (item, verified) \<Rightarrow>
     rbind (subscript item ''package'') (\<lambda>package. rbind (label package) (\<lambda>package.
     rbind (subscript item ''target'') (\<lambda>target. rbind (label target) (\<lambda>target.
     rbind (name_list item ''hosts'') (\<lambda>hs. Inr (((package, target), hs), verified)))))))"

type_synonym place = "string \<times> string \<times> string \<times> string"

text \<open>The limits the sources ask for, by package, target, host and architecture.\<close>

definition expected_limits :: "app_modules \<Rightarrow> source_target list \<Rightarrow> exn + (place \<times> string) list" where
  "expected_limits ms ss =
     (case rbind (traverse source_edges ss) (source_line_limitations (host_architectures ms)) of
        Inl e \<Rightarrow> if exn_class_of e = InventoryError then symbol_error ''macOS source package host architecture is unavailable'' else Inl e
      | Inr rows \<Rightarrow> Inr (map (\<lambda>l. ((lim_package l, lim_target l, lim_host l, lim_architecture l), lim_reason l)) rows))"

text \<open>The target of a vendor package with the hosts it is linked into statically.\<close>

definition static_hosts :: "pyval \<Rightarrow> exn + string \<times> string list" where
  "static_hosts item =
     rbind (subscript item ''target'') (\<lambda>t. rbind (name_list item ''hosts'') (\<lambda>hs. rbind (name_list item ''dynamic_hosts'') (\<lambda>ds.
       case text_of t of None \<Rightarrow> raise TypeError ''target'' | Some target \<Rightarrow> Inr (target, filter (\<lambda>h. h \<notin> set ds) hs))))"

definition vendor_limits :: "app_modules \<Rightarrow> string \<times> string list \<Rightarrow> exn + identity list" where
  "vendor_limits ms item =
     foldE (\<lambda>ks h. case map_of (host_architectures ms) h of
         None \<Rightarrow> raise KeyError h | Some as \<Rightarrow> Inr (ks @ map (Pair (fst item)) as)) [] (snd item)"

definition expected_vendor :: "app_modules \<Rightarrow> (string \<times> string list) list \<Rightarrow> exn + identity list" where
  "expected_vendor ms items = rbind (traverse (vendor_limits ms) items) (\<lambda>kss. Inr (concat kss))"

record mac_limit = coverage_limit +
  ml_place :: "(string \<times> string) option"

text \<open>What the limitations cover: rows of sources, static vendor code, images.\<close>

record mac_limits =
  ms_sources :: "place list"
  ms_vendor :: "identity list"
  ms_images :: "identity list"
  ms_rows :: "mac_limit list"

definition STATIC_LIMITATION :: string where
  "STATIC_LIMITATION = ''static_binary_package_debug_coverage_unverified''"

definition safe_fields :: "pydict \<Rightarrow> exn + mac_limit" where
  "safe_fields d =
     rbind (Symbol_Audit.safe_label (dict_get d ''target'') ''target'') (\<lambda>target.
     rbind (Symbol_Audit.safe_label (dict_get d ''architecture'') ''architecture'') (\<lambda>a.
     rbind (Symbol_Audit.safe_label (dict_get d ''source'') ''source'') (\<lambda>source.
     rbind (Symbol_Audit.safe_label (dict_get d ''reason'') ''reason'') (\<lambda>reason.
       Inr \<lparr>cl_target = target, cl_architecture = a, cl_source = source, cl_reason = reason, ml_place = None\<rparr>))))"

definition source_limit :: "(place \<times> string) list \<Rightarrow> mac_limits \<Rightarrow> pydict \<Rightarrow> mac_limit \<Rightarrow> exn + mac_limits" where
  "source_limit asked st d l =
     rbind (Symbol_Audit.safe_label (dict_get d ''package'') ''package'') (\<lambda>package.
     rbind (Symbol_Audit.safe_label (dict_get d ''host'') ''host'') (\<lambda>host.
       let place = (package, cl_target l, host, cl_architecture l) in
       if cl_source l \<noteq> ''spm'' \<or> map_of asked place \<noteq> Some (cl_reason l) \<or> place \<in> set (ms_sources st)
       then symbol_error ''Invalid or duplicate macOS source target coverage limitation''
       else Inr (st\<lparr>ms_sources := ms_sources st @ [place], ms_rows := ms_rows st @ [l\<lparr>ml_place := Some (package, host)\<rparr>]\<rparr>)))"

definition limit_identity :: "mac_limit \<Rightarrow> identity" where
  "limit_identity l = (cl_target l, cl_architecture l)"

text \<open>The reasons that may stand for the debug file of an image.\<close>

definition image_limit_valid :: "identity list \<Rightarrow> mac_limit \<Rightarrow> app_module \<Rightarrow> bool" where
  "image_limit_valid before l m \<longleftrightarrow>
     (if cl_reason l \<in> {''prebuilt_debug_companion_unavailable'', ''external_debug_companion_unavailable''}
      then cl_source l = ''prebuilt'' \<and> am_source m = PStr ''prebuilt'' \<and> \<not> am_owned m \<and> limit_identity l \<notin> set before \<and> \<not> am_dart m
      else if cl_reason l = ''split_debug_info_managed_separately'' then cl_source l = ''dart'' \<and> am_dart m
      else if cl_reason l = ''separate_process_no_sentry_sdk''
      then cl_source l = ''go'' \<and> am_source m = PStr ''go'' \<and> cl_target l = ''FlClashCore''
      else False)"

definition mac_limit_row ::
    "app_modules \<Rightarrow> identity list \<Rightarrow> (place \<times> string) list \<Rightarrow> identity list \<Rightarrow> mac_limits \<Rightarrow> pyval \<Rightarrow> exn + mac_limits" where
  "mac_limit_row ms before asked vendor st v = (case v of
      PDict d \<Rightarrow> rbind (safe_fields d) (\<lambda>l.
        if cl_reason l \<in> {SOURCE_LINE_LIMITATION, LINKER_ONLY_LIMITATION} then source_limit asked st d l
        else if cl_reason l = STATIC_LIMITATION
        then if cl_source l \<noteq> ''prebuilt'' \<or> limit_identity l \<notin> set vendor
             then symbol_error ''Invalid macOS static binary coverage limitation''
             else Inr (st\<lparr>ms_vendor := ms_vendor st @ [limit_identity l], ms_rows := ms_rows st @ [l]\<rparr>)
        else case map_of ms (limit_identity l) of
            None \<Rightarrow> symbol_error ''Invalid macOS runtime coverage limitation''
          | Some m \<Rightarrow> if \<not> image_limit_valid before l m then symbol_error ''Invalid macOS runtime coverage limitation''
              else Inr (st\<lparr>ms_images := ms_images st @ [limit_identity l], ms_rows := ms_rows st @ [l]\<rparr>))
    | _ \<Rightarrow> symbol_error ''Invalid macOS coverage limitation'')"

section \<open>The audit\<close>

text \<open>A limit of vendor code may not stand for an image that has to be covered.\<close>

definition hides_owned :: "app_modules \<Rightarrow> identity list \<Rightarrow> mac_limit \<Rightarrow> bool" where
  "hides_owned ms vendor l \<longleftrightarrow> (case map_of ms (limit_identity l) of None \<Rightarrow> False | Some m \<Rightarrow> am_owned m)
     \<and> cl_source l = ''prebuilt'' \<and> \<not> (cl_reason l = STATIC_LIMITATION \<and> limit_identity l \<in> set vendor)"

definition vendor_left_out :: "app_modules \<Rightarrow> identity list \<Rightarrow> string \<times> string list \<Rightarrow> bool" where
  "vendor_left_out ms limited item \<longleftrightarrow>
     list_ex (\<lambda>h. list_ex (\<lambda>((t, a), _). t = h \<and> (fst item, a) \<notin> set limited) ms) (snd item)"

definition finish_limits ::
    "app_modules \<Rightarrow> identity list \<Rightarrow> (place \<times> string) list \<Rightarrow> identity list \<Rightarrow> (string \<times> string list) list \<Rightarrow> mac_limits \<Rightarrow> exn + mac_limit list" where
  "finish_limits ms before asked vendor items st =
     (if set (ms_sources st) \<noteq> fst ` set asked then symbol_error ''macOS source package omitted its target line coverage limitation''
      else if \<not> fst ` set ms \<subseteq> set before \<union> set (ms_images st)
      then symbol_error ''macOS manifest omitted a distributed module or its explicit limitation''
      else if list_ex (hides_owned ms vendor) (ms_rows st) then symbol_error ''Required macOS source coverage cannot also be a limitation''
      else if list_ex (vendor_left_out ms (ms_vendor st)) items
      then symbol_error ''macOS static binary package omitted its explicit coverage limitation''
      else Inr (ms_rows st))"

definition mac_limitations :: "app_modules \<Rightarrow> identity list \<Rightarrow> loaded \<Rightarrow> pyval list \<Rightarrow> exn + mac_limit list" where
  "mac_limitations ms before deps vs =
     rbind (expected_limits ms (l_sources deps)) (\<lambda>asked.
     rbind (traverse static_hosts (l_binaries deps)) (\<lambda>items.
     rbind (expected_vendor ms items) (\<lambda>vendor.
     rbind (foldE (mac_limit_row ms before asked vendor) \<lparr>ms_sources = [], ms_vendor = [], ms_images = [], ms_rows = []\<rparr> vs)
       (finish_limits ms before asked vendor items))))"

text \<open>The requirements of the manifest and of the sources, and those that local link products show.\<close>

definition mac_coverage ::
    "'w symbol_env \<Rightarrow> path \<Rightarrow> path \<Rightarrow> app_modules \<Rightarrow> identity list \<Rightarrow> loaded \<Rightarrow> pyval list \<Rightarrow> exn + app_modules" where
  "mac_coverage env root app ms before deps vs =
     rbind (foldE mac_required [] vs) (\<lambda>required.
       if \<not> set required \<subseteq> set before then symbol_error ''macOS manifest omitted a required dSYM companion''
       else rbind (hosts_required required (l_sources deps)) (\<lambda>all_there.
         if \<not> all_there then symbol_error ''macOS source package omitted its static host dSYM''
         else traverse (settle_owner env (products_dir root) app required) ms))"

definition macos_lists :: "pydict \<Rightarrow> exn + pyval list \<times> pyval list \<times> pyval list" where
  "macos_lists d =
     (case (dict_get d ''artifacts'', dict_get d ''required'', dict_get_default d ''limitations'' (PList [])) of
        (PList (e # es), PList (r # rs), PList ls) \<Rightarrow> Inr (e # es, r # rs, ls)
      | _ \<Rightarrow> symbol_error ''macOS manifest must enumerate companions, requirements and limitations'')"

text \<open>The application with its dependencies and images.\<close>

definition macos_application :: "mac_tools \<Rightarrow> 'w symbol_env \<Rightarrow> path \<Rightarrow> pydict \<Rightarrow> exn + path \<times> loaded \<times> app_modules" where
  "macos_application mac env root d =
     rbind (macos_app env root (dict_get d ''app'')) (\<lambda>app.
     rbind (owned_inventory mac env root app) (\<lambda>deps.
     rbind (owned_sources (l_products deps)) (\<lambda>srcs.
     rbind (macos_executable mac env app) (\<lambda>executable.
     rbind (app_modules_of env srcs app executable) (\<lambda>ms. Inr (app, deps, ms))))))"

definition keep_first :: "'a list \<Rightarrow> 'a list" where
  "keep_first xs = rev (remdups (rev xs))"

definition macos_companions ::
    "mac_tools \<Rightarrow> 'w symbol_env \<Rightarrow> path \<Rightarrow> path \<Rightarrow> app_modules \<Rightarrow> pyval list \<Rightarrow> ('w tool_state, mac_audit) cmd" where
  "macos_companions mac env root app ms vs s =
     loop_over (mac_entry mac env root app ms) \<lparr>ma_seen = [], ma_artifacts = [], ma_rows = []\<rparr> vs s"

definition audit_macos :: "mac_tools \<Rightarrow> 'w symbol_env \<Rightarrow> path \<Rightarrow> ('w tool_state, path list \<times> evidence_row list \<times> mac_limit list) cmd" where
  "audit_macos mac env build_root s =
     (seq (lift_result (resolve (fs env) build_root)) (\<lambda>root.
      seq (lift_result (macos_manifest env root)) (\<lambda>d.
      seq (lift_result (macos_application mac env root d)) (\<lambda>(app, deps, ms).
      seq (lift_result (macos_lists d)) (\<lambda>(es, rs, ls).
      seq (macos_companions mac env root app ms es) (\<lambda>st.
      seq (lift_result (mac_coverage env root app ms (ma_seen st) deps rs)) (\<lambda>ms'.
      seq (lift_result (mac_limitations ms' (ma_seen st) deps ls)) (\<lambda>limits.
        ret (keep_first (ma_artifacts st), ma_rows st, limits)))))))) s)"

section \<open>What an accepted companion says\<close>

definition dsym_ok :: "(string \<times> variant) list \<Rightarrow> string \<Rightarrow> variant \<Rightarrow> bool" where
  "dsym_ok vs a here \<longleftrightarrow> list_all (\<lambda>(_, v). filetype v = 10 \<and> \<not> has_executable_text v) vs
     \<and> (case map_of vs a of None \<Rightarrow> False | Some v \<Rightarrow> uuid v = uuid here \<and> has_debug_info v \<and> has_debug_line v)"

definition separate :: "'w symbol_env \<Rightarrow> path \<Rightarrow> path \<Rightarrow> path \<Rightarrow> bool" where
  "separate env root app debug \<longleftrightarrow> inside env root debug \<and> \<not> inside env app debug \<and> dsym_place debug"

definition mac_row_ok ::
    "mac_tools \<Rightarrow> 'w symbol_env \<Rightarrow> path \<Rightarrow> path \<Rightarrow> app_modules \<Rightarrow> tool_run list \<Rightarrow> identity \<Rightarrow> path \<Rightarrow> evidence_row \<Rightarrow> bool" where
  "mac_row_ok mac env root app ms made k debug row \<longleftrightarrow>
     (\<exists>m vs binary b d. map_of ms k = Some m \<and> ev_target row = Some (fst k) \<and> ev_architecture row = Some (snd k)
       \<and> map_option PStr (ev_source row) = Some (am_source m) \<and> resolve (fs env) binary = Inr (am_binary m)
       \<and> separate env root app debug \<and> macho_variants env debug = Inr vs \<and> dsym_ok vs (snd k) (am_info m)
       \<and> (am_source m = PStr ''rust'' \<longrightarrow> rust_units mac debug (snd k) = Inr True)
       \<and> tool_said env made binary (Some ''dsym'') False b \<and> tool_said env made debug (Some ''dsym'') True d \<and> has_feature ''debug'' d
       \<and> uuid (am_info m) \<in> set (si_ids b) \<inter> set (si_ids d) \<and> si_ids (ev_info row) = [uuid (am_info m)]
       \<and> map_option Inr (ev_binary row) = Some (fingerprint_of env binary) \<and> fingerprint_of env debug = Inr (ev_symbols row))"

definition mac_ok ::
    "mac_tools \<Rightarrow> 'w symbol_env \<Rightarrow> path \<Rightarrow> path \<Rightarrow> app_modules \<Rightarrow> mac_audit \<Rightarrow> tool_run list \<Rightarrow> bool" where
  "mac_ok mac env root app ms st made \<longleftrightarrow> distinct (ma_seen st) \<and> length (ma_artifacts st) = length (ma_rows st)
     \<and> list_all2 (\<lambda>k (debug, row). mac_row_ok mac env root app ms made k debug row) (ma_seen st) (zip (ma_artifacts st) (ma_rows st))"

lemma dsym_facts_ok: "dsym_facts vs a here = Inr () \<Longrightarrow> dsym_ok vs a here"
  by (auto simp: dsym_facts_def dsym_ok_def list_ex_iff list_all_iff split: option.splits if_splits)

lemma native_path_inside: "native_path env root v = Inr p \<Longrightarrow> inside env root p"
  by (auto simp: native_path_def inside_def escaped_def Let_def split: option.splits if_splits)

lemma mac_paths_ok:
  "mac_paths env root app m e = Inr (binary, debug) \<Longrightarrow> resolve (fs env) binary = Inr (am_binary m) \<and> separate env root app debug"
  by (auto simp: mac_paths_def separate_def not_dsym_def inside_def [of env app] split: if_splits dest: native_path_inside)

lemma mac_answers_ok: "mac_answers did b d = Inr () \<Longrightarrow> did \<in> set (si_ids b) \<inter> set (si_ids d) \<and> has_feature ''debug'' d"
  by (auto simp: mac_answers_def has_feature_def Let_def split: if_splits sum.splits)

lemma mac_companion_ok:
  assumes "mac_companion mac env root app ms ks e = Inr (binary, debug, did)"
  obtains m vs where "map_of ms (identity_of e) = Some m" "identity_of e \<notin> set ks" "PStr (ne_source e) = am_source m" "did = uuid (am_info m)"
    "resolve (fs env) binary = Inr (am_binary m)" "separate env root app debug" "macho_variants env debug = Inr vs"
    "dsym_ok vs (ne_architecture e) (am_info m)" "ne_source e = ''rust'' \<longrightarrow> rust_units mac debug (ne_architecture e) = Inr True"
proof -
  from assms obtain m vs where "map_of ms (identity_of e) = Some m" "identity_of e \<notin> set ks" "PStr (ne_source e) = am_source m"
      "did = uuid (am_info m)" "mac_paths env root app m e = Inr (binary, debug)" "macho_variants env debug = Inr vs"
      "dsym_facts vs (ne_architecture e) (am_info m) = Inr ()" "rust_proof mac e debug = Inr ()"
    by (auto simp: mac_companion_def split: option.splits if_splits)
  moreover from this(8) have "ne_source e = ''rust'' \<longrightarrow> rust_units mac debug (ne_architecture e) = Inr True"
    by (auto simp: rust_proof_def split: sum.splits if_splits)
  ultimately show thesis using that mac_paths_ok dsym_facts_ok by metis
qed

lemma mac_row_ok_later:
  "Sublist.suffix old made \<Longrightarrow> mac_row_ok mac env root app ms old k debug row \<Longrightarrow> mac_row_ok mac env root app ms made k debug row"
  unfolding mac_row_ok_def by (meson tool_said_later)

lemma mac_ok_later: "Sublist.suffix old made \<Longrightarrow> mac_ok mac env root app ms st old \<Longrightarrow> mac_ok mac env root app ms st made"
  unfolding mac_ok_def by (auto elim!: list_all2_mono intro: mac_row_ok_later)

lemma mac_entry_ok:
  assumes "mac_entry mac env root app ms st v s = (Inr st', t)" and "mac_ok mac env root app ms st (runs_made s)"
  shows "mac_ok mac env root app ms st' (runs_made t)"
proof -
  from assms(1) obtain e binary debug did bi di u fb fd where
    comp: "mac_companion mac env root app ms (ma_seen st) e = Inr (binary, debug, did)"
    and bi: "check_symbol env binary (Some ''dsym'') False s = (Inr bi, u)" and di: "check_symbol env debug (Some ''dsym'') True u = (Inr di, t)"
    and agree: "mac_answers did bi di = Inr ()" and fb: "fingerprint_of env binary = Inr fb" and fd: "fingerprint_of env debug = Inr fd"
    and st': "st' = \<lparr>ma_seen = ma_seen st @ [identity_of e], ma_artifacts = ma_artifacts st @ [debug],
          ma_rows = ma_rows st @ [\<lparr>ev_target = Some (ne_target e), ev_architecture = Some (ne_architecture e),
            ev_source = Some (ne_source e), ev_build_id = None, ev_binary = Some fb, ev_copies = None, ev_binaries = [], ev_symbols = fd,
            ev_info = \<lparr>si_ids = [did], si_architectures = [], si_format = PStr ''dsym'', si_features = si_features di\<rparr>\<rparr>]\<rparr>"
    unfolding mac_entry_def by (auto simp: seq_Inr cmd_Inr split: option.splits if_splits)
  note answers = check_symbol_answered [OF bi] check_symbol_answered [OF di]
  then have suffixes: "Sublist.suffix (runs_made s) (runs_made t)" "Sublist.suffix (runs_made u) (runs_made t)"
    by (auto intro: suffix_order.trans)
  have said: "tool_said env (runs_made t) binary (Some ''dsym'') False bi" using answers tool_said_later suffixes(2) by blast
  from comp obtain m vs where m: "map_of ms (identity_of e) = Some m" "identity_of e \<notin> set (ma_seen st)" "PStr (ne_source e) = am_source m"
    "did = uuid (am_info m)" "resolve (fs env) binary = Inr (am_binary m)" "separate env root app debug" "macho_variants env debug = Inr vs"
    "dsym_ok vs (ne_architecture e) (am_info m)" "ne_source e = ''rust'' \<longrightarrow> rust_units mac debug (ne_architecture e) = Inr True"
    by (rule mac_companion_ok)
  have "mac_row_ok mac env root app ms (runs_made t) (identity_of e) debug (last (ma_rows st'))"
    unfolding mac_row_ok_def using m said answers mac_answers_ok [OF agree] fb fd st'
    by (fastforce simp: identity_of_def)
  with mac_ok_later [OF suffixes(1) assms(2)] m(2) st' show ?thesis
    by (auto simp: mac_ok_def intro!: list_all2_appendI)
qed

section \<open>What the images and the limitations say\<close>

text \<open>A place in the application was read, and each of its slices is in the list.\<close>

definition slices_listed :: "'w symbol_env \<Rightarrow> (identity \<times> variant) list \<Rightarrow> path \<Rightarrow> bool" where
  "slices_listed env kvs q \<longleftrightarrow> (\<exists>p vs target. resolve (fs env) p = Inr q \<and> macho_variants env p = Inr vs
     \<and> set (map (\<lambda>(a, v). ((target, a), v)) vs) \<subseteq> set kvs)"

definition image_below :: "'w symbol_env \<Rightarrow> path \<Rightarrow> bool" where
  "image_below env p \<longleftrightarrow> is_file (fs env) p \<and> (case content (fs env) p of Inl e \<Rightarrow> False | Inr bs \<Rightarrow> is_macho bs)"

definition image_listed :: "'w symbol_env \<Rightarrow> (identity \<times> variant) list \<Rightarrow> path \<Rightarrow> bool" where
  "image_listed env kvs p \<longleftrightarrow> (\<exists>q. resolve (fs env) p = Inr q \<and> slices_listed env kvs q)"

definition infos :: "app_modules \<Rightarrow> (identity \<times> variant) list" where
  "infos ms = map (map_prod id am_info) ms"

lemma infos_append [simp]: "infos [] = []" "infos (ms @ ms') = infos ms @ map (map_prod id am_info) ms'"
  by (simp_all add: infos_def)

lemma slices_listed_more: "slices_listed env kvs q \<Longrightarrow> set kvs \<subseteq> set kvs' \<Longrightarrow> slices_listed env kvs' q"
  unfolding slices_listed_def by (meson subset_trans)

lemma app_slices:
  "foldE (app_slice srcs actual target names) ms vs = Inr ms' \<Longrightarrow>
   infos ms' = infos ms @ map (\<lambda>(a, v). ((target, a), v)) vs \<and> (distinct (map fst ms) \<longrightarrow> distinct (map fst ms'))"
proof (induction vs arbitrary: ms)
  case (Cons av vs)
  then obtain u where u: "app_slice srcs actual target names ms av = Inr u" "foldE (app_slice srcs actual target names) u vs = Inr ms'" by auto
  from Cons.IH [OF u(2)] u(1) show ?case
    by (auto simp: app_slice_def split: prod.splits if_splits)
qed simp

lemma app_image_step:
  assumes "app_image env srcs app runner (there, ms) p = Inr (there', ms')"
    and "\<forall>q\<in>set there. slices_listed env (infos ms) q" and "distinct (map fst ms)"
  shows "(\<forall>q\<in>set there'. slices_listed env (infos ms') q) \<and> set (infos ms) \<subseteq> set (infos ms') \<and> distinct (map fst ms')
    \<and> (image_below env p \<longrightarrow> image_listed env (infos ms') p)"
proof (cases "(there', ms') = (there, ms)")
  case True
  with assms show ?thesis
    by (auto simp: app_image_def image_below_def image_listed_def split: if_splits sum.splits)
next
  case False
  with assms(1) obtain actual target vs where new: "resolve (fs env) p = Inr actual" "macho_variants env p = Inr vs"
      "foldE (app_slice srcs actual target (product_names p)) ms vs = Inr ms'" "there' = actual # there"
    by (auto simp: app_image_def split: if_splits)
  from app_slices [OF new(3)] have grown: "infos ms' = infos ms @ map (\<lambda>(a, v). ((target, a), v)) vs" "distinct (map fst ms')"
    using assms(3) by auto
  then have listed: "slices_listed env (infos ms') actual" using new(1,2) unfolding slices_listed_def by (metis Un_upper2 set_append)
  have kept: "set (infos ms) \<subseteq> set (infos ms')" using grown(1) by simp
  show ?thesis using listed kept grown(2) new assms(2) by (auto simp: image_listed_def intro: slices_listed_more)
qed

lemma app_images:
  assumes "foldE (app_image env srcs app runner) (there, ms) ps = Inr (there', ms')"
    and "\<forall>q\<in>set there. slices_listed env (infos ms) q" and "distinct (map fst ms)"
  shows "set (infos ms) \<subseteq> set (infos ms') \<and> distinct (map fst ms') \<and> (\<forall>p\<in>set ps. image_below env p \<longrightarrow> image_listed env (infos ms') p)"
  using assms
proof (induction ps arbitrary: there ms)
  case (Cons p ps)
  then obtain u v where u: "app_image env srcs app runner (there, ms) p = Inr (u, v)"
      "foldE (app_image env srcs app runner) (u, v) ps = Inr (there', ms')" by auto
  note step = app_image_step [OF u(1) Cons.prems(2,3)]
  from Cons.IH [OF u(2)] step have later: "set (infos v) \<subseteq> set (infos ms')" "distinct (map fst ms')"
      "\<forall>p\<in>set ps. image_below env p \<longrightarrow> image_listed env (infos ms') p" by blast+
  with step slices_listed_more [OF _ later(1)] show ?case unfolding image_listed_def by (metis set_ConsD subset_trans)
qed simp

definition all_listed :: "'w symbol_env \<Rightarrow> path \<Rightarrow> (identity \<times> variant) list \<Rightarrow> bool" where
  "all_listed env app kvs \<longleftrightarrow> (\<exists>ps. walk_below (depth env) (fs env) app = Inr ps \<and> (\<forall>p\<in>set ps. image_below env p \<longrightarrow> image_listed env kvs p))"

lemma app_modules_listed:
  assumes "app_modules_of env srcs app executable = Inr ms"
  shows "all_listed env app (infos ms) \<and> distinct (map fst ms) \<and> ''runner'' \<in> fst ` fst ` set ms \<and> (\<exists>t\<in>set rust_names. t \<in> fst ` fst ` set ms)"
proof -
  from assms obtain runner ps there where w: "walk_below (depth env) (fs env) app = Inr ps"
      "foldE (app_image env srcs app runner) ([], []) ps = Inr (there, ms)"
      and named: "list_ex (\<lambda>((t, _), _). t = ''runner'') ms" "list_ex (\<lambda>((t, _), _). t \<in> set rust_names) ms"
    by (auto simp: app_modules_of_def split: if_splits)
  from named have "''runner'' \<in> fst ` fst ` set ms" "\<exists>t\<in>set rust_names. t \<in> fst ` fst ` set ms"
    by (force simp: list_ex_iff)+
  with app_images [OF w(2)] w(1) show ?thesis by (auto simp: all_listed_def)
qed

text \<open>The images with the owner the link products show.\<close>

definition settled :: "'w symbol_env \<Rightarrow> path \<Rightarrow> path \<Rightarrow> app_modules \<Rightarrow> app_modules \<Rightarrow> bool" where
  "settled env root app ms ms' \<longleftrightarrow> list_all2 (\<lambda>(k, m) (k', m'). k' = k
     \<and> (\<exists>owned. owned_now env (products_dir root) app k m = Inr owned \<and> m' = m\<lparr>am_owned := owned\<rparr>)) ms ms'"

lemma settle_owners:
  "traverse (settle_owner env (products_dir root) app required) ms = Inr ms' \<Longrightarrow>
   settled env root app ms ms' \<and> list_all (\<lambda>(k, m). am_owned m \<and> \<not> am_dart m \<longrightarrow> k \<in> set required) ms'"
  by (induction ms arbitrary: ms') (auto simp: settled_def settle_owner_def split: prod.splits if_splits)

lemma settled_keys: "settled env root app ms ms' \<Longrightarrow> map fst ms' = map fst ms"
  unfolding settled_def by (induction rule: list_all2_induct) auto

text \<open>An image whose debug file is missing has a row with a reason that holds for it.\<close>

definition limited_by :: "identity list \<Rightarrow> mac_limit list \<Rightarrow> identity \<Rightarrow> app_module \<Rightarrow> bool" where
  "limited_by ks limits k m \<longleftrightarrow> list_ex (\<lambda>l. limit_identity l = k \<and> image_limit_valid ks l m) limits"

definition placed :: "(place \<times> string) list \<Rightarrow> mac_limit list \<Rightarrow> place \<Rightarrow> bool" where
  "placed asked limits x \<longleftrightarrow> (case x of (package, target, host, a) \<Rightarrow>
     list_ex (\<lambda>l. ml_place l = Some (package, host) \<and> limit_identity l = (target, a) \<and> cl_source l = ''spm'' \<and> map_of asked x = Some (cl_reason l)) limits)"

definition limits_ok :: "app_modules \<Rightarrow> identity list \<Rightarrow> (place \<times> string) list \<Rightarrow> mac_limits \<Rightarrow> bool" where
  "limits_ok ms ks asked st \<longleftrightarrow>
     (\<forall>k\<in>set (ms_images st). \<exists>m. map_of ms k = Some m \<and> limited_by ks (ms_rows st) k m) \<and> list_all (placed asked (ms_rows st)) (ms_sources st)"

lemma limited_more: "limited_by ks ls k m \<Longrightarrow> limited_by ks (ls @ ls') k m" "placed asked ls x \<Longrightarrow> placed asked (ls @ ls') x"
  by (auto simp: limited_by_def placed_def)

lemma limits_ok_more:
  assumes "limits_ok ms ks asked st" and "\<exists>ls. ms_rows st' = ms_rows st @ ls"
    and "\<And>k. k \<in> set (ms_images st') \<Longrightarrow> k \<notin> set (ms_images st) \<Longrightarrow> \<exists>m. map_of ms k = Some m \<and> limited_by ks (ms_rows st') k m"
    and "\<And>x. x \<in> set (ms_sources st') \<Longrightarrow> x \<notin> set (ms_sources st) \<Longrightarrow> placed asked (ms_rows st') x"
  shows "limits_ok ms ks asked st'"
  using assms unfolding limits_ok_def list_all_iff by (metis limited_more)

lemma limits_ok_row:
  assumes "mac_limit_row ms ks asked vendor st v = Inr st'" and "limits_ok ms ks asked st"
  shows "limits_ok ms ks asked st'"
proof -
  from assms(1) obtain d l where d: "v = PDict d" "safe_fields d = Inr l" by (cases v) (auto simp: mac_limit_row_def)
  consider (source) "source_limit asked st d l = Inr st'" | (vendor) "st' = st\<lparr>ms_vendor := ms_vendor st @ [limit_identity l], ms_rows := ms_rows st @ [l]\<rparr>"
    | (image) m where "st' = st\<lparr>ms_images := ms_images st @ [limit_identity l], ms_rows := ms_rows st @ [l]\<rparr>"
        "map_of ms (limit_identity l) = Some m" "image_limit_valid ks l m"
    using assms(1) d by (auto simp: mac_limit_row_def split: if_splits option.splits)
  then show ?thesis
  proof cases
    case source
    then obtain x where "ms_sources st' = ms_sources st @ [x]" "ms_images st' = ms_images st" "placed asked (ms_rows st') x"
        "\<exists>l. ms_rows st' = ms_rows st @ [l]"
      by (auto simp: source_limit_def Let_def placed_def limit_identity_def split: if_splits)
    with assms(2) show ?thesis by (auto intro!: limits_ok_more [of ms ks asked st])
  next
    case vendor
    with assms(2) show ?thesis by (auto intro!: limits_ok_more [of ms ks asked st])
  next
    case image
    with assms(2) show ?thesis by (auto intro!: limits_ok_more [of ms ks asked st] simp: limited_by_def)
  qed
qed

text \<open>Every image has its own debug file or a reason why not; those of this build have one.\<close>

definition image_accounted :: "identity list \<Rightarrow> mac_limit list \<Rightarrow> identity \<Rightarrow> app_module \<Rightarrow> bool" where
  "image_accounted ks limits k m \<longleftrightarrow> (am_owned m \<and> \<not> am_dart m \<longrightarrow> k \<in> set ks) \<and> (k \<in> set ks \<or> limited_by ks limits k m)"

lemma mac_limitations_ok:
  assumes "mac_limitations ms ks deps vs = Inr limits" and "distinct (map fst ms)"
  shows "list_all (\<lambda>(k, m). k \<in> set ks \<or> limited_by ks limits k m) ms
    \<and> (\<exists>asked. expected_limits ms (l_sources deps) = Inr asked \<and> list_all (placed asked limits) (map fst asked))"
proof -
  from assms(1) obtain asked items vendor st where asked: "expected_limits ms (l_sources deps) = Inr asked"
      and walk: "foldE (mac_limit_row ms ks asked vendor) \<lparr>ms_sources = [], ms_vendor = [], ms_images = [], ms_rows = []\<rparr> vs = Inr st"
      and finish: "finish_limits ms ks asked vendor items st = Inr limits"
    by (auto simp: mac_limitations_def)
  have ok: "limits_ok ms ks asked st"
  proof (rule foldE_invariant [OF walk, where P = "limits_ok ms ks asked"])
    show "limits_ok ms ks asked \<lparr>ms_sources = [], ms_vendor = [], ms_images = [], ms_rows = []\<rparr>" by (simp add: limits_ok_def)
  qed (rule limits_ok_row)
  from finish have facts: "limits = ms_rows st" "set (ms_sources st) = fst ` set asked" "fst ` set ms \<subseteq> set ks \<union> set (ms_images st)"
    by (auto simp: finish_limits_def split: if_splits)
  have "fst x \<in> set ks \<or> limited_by ks limits (fst x) (snd x)" if x: "x \<in> set ms" for x
  proof -
    from facts(3) x have "fst x \<in> set ks \<or> fst x \<in> set (ms_images st)" by force
    moreover have "map_of ms (fst x) = Some (snd x)" using x assms(2) by simp
    ultimately show ?thesis using ok facts(1) unfolding limits_ok_def by (metis option.inject)
  qed
  then have "list_all (\<lambda>(k, m). k \<in> set ks \<or> limited_by ks limits k m) ms" by (simp add: list_all_iff split_beta del: prod.collapse)
  with ok facts(1,2) asked show ?thesis by (simp add: limits_ok_def list_all_iff)
qed

lemma mac_coverage_ok:
  assumes "mac_coverage env root app ms ks deps vs = Inr ms'"
  shows "settled env root app ms ms' \<and> list_all (\<lambda>(k, m). am_owned m \<and> \<not> am_dart m \<longrightarrow> k \<in> set ks) ms'"
proof -
  from assms obtain required where sub: "set required \<subseteq> set ks"
      and walk: "traverse (settle_owner env (products_dir root) app required) ms = Inr ms'"
    by (auto simp: mac_coverage_def split: if_splits)
  from settle_owners [OF walk] show ?thesis
    by (auto elim!: list.pred_mono_strong dest: subsetD [OF sub])
qed

lemma macos_companions_ok:
  assumes "macos_companions mac env root app ms vs s = (Inr st, t)"
  shows "mac_ok mac env root app ms st (runs_made t)"
proof -
  have start: "mac_ok mac env root app ms \<lparr>ma_seen = [], ma_artifacts = [], ma_rows = []\<rparr> (runs_made s)" by (simp add: mac_ok_def)
  have "triple (\<lambda>s. mac_ok mac env root app ms \<lparr>ma_seen = [], ma_artifacts = [], ma_rows = []\<rparr> (runs_made s))
      (loop_over (mac_entry mac env root app ms) \<lparr>ma_seen = [], ma_artifacts = [], ma_rows = []\<rparr> vs)
      (\<lambda>st s. mac_ok mac env root app ms st (runs_made s)) (\<lambda>_ _. True)"
    by (rule triple_loop_over [where I = "\<lambda>st s. mac_ok mac env root app ms st (runs_made s)"], rule triple_normal) (auto intro: mac_entry_ok)
  from triple_Inr [OF this _ assms [unfolded macos_companions_def]] start show ?thesis by simp
qed

text \<open>The images of the application, the runner and a Rust library among them.\<close>

definition app_listed :: "'w symbol_env \<Rightarrow> path \<Rightarrow> app_modules \<Rightarrow> bool" where
  "app_listed env app ms \<longleftrightarrow> all_listed env app (infos ms) \<and> distinct (map fst ms)
     \<and> ''runner'' \<in> fst ` fst ` set ms \<and> (\<exists>t\<in>set rust_names. t \<in> fst ` fst ` set ms)"

lemma macos_application_listed: "macos_application mac env root d = Inr (app, deps, ms) \<Longrightarrow> app_listed env app ms"
  by (auto simp: macos_application_def app_listed_def dest!: app_modules_listed)

definition sources_limited :: "app_modules \<Rightarrow> loaded \<Rightarrow> mac_limit list \<Rightarrow> bool" where
  "sources_limited ms deps limits \<longleftrightarrow>
     (\<exists>asked. expected_limits ms (l_sources deps) = Inr asked \<and> list_all (placed asked limits) (map fst asked))"

section \<open>A sample build\<close>

text \<open>An application with a runner and a Rust library of the same content, and a debug file for each.\<close>

definition mac_image :: bytes where
  "mac_image = le32s [0xfeedface, 0x1000007, 3, 2, 1, 24, 0] @ le32s [0x1b, 24] @ replicate 16 1"

definition mac_dsym :: bytes where
  "mac_dsym = le32s [0xfeedface, 0x1000007, 3, 10, 2, 216, 0] @ le32s [0x1b, 24] @ replicate 16 1
     @ le32s [1, 192] @ pad_to 16 (ascii ''__DWARF'') @ le32s [0, 8, 244, 8, 7, 7, 2, 0]
     @ pad_to 16 (ascii ''__debug_info'') @ pad_to 16 (ascii ''__DWARF'') @ le32s [0, 4, 244, 0, 0, 0, 0, 0, 0]
     @ pad_to 16 (ascii ''__debug_line'') @ pad_to 16 (ascii ''__DWARF'') @ le32s [4, 4, 248, 0, 0, 0, 0, 0, 0]
     @ replicate 8 1"

definition mac_uuid :: string where
  "mac_uuid = ''01010101-0101-0101-0101-010101010101''"

definition mac_app :: path where
  "mac_app = [''b'', ''macos'', ''Build'', ''Products'', ''Release'', ''A.app'']"

definition mac_binary :: "string \<Rightarrow> path" where
  "mac_binary name = mac_app @ [''Contents'', ''MacOS'', name]"

definition mac_debug :: "string \<Rightarrow> path" where
  "mac_debug name = [''b'', name @ ''.dSYM'', ''Contents'', ''Resources'', ''DWARF'', name]"

definition mac_texts :: "(path \<times> bytes) list" where
  "mac_texts = [([''b'', ''sentry-native'', ''macos'', ''manifest.json''], [9]), ([''b''] @ INVENTORY, [1]), ([''b''] @ RECEIPT, [2]),
     (mac_app @ [''Contents'', ''Info.plist''], [3])]"

definition mac_images :: "path list" where
  "mac_images = [mac_binary ''F'', mac_binary ''rust_api'', mac_debug ''F'', mac_debug ''rust_api'']"

definition mac_children :: "(path \<times> string list) list" where
  "mac_children = [(butlast mac_app, [''A.app'']), (mac_app, [''Contents'']), (mac_app @ [''Contents''], [''Info.plist'', ''MacOS'']),
     (mac_app @ [''Contents'', ''MacOS''], [''F'', ''rust_api''])]"

definition mac_tree :: file_system where
  "mac_tree = \<lparr>resolve = Inr, linked = (\<lambda>p. False), is_file = (\<lambda>p. p \<in> fst ` set mac_texts \<or> p \<in> set mac_images),
     is_dir = (\<lambda>p. p \<in> fst ` set mac_children),
     children = (\<lambda>p. case map_of mac_children p of None \<Rightarrow> raise OSError [] | Some ns \<Rightarrow> Inr ns),
     content = (\<lambda>p. case map_of mac_texts p of Some bs \<Rightarrow> Inr bs
       | None \<Rightarrow> if p \<in> set (take 2 mac_images) then Inr mac_image else if p \<in> set mac_images then Inr mac_dsym else raise OSError [])\<rparr>"

definition mac_record :: "string \<Rightarrow> string \<Rightarrow> string \<Rightarrow> pyval" where
  "mac_record target source name = PDict [(''target'', PStr target), (''architecture'', PStr ''x86_64''), (''source'', PStr source),
     (''binary'', PStr (join ''/'' (tl (mac_binary name)))), (''debug_file'', PStr (join ''/'' (tl (mac_debug name))))]"

definition mac_limit_rows :: "pyval list" where
  "mac_limit_rows = [PDict [(''target'', PStr ''Lib''), (''architecture'', PStr ''x86_64''), (''source'', PStr ''spm''),
     (''reason'', PStr SOURCE_LINE_LIMITATION), (''package'', PStr ''pkg''), (''host'', PStr ''runner'')]]"

definition mac_manifest :: pyval where
  "mac_manifest = PDict [(''schema_version'', PInt 1), (''platform'', PStr ''macos''), (''app'', PStr (join ''/'' (tl mac_app))),
     (''artifacts'', PList [mac_record ''runner'' ''runner'' ''F'', mac_record ''rust_api'' ''rust'' ''rust_api'']),
     (''required'', PList [mac_record ''runner'' ''runner'' ''F'', mac_record ''rust_api'' ''rust'' ''rust_api'']),
     (''limitations'', PList mac_limit_rows)]"

definition mac_source :: pyval where
  "mac_source = PDict [(''package'', PStr ''pkg''), (''target'', PStr ''Lib''), (''hosts'', text_list [''runner''])]"

definition mac_recorded :: pyval where
  "mac_recorded = PDict [(''schema_version'', PInt 2), (''dependency_managers'', text_list [''spm'']), (''products'', PList []),
     (''source_targets'', PList [mac_source]), (''binary_targets'', PList [])]"

definition mac_row :: "string \<Rightarrow> string \<Rightarrow> pyval" where
  "mac_row target name = row_value \<lparr>rt_target = target, rt_product = target, rt_binary = join ''/'' (tl (mac_binary name)),
     rt_variants = [(''x86_64'', mac_uuid)]\<rparr>"

definition mac_receipt :: pyval where
  "mac_receipt = PDict [(''schema_version'', PInt 1), (''dependency_managers'', text_list [''spm'']),
     (''configuration'', PStr ''Release''), (''inventory_sha256'', PStr []), (''app'', PStr (join ''/'' (tl mac_app))),
     (''runtime'', PList [mac_row ''runner'' ''F'', mac_row ''rust_api'' ''rust_api''])]"

definition mac_json :: "string \<Rightarrow> exn + pyval" where
  "mac_json s = (if length s = 1 then Inr mac_manifest else Inr (sample_answer s mac_uuid))"

definition mac_host :: "(exn + tool_result) list symbol_env" where
  "mac_host = (sample_host mac_tree mac_json)\<lparr>sha := (\<lambda>bs. [])\<rparr>"

definition mac_kit :: mac_tools where
  "mac_kit = \<lparr>json_bytes = (\<lambda>bs. if bs = [1] then Inr mac_recorded else Inr mac_receipt),
     plist_bytes = (\<lambda>bs. Inr (PDict [(''CFBundleExecutable'', PStr ''F'')])), rust_units = (\<lambda>p a. Inr True)\<rparr>"

definition mac_module :: "string \<Rightarrow> string \<Rightarrow> app_module" where
  "mac_module source name = \<lparr>am_binary = mac_binary name,
     am_info = \<lparr>architecture = ''x86_64'', uuid = mac_uuid, filetype = 2, has_debug_info = False, has_debug_line = False,
       has_executable_text = False, has_oso_symbols = False, cpu_type = 0x1000007, cpu_subtype = 3, v_endian = Little,
       v_offset = 0, v_size = 52, segments = [], sections = []\<rparr>,
     am_owned = True, am_source = PStr source, am_dart = False\<rparr>"

definition mac_modules :: app_modules where
  "mac_modules = [((''runner'', ''x86_64''), mac_module ''runner'' ''F''), ((''rust_api'', ''x86_64''), mac_module ''rust'' ''rust_api'')]"

lemma mac_application:
  obtains deps where "macos_application mac_kit mac_host [''b''] (items_of mac_manifest) = Inr (mac_app, deps, mac_modules)"
    "l_sources deps = [(mac_source, False)]" "l_binaries deps = []"
proof -
  have "case load_inventory (mac_inventory mac_kit mac_host) [''b''] mac_app ''Release'' of (Inl e, r) \<Rightarrow> False
    | (Inr v, r) \<Rightarrow> l_products v = [] \<and> l_sources v = [(mac_source, False)] \<and> l_binaries v = []" by code_simp
  then obtain deps where deps: "owned_inventory mac_kit mac_host [''b''] mac_app = Inr deps" "l_products deps = []"
      "l_sources deps = [(mac_source, False)]" "l_binaries deps = []"
    by (auto simp: owned_inventory_def split: prod.splits sum.splits)
  have "macos_app mac_host [''b''] (dict_get (items_of mac_manifest) ''app'') = Inr mac_app"
    "macos_executable mac_kit mac_host mac_app = Inr ''F''" "owned_sources [] = Inr []" by code_simp+
  moreover have "app_modules_of mac_host [] mac_app ''F'' = Inr mac_modules" by code_simp
  ultimately show thesis using deps by (intro that [of deps]) (simp_all add: macos_application_def)
qed

definition mac_loaded :: loaded where
  "mac_loaded = \<lparr>l_managers = [], l_products = [], l_sources = [(mac_source, False)], l_binaries = [], l_runtime = []\<rparr>"

definition mac_ids :: "identity list" where
  "mac_ids = map fst mac_modules"

lemma mac_sample_limits:
  assumes "l_sources deps = [(mac_source, False)]" and "l_binaries deps = []"
  obtains limits where "mac_coverage mac_host [''b''] mac_app mac_modules mac_ids deps
      [mac_record ''runner'' ''runner'' ''F'', mac_record ''rust_api'' ''rust'' ''rust_api''] = Inr mac_modules"
    "mac_limitations mac_modules mac_ids deps mac_limit_rows = Inr limits" "length limits = 1"
proof -
  have same: "l_sources mac_loaded = [(mac_source, False)]" "l_binaries mac_loaded = []" by (simp_all add: mac_loaded_def)
  have "case mac_limitations mac_modules mac_ids mac_loaded mac_limit_rows of
      Inl e \<Rightarrow> False | Inr limits \<Rightarrow> length limits = 1" by code_simp
  moreover have "mac_coverage mac_host [''b''] mac_app mac_modules mac_ids mac_loaded
      [mac_record ''runner'' ''runner'' ''F'', mac_record ''rust_api'' ''rust'' ''rust_api''] = Inr mac_modules" by code_simp
  moreover have "mac_limitations mac_modules mac_ids deps vs = mac_limitations mac_modules mac_ids mac_loaded vs"
    "mac_coverage mac_host [''b''] mac_app mac_modules mac_ids deps vs = mac_coverage mac_host [''b''] mac_app mac_modules mac_ids mac_loaded vs" for vs
    by (simp_all only: mac_limitations_def mac_coverage_def assms same)
  ultimately show thesis using that by (auto split: sum.splits)
qed

section \<open>Properties\<close>

text \<open>C25: The audit of a macOS build returns only separate debug files below the build root and outside the application,
  each with the identifier of the image it stands for, with line information and without executable code; the tool
  found that identifier in both files, and Rust code was seen for every Rust image. Every Mach-O file of the final
  application is in the list of images, and each image has such a file or a limitation with a reason that holds for
  it, an image that this build links or owns always a file. The limits of source lines are those the dependency
  inventory asks for.\<close>

theorem macos_audit_sound:
  assumes "audit_macos mac env build_root s = (Inr (artifacts, rows, limits), t)"
  shows "\<exists>root app deps ms ms' ks files. resolve (fs env) build_root = Inr root \<and> owned_inventory mac env root app = Inr deps
    \<and> app_listed env app ms \<and> distinct ks \<and> distinct artifacts \<and> set files = set artifacts \<and> length files = length rows
    \<and> list_all2 (\<lambda>k (debug, row). mac_row_ok mac env root app ms (runs_made t) k debug row) ks (zip files rows)
    \<and> settled env root app ms ms' \<and> list_all (\<lambda>(k, m). image_accounted ks limits k m) ms' \<and> sources_limited ms' deps limits"
proof -
  from assms obtain root d app deps ms es rs ls st ms' where root: "resolve (fs env) build_root = Inr root"
      and app: "macos_application mac env root d = Inr (app, deps, ms)" and walk: "macos_companions mac env root app ms es s = (Inr st, t)"
      and cover: "mac_coverage env root app ms (ma_seen st) deps rs = Inr ms'" and limited: "mac_limitations ms' (ma_seen st) deps ls = Inr limits"
      and st: "artifacts = keep_first (ma_artifacts st)" "rows = ma_rows st"
    by (auto simp: audit_macos_def seq_Inr cmd_Inr split: prod.splits)
  note listed = macos_application_listed [OF app] and covered = mac_coverage_ok [OF cover]
  from settled_keys covered listed have "distinct (map fst ms')" unfolding app_listed_def by metis
  note limits = mac_limitations_ok [OF limited this]
  from app have deps: "owned_inventory mac env root app = Inr deps" by (auto simp: macos_application_def)
  have files: "distinct artifacts" "set (ma_artifacts st) = set artifacts" by (simp_all add: st keep_first_def)
  from limits covered have "list_all (\<lambda>(k, m). image_accounted (ma_seen st) limits k m) ms'"
    by (auto simp: list_all_iff image_accounted_def)
  with limits covered listed root deps files st(2) macos_companions_ok [OF walk] show ?thesis
    unfolding mac_ok_def sources_limited_def by blast
qed

lemma macos_audit_sound_witness:
  "\<exists>artifacts rows limits t. audit_macos mac_kit mac_host [''b''] (tool_answers [prints ''dsym'', prints ''dsym'', prints ''dsym'', prints ''dsym''])
     = (Inr (artifacts, rows, limits), t) \<and> length rows = 2 \<and> length limits = 1
     \<and> (\<exists>app ms. app_listed mac_host app ms \<and> length ms \<ge> 2)"
proof -
  let ?s = "tool_answers [prints ''dsym'', prints ''dsym'', prints ''dsym'', prints ''dsym'']"
    and ?a = "mac_record ''runner'' ''runner'' ''F''" and ?b = "mac_record ''rust_api'' ''rust'' ''rust_api''"
    and ?start = "\<lparr>ma_seen = [], ma_artifacts = [], ma_rows = []\<rparr>" and ?d = "items_of mac_manifest"
  have "case seq (mac_entry mac_kit mac_host [''b''] mac_app mac_modules ?start ?a)
      (\<lambda>st. mac_entry mac_kit mac_host [''b''] mac_app mac_modules st ?b) ?s of (Inl e, t) \<Rightarrow> False
    | (Inr st, t) \<Rightarrow> ma_seen st = mac_ids \<and> length (ma_rows st) = 2" by code_simp
  then obtain st t where "seq (mac_entry mac_kit mac_host [''b''] mac_app mac_modules ?start ?a)
      (\<lambda>st. mac_entry mac_kit mac_host [''b''] mac_app mac_modules st ?b) ?s = (Inr st, t)"
      and st: "ma_seen st = mac_ids" "length (ma_rows st) = 2" by (auto split: prod.splits sum.splits)
  then have walk: "macos_companions mac_kit mac_host [''b''] mac_app mac_modules [?a, ?b] ?s = (Inr st, t)"
    by (auto simp: macos_companions_def seq_Inr cmd_Inr)
  obtain deps where deps: "macos_application mac_kit mac_host [''b''] ?d = Inr (mac_app, deps, mac_modules)"
      "l_sources deps = [(mac_source, False)]" "l_binaries deps = []" by (rule mac_application)
  obtain limits where limits: "mac_coverage mac_host [''b''] mac_app mac_modules mac_ids deps [?a, ?b] = Inr mac_modules"
      "mac_limitations mac_modules mac_ids deps mac_limit_rows = Inr limits" "length limits = 1" by (rule mac_sample_limits [OF deps(2,3)])
  have "macos_manifest mac_host [''b''] = Inr ?d" "macos_lists ?d = Inr ([?a, ?b], [?a, ?b], mac_limit_rows)"
    "resolve (fs mac_host) [''b''] = Inr [''b'']" by code_simp+
  then have r: "audit_macos mac_kit mac_host [''b''] ?s = (Inr (keep_first (ma_artifacts st), ma_rows st, limits), t)"
    using walk deps(1) limits(1,2) st(1) by (auto simp: audit_macos_def seq_Inr cmd_Inr)
  from macos_audit_sound [OF r] obtain app ms where "app_listed mac_host app ms" by blast
  moreover from this have "2 \<le> length ms" unfolding app_listed_def by (cases ms; cases "tl ms") (auto simp: rust_names_def)
  ultimately show ?thesis using r st(2) limits(3) by blast
qed

end
