(* ===== verification/Symbol_Upload.thy ===== *)
theory Symbol_Upload
  imports Macos_Symbols
begin

text \<open>
  The command of \<open>tool/upload_sentry_symbols.py\<close>: it audits the debug files of a platform, and unless it only audits,
  copies them to a place of their own, uploads that place with \<open>sentry-cli\<close> and waits until the server has every
  identifier (\<open>Upload_Confirmation\<close>). The place, its directories and the copies are operations on the world; the
  removal of the place and the printed lines are left out.
\<close>

section \<open>Limits of a Windows build\<close>

text \<open>\<open>next\<close> of an empty iterator; its exception is not caught.\<close>

definition next_of :: "'a list \<Rightarrow> exn + 'a" where
  "next_of xs = (case xs of [] \<Rightarrow> raise RuntimeError ''StopIteration'' | x # _ \<Rightarrow> Inr x)"

text \<open>The directory of the runner, from the rows of the manifest.\<close>

definition windows_bundle :: "'w symbol_env \<Rightarrow> path \<Rightarrow> exn + path" where
  "windows_bundle env build_root =
     rbind (resolve (fs env) build_root) (\<lambda>root. rbind (target_manifests env root) (\<lambda>ms. rbind (next_of ms) (\<lambda>m.
     rbind (Symbol_Audit.read_text env m) (\<lambda>t. rbind (next_of (filter (\<lambda>r. hd r = ''FlClash'') (map tab_fields (split_lines t)))) (\<lambda>r.
       case r of
         _ # binary # _ \<Rightarrow> rbind (resolve (fs env) (host_path env binary)) (\<lambda>b. Inr (butlast b))
       | _ \<Rightarrow> raise IndexError ''list index out of range'')))))"

definition separate_programs :: "string list" where
  "separate_programs = concat (map (\<lambda>stem. [stem @ ''Core.exe'', stem @ ''HelperService.exe'']) [''FlClash'', ''OmoFly'', ''Daishu''])"

text \<open>Why a file of the bundle has no debug file, if it needs a reason.\<close>

definition windows_reason :: "string list \<Rightarrow> string \<Rightarrow> (string \<times> string) option" where
  "windows_reason owned n =
     (if n \<in> set separate_programs
      then Some (if ends_with ''Core.exe'' n then ''go'' else ''rust_helper'', ''separate_process_no_sentry_sdk'')
      else if lower_text (name_suffix n) = ''.dll'' \<and> n \<notin> set owned then Some (''prebuilt'', ''external_debug_companion_unavailable'')
      else None)"

definition windows_limit :: "'w symbol_env \<Rightarrow> path \<Rightarrow> string list \<Rightarrow> string list \<Rightarrow> mac_limit list \<Rightarrow> string \<Rightarrow> exn + mac_limit list" where
  "windows_limit env place archs owned ls n =
     (if \<not> is_file (fs env) (place @ [n]) then Inr ls
      else case windows_reason owned n of
          None \<Rightarrow> Inr ls
        | Some (source, reason) \<Rightarrow>
            foldE (\<lambda>ls a. rbind (Symbol_Audit.safe_label (PStr n) ''Windows target'') (\<lambda>target.
              rbind (Symbol_Audit.safe_label (PStr a) ''Windows architecture'') (\<lambda>a.
                Inr (ls @ [\<lparr>cl_target = target, cl_architecture = a, cl_source = source, cl_reason = reason, ml_place = None\<rparr>])))) ls archs)"

definition windows_native_limits :: "'w symbol_env \<Rightarrow> path \<Rightarrow> evidence_row list \<Rightarrow> exn + mac_limit list" where
  "windows_native_limits env build_root rows =
     rbind (windows_bundle env build_root) (\<lambda>place.
     rbind (next_of (filter (\<lambda>r. ev_target r = Some ''FlClash'') rows)) (\<lambda>runner.
       let archs = (if si_architectures (ev_info runner) = [] then [''unknown''] else si_architectures (ev_info runner));
           owned = concat (map (\<lambda>r. case ev_binary r of None \<Rightarrow> [] | Some f \<Rightarrow> [fp_name f]) rows) in
       rbind (children (fs env) place) (foldE (windows_limit env place archs owned) [])))"

section \<open>The request and its report\<close>

record upload_request =
  rq_platform :: string
  rq_flavor :: string
  rq_root :: path
  rq_version :: "string option"
  rq_number :: "string option"
  rq_revision :: "string option"
  rq_audit_only :: bool

text \<open>What is written to the evidence file; the name of the CLI and the two constants are left out.\<close>

record upload_report =
  rp_status :: string
  rp_error :: string
  rp_metadata :: "(string \<times> string) list"
  rp_covered :: bool
  rp_limits :: "mac_limit list"
  rp_native :: "evidence_row list"
  rp_companions :: "evidence_row list"
  rp_upload :: "pydict option"
  rp_elapsed :: int

text \<open>\<open>up_cli\<close>: the tool was found; \<open>up_token\<close>: \<open>SENTRY_AUTH_TOKEN\<close>; \<open>confirm_with\<close> takes the project and the token.\<close>

record 'w upload_env =
  up_host :: "'w symbol_env"
  up_mac :: mac_tools
  up_cli :: bool
  up_token :: "string option"
  new_place :: "'w \<Rightarrow> (exn + path) \<times> 'w"
  new_directory :: "path \<Rightarrow> 'w \<Rightarrow> (exn + unit) \<times> 'w"
  copy_into :: "path \<Rightarrow> path \<Rightarrow> 'w \<Rightarrow> (exn + unit) \<times> 'w"
  confirm_with :: "string \<Rightarrow> string \<Rightarrow> 'w confirm_ops"

text \<open>\<open>staged\<close> lists the copies made, the newest first.\<close>

record 'w upload_state =
  asked :: "'w tool_state"
  staged :: "(path \<times> path) list"
  written :: upload_report
  confirmed_by :: "'w confirmation option"

definition with_tools :: "('w tool_state, 'a) cmd \<Rightarrow> ('w upload_state, 'a) cmd" where
  "with_tools m s = (case m (asked s) of (r, t) \<Rightarrow> (r, s\<lparr>asked := t\<rparr>))"

definition in_world :: "('w \<Rightarrow> (exn + 'a) \<times> 'w) \<Rightarrow> ('w upload_state, 'a) cmd" where
  "in_world g = with_tools (\<lambda>t. case g (tools t) of (r, w) \<Rightarrow> (r, t\<lparr>tools := w\<rparr>))"

definition reporting :: "(upload_report \<Rightarrow> upload_report) \<Rightarrow> ('w upload_state, unit) cmd" where
  "reporting f = updating (\<lambda>s. s\<lparr>written := f (written s)\<rparr>)"

section \<open>The audits\<close>

definition re_version :: regex where
  "re_version = rseqs [rplus rdigit, rlit ''.'', rplus rdigit, rlit ''.'', rplus rdigit,
     ropt (RSeq (RClass False [(46, 46), (43, 43), (45, 45)]) (rplus (RClass False [(65, 90), (97, 122), (48, 57), (46, 46), (45, 45)])))]"

definition re_revision :: regex where
  "re_revision = rseqs [rtimes 7 hex_class, rupto 57 hex_class]"

definition metadata :: "upload_request \<Rightarrow> (string \<times> string option \<times> regex) list" where
  "metadata rq = [(''product_version'', rq_version rq, re_version), (''build_number'', rq_number rq, rplus rdigit),
     (''source_revision'', rq_revision rq, re_revision)]"

definition check_metadata :: "upload_request \<Rightarrow> ('w upload_state, unit) cmd" where
  "check_metadata rq = loop_over (\<lambda>_ (key, v, re). case v of
       None \<Rightarrow> ret ()
     | Some t \<Rightarrow> if \<not> fullmatch re t then throw SymbolError (''Invalid safe build metadata: '' @ key)
         else reporting (\<lambda>r. r\<lparr>rp_metadata := rp_metadata r @ [(key, t)]\<rparr>)) () (metadata rq)"

definition check_version :: "'w upload_env \<Rightarrow> ('w upload_state, unit) cmd" where
  "check_version env =
     (if \<not> up_cli env then throw SymbolError ''Install @sentry/cli@2.58.4 before symbol audit''
      else seq (with_tools (run_cli (up_host env) [''--version''])) (\<lambda>out.
        unless_raise (text_strip out \<noteq> ''sentry-cli 2.58.4'') SymbolError ''Expected sentry-cli 2.58.4''))"

definition as_limits :: "coverage_limit list \<Rightarrow> mac_limit list" where
  "as_limits = map (\<lambda>l. \<lparr>cl_target = cl_target l, cl_architecture = cl_architecture l, cl_source = cl_source l, cl_reason = cl_reason l,
     ml_place = None\<rparr>)"

definition cover :: "('w upload_state, unit) cmd" where
  "cover = reporting (\<lambda>r. r\<lparr>rp_covered := True\<rparr>)"

definition limited :: "mac_limit list \<Rightarrow> ('w upload_state, unit) cmd" where
  "limited ls = reporting (\<lambda>r. r\<lparr>rp_limits := ls\<rparr>)"

definition native_audit :: "'w upload_env \<Rightarrow> upload_request \<Rightarrow> ('w upload_state, path list \<times> evidence_row list) cmd" where
  "native_audit env rq =
     (let h = up_host env; root = rq_root rq in
      if rq_platform rq = ''windows''
      then seq (with_tools (audit_windows h root)) (\<lambda>(files, rows). seq cover (\<lambda>_.
        seq (lift_result (windows_native_limits h root rows)) (\<lambda>ls. seq (limited ls) (\<lambda>_. ret (files, rows)))))
      else if rq_platform rq = ''android'' \<or> rq_platform rq = ''linux''
      then seq (with_tools (audit_elf_native h root (rq_platform rq))) (\<lambda>(files, rows, ls).
        seq cover (\<lambda>_. seq (limited (as_limits ls)) (\<lambda>_. ret (files, rows))))
      else if rq_platform rq = ''macos''
      then seq (with_tools (audit_macos (up_mac env) h root)) (\<lambda>(files, rows, ls).
        seq cover (\<lambda>_. seq (limited ls) (\<lambda>_. ret (files, rows))))
      else ret ([], []))"

text \<open>The architectures that must have Dart debug files, from the native evidence.\<close>

definition architecture_of :: "evidence_row \<Rightarrow> exn + string" where
  "architecture_of r = (case ev_architecture r of None \<Rightarrow> raise KeyError ''architecture'' | Some a \<Rightarrow> Inr a)"

definition windows_names :: "(string \<times> string) list" where
  "windows_names = [(''x86_64'', ''x64''), (''x86'', ''x64''), (''arm64'', ''arm64'')]"

definition dart_architectures :: "string \<Rightarrow> evidence_row list \<Rightarrow> exn + string list" where
  "dart_architectures platform rows =
     (let at = (\<lambda>t. filter (\<lambda>r. ev_target r = Some t) rows) in
      if platform = ''macos'' then traverse architecture_of (at ''runner'')
      else if platform = ''android''
      then traverse (\<lambda>r. rbind (architecture_of r) (\<lambda>a.
        case map_of android_names a of None \<Rightarrow> raise KeyError a | Some n \<Rightarrow> Inr n)) rows
      else if platform = ''linux'' then traverse architecture_of (at ''FlClash'')
      else Inr (map (\<lambda>a. case map_of windows_names a of None \<Rightarrow> a | Some n \<Rightarrow> n)
        (concat (map (\<lambda>r. si_architectures (ev_info r)) (at ''FlClash'')))))"

text \<open>Both audits; their files are the ones that may be uploaded.\<close>

definition audit_files :: "'w upload_env \<Rightarrow> upload_request \<Rightarrow> ('w upload_state, path list) cmd" where
  "audit_files env rq =
     seq (native_audit env rq) (\<lambda>(native, native_rows).
     seq (lift_result (dart_architectures (rq_platform rq) native_rows)) (\<lambda>archs.
     seq (with_tools (collect_companions (up_host env) (rq_root rq) (rq_platform rq) archs)) (\<lambda>(dart, dart_rows).
       let files = keep_first (native @ dart) in
       if files = [] then throw SymbolError ''No uploadable debug companions found''
       else seq (reporting (\<lambda>r. r\<lparr>rp_status := ''audited'', rp_native := native_rows, rp_companions := dart_rows\<rparr>)) (\<lambda>_. ret files))))"

section \<open>The upload\<close>

text \<open>The parts of a row that the confirmation reads.\<close>

definition row_item :: "evidence_row \<Rightarrow> pyval" where
  "row_item r = PDict ([(''debug_ids'', PList (map PStr (si_ids (ev_info r)))), (''format'', si_format (ev_info r)),
       (''features'', si_features (ev_info r)), (''architectures'', PList (map PStr (si_architectures (ev_info r))))]
     @ (case ev_architecture r of None \<Rightarrow> [] | Some a \<Rightarrow> [(''architecture'', PStr a)]))"

definition project_of :: "string \<Rightarrow> exn + string" where
  "project_of flavor = (case map_of [(''brand_a'', ''omofly''), (''brand_b'', ''daishu'')] flavor of
      None \<Rightarrow> raise KeyError flavor | Some p \<Rightarrow> Inr p)"

definition upload_ids :: "upload_report \<Rightarrow> string list" where
  "upload_ids r = sort (remdups (concat (map (\<lambda>x. si_ids (ev_info x)) (rp_native r @ rp_companions r))))"

definition upload_arguments :: "string \<Rightarrow> string list \<Rightarrow> string \<Rightarrow> string list" where
  "upload_arguments project ids place =
     [''debug-files'', ''upload'', ''--org'', ''ka-chiu-lee'', ''--project'', project, ''--no-sources'', ''--no-zips'', ''--wait-for'', ''300'']
     @ concat (map (\<lambda>i. [''--id'', i]) ids) @ [place]"

text \<open>The copy of the file with this index goes to a directory of its own.\<close>

definition stage_file :: "'w upload_env \<Rightarrow> path \<Rightarrow> nat \<times> path \<Rightarrow> ('w upload_state, unit) cmd" where
  "stage_file env place x =
     (case x of (i, p) \<Rightarrow> let goal = place @ [int_text (int i), path_name p] in
       seq (in_world (new_directory env (butlast goal))) (\<lambda>_. seq (in_world (copy_into env p goal)) (\<lambda>_.
         updating (\<lambda>s. s\<lparr>staged := (p, goal) # staged s\<rparr>))))"

definition success_lines :: "string list" where
  "success_lines = [''> Nothing to upload, all files are on the server'', ''> File processing complete:'']"

definition uploaded :: "pydict \<Rightarrow> ('w upload_state, unit) cmd" where
  "uploaded d = reporting (\<lambda>r. r\<lparr>rp_upload := Some d\<rparr>)"

text \<open>\<open>try: m except: h else: g\<close> and \<open>try: m finally: g\<close>.\<close>

definition try_else :: "('s, 'a) cmd \<Rightarrow> (exn \<Rightarrow> ('s, 'b) cmd) \<Rightarrow> ('a \<Rightarrow> ('s, 'b) cmd) \<Rightarrow> ('s, 'b) cmd" where
  "try_else m h g s = (case m s of (Inl e, t) \<Rightarrow> h e t | (Inr x, t) \<Rightarrow> g x t)"

definition try_finally :: "('s, 'a) cmd \<Rightarrow> ('s, unit) cmd \<Rightarrow> ('s, 'a) cmd" where
  "try_finally m g s = (case m s of (r, t) \<Rightarrow> (case g t of (Inl e, u) \<Rightarrow> (Inl e, u) | (Inr _, u) \<Rightarrow> (r, u)))"

text \<open>One upload: only a failure of the processing is left to the confirmation.\<close>

definition send_place :: "'w upload_env \<Rightarrow> string list \<Rightarrow> ('w upload_state, unit) cmd" where
  "send_place env args =
     try_else (with_tools (run_cli (up_host env) args))
       (\<lambda>e. if is_upload_class (exn_class_of e)
         then seq (reading (\<lambda>s. diagnostic (asked s))) (\<lambda>d. seq (uploaded d) (\<lambda>_.
           if exn_message e = ''processing_incomplete'' then ret () else lift_result (Inl e)))
         else if exn_class_of e = SubprocessError
         then seq (uploaded (upload_diagnostic cli_timeout)) (\<lambda>_. lift_result (Inl cli_timeout))
         else lift_result (Inl e))
       (\<lambda>out. seq (uploaded [(''phase'', PStr ''upload''), (''category'', PStr ''cli_success''), (''exit_code'', PInt 0)]) (\<lambda>_.
         unless_raise (\<not> list_ex (\<lambda>l. text_strip l \<in> set success_lines) (split_lines out)) SymbolError
           ''Sentry CLI did not confirm server symbol processing completion''))"

text \<open>The time is taken at the end of every upload that has a report.\<close>

definition timed :: "'w upload_env \<Rightarrow> ('w upload_state, unit) cmd \<Rightarrow> ('w upload_state, unit) cmd" where
  "timed env m =
     seq (with_tools (tool_now (up_host env))) (\<lambda>start.
       try_finally m (seq (reading written) (\<lambda>r. if rp_upload r = None then ret ()
         else seq (with_tools (tool_now (up_host env))) (\<lambda>stop. reporting (\<lambda>x. x\<lparr>rp_elapsed := stop - start\<rparr>)))))"

definition confirm_all :: "'w upload_env \<Rightarrow> string \<Rightarrow> string \<Rightarrow> ('w upload_state, unit) cmd" where
  "confirm_all env project token s =
     (case confirm_symbol_inventory (confirm_with env project token) (map row_item (rp_native (written s) @ rp_companions (written s)))
         WAIT_MS (tools (asked s)) of
        Inl e \<Rightarrow> (Inl e, s)
      | Inr (r, c) \<Rightarrow> (r, s\<lparr>asked := (asked s)\<lparr>tools := around c\<rparr>, confirmed_by := Some c\<rparr>))"

definition upload_files :: "'w upload_env \<Rightarrow> upload_request \<Rightarrow> path list \<Rightarrow> string \<Rightarrow> ('w upload_state, unit) cmd" where
  "upload_files env rq files token =
     seq (in_world (new_place env)) (\<lambda>place.
     seq (loop_over (\<lambda>_. stage_file env place) () (enumerate 0 files)) (\<lambda>_.
     seq (lift_result (project_of (rq_flavor rq))) (\<lambda>project.
     seq (reading written) (\<lambda>r.
     seq (timed env (send_place env (upload_arguments project (upload_ids r) (path_text (up_host env) place)))) (\<lambda>_.
     seq (confirm_all env project token) (\<lambda>_.
       reporting (\<lambda>r. r\<lparr>rp_status := ''uploaded_and_processed''\<rparr>)))))))"

definition usable_token :: "'w upload_env \<Rightarrow> string option" where
  "usable_token env = (case up_token env of None \<Rightarrow> None | Some t \<Rightarrow> if text_strip t = [] then None else Some t)"

definition upload_body :: "'w upload_env \<Rightarrow> upload_request \<Rightarrow> ('w upload_state, unit) cmd" where
  "upload_body env rq =
     seq (check_metadata rq) (\<lambda>_. seq (check_version env) (\<lambda>_. seq (audit_files env rq) (\<lambda>files.
       if rq_audit_only rq then ret ()
       else case usable_token env of
           None \<Rightarrow> throw SymbolError ''Release symbol upload requires SENTRY_AUTH_TOKEN; use --audit-only for offline diagnostics''
         | Some token \<Rightarrow> upload_files env rq files token)))"

text \<open>The name of a class stands for an error whose text may hold a path; an \<open>OSError\<close> has the name of its class as its message.\<close>

definition error_text :: "exn \<Rightarrow> string" where
  "error_text e =
     (if exn_class_of e = SymbolError \<or> is_upload_class (exn_class_of e) then exn_message e
      else if exn_class_of e = SubprocessError then ''TimeoutExpired''
      else if exn_message e = [] then ''OSError'' else exn_message e)"

definition expected_error :: "exn \<Rightarrow> bool" where
  "expected_error e \<longleftrightarrow> exn_class_of e \<in> {SymbolError, OSError, SubprocessError} \<or> is_upload_class (exn_class_of e)"

text \<open>The exit status with the report that is written, also when another exception leaves.\<close>

definition upload_main :: "'w upload_env \<Rightarrow> upload_request \<Rightarrow> ('w upload_state, int) cmd" where
  "upload_main env rq s =
     (case upload_body env rq s of
        (Inr _, t) \<Rightarrow> (Inr 0, t)
      | (Inl e, t) \<Rightarrow> if expected_error e then (Inr 1, t\<lparr>written := (written t)\<lparr>rp_status := ''failed'', rp_error := error_text e\<rparr>\<rparr>)
          else (Inl e, t))"

definition start_upload :: "'w \<Rightarrow> 'w upload_state" where
  "start_upload w = \<lparr>asked = \<lparr>runs_made = [], diagnostic = [], tools = w\<rparr>, staged = [],
     written = \<lparr>rp_status = ''not_started'', rp_error = [], rp_metadata = [], rp_covered = False, rp_limits = [], rp_native = [],
       rp_companions = [], rp_upload = None, rp_elapsed = 0\<rparr>, confirmed_by = None\<rparr>"

section \<open>Audits do not upload\<close>

text \<open>What is asked of an invariant of the runs: every run that is not an upload keeps it.\<close>

definition runs_ok :: "(tool_run \<Rightarrow> bool) \<Rightarrow> 'w tool_state \<Rightarrow> bool" where
  "runs_ok Q t \<longleftrightarrow> list_all Q (runs_made t)"

lemma keeps_by: "(\<And>s. f s = m s) \<Longrightarrow> keeps I m \<Longrightarrow> keeps I f"
  by (simp add: keeps_def)

lemma keeps_run_cli:
  assumes "\<And>x. run_arguments x = args \<Longrightarrow> Q x"
  shows "keeps (runs_ok Q) (run_cli env args)"
proof (rule keepsI)
  fix s t :: "'a tool_state" and r assume s: "runs_ok Q s" and run: "run_cli env args s = (r, t)"
  have "\<exists>new. runs_made t = new @ runs_made s \<and> list_all (proper_run args) new"
  proof (cases r)
    case (Inl e)
    from triple_Inl [OF triple_run_cli refl run [unfolded Inl]] show ?thesis by (auto simp: gave_up_def)
  next
    case (Inr out)
    from triple_Inr [OF triple_run_cli refl run [unfolded Inr]] obtain res where "has_result args (runs_made s) res t" by metis
    then obtain x new where "runs_made t = x # new @ runs_made s" "list_all (proper_run args) (x # new)" by (auto simp: has_result_def)
    then show ?thesis by (intro exI [of _ "x # new"]) simp
  qed
  with s assms show "runs_ok Q t" by (auto simp: runs_ok_def proper_run_def list_all_iff)
qed

locale tool_watch =
  fixes allowed :: "tool_run \<Rightarrow> bool"
  assumes checks_allowed: "\<not> is_upload (run_arguments x) \<Longrightarrow> allowed x"
begin

lemma keeps_check [keeps_intros]: "keeps (runs_ok allowed) (check_symbol env p expected usable)"
  by (rule keeps_by, rule check_symbol_def) (auto intro!: keeps_intros keeps_run_cli checks_allowed simp: is_upload_def)

lemma keeps_windows [keeps_intros]: "keeps (runs_ok allowed) (audit_windows env root)"
proof -
  have row: "keeps (runs_ok allowed) (windows_row env r st x)" for r st x
    by (rule keeps_by, rule windows_row_def, cases "tab_fields x" rule: list.exhaust)
       (auto intro!: keeps_intros simp: pdb_row_def split: list.split)
  have rows: "keeps (runs_ok allowed) (windows_rows env r m)" for r m
    by (rule keeps_by, rule windows_rows_def) (intro keeps_intros row)
  have finish: "keeps (runs_ok allowed) (finish_windows env st)" for st
    by (rule keeps_by, rule finish_windows_def) (intro keeps_intros)
  show ?thesis unfolding audit_windows_def by (intro keeps_intros rows finish)
qed

lemma keeps_elf [keeps_intros]: "keeps (runs_ok allowed) (audit_elf_native env root platform)"
proof -
  have pair: "keeps (runs_ok allowed) (record_companion env r platform e b d i st)" for r e b d i st
    by (rule keeps_by, rule record_companion_def) (intro keeps_intros)
  have entry: "keeps (runs_ok allowed) (elf_entry env r platform st v)" for r st v
    by (rule keeps_by, rule elf_entry_def) (intro keeps_intros pair)
  have body: "keeps (runs_ok allowed) (seq (loop_over (elf_entry env r platform) st es) (\<lambda>st.
      seq (lift_result (finish_elf env r platform rs ls st)) (\<lambda>(_, limits). ret (ea_artifacts st, ea_rows st, limits))))" for r st es rs ls
    by (intro keeps_intros entry)
  show ?thesis
    by (rule keepsI) (auto simp: audit_elf_native_def split: sum.splits prod.splits dest: keepsD [OF body])
qed

lemma keeps_dart [keeps_intros]: "keeps (runs_ok allowed) (collect_companions env root platform archs)"
proof -
  have matched: "keeps (runs_ok allowed) (match_runtime env platform tag info shape fps p)" for tag info shape fps p
    by (rule keeps_by, rule match_runtime_def) (auto simp: macos_match_def elf_match_def intro!: keeps_intros)
  have one: "keeps (runs_ok allowed) (dart_companion env r t platform st p)" for r t st p
    by (rule keeps_by, rule dart_companion_def) (auto simp: check_companion_def intro!: keeps_intros matched)
  have body: "keeps (runs_ok allowed) (seq (loop_over (dart_companion env r t platform) st ps) (\<lambda>st.
      seq (lift_result (finish_dart t platform archs st)) (\<lambda>_. ret (da_artifacts st, da_rows st))))" for r t st ps
    by (intro keeps_intros one)
  show ?thesis
    by (rule keepsI) (auto simp: collect_companions_def split: sum.splits dest: keepsD [OF body])
qed

lemma keeps_macos [keeps_intros]: "keeps (runs_ok allowed) (audit_macos mac env root)"
proof -
  have entry: "keeps (runs_ok allowed) (mac_entry mac env r app ms st v)" for r app ms st v
    by (rule keeps_by, rule mac_entry_def) (intro keeps_intros)
  have each: "keeps (runs_ok allowed) (macos_companions mac env r app ms es)" for r app ms es
    by (rule keeps_by, rule macos_companions_def) (intro keeps_intros entry)
  show ?thesis by (rule keeps_by, rule audit_macos_def) (intro keeps_intros each)
qed

end

section \<open>What a run of the command does\<close>

text \<open>An upload needs a request for it and a token, and has the arguments of the project.\<close>

definition upload_allowed :: "'w upload_env \<Rightarrow> upload_request \<Rightarrow> tool_run \<Rightarrow> bool" where
  "upload_allowed env rq x \<longleftrightarrow> (is_upload (run_arguments x) \<longrightarrow> \<not> rq_audit_only rq \<and> usable_token env \<noteq> None
     \<and> (\<exists>project ids place. project_of (rq_flavor rq) = Inr project \<and> run_arguments x = upload_arguments project ids place))"

interpretation watched: tool_watch "upload_allowed env rq" for env rq
  by unfold_locales (simp add: upload_allowed_def)

definition only_allowed :: "'w upload_env \<Rightarrow> upload_request \<Rightarrow> 'w upload_state \<Rightarrow> bool" where
  "only_allowed env rq s \<longleftrightarrow> runs_ok (upload_allowed env rq) (asked s)"

lemma keeps_seq_lift: "(\<And>x. m = Inr x \<Longrightarrow> keeps I (f x)) \<Longrightarrow> keeps I (seq (lift_result m) f)"
  by (cases m) (auto simp: keeps_def seq_def lift_result_def)

lemma keeps_try_else [keeps_intros]:
  "keeps I m \<Longrightarrow> (\<And>e. keeps I (h e)) \<Longrightarrow> (\<And>x. keeps I (g x)) \<Longrightarrow> keeps I (try_else m h g)"
  unfolding keeps_def try_else_def by (auto split: prod.split sum.split)

lemma keeps_try_finally [keeps_intros]: "keeps I m \<Longrightarrow> keeps I g \<Longrightarrow> keeps I (try_finally m g)"
  by (rule keepsI) (auto simp: try_finally_def split: prod.splits sum.splits dest: keepsD)

lemma keeps_with_tools: "keeps I m \<Longrightarrow> keeps (\<lambda>s. I (asked s)) (with_tools m)"
  by (rule keepsI) (auto simp: with_tools_def split: prod.splits dest: keepsD)

lemma allowed_tools [keeps_intros]: "keeps (runs_ok (upload_allowed env rq)) m \<Longrightarrow> keeps (only_allowed env rq) (with_tools m)"
  unfolding only_allowed_def by (rule keeps_with_tools)

lemma allowed_world [keeps_intros]: "keeps (only_allowed env rq) (in_world g)"
  unfolding in_world_def by (rule allowed_tools, rule keepsI) (auto simp: runs_ok_def split: prod.splits)

lemma allowed_now [keeps_intros]: "keeps (runs_ok Q) (tool_now h)"
  by (rule keepsI) (auto simp: tool_now_def runs_ok_def split: prod.splits)

lemma allowed_reporting [keeps_intros]: "keeps (only_allowed env rq) (reporting f)"
  unfolding reporting_def by (rule keeps_updating) (simp add: only_allowed_def)

lemma allowed_send [keeps_intros]:
  "keeps (runs_ok (upload_allowed env rq)) (run_cli (up_host env) args) \<Longrightarrow> keeps (only_allowed env rq) (timed env (send_place env args))"
  unfolding timed_def send_place_def uploaded_def by (intro keeps_intros)

lemma allowed_audit [keeps_intros]: "keeps (only_allowed env rq) (audit_files env rq)"
  unfolding audit_files_def native_audit_def Let_def cover_def limited_def by (intro keeps_intros)

lemma allowed_body: "keeps (only_allowed env rq) (upload_body env rq)"
proof -
  have version: "keeps (runs_ok (upload_allowed env rq)) (run_cli (up_host env) [''--version''])"
    by (rule keeps_run_cli) (simp add: upload_allowed_def is_upload_def)
  have staged: "keeps (only_allowed env rq) (stage_file env place x)" for place x
    unfolding stage_file_def Let_def by (intro keeps_intros) (simp add: only_allowed_def)
  have confirm: "keeps (only_allowed env rq) (confirm_all env project token)" for project token
    by (rule keepsI) (auto simp: confirm_all_def only_allowed_def runs_ok_def split: sum.splits prod.splits)
  have sent: "keeps (only_allowed env rq) (timed env (send_place env (upload_arguments project ids place)))"
    if "project_of (rq_flavor rq) = Inr project" "\<not> rq_audit_only rq" "usable_token env \<noteq> None" for project ids place
    by (intro keeps_intros keeps_run_cli) (use that in \<open>auto simp: upload_allowed_def\<close>)
  have upload: "keeps (only_allowed env rq) (upload_files env rq files token)"
    if guard: "\<not> rq_audit_only rq" "usable_token env \<noteq> None" for files token
    unfolding upload_files_def
    by (intro keeps_seq_lift keeps_intros staged confirm sent guard) simp_all
  show ?thesis
    unfolding upload_body_def check_metadata_def check_version_def
    by (intro keeps_intros version upload) simp_all
qed

text \<open>The evidence of the audits and the copies made, which no later step changes.\<close>

definition kept :: "evidence_row list \<Rightarrow> evidence_row list \<Rightarrow> (path \<times> path) list \<Rightarrow> 'w upload_state \<Rightarrow> bool" where
  "kept native dart copies s \<longleftrightarrow> rp_native (written s) = native \<and> rp_companions (written s) = dart \<and> staged s = copies"

lemma kept_tools [keeps_intros]: "keeps (kept native dart copies) (with_tools m)" "keeps (kept native dart copies) (in_world g)"
  by (auto simp: keeps_def kept_def with_tools_def in_world_def split: prod.splits)

lemma kept_reporting:
  "(\<And>r. rp_native (f r) = rp_native r) \<Longrightarrow> (\<And>r. rp_companions (f r) = rp_companions r) \<Longrightarrow> keeps (kept native dart copies) (reporting f)"
  by (auto simp: keeps_def kept_def reporting_def updating_def)

lemma kept_native_audit: "keeps (kept native dart copies) (native_audit env rq)"
  unfolding native_audit_def Let_def cover_def limited_def by (intro keeps_intros kept_reporting) simp_all

lemma kept_start: "keeps (kept native dart copies) (check_metadata rq)" "keeps (kept native dart copies) (check_version env)"
  unfolding check_metadata_def check_version_def by (intro keeps_intros kept_reporting; simp)+

lemma kept_send: "keeps (kept native dart copies) (timed env (send_place env args))"
  unfolding timed_def send_place_def uploaded_def by (intro keeps_intros kept_reporting) simp_all

text \<open>An audit that ends well gives the files of both audits and their evidence, and copies nothing.\<close>

definition audited :: "'w upload_env \<Rightarrow> upload_request \<Rightarrow> path list \<Rightarrow> evidence_row list \<Rightarrow> evidence_row list \<Rightarrow> bool" where
  "audited env rq files native_rows dart_rows \<longleftrightarrow> files \<noteq> [] \<and> distinct files
     \<and> (\<exists>s native t archs u dart v. native_audit env rq s = (Inr (native, native_rows), t)
       \<and> dart_architectures (rq_platform rq) native_rows = Inr archs
       \<and> collect_companions (up_host env) (rq_root rq) (rq_platform rq) archs u = (Inr (dart, dart_rows), v)
       \<and> set files = set native \<union> set dart)"

lemma keep_first_set: "distinct (keep_first xs)" "set (keep_first xs) = set xs"
  by (simp_all add: keep_first_def)

lemma with_tools_Inr: "with_tools m s = (Inr x, t) \<longleftrightarrow> (\<exists>u. m (asked s) = (Inr x, u) \<and> t = s\<lparr>asked := u\<rparr>)"
  by (auto simp: with_tools_def split: prod.splits)

lemma audit_files_Inr:
  assumes "audit_files env rq s = (Inr files, t)"
  shows "audited env rq files (rp_native (written t)) (rp_companions (written t)) \<and> staged t = staged s \<and> rp_status (written t) = ''audited''"
proof -
  from assms obtain native rows u archs dart dart_rows v where native: "native_audit env rq s = (Inr (native, rows), u)"
      and archs: "dart_architectures (rq_platform rq) rows = Inr archs"
      and dart: "collect_companions (up_host env) (rq_root rq) (rq_platform rq) archs (asked u) = (Inr (dart, dart_rows), v)"
      and t: "files = keep_first (native @ dart)" "files \<noteq> []" "t = u\<lparr>asked := v,
        written := (written u)\<lparr>rp_status := ''audited'', rp_native := rows, rp_companions := dart_rows\<rparr>\<rparr>"
    by (auto simp: audit_files_def Let_def reporting_def updating_def seq_Inr cmd_Inr with_tools_Inr split: if_splits)
  have "kept (rp_native (written s)) (rp_companions (written s)) (staged s) s" by (simp add: kept_def)
  from keepsD [OF kept_native_audit this native] have "staged u = staged s" by (simp add: kept_def)
  with native archs dart t show ?thesis unfolding audited_def by (fastforce simp: keep_first_set)
qed

lemma staged_files:
  assumes "loop_over (\<lambda>_. stage_file env place) () xs s = (r, t)"
  shows "set (map fst (staged t)) \<subseteq> set (map fst (staged s)) \<union> snd ` set xs"
proof -
  have step: "keeps (\<lambda>s. set (map fst (staged s)) \<subseteq> F) (stage_file env place x)" if "snd x \<in> F" for x F
    unfolding stage_file_def Let_def using that
    by (intro keeps_intros) (auto simp: keeps_def in_world_def with_tools_def split: prod.splits)
  let ?F = "set (map fst (staged s)) \<union> snd ` set xs"
  have "keeps (\<lambda>s. set (map fst (staged s)) \<subseteq> ?F) (loop_over (\<lambda>_. stage_file env place) () xs)"
    by (intro keeps_intros step) auto
  from keepsD [OF this _ assms] show ?thesis by simp
qed

lemma staged_all:
  "loop_over (\<lambda>_. stage_file env place) () xs s = (Inr u, t) \<Longrightarrow> map fst (staged t) = rev (map snd xs) @ map fst (staged s)
    \<and> written t = written s"
proof (induction xs arbitrary: s)
  case (Cons x xs)
  then obtain v where v: "stage_file env place x s = (Inr (), v)" "loop_over (\<lambda>_. stage_file env place) () xs v = (Inr u, t)"
    by (auto simp: seq_Inr)
  from v(1) have "map fst (staged v) = snd x # map fst (staged s) \<and> written v = written s"
    by (auto simp: stage_file_def Let_def in_world_def updating_def seq_Inr cmd_Inr with_tools_Inr split: prod.splits)
  with Cons.IH [OF v(2)] show ?case by simp
qed (simp add: ret_def)

text \<open>The server answered with a matching row for everything the rows require.\<close>

definition server_has :: "evidence_row list \<Rightarrow> 'w confirmation \<Rightarrow> bool" where
  "server_has rows c \<longleftrightarrow> missing c = [] \<and> (\<exists>rs. requirements (map row_item rows) = Inr rs \<and> list_all (answered (answers c)) rs)"

lemma confirmed_server_has:
  assumes "confirm_symbol_inventory ops (map row_item rows) budget w = Inr (Inr (), c)"
  shows "server_has rows c"
proof -
  from confirm_ended [OF assms] obtain rs started u where rs: "requirements (map row_item rows) = Inr rs" "run_ended rs (Inr ()) u"
      and c: "c = round_up ops (int (length rs)) started u" by blast
  then have "missing c = [] \<and> list_all (answered (answers c)) rs"
    by (auto simp: run_ended_def round_inv_def accounted_def sorted_requirements_def list_all_iff)
  with rs(1) show ?thesis by (simp add: server_has_def)
qed

lemma upload_files_Inr:
  assumes "upload_files env rq files token s = (Inr u, t)"
  shows "map fst (staged t) = rev files @ map fst (staged s) \<and> rp_native (written t) = rp_native (written s)
    \<and> rp_companions (written t) = rp_companions (written s) \<and> rp_status (written t) = ''uploaded_and_processed''
    \<and> (\<exists>c. confirmed_by t = Some c \<and> server_has (rp_native (written s) @ rp_companions (written s)) c)"
proof -
  from assms obtain place s1 s2 project args s3 s4 where place: "in_world (new_place env) s = (Inr place, s1)"
      and copies: "loop_over (\<lambda>_. stage_file env place) () (enumerate 0 files) s1 = (Inr (), s2)"
      and send: "timed env (send_place env args) s2 = (Inr (), s3)" and wait: "confirm_all env project token s3 = (Inr (), s4)"
      and t: "t = s4\<lparr>written := (written s4)\<lparr>rp_status := ''uploaded_and_processed''\<rparr>\<rparr>"
    by (auto simp: upload_files_def reporting_def updating_def reading_def seq_Inr cmd_Inr)
  let ?rows = "rp_native (written s) @ rp_companions (written s)"
  have kept1: "kept (rp_native (written s)) (rp_companions (written s)) (staged s) s1"
    by (rule keepsD [OF kept_tools(2) _ place]) (simp add: kept_def)
  note all = staged_all [OF copies]
  have "kept (rp_native (written s)) (rp_companions (written s)) (staged s2) s2" using kept1 all by (simp add: kept_def)
  from keepsD [OF kept_send this send] have kept3: "kept (rp_native (written s)) (rp_companions (written s)) (staged s2) s3" .
  from wait kept3 obtain c where c: "confirm_symbol_inventory (confirm_with env project token) (map row_item ?rows) WAIT_MS (tools (asked s3)) = Inr (Inr (), c)"
      "s4 = s3\<lparr>asked := (asked s3)\<lparr>tools := around c\<rparr>, confirmed_by := Some c\<rparr>"
    by (auto simp: confirm_all_def kept_def split: sum.splits prod.splits)
  show ?thesis using confirmed_server_has [OF c(1)] c(2) kept3 kept1 all t by (auto simp: kept_def)
qed

lemma kept_within:
  assumes "\<And>native dart copies. keeps (kept native dart copies) m"
  shows "keeps (\<lambda>s. set (map fst (staged s)) \<subseteq> F) m"
  by (rule keepsI, drule keepsD [OF assms, rotated], simp add: kept_def, simp add: kept_def)

lemma upload_files_staged:
  assumes "upload_files env rq files token s = (r, t)" and "staged s = []"
  shows "set (map fst (staged t)) \<subseteq> set files"
proof -
  have snds: "snd ` set (enumerate 0 files) = set files" by (metis map_snd_enumerate set_map)
  let ?I = "\<lambda>s. set (map fst (staged s)) \<subseteq> set files"
  have copies: "keeps ?I (loop_over (\<lambda>_. stage_file env place) () (enumerate 0 files))" for place
    by (rule keepsI) (drule staged_files, simp add: snds, blast)
  have confirm: "keeps ?I (confirm_all env project token)" for project token
    by (auto simp: keeps_def confirm_all_def split: sum.splits prod.splits)
  have "keeps ?I (upload_files env rq files token)"
    unfolding upload_files_def by (intro keeps_intros copies confirm kept_within kept_send kept_tools kept_reporting) simp_all
  from keepsD [OF this _ assms(1)] assms(2) show ?thesis by simp
qed

lemma upload_body_staged:
  assumes "upload_body env rq s = (r, t)" and "staged s = []"
  shows "staged t = [] \<or> \<not> rq_audit_only rq \<and> usable_token env \<noteq> None
    \<and> (\<exists>files native dart. audited env rq files native dart \<and> set (map fst (staged t)) \<subseteq> set files)"
proof -
  obtain r1 s1 where m: "check_metadata rq s = (r1, s1)" by fastforce
  obtain r2 s2 where v: "check_version env s1 = (r2, s2)" by fastforce
  obtain r3 s3 where a: "audit_files env rq s2 = (r3, s3)" by fastforce
  have same: "staged u' = []" if "\<And>n d c. keeps (kept n d c) m" "m u = (x, u')" "staged u = []"
    for m :: "('a upload_state, 'b) cmd" and u u' x
    using keepsD [OF that(1) _ that(2)] that(3) by (simp add: kept_def)
  have empty: "staged s1 = []" "staged s2 = []" using same [OF kept_start(1) m assms(2)] same [OF kept_start(2) v] by auto
  have "keeps (\<lambda>s. staged s = []) (audit_files env rq)"
    unfolding audit_files_def Let_def
    by (intro keeps_intros) (auto simp: keeps_def reporting_def updating_def with_tools_def split: prod.splits intro: same [OF kept_native_audit prod.collapse [symmetric]])
  from keepsD [OF this empty(2) a] have "staged s3 = []" .
  with assms(1) m v a empty consider "staged t = []"
    | files token where "r3 = Inr files" "upload_files env rq files token s3 = (r, t)" "\<not> rq_audit_only rq" "usable_token env = Some token"
    by (auto simp: upload_body_def seq_def ret_def throw_def split: sum.splits if_splits option.splits)
  then show ?thesis
  proof cases
    case 2
    with a have "audit_files env rq s2 = (Inr files, s3)" by simp
    from audit_files_Inr [OF this] upload_files_staged [OF 2(2) \<open>staged s3 = []\<close>] 2(3,4) show ?thesis by blast
  qed simp
qed

section \<open>A sample build\<close>

text \<open>A Windows build with the runner, a plugin and compiled Dart code; every file has the same identifier.\<close>

definition win_manifest :: string where
  "win_manifest = join [char_of (10 :: nat)]
     [join [char_of (9 :: nat)] [''FlClash'', ''/b/windows/r/FlClash.exe'', ''/b/FlClash.pdb''],
      join [char_of (9 :: nat)] [''flutter_inappwebview_windows_plugin'', ''/b/windows/r/w_plugin.dll'', ''/b/w.PDB'']]"

definition win_files :: "path list" where
  "win_files = [[''b'', ''windows'', ''sentry-symbols'', ''Release'', ''targets.tsv''], [''b'', ''windows'', ''r'', ''FlClash.exe''],
     [''b'', ''FlClash.pdb''], [''b'', ''windows'', ''r'', ''w_plugin.dll''], [''b'', ''w.PDB''],
     [''b'', ''windows'', ''r'', ''data'', ''app.so''], [''b'', ''debug-info'', ''app.windows-x64.symbols'']]"

definition win_children :: "(path \<times> string list) list" where
  "win_children = [([''b''], [''windows'']), ([''b'', ''windows''], [''r'']), ([''b'', ''windows'', ''r''], [''FlClash.exe'']),
     ([''b'', ''debug-info''], [''app.windows-x64.symbols''])]"

definition win_tree :: file_system where
  "win_tree = \<lparr>resolve = Inr, linked = (\<lambda>p. False), is_file = (\<lambda>p. p \<in> set win_files), is_dir = (\<lambda>p. p \<in> fst ` set win_children),
     children = (\<lambda>p. case map_of win_children p of None \<Rightarrow> raise OSError [] | Some ns \<Rightarrow> Inr ns),
     content = (\<lambda>p. if p \<notin> set win_files then raise OSError [] else Inr (if p = hd win_files then ascii win_manifest
       else if p \<in> set (take 5 win_files) then [1] else sample_companion))\<rparr>"

definition win_host :: "(exn + tool_result) list symbol_env" where
  "win_host = (sample_host win_tree (\<lambda>s. Inr (sample_answer s mac_uuid)))\<lparr>sha := (\<lambda>bs. [])\<rparr>"

definition server_row :: "string \<Rightarrow> pyval" where
  "server_row kind = PDict [(''debugId'', PStr mac_uuid), (''symbolType'', PStr kind), (''cpuName'', PStr ''x86_64''),
     (''data'', PDict [(''features'', PList [PStr ''symtab'', PStr ''debug''])])]"

definition win_env :: "(exn + tool_result) list upload_env" where
  "win_env = \<lparr>up_host = win_host, up_mac = mac_kit, up_cli = True, up_token = Some ''t'', new_place = (\<lambda>w. (Inr [''tmp''], w)),
     new_directory = (\<lambda>p w. (Inr (), w)), copy_into = (\<lambda>p q w. (Inr (), w)),
     confirm_with = (\<lambda>project token. \<lparr>now = (\<lambda>w. (0, w)), pause = (\<lambda>d w. w),
       fetch = (\<lambda>i timeout w. (Inr [server_row ''pdb'', server_row ''elf''], w)), emit = (\<lambda>l w. w)\<rparr>)\<rparr>"

definition win_request :: upload_request where
  "win_request = \<lparr>rq_platform = ''windows'', rq_flavor = ''brand_a'', rq_root = [''b''], rq_version = Some ''1.2.3'', rq_number = Some ''7'',
     rq_revision = None, rq_audit_only = False\<rparr>"

definition win_audit_answers :: "(exn + tool_result) list" where
  "win_audit_answers = [prints ''pe'', prints ''pdb'', prints ''pe'', prints ''pdb'', prints ''elf'', prints ''elf'',
     prints ''> File processing complete:'']"

definition win_item :: "string \<Rightarrow> pyval" where
  "win_item kind = PDict [(''debug_ids'', PList [PStr mac_uuid]), (''format'', PStr kind), (''features'', PStr ''symtab, debug''),
     (''architectures'', PList [PStr ''x86_64''])]"

abbreviation win_code :: path where
  "win_code \<equiv> [''b'', ''windows'', ''r'', ''data'', ''app.so'']"

abbreviation win_split :: path where
  "win_split \<equiv> [''b'', ''debug-info'', ''app.windows-x64.symbols'']"

lemma win_images:
  obtains info where "elf_of win_host win_code = Inr info" "elf_build_id info = ''deadbeef''" "elf_arch info = ''x86_64''"
    "dart_runtimes win_host [''b''] ''windows'' = Inr [(PStr ''x64'', [win_code])]"
    "companion_shape win_host win_split ''windows'' ''x64'' = Inr (''elf'', ''deadbeef'')"
proof -
  from sample_companion_parses obtain info where info: "inspect_elf (\<lambda>bs. []) sample_companion = Inr info" "elf_build_id info = ''deadbeef''"
      and facts: "companion_facts ''x86_64'' info info" by blast
  have there: "content (fs win_host) win_code = Inr sample_companion" "content (fs win_host) win_split = Inr sample_companion"
    by (simp_all add: win_host_def sample_host_def win_tree_def win_files_def)
  then have elf: "elf_of win_host win_code = Inr info" "elf_of win_host win_split = Inr info"
    using info(1) by (simp_all add: elf_of_def win_host_def sample_host_def)
  have "take 4 sample_companion = 0x7f # ascii ''ELF''" by (simp add: sample_companion_def ascii_def)
  moreover have "machine_of_suffix ''x64'' = Some ''x86_64''" "''windows'' \<noteq> ''macos''" by (simp_all add: machine_of_suffix_def)
  ultimately have shape: "companion_shape win_host win_split ''windows'' ''x64'' = Inr (''elf'', ''deadbeef'')"
    using facts info(2) by (simp add: companion_shape_def there elf_shape_def elf companion_facts_def)
  have runner: "windows_runner win_host [''b''] = Inr [''b'', ''windows'', ''r'', ''FlClash.exe'']" by code_simp
  have root: "resolve (fs win_host) [''b''] = Inr [''b'']" "rooted win_host [''b''] win_code = Inr win_code" by code_simp+
  then have "dart_runtimes win_host [''b''] ''windows'' = Inr [(PStr ''x64'', [win_code])]"
    using facts by (simp add: dart_runtimes_def windows_runtimes_def runner elf companion_facts_def)
  with elf(1) info(2) shape facts show thesis by (auto intro!: that simp: companion_facts_def)
qed

lemma win_asked:
  "case check_companion win_host ''windows'' win_split \<lparr>runs_made = L, diagnostic = D, tools = drop 4 win_audit_answers\<rparr> of (Inl e, t) \<Rightarrow> False
   | (Inr i, t) \<Rightarrow> si_ids i = [mac_uuid] \<and> si_format i = PStr ''elf'' \<and> si_architectures i = [''x86_64''] \<and> si_features i = PStr ''symtab, debug''
       \<and> tools t = drop 5 win_audit_answers"
  "case check_symbol win_host win_code (Some ''elf'') False \<lparr>runs_made = L, diagnostic = D, tools = drop 5 win_audit_answers\<rparr> of (Inl e, t) \<Rightarrow> False
   | (Inr i, t) \<Rightarrow> si_ids i = [mac_uuid] \<and> tools t = drop 6 win_audit_answers"
  by code_simp+

lemma win_dart:
  assumes "tools s = drop 4 win_audit_answers"
  obtains rows t where "collect_companions win_host [''b''] ''windows'' [''x64''] s = (Inr ([win_split], rows), t)"
    "map row_item rows = [win_item ''elf'']" "tools t = drop 6 win_audit_answers"
proof -
  obtain info where elf: "elf_of win_host win_code = Inr info" "elf_build_id info = ''deadbeef''" "elf_arch info = ''x86_64''"
      and reads: "dart_runtimes win_host [''b''] ''windows'' = Inr [(PStr ''x64'', [win_code])]"
        "companion_shape win_host win_split ''windows'' ''x64'' = Inr (''elf'', ''deadbeef'')" by (rule win_images)
  have s: "s = \<lparr>runs_made = runs_made s, diagnostic = diagnostic s, tools = drop 4 win_audit_answers\<rparr>" using assms by simp
  obtain i u where first: "check_companion win_host ''windows'' win_split s = (Inr i, u)" and i: "si_ids i = [mac_uuid]" "si_format i = PStr ''elf''"
      "si_architectures i = [''x86_64'']" "si_features i = PStr ''symtab, debug''" "tools u = drop 5 win_audit_answers"
    using win_asked(1) [of "runs_made s" "diagnostic s", folded s] by (auto split: prod.splits sum.splits)
  have u: "u = \<lparr>runs_made = runs_made u, diagnostic = diagnostic u, tools = drop 5 win_audit_answers\<rparr>" using i(5) by simp
  obtain j t where second: "check_symbol win_host win_code (Some ''elf'') False u = (Inr j, t)" and j: "si_ids j = [mac_uuid]"
      "tools t = drop 6 win_audit_answers"
    using win_asked(2) [of "runs_made u" "diagnostic u", folded u] by (auto split: prod.splits sum.splits)
  have places: "resolve (fs win_host) [''b''] = Inr [''b'']" "dart_files win_host [''b''] ''windows'' = [win_split]"
      "rooted win_host [''b''] win_split = Inr win_split" "dart_suffix ''windows'' win_split = ''x64''" by code_simp+
  have fps: "\<exists>fp. fingerprint_of win_host win_split = Inr fp" "\<exists>fp. fingerprint_of win_host win_code = Inr fp"
    by (simp_all add: fingerprint_of_def win_host_def sample_host_def win_tree_def win_files_def)
  have fits: "companion_fits win_host [(PStr ''x64'', [win_code])] ''windows'' win_split i = Inr ((''elf'', ''deadbeef''), [win_code])"
    by (simp add: companion_fits_def i reads places features_of_def runtime_of_def arch_named_def expected_arch_def)
  have matched: "elf_match win_host ''x64'' i (''elf'', ''deadbeef'') win_code u = (Inr (), t)"
    using elf second j(1) i(1) by (simp add: elf_match_def seq_def lift_result_def ret_def runtime_elf_def runtime_machine_def)
  obtain st where step: "dart_companion win_host [''b''] [(PStr ''x64'', [win_code])] ''windows'' \<lparr>da_artifacts = [], da_rows = []\<rparr> win_split s = (Inr st, t)"
      and st: "da_artifacts st = [win_split]" "map row_item (da_rows st) = [win_item ''elf'']"
    using fps matched by (auto simp: dart_companion_def seq_def lift_result_def ret_def places first fits match_runtime_def row_item_def win_item_def i)
  have finish: "finish_dart [(PStr ''x64'', [win_code])] ''windows'' [''x64''] st = Inr ()" by (simp add: finish_dart_def st places)
  have "collect_companions win_host [''b''] ''windows'' [''x64''] s = (Inr (da_artifacts st, da_rows st), t)"
    unfolding collect_companions_def places sum.case reads loop_over.simps by (simp add: seq_def step lift_result_def ret_def finish)
  with st j(2) show thesis using that by simp
qed

lemma win_native:
  "case audit_windows win_host [''b''] \<lparr>runs_made = L, diagnostic = D, tools = win_audit_answers\<rparr> of (Inl e, t) \<Rightarrow> False
   | (Inr (ps, rows), t) \<Rightarrow> tools t = drop 4 win_audit_answers \<and> ps = [[''b'', ''FlClash.pdb''], [''b'', ''w.PDB'']] \<and> map row_item rows = [win_item ''pdb'', win_item ''pdb'']
       \<and> windows_native_limits win_host [''b''] rows = Inr [] \<and> dart_architectures ''windows'' rows = Inr [''x64'']"
  by code_simp

lemma win_sent:
  "case timed win_env (send_place win_env (upload_arguments project ids place))
     \<lparr>asked = \<lparr>runs_made = L, diagnostic = D, tools = drop 6 win_audit_answers\<rparr>, staged = S, written = \<lparr>rp_status = a, rp_error = b, rp_metadata = c, rp_covered = d, rp_limits = e, rp_native = f, rp_companions = g,
       rp_upload = h, rp_elapsed = i\<rparr>, confirmed_by = C\<rparr> of (Inl x, t) \<Rightarrow> False
   | (Inr u, t) \<Rightarrow> tools (asked t) = []"
  by code_simp

lemma win_confirmed:
  "case confirm_symbol_inventory (confirm_with win_env project token) [win_item ''pdb'', win_item ''pdb'', win_item ''elf''] WAIT_MS [] of
    Inl e \<Rightarrow> False | Inr (r, c) \<Rightarrow> r = Inr ()"
  by code_simp

lemma win_start:
  "case seq (check_metadata win_request) (\<lambda>_. check_version win_env) (start_upload (prints ''sentry-cli 2.58.4'' # win_audit_answers)) of
    (Inl e, t) \<Rightarrow> False | (Inr u, t) \<Rightarrow> tools (asked t) = win_audit_answers"
  by code_simp

lemma evaluated_pair:
  "(case m of (Inl e, t) \<Rightarrow> False | (Inr (a, b), t) \<Rightarrow> P a b t) \<Longrightarrow> \<exists>a b t. m = (Inr (a, b), t) \<and> P a b t"
  by (auto split: prod.splits sum.splits)

lemma win_audit:
  assumes "tools (asked s) = win_audit_answers"
  obtains files t where "audit_files win_env win_request s = (Inr files, t)" "tools (asked t) = drop 6 win_audit_answers" "length files = 3"
    "map row_item (rp_native (written t) @ rp_companions (written t)) = [win_item ''pdb'', win_item ''pdb'', win_item ''elf'']"
proof -
  have a: "asked s = \<lparr>runs_made = runs_made (asked s), diagnostic = diagnostic (asked s), tools = win_audit_answers\<rparr>" using assms by simp
  obtain ps rows u where native: "audit_windows win_host [''b''] (asked s) = (Inr (ps, rows), u)" and u: "tools u = drop 4 win_audit_answers"
      and ps: "ps = [[''b'', ''FlClash.pdb''], [''b'', ''w.PDB'']]" and rows: "map row_item rows = [win_item ''pdb'', win_item ''pdb'']"
      and limits: "windows_native_limits win_host [''b''] rows = Inr []" and archs: "dart_architectures ''windows'' rows = Inr [''x64'']"
    using evaluated_pair [OF win_native [of "runs_made (asked s)" "diagnostic (asked s)", folded a]] by (elim exE conjE) (rule that)
  obtain dart_rows v where dart: "collect_companions win_host [''b''] ''windows'' [''x64''] u = (Inr ([win_split], dart_rows), v)"
      and v: "map row_item dart_rows = [win_item ''elf'']" "tools v = drop 6 win_audit_answers" by (rule win_dart [OF u])
  have "\<exists>t. audit_files win_env win_request s = (Inr (ps @ [win_split]), t) \<and> asked t = v \<and> rp_native (written t) = rows
      \<and> rp_companions (written t) = dart_rows"
    by (simp add: audit_files_def native_audit_def win_request_def win_env_def Let_def seq_def with_tools_def native
      cover_def limited_def reporting_def updating_def lift_result_def ret_def limits archs dart ps keep_first_def)
  with ps rows v show thesis using that by fastforce
qed

lemma win_staged: "\<exists>S. loop_over (\<lambda>_. stage_file win_env place) () xs s = (Inr (), s\<lparr>staged := S\<rparr>)"
proof (induction xs arbitrary: s)
  case Nil
  show ?case by (intro exI [of _ "staged s"]) (simp add: ret_def)
next
  case (Cons x xs)
  obtain S where S: "stage_file win_env place x s = (Inr (), s\<lparr>staged := S\<rparr>)"
    by (cases x) (auto simp: stage_file_def Let_def seq_def in_world_def with_tools_def win_env_def updating_def)
  with Cons.IH [of "s\<lparr>staged := S\<rparr>"] show ?case by (simp add: seq_def)
qed

lemma win_upload:
  assumes "tools (asked s) = drop 6 win_audit_answers"
    and "map row_item (rp_native (written s) @ rp_companions (written s)) = [win_item ''pdb'', win_item ''pdb'', win_item ''elf'']"
  obtains t where "upload_files win_env win_request files token s = (Inr (), t)"
proof -
  obtain S where S: "loop_over (\<lambda>_. stage_file win_env [''tmp'']) () (enumerate 0 files) s = (Inr (), s\<lparr>staged := S\<rparr>)" using win_staged by blast
  let ?s = "s\<lparr>staged := S\<rparr>" and ?args = "upload_arguments ''omofly'' (upload_ids (written s)) (path_text win_host [''tmp''])"
  obtain a where a: "asked s = a" "a = \<lparr>runs_made = runs_made a, diagnostic = diagnostic a, tools = drop 6 win_audit_answers\<rparr>" using assms(1) by simp
  obtain b where b: "written s = b" "b = \<lparr>rp_status = rp_status b, rp_error = rp_error b, rp_metadata = rp_metadata b, rp_covered = rp_covered b,
      rp_limits = rp_limits b, rp_native = rp_native b, rp_companions = rp_companions b, rp_upload = rp_upload b, rp_elapsed = rp_elapsed b\<rparr>" by simp
  have s: "?s = \<lparr>asked = a, staged = S, written = b, confirmed_by = confirmed_by s\<rparr>" using a(1) b(1) by simp
  obtain u where send: "timed win_env (send_place win_env ?args) ?s = (Inr (), u)" and u: "tools (asked u) = []"
    using win_sent [where L = "runs_made a" and D = "diagnostic a" and S = S and C = "confirmed_by s" and a = "rp_status b" and b = "rp_error b"
        and c = "rp_metadata b" and d = "rp_covered b" and e = "rp_limits b" and f = "rp_native b" and g = "rp_companions b"
        and h = "rp_upload b" and i = "rp_elapsed b" and project = "''omofly''" and ids = "upload_ids (written s)"
        and place = "path_text win_host [''tmp'']", folded a(2) b(2) s] by (auto split: prod.splits sum.splits)
  have "kept (rp_native (written s)) (rp_companions (written s)) S ?s" by (simp add: kept_def)
  from keepsD [OF kept_send this send] have "map row_item (rp_native (written u) @ rp_companions (written u)) = [win_item ''pdb'', win_item ''pdb'', win_item ''elf'']"
    using assms(2) by (simp add: kept_def)
  moreover obtain c where "confirm_symbol_inventory (confirm_with win_env ''omofly'' token) [win_item ''pdb'', win_item ''pdb'', win_item ''elf''] WAIT_MS [] = Inr (Inr (), c)"
    using win_confirmed [of "''omofly''" token] by (auto split: sum.splits prod.splits)
  ultimately obtain v where confirm: "confirm_all win_env ''omofly'' token u = (Inr (), v)" using u by (simp add: confirm_all_def del: map_append)
  have "in_world (new_place win_env) s = (Inr [''tmp''], s)" "up_host win_env = win_host" "project_of (rq_flavor win_request) = Inr ''omofly''"
    by (simp_all add: in_world_def with_tools_def win_env_def win_request_def project_of_def)
  then show thesis using that S send confirm
    by (simp add: upload_files_def seq_def lift_result_def reading_def reporting_def updating_def)
qed

definition win_answers :: "(exn + tool_result) list" where
  "win_answers = prints ''sentry-cli 2.58.4'' # win_audit_answers"

lemma win_run:
  obtains t where "upload_main win_env win_request (start_upload win_answers) = (Inr 0, t)" "staged t \<noteq> []"
proof -
  obtain s where start: "seq (check_metadata win_request) (\<lambda>_. check_version win_env) (start_upload win_answers) = (Inr (), s)"
      and s: "tools (asked s) = win_audit_answers"
    using win_start unfolding win_answers_def by (auto split: prod.splits sum.splits)
  obtain files u where audit: "audit_files win_env win_request s = (Inr files, u)" and u: "tools (asked u) = drop 6 win_audit_answers" "length files = 3"
      "map row_item (rp_native (written u) @ rp_companions (written u)) = [win_item ''pdb'', win_item ''pdb'', win_item ''elf'']"
    by (rule win_audit [OF s])
  obtain t where up: "upload_files win_env win_request files ''t'' u = (Inr (), t)" by (rule win_upload [OF u(1,3)])
  have "rq_audit_only win_request = False" "usable_token win_env = Some ''t''" by code_simp+
  with start audit up have "upload_main win_env win_request (start_upload win_answers) = (Inr 0, t)"
    by (auto simp: upload_main_def upload_body_def seq_def split: prod.splits sum.splits)
  moreover from upload_files_Inr [OF up] u(2) have "staged t \<noteq> []" by (cases files) auto
  ultimately show thesis by (rule that)
qed

section \<open>Properties\<close>



text \<open>C24: A command that ends well has audited at least one debug file, and its report holds the evidence of the audits.
  If it only audits it copied nothing; otherwise it copied exactly the audited files, each once, and the server
  answered with a matching row for every identifier, format and feature the evidence requires.\<close>

theorem upload_completed:
  assumes "upload_main env rq (start_upload w) = (Inr 0, t)"
  shows "\<exists>files. audited env rq files (rp_native (written t)) (rp_companions (written t))
    \<and> (if rq_audit_only rq then rp_status (written t) = ''audited'' \<and> staged t = []
       else rp_status (written t) = ''uploaded_and_processed'' \<and> map fst (rev (staged t)) = files
         \<and> (\<exists>c. confirmed_by t = Some c \<and> server_has (rp_native (written t) @ rp_companions (written t)) c))"
proof -
  from assms have body: "upload_body env rq (start_upload w) = (Inr (), t)"
    by (auto simp: upload_main_def split: prod.splits sum.splits if_splits)
  then obtain x y s1 s2 s3 files where m: "check_metadata rq (start_upload w) = (Inr x, s1)" and v: "check_version env s1 = (Inr y, s2)"
      and a: "audit_files env rq s2 = (Inr files, s3)"
      and last: "(if rq_audit_only rq then ret () else case usable_token env of
           None \<Rightarrow> throw SymbolError ''Release symbol upload requires SENTRY_AUTH_TOKEN; use --audit-only for offline diagnostics''
         | Some token \<Rightarrow> upload_files env rq files token) s3 = (Inr (), t)"
    by (auto simp only: upload_body_def seq_Inr)
  have "staged s2 = []"
    using keepsD [OF kept_start(1) _ m] keepsD [OF kept_start(2) _ v] by (simp add: kept_def start_upload_def)
  with audit_files_Inr [OF a] last show ?thesis
    by (auto simp: rev_map [symmetric] cmd_Inr dest!: upload_files_Inr split: if_splits option.splits)
qed

lemma upload_completed_witness:
  "\<exists>t c files. upload_main win_env win_request (start_upload win_answers) = (Inr 0, t) \<and> map fst (rev (staged t)) = files \<and> files \<noteq> []
    \<and> confirmed_by t = Some c \<and> server_has (rp_native (written t) @ rp_companions (written t)) c"
proof -
  obtain t where t: "upload_main win_env win_request (start_upload win_answers) = (Inr 0, t)" "staged t \<noteq> []" by (rule win_run)
  have "\<not> rq_audit_only win_request" by (simp add: win_request_def)
  with upload_completed [OF t(1)] t show ?thesis by auto
qed

end
